(* ===== verification/Go_Base.thy ===== *)
theory Go_Base
  imports Main "HOL-Library.Sublist" "HOL-Library.Char_ord" "HOL-Library.List_Lexorder"
begin

text \<open>
  The prelude: what the Go code of the repository takes from the language and from the packages
  \<open>errors\<close>, \<open>fmt\<close> and \<open>strings\<close>.

  Go errors are values of \<open>go_error\<close>; a call that returns \<open>(T, error)\<close> and may panic is a value of
  \<open>T res\<close>; a statement that also has effects is a function from a state to a result and the next
  state, composed by \<open>bindE\<close> (the early return on \<open>err != nil\<close>), \<open>attempt\<close> (the error kept as a
  value), \<open>wrapE\<close> (\<open>fmt.Errorf("...: %w", err)\<close>) and \<open>deferE\<close>. Strings are byte lists, as in Go.
\<close>

section \<open>Collections of facts\<close>

named_theorems io_defs \<open>definitions of the effect combinators\<close>
named_theorems keeps_intros \<open>rules that show an effectful program keeps an observation\<close>
named_theorems preserves_intros \<open>rules that show an effectful program preserves an invariant\<close>
named_theorems ends_intros \<open>rules for what holds when an effectful program ends without an error\<close>
named_theorems str_simps \<open>facts on the string functions\<close>

section \<open>Errors\<close>

text \<open>
  The errors made outside the repository that the code tells apart (by \<open>errors.As\<close>,
  \<open>os.IsNotExist\<close> or \<open>errors.Is\<close>) carry a kind.
\<close>

datatype ekind = NotExist | AlreadyExists | PermissionDenied | NotFound | Unimplemented
  | QueryFailed | DeadlineExceeded | Canceled | BadPattern | OtherError

datatype go_error =
    Errorf string "string list"
  | Wrapf string "string list" go_error
  | SkipFeature string
  | ActivityError string go_error
  | External ekind string

datatype 'a res = Ok 'a | Err go_error | Panic go_error

fun error_chain :: "go_error \<Rightarrow> go_error list" where
  "error_chain (Wrapf f as e) = Wrapf f as e # error_chain e"
| "error_chain (ActivityError m e) = ActivityError m e # error_chain e"
| "error_chain e = [e]"

text \<open>\<open>errors.As\<close>: the first error of the chain that has the wanted type.\<close>

definition errors_as :: "(go_error \<Rightarrow> bool) \<Rightarrow> go_error \<Rightarrow> go_error option" where
  "errors_as P e = find P (error_chain e)"

definition has_kind :: "ekind \<Rightarrow> go_error \<Rightarrow> bool" where
  "has_kind k e = list_ex (\<lambda>x. case x of External k' _ \<Rightarrow> k' = k | _ \<Rightarrow> False) (error_chain e)"

section \<open>Strings\<close>

definition HasPrefix :: "string \<Rightarrow> string \<Rightarrow> bool" where
  "HasPrefix s p = (take (length p) s = p)"

definition HasSuffix :: "string \<Rightarrow> string \<Rightarrow> bool" where
  "HasSuffix s p = HasPrefix (rev s) (rev p)"

definition TrimPrefix :: "string \<Rightarrow> string \<Rightarrow> string" where
  "TrimPrefix s p = (if HasPrefix s p then drop (length p) s else s)"

definition TrimSuffix :: "string \<Rightarrow> string \<Rightarrow> string" where
  "TrimSuffix s p = (if HasSuffix s p then take (length s - length p) s else s)"

definition ContainsAny :: "string \<Rightarrow> string \<Rightarrow> bool" where
  "ContainsAny s cs = list_ex (\<lambda>c. c \<in> set cs) s"

fun Contains :: "string \<Rightarrow> string \<Rightarrow> bool" where
  "Contains [] p = (p = [])"
| "Contains (c # s) p = (HasPrefix (c # s) p \<or> Contains s p)"

text \<open>\<open>strings.Split\<close> for a separator of one byte; \<open>strings.SplitN\<close> with a positive count.\<close>

fun Split :: "char \<Rightarrow> string \<Rightarrow> string list" where
  "Split d [] = [[]]"
| "Split d (c # s) =
     (if c = d then [] # Split d s
      else (case Split d s of [] \<Rightarrow> [[c]] | p # ps \<Rightarrow> (c # p) # ps))"

fun SplitN :: "char \<Rightarrow> nat \<Rightarrow> string \<Rightarrow> string list" where
  "SplitN d 0 s = []"
| "SplitN d (Suc 0) s = [s]"
| "SplitN d (Suc (Suc n)) s =
     (if d \<in> set s
      then takeWhile (\<lambda>c. c \<noteq> d) s # SplitN d (Suc n) (drop 1 (dropWhile (\<lambda>c. c \<noteq> d) s))
      else [s])"

fun Join :: "string list \<Rightarrow> string \<Rightarrow> string" where
  "Join [] sep = []"
| "Join [x] sep = x"
| "Join (x # y # ys) sep = x @ sep @ Join (y # ys) sep"

definition TrimRight :: "string \<Rightarrow> string \<Rightarrow> string" where
  "TrimRight s cs = rev (dropWhile (\<lambda>c. c \<in> set cs) (rev s))"

definition Trim :: "string \<Rightarrow> string \<Rightarrow> string" where
  "Trim s cs = TrimRight (dropWhile (\<lambda>c. c \<in> set cs) s) cs"

text \<open>
  \<open>strings.TrimSpace\<close> on ASCII white space: space, tab, newline, vertical tab, form feed and
  carriage return.
\<close>

definition ascii_space :: string where
  "ascii_space = map char_of [32::nat, 9, 10, 11, 12, 13]"

definition TrimSpace :: "string \<Rightarrow> string" where
  "TrimSpace s = Trim s ascii_space"

definition lower_char :: "char \<Rightarrow> char" where
  "lower_char c =
     (let n = (of_char c :: nat) in if 65 \<le> n \<and> n \<le> 90 then char_of (n + 32) else c)"

definition ToLower :: "string \<Rightarrow> string" where
  "ToLower s = map lower_char s"

definition upper_char :: "char \<Rightarrow> char" where
  "upper_char c =
     (let n = (of_char c :: nat) in if 97 \<le> n \<and> n \<le> 122 then char_of (n - 32) else c)"

definition ToUpper :: "string \<Rightarrow> string" where
  "ToUpper s = map upper_char s"

text \<open>The index of the first and of the last occurrence of a byte, \<open>None\<close> for Go's -1.\<close>

fun IndexByte :: "char \<Rightarrow> string \<Rightarrow> nat option" where
  "IndexByte d [] = None"
| "IndexByte d (c # s) = (if c = d then Some 0 else map_option Suc (IndexByte d s))"

definition LastIndexByte :: "char \<Rightarrow> string \<Rightarrow> nat option" where
  "LastIndexByte d s = map_option (\<lambda>i. length s - Suc i) (IndexByte d (rev s))"

section \<open>Formatting\<close>

definition digit_char :: "nat \<Rightarrow> char" where
  "digit_char n = char_of (48 + n)"

fun show_nat :: "nat \<Rightarrow> string" where
  "show_nat n = (if n < 10 then [digit_char n] else show_nat (n div 10) @ [digit_char (n mod 10)])"

declare show_nat.simps [simp del]

definition show_int :: "int \<Rightarrow> string" where
  "show_int i = (if i < 0 then CHR ''-'' # show_nat (nat (- i)) else show_nat (nat i))"

definition show_bool :: "bool \<Rightarrow> string" where
  "show_bool b = (if b then ''true'' else ''false'')"

definition hex_char :: "nat \<Rightarrow> char" where
  "hex_char n = (if n < 10 then char_of (48 + n) else char_of (87 + n))"

text \<open>The bytes that are awkward to write: double quote, backslash and newline.\<close>

abbreviation dquote :: char where
  "dquote \<equiv> CHR 0x22"

abbreviation bslash :: char where
  "bslash \<equiv> CHR 0x5C"

abbreviation squote :: char where
  "squote \<equiv> CHR 0x27"

abbreviation newline :: char where
  "newline \<equiv> CHR 0x0A"

definition quote_char :: "char \<Rightarrow> string" where
  "quote_char c =
     (let n = (of_char c :: nat) in
      if n = 34 \<or> n = 92 then [bslash, c]
      else if n = 7 then bslash # ''a''
      else if n = 8 then bslash # ''b''
      else if n = 9 then bslash # ''t''
      else if n = 10 then bslash # ''n''
      else if n = 11 then bslash # ''v''
      else if n = 12 then bslash # ''f''
      else if n = 13 then bslash # ''r''
      else if n < 32 \<or> n = 127 then bslash # ''x'' @ [hex_char (n div 16), hex_char (n mod 16)]
      else [c])"

text \<open>
  \<open>strconv.Quote\<close> and the verb \<open>%q\<close>: double quotes, the escapes of ASCII control bytes; bytes from
  128 are copied, as Quote does for the printable runes they encode.
\<close>

definition Quote :: "string \<Rightarrow> string" where
  "Quote s = dquote # concat (map quote_char s) @ [dquote]"

text \<open>
  \<open>fmt.Sprintf\<close> for the verbs the repository uses, on arguments already turned into strings: \<open>%q\<close>
  quotes, every other verb prints the argument as it is.
\<close>

fun Sprintf :: "string \<Rightarrow> string list \<Rightarrow> string" where
  "Sprintf [] as = []"
| "Sprintf [c] as = [c]"
| "Sprintf (c # v # f) as =
     (if c = CHR ''%''
      then (case as of
              [] \<Rightarrow> ''%!'' @ [v] @ ''(MISSING)'' @ Sprintf f []
            | a # as' \<Rightarrow> (if v = CHR ''q'' then Quote a else a) @ Sprintf f as')
      else c # Sprintf (v # f) as)"

text \<open>The text of an error (its \<open>Error()\<close> method).\<close>

fun error_text :: "go_error \<Rightarrow> string" where
  "error_text (Errorf f as) = Sprintf f as"
| "error_text (Wrapf f as e) = Sprintf f (as @ [error_text e])"
| "error_text (SkipFeature r) = ''feature skipped: '' @ r"
| "error_text (ActivityError m e) = m"
| "error_text (External k m) = m"

section \<open>Effects\<close>

type_synonym ('w, 'a) io = "'w \<Rightarrow> 'a res \<times> 'w"

definition ret :: "'a \<Rightarrow> ('w, 'a) io" where
  [io_defs]: "ret a = (\<lambda>w. (Ok a, w))"

definition fail :: "go_error \<Rightarrow> ('w, 'a) io" where
  [io_defs]: "fail e = (\<lambda>w. (Err e, w))"

definition panic :: "go_error \<Rightarrow> ('w, 'a) io" where
  [io_defs]: "panic e = (\<lambda>w. (Panic e, w))"

definition of_res :: "'a res \<Rightarrow> ('w, 'a) io" where
  [io_defs]: "of_res r = (\<lambda>w. (r, w))"

definition asks :: "('w \<Rightarrow> 'a) \<Rightarrow> ('w, 'a) io" where
  [io_defs]: "asks f = (\<lambda>w. (Ok (f w), w))"

definition upd :: "('w \<Rightarrow> 'w) \<Rightarrow> ('w, unit) io" where
  [io_defs]: "upd f = (\<lambda>w. (Ok (), f w))"

definition bindE :: "('w, 'a) io \<Rightarrow> ('a \<Rightarrow> ('w, 'b) io) \<Rightarrow> ('w, 'b) io" where
  [io_defs]: "bindE m f = (\<lambda>w. case m w of
       (Ok a, w') \<Rightarrow> f a w' | (Err e, w') \<Rightarrow> (Err e, w') | (Panic e, w') \<Rightarrow> (Panic e, w'))"

definition thenE :: "('w, 'a) io \<Rightarrow> ('w, 'b) io \<Rightarrow> ('w, 'b) io" where
  [io_defs]: "thenE m k = bindE m (\<lambda>_. k)"

text \<open>\<open>x, err := f()\<close>: the error becomes a value, a panic still unwinds.\<close>

definition attempt :: "('w, 'a) io \<Rightarrow> ('w, go_error + 'a) io" where
  [io_defs]: "attempt m = (\<lambda>w. case m w of
       (Ok a, w') \<Rightarrow> (Ok (Inr a), w') | (Err e, w') \<Rightarrow> (Ok (Inl e), w')
     | (Panic e, w') \<Rightarrow> (Panic e, w'))"

definition wrapE :: "string \<Rightarrow> string list \<Rightarrow> ('w, 'a) io \<Rightarrow> ('w, 'a) io" where
  [io_defs]: "wrapE f as m = (\<lambda>w. case m w of
       (Err e, w') \<Rightarrow> (Err (Wrapf f as e), w') | r \<Rightarrow> r)"

text \<open>\<open>defer c\<close> followed by the rest of the function: \<open>c\<close> runs on every way out, panics included.\<close>

definition deferE :: "('w \<Rightarrow> 'w) \<Rightarrow> ('w, 'a) io \<Rightarrow> ('w, 'a) io" where
  [io_defs]: "deferE c m = (\<lambda>w. case m w of (r, w') \<Rightarrow> (r, c w'))"

text \<open>\<open>defer func() { if !success { c } }()\<close> where \<open>success\<close> is set right before the final return.\<close>

definition defer_unless_ok :: "('w \<Rightarrow> 'w) \<Rightarrow> ('w, 'a) io \<Rightarrow> ('w, 'a) io" where
  [io_defs]: "defer_unless_ok c m = (\<lambda>w. case m w of
       (Ok a, w') \<Rightarrow> (Ok a, w') | (r, w') \<Rightarrow> (r, c w'))"

text \<open>A \<open>for\<close> loop over a slice whose body may return early with an error.\<close>

fun for_each :: "('b \<Rightarrow> ('w, unit) io) \<Rightarrow> 'b list \<Rightarrow> ('w, unit) io" where
  "for_each f [] = ret ()"
| "for_each f (x # xs) = thenE (f x) (for_each f xs)"

fun fold_io :: "('b \<Rightarrow> 'a \<Rightarrow> ('w, 'a) io) \<Rightarrow> 'b list \<Rightarrow> 'a \<Rightarrow> ('w, 'a) io" where
  "fold_io f [] a = ret a"
| "fold_io f (x # xs) a = bindE (f x a) (fold_io f xs)"

definition whenE :: "bool \<Rightarrow> ('w, unit) io \<Rightarrow> ('w, unit) io" where
  [io_defs]: "whenE b m = (if b then m else ret ())"

text \<open>\<open>keeps f m\<close>: running \<open>m\<close> leaves the observation \<open>f\<close> of the state as it was.\<close>

definition keeps :: "('w \<Rightarrow> 'o) \<Rightarrow> ('w, 'a) io \<Rightarrow> bool" where
  "keeps f m = (\<forall>w. f (snd (m w)) = f w)"

text \<open>\<open>preserves I m\<close>: the invariant \<open>I\<close> of the state survives \<open>m\<close>, whatever way \<open>m\<close> ends.\<close>

definition preserves :: "('w \<Rightarrow> bool) \<Rightarrow> ('w, 'a) io \<Rightarrow> bool" where
  "preserves I m = (\<forall>w. I w \<longrightarrow> I (snd (m w)))"

text \<open>\<open>ends I m J\<close>: from \<open>I\<close>, when \<open>m\<close> returns without an error, its result and the state meet \<open>J\<close>.\<close>

definition ends :: "('w \<Rightarrow> bool) \<Rightarrow> ('w, 'a) io \<Rightarrow> ('a \<Rightarrow> 'w \<Rightarrow> bool) \<Rightarrow> bool" where
  "ends I m J = (\<forall>w a w'. I w \<longrightarrow> m w = (Ok a, w') \<longrightarrow> J a w')"

section \<open>Lemmas\<close>

subsection \<open>Effects\<close>

lemma keepsI: "(\<And>w. f (snd (m w)) = f w) \<Longrightarrow> keeps f m"
  by (simp add: keeps_def)

lemma keepsD: "keeps f m \<Longrightarrow> m w = (r, w') \<Longrightarrow> f w' = f w"
  by (metis keeps_def snd_conv)

lemma keeps_pure [keeps_intros]:
  "keeps f (ret a)" "keeps f (fail e)" "keeps f (panic e)" "keeps f (of_res r)" "keeps f (asks g)"
  by (simp_all add: keeps_def io_defs)

lemma keeps_bindE [keeps_intros]:
  "keeps f m \<Longrightarrow> (\<And>a. keeps f (k a)) \<Longrightarrow> keeps f (bindE m k)"
  by (auto simp: keeps_def io_defs split: prod.splits res.splits) (metis snd_conv)+

lemma keeps_thenE [keeps_intros]: "keeps f m \<Longrightarrow> keeps f k \<Longrightarrow> keeps f (thenE m k)"
  by (simp add: thenE_def keeps_bindE)

lemma keeps_attempt [keeps_intros]: "keeps f m \<Longrightarrow> keeps f (attempt m)"
  by (auto simp: keeps_def io_defs split: prod.splits res.splits) (metis snd_conv)+

lemma keeps_wrapE [keeps_intros]: "keeps f m \<Longrightarrow> keeps f (wrapE s as m)"
  by (auto simp: keeps_def io_defs split: prod.splits res.splits) (metis snd_conv)+

lemma keeps_upd [keeps_intros]: "(\<And>w. f (g w) = f w) \<Longrightarrow> keeps f (upd g)"
  by (simp add: keeps_def io_defs)

lemma keeps_deferE [keeps_intros]:
  "(\<And>w. f (c w) = f w) \<Longrightarrow> keeps f m \<Longrightarrow> keeps f (deferE c m)"
  by (auto simp: keeps_def io_defs split: prod.splits) (metis snd_conv)

lemma keeps_defer_unless_ok [keeps_intros]:
  "(\<And>w. f (c w) = f w) \<Longrightarrow> keeps f m \<Longrightarrow> keeps f (defer_unless_ok c m)"
  by (auto simp: keeps_def io_defs split: prod.splits res.splits) (metis snd_conv)+

lemma keeps_whenE [keeps_intros]: "(b \<Longrightarrow> keeps f m) \<Longrightarrow> keeps f (whenE b m)"
  by (simp add: whenE_def keeps_pure)

lemma keeps_if [keeps_intros]:
  "(b \<Longrightarrow> keeps f m) \<Longrightarrow> (\<not> b \<Longrightarrow> keeps f k) \<Longrightarrow> keeps f (if b then m else k)"
  by simp

lemma keeps_for_each [keeps_intros]: "(\<And>x. keeps f (g x)) \<Longrightarrow> keeps f (for_each g xs)"
  by (induction xs) (simp_all add: keeps_pure keeps_thenE)

lemma keeps_fold_io [keeps_intros]: "(\<And>x a. keeps f (g x a)) \<Longrightarrow> keeps f (fold_io g xs a)"
  by (induction xs arbitrary: a) (simp_all add: keeps_pure keeps_bindE)

lemma bindE_Ok_iff:
  "bindE m k w = (Ok b, w'') \<longleftrightarrow> (\<exists>a w'. m w = (Ok a, w') \<and> k a w' = (Ok b, w''))"
  by (auto simp: bindE_def split: prod.splits res.splits)

lemma bindE_ret [simp]: "bindE (ret a) k = k a"
  by (simp add: io_defs)

lemma thenE_ret [simp]: "thenE (ret a) k = k"
  by (simp add: thenE_def)

lemma thenE_upd [simp]: "thenE (upd f) k w = k (f w)"
  by (simp add: io_defs)

lemma bindE_asks [simp]: "bindE (asks f) k w = k (f w) w"
  by (simp add: io_defs)

lemma bindE_fail [simp]: "bindE (fail e) k = fail e" "thenE (fail e) m = fail e"
  by (simp_all add: io_defs fun_eq_iff)

lemma thenE_Ok_iff:
  "thenE m k w = (Ok b, w'') \<longleftrightarrow> (\<exists>a w'. m w = (Ok a, w') \<and> k w' = (Ok b, w''))"
  by (auto simp: thenE_def bindE_Ok_iff)

lemma wrapE_Ok: "wrapE f as m w = (Ok a, w') \<longleftrightarrow> m w = (Ok a, w')"
  by (auto simp: wrapE_def split: prod.splits res.splits)

lemma fst_res: "fst x = r \<Longrightarrow> x = (r, snd x)"
  by (cases x) simp

subsection \<open>Invariants\<close>

lemma preservesI: "(\<And>w. I w \<Longrightarrow> I (snd (m w))) \<Longrightarrow> preserves I m"
  by (simp add: preserves_def)

lemma preservesD: "preserves I m \<Longrightarrow> I w \<Longrightarrow> m w = (r, w') \<Longrightarrow> I w'"
  by (metis preserves_def snd_conv)

lemma preserves_keeps: "keeps f m \<Longrightarrow> preserves (\<lambda>w. P (f w)) m"
  by (simp add: keeps_def preserves_def)

lemma preserves_pure [preserves_intros]:
  "preserves I (ret a)" "preserves I (fail e)" "preserves I (panic e)" "preserves I (of_res r)" "preserves I (asks g)"
  by (simp_all add: preserves_def io_defs)

lemma preserves_bindE [preserves_intros]:
  "preserves I m \<Longrightarrow> (\<And>a. preserves I (k a)) \<Longrightarrow> preserves I (bindE m k)"
  by (auto simp: preserves_def bindE_def split: prod.splits res.splits; metis snd_conv)

lemma preserves_thenE [preserves_intros]: "preserves I m \<Longrightarrow> preserves I k \<Longrightarrow> preserves I (thenE m k)"
  by (simp add: thenE_def preserves_bindE)

lemma preserves_attempt [preserves_intros]: "preserves I m \<Longrightarrow> preserves I (attempt m)"
  by (auto simp: preserves_def attempt_def split: prod.splits res.splits; metis snd_conv)

lemma preserves_wrapE [preserves_intros]: "preserves I m \<Longrightarrow> preserves I (wrapE s as m)"
  by (auto simp: preserves_def wrapE_def split: prod.splits res.splits; metis snd_conv)

lemma preserves_upd [preserves_intros]: "(\<And>w. I w \<Longrightarrow> I (g w)) \<Longrightarrow> preserves I (upd g)"
  by (simp add: preserves_def io_defs)

lemma preserves_deferE [preserves_intros]:
  "(\<And>w. I w \<Longrightarrow> I (c w)) \<Longrightarrow> preserves I m \<Longrightarrow> preserves I (deferE c m)"
  by (auto simp: preserves_def deferE_def split: prod.splits; metis snd_conv)

lemma preserves_whenE [preserves_intros]: "(b \<Longrightarrow> preserves I m) \<Longrightarrow> preserves I (whenE b m)"
  by (simp add: whenE_def preserves_pure)

lemma preserves_if [preserves_intros]:
  "(b \<Longrightarrow> preserves I m) \<Longrightarrow> (\<not> b \<Longrightarrow> preserves I k) \<Longrightarrow> preserves I (if b then m else k)"
  by simp

lemma preserves_for_each [preserves_intros]:
  "(\<And>x. x \<in> set xs \<Longrightarrow> preserves I (g x)) \<Longrightarrow> preserves I (for_each g xs)"
  by (induction xs) (simp_all add: preserves_pure preserves_thenE)

lemma preserves_fold_io [preserves_intros]:
  "(\<And>x a. x \<in> set xs \<Longrightarrow> preserves I (g x a)) \<Longrightarrow> preserves I (fold_io g xs a)"
  by (induction xs arbitrary: a) (simp_all add: preserves_pure preserves_bindE)

lemma preserves_defer_unless_ok [preserves_intros]:
  "(\<And>w. I w \<Longrightarrow> I (c w)) \<Longrightarrow> preserves I m \<Longrightarrow> preserves I (defer_unless_ok c m)"
  by (auto simp: preserves_def defer_unless_ok_def split: prod.splits res.splits; metis snd_conv)

text \<open>A step that establishes \<open>J\<close> from \<open>I\<close>, followed by one that goes on from there.\<close>

lemma deferE_establishes:
  assumes "\<And>w. I w \<Longrightarrow> J (c w)" "preserves I m" "I w"
  shows "J (snd (deferE c m w))"
  using assms by (cases "m w") (auto simp: deferE_def dest: preservesD)

subsection \<open>Normal ends\<close>

lemma endsD: "ends I m J \<Longrightarrow> I w \<Longrightarrow> m w = (Ok a, w') \<Longrightarrow> J a w'"
  by (simp add: ends_def)

lemma ends_bindE [ends_intros]: "ends I m J \<Longrightarrow> (\<And>a. ends (J a) (k a) K) \<Longrightarrow> ends I (bindE m k) K"
  unfolding ends_def bindE_Ok_iff by blast

lemma ends_thenE [ends_intros]: "ends I m (\<lambda>_. J) \<Longrightarrow> ends J k K \<Longrightarrow> ends I (thenE m k) K"
  by (simp add: thenE_def ends_bindE)

lemma ends_wrapE [ends_intros]: "ends I m J \<Longrightarrow> ends I (wrapE f as m) J"
  by (auto simp: ends_def wrapE_def split: prod.splits res.splits)

lemma ends_ret [ends_intros]: "(\<And>w. I w \<Longrightarrow> J x w) \<Longrightarrow> ends I (ret x) J"
  by (auto simp: ends_def ret_def)

lemma ends_defer_unless_ok [ends_intros]: "ends I m J \<Longrightarrow> ends I (defer_unless_ok c m) J"
  by (auto simp: ends_def defer_unless_ok_def split: prod.splits res.splits)

lemma ends_if [ends_intros]: "(b \<Longrightarrow> ends I m J) \<Longrightarrow> (\<not> b \<Longrightarrow> ends I k J) \<Longrightarrow> ends I (if b then m else k) J"
  by simp

lemma ends_preserves: "preserves I m \<Longrightarrow> ends I m (\<lambda>_. I)"
  by (auto simp: ends_def dest: preservesD)

lemma ends_mono: "ends I m J \<Longrightarrow> (\<And>w. I' w \<Longrightarrow> I w) \<Longrightarrow> (\<And>a w. J a w \<Longrightarrow> J' a w) \<Longrightarrow> ends I' m J'"
  unfolding ends_def by blast

subsection \<open>Strings\<close>

lemma sep_unique:
  "a @ d # s = b @ d # t \<Longrightarrow> d \<notin> set a \<Longrightarrow> d \<notin> set b \<Longrightarrow> a = b \<and> s = t"
proof (induction a arbitrary: b)
  case Nil
  then show ?case by (cases b) auto
next
  case (Cons c a)
  then show ?case by (cases b) auto
qed

lemma HasPrefix_append [simp]: "HasPrefix (p @ s) p"
  by (simp add: HasPrefix_def)

lemma HasPrefix_iff: "HasPrefix s p \<longleftrightarrow> (\<exists>t. s = p @ t)"
  by (metis HasPrefix_def append_eq_conv_conj)

lemma HasPrefix_Nil [simp]: "HasPrefix s []"
  by (simp add: HasPrefix_def)

lemma HasPrefix_empty [simp]: "HasPrefix [] p \<longleftrightarrow> p = []"
  by (auto simp: HasPrefix_def)

lemma HasPrefix_Cons [simp]: "HasPrefix (c # s) (d # p) \<longleftrightarrow> c = d \<and> HasPrefix s p"
  by (auto simp: HasPrefix_def)

lemma TrimPrefix_append [simp]: "TrimPrefix (p @ s) p = s"
  by (simp add: TrimPrefix_def)

lemma HasSuffix_append [simp]: "HasSuffix (s @ p) p"
  by (simp add: HasSuffix_def)

lemma HasSuffix_iff: "HasSuffix s p \<longleftrightarrow> (\<exists>t. s = t @ p)"
  by (metis HasSuffix_def HasPrefix_iff rev_append rev_rev_ident)

lemma TrimSuffix_append [simp]: "TrimSuffix (s @ p) p = s"
  by (simp add: TrimSuffix_def)

lemma ContainsAny_iff: "ContainsAny s cs \<longleftrightarrow> set s \<inter> set cs \<noteq> {}"
  by (auto simp: ContainsAny_def list_ex_iff)

lemma Split_nonempty [simp]: "Split d s \<noteq> []"
  by (induction s) (auto split: list.splits)

lemma Split_free: "d \<notin> set s \<Longrightarrow> Split d s = [s]"
  by (induction s) auto

lemma Split_append: "d \<notin> set s \<Longrightarrow> Split d (s @ d # t) = s # Split d t"
  by (induction s) auto

lemma Split_Join:
  "xs \<noteq> [] \<Longrightarrow> (\<And>x. x \<in> set xs \<Longrightarrow> d \<notin> set x) \<Longrightarrow> Split d (Join xs [d]) = xs"
  by (induction xs "[d]" rule: Join.induct) (auto simp: Split_free Split_append)

lemma Split_no_sep: "p \<in> set (Split d s) \<Longrightarrow> d \<notin> set p"
  by (induction s arbitrary: p) (auto split: if_splits list.splits)

lemma SplitN_free: "0 < n \<Longrightarrow> d \<notin> set s \<Longrightarrow> SplitN d n s = [s]"
  by (cases "(d, n, s)" rule: SplitN.cases) auto

lemma SplitN_step:
  assumes "d \<notin> set a"
  shows "SplitN d (Suc (Suc n)) (a @ d # s) = a # SplitN d (Suc n) s"
proof -
  have "takeWhile (\<lambda>c. c \<noteq> d) (a @ d # s) = a" "dropWhile (\<lambda>c. c \<noteq> d) (a @ d # s) = d # s"
    using assms by (induction a) auto
  then show ?thesis by simp
qed

declare SplitN.simps(3) [simp del]

lemma Join_Split: "Join (Split d s) [d] = s"
proof (induction s)
  case (Cons c s)
  then show ?case
    by (cases "Split d s") (auto, (metis Join.simps(2,3) append_Cons append_Nil neq_Nil_conv)+)
qed simp

end
