(* ===== verification/Go_Json.thy ===== *)
theory Go_Json
  imports Go_Base
begin

text \<open>
  The part of \<open>encoding/json\<close> that the code uses: values, \<open>Marshal\<close> and \<open>MarshalIndent\<close>, and a parser
  for \<open>Unmarshal\<close>; decoding into a Go struct is written beside each struct. Strings are byte lists:
  bytes from 128 are copied both ways, as for valid UTF-8 without the line separators U+2028 and
  U+2029. A number keeps its literal. The parser is given more fuel than the input is long.
\<close>

section \<open>Values and printing\<close>

datatype json = JNull | JBool bool | JNum string | JStr string
  | JArr "json list" | JObj "(string \<times> json) list"

definition esc_char :: "char \<Rightarrow> string" where
  "esc_char c =
     (let n = (of_char c :: nat) in
      if n = 34 \<or> n = 92 then [bslash, c]
      else if n = 8 then bslash # ''b''
      else if n = 12 then bslash # ''f''
      else if n = 10 then bslash # ''n''
      else if n = 13 then bslash # ''r''
      else if n = 9 then bslash # ''t''
      else if n < 32 \<or> n = 60 \<or> n = 62 \<or> n = 38
        then bslash # ''u00'' @ [hex_char (n div 16), hex_char (n mod 16)]
      else [c])"

definition json_string :: "string \<Rightarrow> string" where
  "json_string s = dquote # concat (map esc_char s) @ [dquote]"

text \<open>
  One printer for both layouts: \<open>nl d\<close> is what starts a line at depth \<open>d\<close> and \<open>sp\<close> what follows a
  colon.
\<close>

fun print_json :: "(nat \<Rightarrow> string) \<Rightarrow> string \<Rightarrow> nat \<Rightarrow> json \<Rightarrow> string"
  and print_items :: "(nat \<Rightarrow> string) \<Rightarrow> string \<Rightarrow> nat \<Rightarrow> json list \<Rightarrow> string"
  and print_members :: "(nat \<Rightarrow> string) \<Rightarrow> string \<Rightarrow> nat \<Rightarrow> (string \<times> json) list \<Rightarrow> string" where
  "print_json nl sp d JNull = ''null''"
| "print_json nl sp d (JBool b) = show_bool b"
| "print_json nl sp d (JNum s) = s"
| "print_json nl sp d (JStr s) = json_string s"
| "print_json nl sp d (JArr xs) =
     (if xs = [] then ''[]'' else CHR ''['' # print_items nl sp (Suc d) xs @ nl d @ '']'')"
| "print_json nl sp d (JObj ms) =
     (if ms = [] then ''{}'' else CHR ''{'' # print_members nl sp (Suc d) ms @ nl d @ ''}'')"
| "print_items nl sp d [] = []"
| "print_items nl sp d (x # xs) =
     nl d @ print_json nl sp d x @ (if xs = [] then [] else CHR '','' # print_items nl sp d xs)"
| "print_members nl sp d [] = []"
| "print_members nl sp d ((k, v) # ms) =
     nl d @ json_string k @ '':'' @ sp @ print_json nl sp d v @
     (if ms = [] then [] else CHR '','' # print_members nl sp d ms)"

definition Marshal :: "json \<Rightarrow> string" where
  "Marshal j = print_json (\<lambda>_. []) [] 0 j"

definition MarshalIndent :: "json \<Rightarrow> string" where
  "MarshalIndent j = print_json (\<lambda>d. newline # replicate (2 * d) (CHR '' '')) '' '' 0 j"

section \<open>Parsing\<close>

definition is_ws :: "char \<Rightarrow> bool" where
  "is_ws c = ((of_char c :: nat) \<in> {32, 9, 10, 13})"

definition skip_ws :: "string \<Rightarrow> string" where
  "skip_ws s = dropWhile is_ws s"

definition hex_val :: "char \<Rightarrow> nat option" where
  "hex_val c =
     (let n = (of_char c :: nat) in
      if 48 \<le> n \<and> n \<le> 57 then Some (n - 48)
      else if 97 \<le> n \<and> n \<le> 102 then Some (n - 87)
      else if 65 \<le> n \<and> n \<le> 70 then Some (n - 55)
      else None)"

definition hex4 :: "char \<Rightarrow> char \<Rightarrow> char \<Rightarrow> char \<Rightarrow> nat option" where
  "hex4 a b c d =
     (case (hex_val a, hex_val b, hex_val c, hex_val d) of
        (Some w, Some x, Some y, Some z) \<Rightarrow> Some (((w * 16 + x) * 16 + y) * 16 + z)
      | _ \<Rightarrow> None)"

text \<open>\<open>utf8.AppendRune\<close>; a lone surrogate becomes U+FFFD.\<close>

definition utf8 :: "nat \<Rightarrow> string" where
  "utf8 n =
     (if n < 128 then [char_of n]
      else if n < 2048 then map char_of [192 + n div 64, 128 + n mod 64]
      else if 55296 \<le> n \<and> n < 57344 then map char_of [239::nat, 191, 189]
      else if n < 65536 then map char_of [224 + n div 4096, 128 + n div 64 mod 64, 128 + n mod 64]
      else map char_of [240 + n div 262144, 128 + n div 4096 mod 64, 128 + n div 64 mod 64, 128 + n mod 64])"

definition simple_escape :: "char \<Rightarrow> char option" where
  "simple_escape c =
     (let n = (of_char c :: nat) in
      if n = 34 \<or> n = 92 \<or> n = 47 then Some c
      else if n = 98 then Some (char_of (8::nat))
      else if n = 102 then Some (char_of (12::nat))
      else if n = 110 then Some (char_of (10::nat))
      else if n = 114 then Some (char_of (13::nat))
      else if n = 116 then Some (char_of (9::nat))
      else None)"

text \<open>The second half of a surrogate pair, if the input goes on with one.\<close>

definition low_surrogate :: "string \<Rightarrow> (nat \<times> string) option" where
  "low_surrogate s =
     (case s of
        b # u # a1 # a2 # a3 # a4 # t \<Rightarrow>
          (if b = bslash \<and> u = CHR ''u''
           then (case hex4 a1 a2 a3 a4 of
                   Some n \<Rightarrow> (if 56320 \<le> n \<and> n < 57344 then Some (n, t) else None)
                 | None \<Rightarrow> None)
           else None)
      | _ \<Rightarrow> None)"

lemma low_surrogate_shorter: "low_surrogate s = Some (n, t) \<Longrightarrow> length t < length s"
  by (auto simp: low_surrogate_def split: list.splits if_splits option.splits)

function str_body :: "string \<Rightarrow> (string \<times> string) option" where
  "str_body s =
     (case s of
        [] \<Rightarrow> None
      | c # s1 \<Rightarrow>
          if c = dquote then Some ([], s1)
          else if c = bslash then
            (case s1 of
               [] \<Rightarrow> None
             | e # s2 \<Rightarrow>
                 if e = CHR ''u'' then
                   (case s2 of
                      a1 # a2 # a3 # a4 # s3 \<Rightarrow>
                        (case hex4 a1 a2 a3 a4 of
                           None \<Rightarrow> None
                         | Some n \<Rightarrow>
                             (case (if 55296 \<le> n \<and> n < 56320 then low_surrogate s3 else None) of
                                Some (m, s4) \<Rightarrow>
                                  map_option (apfst ((@) (utf8 (65536 + (n - 55296) * 1024 + (m - 56320)))))
                                    (str_body s4)
                              | None \<Rightarrow> map_option (apfst ((@) (utf8 n))) (str_body s3)))
                    | _ \<Rightarrow> None)
                 else (case simple_escape e of
                         None \<Rightarrow> None
                       | Some x \<Rightarrow> map_option (apfst (Cons x)) (str_body s2)))
          else if (of_char c :: nat) < 32 then None
          else map_option (apfst (Cons c)) (str_body s1))"
  by pat_completeness auto
termination
  by (relation "measure length") (auto split: if_splits dest!: low_surrogate_shorter)

declare str_body.simps [simp del]

definition num_char :: "char \<Rightarrow> bool" where
  "num_char c = (c \<in> set ''+-.eE0123456789'')"

definition digits :: "string \<Rightarrow> bool" where
  "digits s = (s \<noteq> [] \<and> list_all (\<lambda>c. c \<in> set ''0123456789'') s)"

definition valid_exponent :: "string \<Rightarrow> bool" where
  "valid_exponent s =
     (case s of [] \<Rightarrow> True
      | c # t \<Rightarrow> (c = CHR ''e'' \<or> c = CHR ''E'') \<and>
          digits (case t of [] \<Rightarrow> [] | d # u \<Rightarrow> if d = CHR ''+'' \<or> d = CHR ''-'' then u else t))"

definition valid_number :: "string \<Rightarrow> bool" where
  "valid_number s =
     (let t = (case s of [] \<Rightarrow> [] | c # u \<Rightarrow> if c = CHR ''-'' then u else s);
          isd = (\<lambda>c. c \<in> set ''0123456789'');
          ip = takeWhile isd t; r = dropWhile isd t in
      digits ip \<and> (hd ip = CHR ''0'' \<longrightarrow> length ip = 1) \<and>
      (case r of
         c # u \<Rightarrow> (if c = CHR ''.''
                   then digits (takeWhile isd u) \<and> valid_exponent (dropWhile isd u)
                   else valid_exponent r)
       | [] \<Rightarrow> True))"

definition strip_word :: "string \<Rightarrow> json \<Rightarrow> string \<Rightarrow> (json \<times> string) option" where
  "strip_word p j s = (if HasPrefix s p then Some (j, drop (length p) s) else None)"

fun parse_value :: "nat \<Rightarrow> string \<Rightarrow> (json \<times> string) option"
  and parse_items :: "nat \<Rightarrow> string \<Rightarrow> (json list \<times> string) option"
  and parse_members :: "nat \<Rightarrow> string \<Rightarrow> ((string \<times> json) list \<times> string) option" where
  "parse_value 0 s = None"
| "parse_value (Suc n) s =
     (case skip_ws s of
        [] \<Rightarrow> None
      | c # t \<Rightarrow>
          if c = dquote then map_option (apfst JStr) (str_body t)
          else if c = CHR ''['' then
            (case skip_ws t of
               d # u \<Rightarrow> (if d = CHR '']'' then Some (JArr [], u)
                         else map_option (apfst JArr) (parse_items n t))
             | [] \<Rightarrow> None)
          else if c = CHR ''{'' then
            (case skip_ws t of
               d # u \<Rightarrow> (if d = CHR ''}'' then Some (JObj [], u)
                         else map_option (apfst JObj) (parse_members n t))
             | [] \<Rightarrow> None)
          else if c = CHR ''n'' then strip_word ''null'' JNull (c # t)
          else if c = CHR ''t'' then strip_word ''true'' (JBool True) (c # t)
          else if c = CHR ''f'' then strip_word ''false'' (JBool False) (c # t)
          else (let w = takeWhile num_char (c # t) in
                if valid_number w then Some (JNum w, dropWhile num_char (c # t)) else None))"
| "parse_items 0 s = None"
| "parse_items (Suc n) s =
     (case parse_value n s of
        None \<Rightarrow> None
      | Some (x, t) \<Rightarrow>
          (case skip_ws t of
             [] \<Rightarrow> None
           | c # u \<Rightarrow>
               if c = CHR '']'' then Some ([x], u)
               else if c = CHR '','' then map_option (apfst (Cons x)) (parse_items n u)
               else None))"
| "parse_members 0 s = None"
| "parse_members (Suc n) s =
     (case skip_ws s of
        [] \<Rightarrow> None
      | q # s1 \<Rightarrow>
          if q \<noteq> dquote then None
          else (case str_body s1 of
                  None \<Rightarrow> None
                | Some (k, s2) \<Rightarrow>
                    (case skip_ws s2 of
                       [] \<Rightarrow> None
                     | c # s3 \<Rightarrow>
                         if c \<noteq> CHR '':'' then None
                         else (case parse_value n s3 of
                                 None \<Rightarrow> None
                               | Some (v, s4) \<Rightarrow>
                                   (case skip_ws s4 of
                                      [] \<Rightarrow> None
                                    | d # s5 \<Rightarrow>
                                        if d = CHR ''}'' then Some ([(k, v)], s5)
                                        else if d = CHR '','' then
                                          map_option (apfst (Cons (k, v))) (parse_members n s5)
                                        else None)))))"

definition json_parse :: "string \<Rightarrow> json option" where
  "json_parse s =
     (case parse_value (2 * length s + 2) s of
        None \<Rightarrow> None
      | Some (j, r) \<Rightarrow> if skip_ws r = [] then Some j else None)"

text \<open>The error of \<open>json.Unmarshal\<close> on text that is not JSON, or on a value of the wrong type.\<close>

definition syntax_error :: go_error where
  "syntax_error = External OtherError ''invalid JSON''"

definition type_error :: go_error where
  "type_error = External OtherError ''json: cannot unmarshal value into Go value''"

definition parse_res :: "string \<Rightarrow> json res" where
  "parse_res s = (case json_parse s of None \<Rightarrow> Err syntax_error | Some j \<Rightarrow> Ok j)"

text \<open>Keys match struct fields without regard to (ASCII) case.\<close>

definition fold_eq :: "string \<Rightarrow> string \<Rightarrow> bool" where
  "fold_eq a b = (ToLower a = ToLower b)"

text \<open>
  Decoding an object into a struct visits its members in order; \<open>null\<close> leaves the struct, any other
  value is a type error.
\<close>

fun decode_members :: "(string \<Rightarrow> json \<Rightarrow> 'r \<Rightarrow> 'r res) \<Rightarrow> (string \<times> json) list \<Rightarrow> 'r \<Rightarrow> 'r res" where
  "decode_members f [] r = Ok r"
| "decode_members f ((k, v) # ms) r =
     (case f k v r of Ok r' \<Rightarrow> decode_members f ms r' | Err e \<Rightarrow> Err e | Panic e \<Rightarrow> Panic e)"

definition decode_struct :: "(string \<Rightarrow> json \<Rightarrow> 'r \<Rightarrow> 'r res) \<Rightarrow> json \<Rightarrow> 'r \<Rightarrow> 'r res" where
  "decode_struct f j r =
     (case j of JObj ms \<Rightarrow> decode_members f ms r | JNull \<Rightarrow> Ok r | _ \<Rightarrow> Err type_error)"

definition set_string :: "(string \<Rightarrow> 'r \<Rightarrow> 'r) \<Rightarrow> json \<Rightarrow> 'r \<Rightarrow> 'r res" where
  "set_string f j r = (case j of JStr s \<Rightarrow> Ok (f s r) | JNull \<Rightarrow> Ok r | _ \<Rightarrow> Err type_error)"

definition set_bool :: "(bool \<Rightarrow> 'r \<Rightarrow> 'r) \<Rightarrow> json \<Rightarrow> 'r \<Rightarrow> 'r res" where
  "set_bool f j r = (case j of JBool b \<Rightarrow> Ok (f b r) | JNull \<Rightarrow> Ok r | _ \<Rightarrow> Err type_error)"

text \<open>Decoding into a slice, and into a map with string keys (where the last of two equal keys wins).\<close>

fun decode_list :: "(json \<Rightarrow> 'a res) \<Rightarrow> json list \<Rightarrow> 'a list res" where
  "decode_list f [] = Ok []"
| "decode_list f (j # js) =
     (case f j of
        Ok a \<Rightarrow> (case decode_list f js of Ok as \<Rightarrow> Ok (a # as) | Err e \<Rightarrow> Err e | Panic e \<Rightarrow> Panic e)
      | Err e \<Rightarrow> Err e
      | Panic e \<Rightarrow> Panic e)"

definition decode_slice :: "(json \<Rightarrow> 'a res) \<Rightarrow> json \<Rightarrow> 'a list res" where
  "decode_slice f j = (case j of JArr xs \<Rightarrow> decode_list f xs | JNull \<Rightarrow> Ok [] | _ \<Rightarrow> Err type_error)"

definition map_put :: "string \<Rightarrow> 'a \<Rightarrow> (string \<times> 'a) list \<Rightarrow> (string \<times> 'a) list" where
  "map_put k a m = filter (\<lambda>e. fst e \<noteq> k) m @ [(k, a)]"

definition decode_map :: "(json \<Rightarrow> 'a res) \<Rightarrow> json \<Rightarrow> (string \<times> 'a) list \<Rightarrow> (string \<times> 'a) list res" where
  "decode_map f j m = (if j = JNull then Ok []
     else decode_struct (\<lambda>k v m. case f v of
         Ok a \<Rightarrow> Ok (map_put k a m) | Err e \<Rightarrow> Err e | Panic e \<Rightarrow> Panic e) j m)"

text \<open>The field of a struct: decode its value and update the struct.\<close>

definition set_field :: "(json \<Rightarrow> 'a res) \<Rightarrow> ('a \<Rightarrow> 'r \<Rightarrow> 'r) \<Rightarrow> json \<Rightarrow> 'r \<Rightarrow> 'r res" where
  "set_field d f j r = (case d j of Ok a \<Rightarrow> Ok (f a r) | Err e \<Rightarrow> Err e | Panic e \<Rightarrow> Panic e)"

definition decode_string :: "json \<Rightarrow> string res" where
  "decode_string j = (case j of JStr s \<Rightarrow> Ok s | JNull \<Rightarrow> Ok [] | _ \<Rightarrow> Err type_error)"

definition decode_bool :: "json \<Rightarrow> bool res" where
  "decode_bool j = (case j of JBool b \<Rightarrow> Ok b | JNull \<Rightarrow> Ok False | _ \<Rightarrow> Err type_error)"

text \<open>An integer literal that fits the 64 bits of Go's \<open>int\<close>; any other number is a type error.\<close>

definition nat_of_digits :: "string \<Rightarrow> nat" where
  "nat_of_digits s = foldl (\<lambda>n c. n * 10 + (of_char c - 48)) 0 s"

definition int_of_literal :: "string \<Rightarrow> int option" where
  "int_of_literal s =
     (let neg = HasPrefix s ''-''; d = TrimPrefix s ''-'';
          i = (if neg then - int (nat_of_digits d) else int (nat_of_digits d)) in
      if digits d \<and> - (2 ^ 63) \<le> i \<and> i < 2 ^ 63 then Some i else None)"

definition set_int :: "(int \<Rightarrow> 'r \<Rightarrow> 'r) \<Rightarrow> json \<Rightarrow> 'r \<Rightarrow> 'r res" where
  "set_int f j r =
     (case j of
        JNum s \<Rightarrow> (case int_of_literal s of Some i \<Rightarrow> Ok (f i r) | None \<Rightarrow> Err type_error)
      | JNull \<Rightarrow> Ok r
      | _ \<Rightarrow> Err type_error)"

text \<open>
  A value of type \<open>any\<close> that is marshalled again: objects became maps, which print their members
  sorted by key, one for each key.
\<close>

fun decode_any :: "json \<Rightarrow> json" where
  "decode_any (JArr xs) = JArr (map decode_any xs)"
| "decode_any (JObj ms) =
     (let vs = map (\<lambda>m. (fst m, decode_any (snd m))) ms in
      JObj (map (\<lambda>k. (k, the (map_of (rev vs) k))) (sort (remdups (map fst vs)))))"
| "decode_any j = j"

section \<open>Lemmas\<close>

fun wf_json :: "json \<Rightarrow> bool" where
  "wf_json (JNum s) = (valid_number s \<and> s \<noteq> [] \<and> list_all num_char s)"
| "wf_json (JArr xs) = list_all wf_json xs"
| "wf_json (JObj ms) = list_all (\<lambda>m. wf_json (snd m)) ms"
| "wf_json j = True"

text \<open>\<open>json.Marshal\<close> fails on a number that JSON cannot write (an infinity or not a number).\<close>

definition MarshalE :: "json \<Rightarrow> string res" where
  "MarshalE j = (if wf_json j then Ok (Marshal j) else Err (External OtherError ''json: unsupported value''))"


subsection \<open>String literals\<close>

lemma less_16_cases:
  "n < 16 \<Longrightarrow> n \<in> {0, 1, 2, 3, 4, 5, 6, 7, 8, 9, 10, 11, 12, 13, 14, 15::nat}"
  by (auto simp: numeral_eq_Suc less_Suc_eq)

lemma hex_val_hex_char [simp]: "n < 16 \<Longrightarrow> hex_val (hex_char n) = Some n"
  by (drule less_16_cases) (auto simp: hex_val_def hex_char_def)

lemma hex4_byte: "n < 256 \<Longrightarrow> hex4 (CHR ''0'') (CHR ''0'') (hex_char (n div 16)) (hex_char (n mod 16)) = Some n"
  by (simp add: hex4_def hex_val_def [of "CHR ''0''"])

lemma append_single: "(@) [c] = Cons c"
  by (simp add: fun_eq_iff)

lemma str_body_plain:
  assumes "c \<noteq> dquote" "c \<noteq> bslash" "32 \<le> (of_char c :: nat)"
  shows "str_body (c # t) = map_option (apfst (Cons c)) (str_body t)"
  using assms by (simp add: str_body.simps [of "c # t"])

lemma str_body_escape:
  assumes "simple_escape e = Some x" "e \<noteq> CHR ''u''"
  shows "str_body (bslash # e # t) = map_option (apfst (Cons x)) (str_body t)"
  using assms by (simp add: str_body.simps [of "bslash # e # t"])

lemma str_body_hex:
  assumes "(of_char c :: nat) < 128"
  shows "str_body (bslash # CHR ''u'' # CHR ''0'' # CHR ''0'' # hex_char ((of_char c :: nat) div 16)
      # hex_char (of_char c mod 16) # t) = map_option (apfst (Cons c)) (str_body t)"
  using assms
  by (simp add: str_body.simps [of "bslash # t'" for t'] hex4_byte utf8_def append_single)

lemma str_body_esc_char:
  "str_body (esc_char c @ t) = map_option (apfst (Cons c)) (str_body t)"
proof -
  let ?n = "of_char c :: nat"
  have esc: "?n = k \<Longrightarrow> c = char_of k" for k :: nat
    by (metis char_of_char)
  consider "?n = 34 \<or> ?n = 92" | "?n \<in> {8, 9, 10, 12, 13}"
    | "(?n < 32 \<or> ?n = 60 \<or> ?n = 62 \<or> ?n = 38) \<and> ?n \<notin> {8, 9, 10, 12, 13}"
    | "?n \<noteq> 34 \<and> ?n \<noteq> 92 \<and> 32 \<le> ?n \<and> ?n \<noteq> 60 \<and> ?n \<noteq> 62 \<and> ?n \<noteq> 38"
    by force
  then show ?thesis
  proof cases
    case 1
    then have "c \<noteq> CHR ''u''" by auto
    with 1 show ?thesis
      using str_body_escape [of c c t] by (auto simp: esc_char_def simple_escape_def)
  next
    case 2
    then show ?thesis
      by (auto simp: esc_char_def simple_escape_def dest!: esc intro!: str_body_escape)
  next
    case 3
    then have "esc_char c = bslash # CHR ''u'' # CHR ''0'' # CHR ''0'' # hex_char (?n div 16) # [hex_char (?n mod 16)]"
      by (auto simp: esc_char_def Let_def)
    with 3 show ?thesis using str_body_hex [of c t] by auto
  next
    case 4
    then have "c \<noteq> dquote" "c \<noteq> bslash" by auto
    with 4 show ?thesis by (simp add: esc_char_def str_body_plain)
  qed
qed

lemma str_body_concat: "str_body (concat (map esc_char s) @ dquote # r) = Some (s, r)"
proof (induction s)
  case Nil
  then show ?case by (simp add: str_body.simps [of "dquote # r"])
next
  case (Cons c s)
  then show ?case by (simp add: str_body_esc_char)
qed


subsection \<open>Reading back what was printed\<close>

fun need :: "json \<Rightarrow> nat" and needs :: "json list \<Rightarrow> nat" and needm :: "(string \<times> json) list \<Rightarrow> nat" where
  "need (JArr xs) = Suc (needs xs)"
| "need (JObj ms) = Suc (needm ms)"
| "need j = 1"
| "needs [] = 0"
| "needs (x # xs) = Suc (max (need x) (needs xs))"
| "needm [] = 0"
| "needm ((k, v) # ms) = Suc (max (need v) (needm ms))"

definition num_stop :: "string \<Rightarrow> bool" where
  "num_stop r = (case r of [] \<Rightarrow> True | c # _ \<Rightarrow> \<not> num_char c)"

lemma skip_ws_append: "list_all is_ws w \<Longrightarrow> skip_ws (w @ s) = skip_ws s"
  by (induction w) (auto simp: skip_ws_def)

lemma skip_ws_Cons: "\<not> is_ws c \<Longrightarrow> skip_ws (c # s) = c # s"
  by (simp add: skip_ws_def)

lemma num_char_not_ws: "num_char c \<Longrightarrow> \<not> is_ws c"
  by (auto simp: num_char_def is_ws_def)

text \<open>A printed value starts with a byte that is neither white space nor a closing bracket.\<close>

lemma print_json_start:
  assumes "wf_json j"
  shows "\<exists>c t. print_json nl sp d j = c # t \<and> \<not> is_ws c \<and> c \<noteq> CHR '']'' \<and> c \<noteq> CHR ''}''"
proof (cases j)
  case (JNum s)
  with assms obtain c t where "s = c # t" "num_char c" by (cases s) auto
  with JNum show ?thesis by (auto simp: num_char_def is_ws_def)
qed (auto simp: show_bool_def json_string_def is_ws_def)

lemma takeWhile_num:
  "list_all num_char s \<Longrightarrow> num_stop r \<Longrightarrow> takeWhile num_char (s @ r) = s \<and> dropWhile num_char (s @ r) = r"
  by (induction s) (auto simp: num_stop_def split: list.splits)

lemma parse_value_ws: "list_all is_ws w \<Longrightarrow> parse_value n (w @ s) = parse_value n s"
  by (cases n) (simp_all add: skip_ws_append)

lemma parse_value_num:
  assumes "wf_json (JNum s)" "num_stop r"
  shows "parse_value (Suc n) (s @ r) = Some (JNum s, r)"
proof -
  from assms(1) obtain c t where s: "s = c # t" "num_char c" by (cases s) auto
  then have c: "\<not> is_ws c" "c \<noteq> dquote" "c \<noteq> CHR ''[''" "c \<noteq> CHR ''{''" "c \<noteq> CHR ''n''" "c \<noteq> CHR ''t''" "c \<noteq> CHR ''f''"
    by (auto simp: num_char_def is_ws_def)
  have "takeWhile num_char (s @ r) = s" "dropWhile num_char (s @ r) = r"
    using takeWhile_num [of s r] assms by auto
  with s c assms(1) show ?thesis by (simp add: skip_ws_Cons Let_def)
qed

lemmas json_induct = need_needs_needm.induct
  [case_names ArrV ObjV NullV BoolV NumV StrV NilItems ConsItems NilMembers ConsMembers]

locale json_layout =
  fixes nl :: "nat \<Rightarrow> string" and sp :: string
  assumes nl_ws: "list_all is_ws (nl d)"
    and sp_ws: "list_all is_ws sp"
begin

lemma stop_nl: "num_stop (nl d @ CHR '']'' # r)" "num_stop (nl d @ CHR ''}'' # r)" "num_stop (CHR '','' # r)"
  using nl_ws [of d] num_char_not_ws
  by (cases "nl d"; auto simp: num_stop_def num_char_def)+

lemma parse_print:
  "wf_json j \<Longrightarrow> need j \<le> n \<Longrightarrow> num_stop r \<Longrightarrow>
     parse_value n (print_json nl sp d j @ r) = Some (j, r)"
  "list_all wf_json xs \<Longrightarrow> xs \<noteq> [] \<Longrightarrow> needs xs \<le> n \<Longrightarrow>
     parse_items n (print_items nl sp d xs @ nl e @ CHR '']'' # r) = Some (xs, r)"
  "list_all (\<lambda>m. wf_json (snd m)) ms \<Longrightarrow> ms \<noteq> [] \<Longrightarrow> needm ms \<le> n \<Longrightarrow>
     parse_members n (print_members nl sp d ms @ nl e @ CHR ''}'' # r) = Some (ms, r)"
proof (induction j and xs and ms arbitrary: n d r and n d e r and n d e r rule: json_induct)
  case (ArrV xs)
  then obtain m where n: "n = Suc m" "needs xs \<le> m" by (cases n) auto
  show ?case
  proof (cases xs)
    case Nil
    with n show ?thesis by (simp add: skip_ws_Cons is_ws_def)
  next
    case (Cons x ys)
    with ArrV have "wf_json x" by simp
    from print_json_start [OF this] obtain c t where
      c: "print_json nl sp (Suc d) x = c # t" "\<not> is_ws c" "c \<noteq> CHR '']''" by blast
    have "skip_ws (print_items nl sp (Suc d) xs @ u) = c # t @
        (if ys = [] then [] else CHR '','' # print_items nl sp (Suc d) ys) @ u" for u
      using Cons c by (simp add: skip_ws_append [OF nl_ws] skip_ws_Cons)
    moreover have "parse_items m (print_items nl sp (Suc d) xs @ nl d @ CHR '']'' # r) = Some (xs, r)"
      using ArrV n Cons by simp
    ultimately show ?thesis using n c Cons by (simp add: skip_ws_Cons is_ws_def)
  qed
next
  case (ObjV ms)
  then obtain m where n: "n = Suc m" "needm ms \<le> m" by (cases n) auto
  show ?case
  proof (cases ms)
    case Nil
    with n show ?thesis by (simp add: skip_ws_Cons is_ws_def)
  next
    case (Cons p ps)
    obtain k v where p: "p = (k, v)" by force
    have "skip_ws (print_members nl sp (Suc d) ms @ u) = dquote # (tl (json_string k)) @ '':'' @ sp
        @ print_json nl sp (Suc d) v @
        (if ps = [] then [] else CHR '','' # print_members nl sp (Suc d) ps) @ u" for u
      using Cons p by (simp add: skip_ws_append [OF nl_ws] skip_ws_Cons json_string_def is_ws_def)
    moreover have "parse_members m (print_members nl sp (Suc d) ms @ nl d @ CHR ''}'' # r) = Some (ms, r)"
      using ObjV n Cons by simp
    ultimately show ?thesis using n p Cons by (simp add: skip_ws_Cons is_ws_def)
  qed
next
  case (NullV n d r)
  then obtain m where n: "n = Suc m" by (cases n) auto
  then show ?case by (simp add: skip_ws_Cons is_ws_def strip_word_def)
next
  case (BoolV b n d r)
  then obtain m where n: "n = Suc m" by (cases n) auto
  then show ?case by (simp add: skip_ws_Cons is_ws_def strip_word_def show_bool_def)
next
  case (NumV s n d r)
  then obtain m where n: "n = Suc m" by (cases n) auto
  with NumV parse_value_num [of s r m] show ?case by simp
next
  case (StrV s n d r)
  then obtain m where n: "n = Suc m" by (cases n) auto
  then show ?case
    by (simp add: skip_ws_Cons is_ws_def json_string_def str_body_concat)
next
  case NilItems
  then show ?case by simp
next
  case (ConsItems x xs n d e r)
  then obtain m where n: "n = Suc m" "need x \<le> m" "needs xs \<le> m" by (cases n) auto
  show ?case
  proof (cases xs)
    case Nil
    with ConsItems n show ?thesis
      by (simp add: parse_value_ws [OF nl_ws] stop_nl skip_ws_append [OF nl_ws] skip_ws_Cons is_ws_def)
  next
    case (Cons y ys)
    then have "parse_items m (print_items nl sp d xs @ nl e @ CHR '']'' # r) = Some (xs, r)"
      using ConsItems n by simp
    moreover have "parse_value m (print_json nl sp d x @ CHR '','' # u) = Some (x, CHR '','' # u)" for u
      using ConsItems n stop_nl by simp
    ultimately show ?thesis using Cons n
      by (simp add: parse_value_ws [OF nl_ws] skip_ws_Cons is_ws_def del: print_items.simps)
        (simp add: parse_value_ws [OF nl_ws] skip_ws_Cons is_ws_def)
  qed
next
  case NilMembers
  then show ?case by simp
next
  case (ConsMembers k v ms n d e r)
  then obtain m where n: "n = Suc m" "need v \<le> m" "needm ms \<le> m" by (cases n) auto
  have key: "skip_ws (json_string k @ u) = dquote # (concat (map esc_char k) @ dquote # u)" for u
    by (simp add: skip_ws_Cons json_string_def is_ws_def)
  show ?case
  proof (cases ms)
    case Nil
    have "parse_value m (print_json nl sp d v @ nl e @ CHR ''}'' # r) = Some (v, nl e @ CHR ''}'' # r)"
      using ConsMembers n stop_nl by simp
    with Nil n show ?thesis
      by (simp add: key str_body_concat skip_ws_append [OF nl_ws] skip_ws_Cons is_ws_def
          parse_value_ws [OF sp_ws])
  next
    case (Cons p ps)
    then have ne: "ms \<noteq> []" by simp
    have "parse_members m (print_members nl sp d ms @ nl e @ CHR ''}'' # r) = Some (ms, r)"
      using ConsMembers n ne by simp
    moreover have "parse_value m (print_json nl sp d v @ CHR '','' # u) = Some (v, CHR '','' # u)" for u
      using ConsMembers n stop_nl by simp
    ultimately show ?thesis using ne n
      by (simp add: key str_body_concat skip_ws_append [OF nl_ws] skip_ws_Cons is_ws_def
          parse_value_ws [OF sp_ws])
  qed
qed

lemma need_bound:
  "wf_json j \<Longrightarrow> need j \<le> 2 * length (print_json nl sp d j)"
  "list_all wf_json xs \<Longrightarrow> needs xs \<le> 2 * length (print_items nl sp d xs) + 1"
  "list_all (\<lambda>m. wf_json (snd m)) ms \<Longrightarrow> needm ms \<le> 2 * length (print_members nl sp d ms) + 1"
proof (induction j and xs and ms arbitrary: d and d and d rule: json_induct)
  case (ArrV xs)
  then have "needs xs \<le> 2 * length (print_items nl sp (Suc d) xs) + 1" by simp
  then show ?case by (cases xs) simp_all
next
  case (ObjV ms)
  then have "needm ms \<le> 2 * length (print_members nl sp (Suc d) ms) + 1" by simp
  then show ?case by (cases ms) simp_all
next
  case (NumV s)
  then show ?case by (cases s) auto
next
  case (ConsItems x xs)
  then have "need x \<le> 2 * length (print_json nl sp d x)"
    "needs xs \<le> 2 * length (print_items nl sp d xs) + 1" by simp_all
  then show ?case by (cases xs) auto
next
  case (ConsMembers k v ms)
  then have "need v \<le> 2 * length (print_json nl sp d v)"
    "needm ms \<le> 2 * length (print_members nl sp d ms) + 1" by simp_all
  then show ?case by (cases ms) auto
qed (simp_all add: show_bool_def json_string_def)

lemma json_parse_print: "wf_json j \<Longrightarrow> json_parse (print_json nl sp 0 j) = Some j"
proof -
  assume "wf_json j"
  moreover have "need j \<le> 2 * length (print_json nl sp 0 j) + 2"
    using need_bound(1) [OF \<open>wf_json j\<close>, of 0] by simp
  ultimately show ?thesis
    using parse_print(1) [of j "2 * length (print_json nl sp 0 j) + 2" "[]" 0]
    by (simp add: json_parse_def num_stop_def skip_ws_def)
qed

end

interpretation compact: json_layout "\<lambda>_. []" "[]"
  by unfold_locales simp_all

interpretation indented: json_layout "\<lambda>d. newline # replicate (2 * d) (CHR '' '')" "'' ''"
  by unfold_locales (auto simp: is_ws_def list_all_iff)

text \<open>Both layouts read back.\<close>

lemma json_parse_Marshal: "wf_json j \<Longrightarrow> json_parse (Marshal j) = Some j"
  unfolding Marshal_def by (rule compact.json_parse_print)

lemma json_parse_MarshalIndent: "wf_json j \<Longrightarrow> json_parse (MarshalIndent j) = Some j"
  unfolding MarshalIndent_def by (rule indented.json_parse_print)

subsection \<open>Maps\<close>

lemma map_of_map_put: "map_of (map_put k a m) = (map_of m)(k \<mapsto> a)"
proof
  fix x
  have "map_of (filter (\<lambda>e. fst e \<noteq> k) m) x = (if x = k then None else map_of m x)"
    by (induction m) auto
  then show "map_of (map_put k a m) x = ((map_of m)(k \<mapsto> a)) x"
    by (auto simp: map_put_def map_add_def split: option.splits)
qed

lemma distinct_map_put: "distinct (map fst m) \<Longrightarrow> distinct (map fst (map_put k a m))"
  by (auto simp: map_put_def distinct_map_filter)

lemma decode_struct_JNull [simp]: "decode_struct f JNull r = Ok r"
  by (simp add: decode_struct_def)

lemma decode_struct_JObj [simp]: "decode_struct f (JObj ms) r = decode_members f ms r"
  by (simp add: decode_struct_def)

lemma decode_list_map: "(\<And>x. x \<in> set xs \<Longrightarrow> f (g x) = Ok (h x)) \<Longrightarrow> decode_list f (map g xs) = Ok (map h xs)"
  by (induction xs) auto

end
