(* ===== verification/Languages.thy ===== *)
theory Languages
  imports Go_Json
begin

text \<open>
  Language names: their short and long forms (\<open>cmd/run.go\<close>), the repository of each SDK
  (\<open>cmd/build_image.go\<close>), the query for its latest published version
  (\<open>cmd/latest_sdk_version.go\<close>) and the Go build tags of an SDK version
  (\<open>harness/go/cmd/util.go\<close>). The comparison of versions is the package
  \<open>golang.org/x/mod/semver\<close>, a parameter.
\<close>

section \<open>Names\<close>

definition invalid_language :: "string \<Rightarrow> go_error" where
  "invalid_language lang = Errorf
     ''invalid language %q, must be one of: go or java or ts or py or cs or rb'' [lang]"

definition normalizeLangName :: "string \<Rightarrow> string res" where
  "normalizeLangName lang =
     (if lang \<in> set [''go'', ''java'', ''ts'', ''php'', ''py'', ''cs'', ''rb''] then Ok lang
      else if lang = ''typescript'' then Ok ''ts''
      else if lang = ''python'' then Ok ''py''
      else if lang \<in> set [''dotnet'', ''csharp''] then Ok ''cs''
      else if lang = ''ruby'' then Ok ''rb''
      else Err (invalid_language lang))"

definition expandLangName :: "string \<Rightarrow> string res" where
  "expandLangName lang =
     (if lang \<in> set [''go'', ''java'', ''typescript'', ''php'', ''python'', ''ruby''] then Ok lang
      else if lang = ''ts'' then Ok ''typescript''
      else if lang = ''py'' then Ok ''python''
      else if lang = ''cs'' then Ok ''dotnet''
      else if lang = ''rb'' then Ok ''ruby''
      else Err (invalid_language lang))"

definition defaultRepoURL :: "string \<Rightarrow> string res" where
  "defaultRepoURL lang =
     (case expandLangName lang of
        Ok l \<Rightarrow> Ok (''https://github.com/temporalio/sdk-'' @ l) | Err e \<Rightarrow> Err e | Panic e \<Rightarrow> Panic e)"

section \<open>Build tags\<close>

definition GoBuildTags :: "(string \<Rightarrow> bool) \<Rightarrow> (string \<Rightarrow> string \<Rightarrow> int) \<Rightarrow> string \<Rightarrow> string list" where
  "GoBuildTags semver_IsValid semver_Compare sdkVersion =
     (if \<not> semver_IsValid sdkVersion then []
      else (if semver_Compare sdkVersion ''v1.11.0'' < 0 then [''pre1.11.0''] else []) @
           (if semver_Compare sdkVersion ''v1.12.0'' < 0 then [''pre1.12.0''] else []))"

section \<open>Latest version\<close>

record registryQuery =
  q_url :: string
  q_extract :: "string \<Rightarrow> string res"

text \<open>A struct with one field, decoded to the value of that field.\<close>

definition one_field :: "string \<Rightarrow> (json \<Rightarrow> 'a \<Rightarrow> 'a res) \<Rightarrow> json \<Rightarrow> 'a \<Rightarrow> 'a res" where
  "one_field name d = decode_struct (\<lambda>k v r. if fold_eq k name then d v r else Ok r)"

definition string_field :: "json \<Rightarrow> string \<Rightarrow> string res" where
  "string_field = set_string (\<lambda>s _. s)"

definition with_json :: "(json \<Rightarrow> string res) \<Rightarrow> string \<Rightarrow> string res" where
  "with_json f body = (case parse_res body of Ok j \<Rightarrow> f j | Err e \<Rightarrow> Err e | Panic e \<Rightarrow> Panic e)"

definition extract_version :: "string \<Rightarrow> string res" where
  "extract_version = with_json (\<lambda>j. one_field ''version'' string_field j [])"

definition extract_maven :: "string \<Rightarrow> string res" where
  "extract_maven = with_json (\<lambda>j.
     case one_field ''response'' (one_field ''docs'' (\<lambda>v _.
            decode_slice (\<lambda>d. one_field ''latestVersion'' string_field d []) v)) j [] of
       Ok [] \<Rightarrow> Err (Errorf ''no results found on Maven Central'' [])
     | Ok (v # _) \<Rightarrow> Ok v
     | Err e \<Rightarrow> Err e
     | Panic e \<Rightarrow> Panic e)"

definition extract_packagist :: "string \<Rightarrow> string res" where
  "extract_packagist = with_json (\<lambda>j.
     case one_field ''packages'' (decode_map
            (decode_slice (\<lambda>d. one_field ''version'' string_field d []))) j [] of
       Ok m \<Rightarrow> (case map_of m ''temporal/sdk'' of
                 Some (v # _) \<Rightarrow> Ok v
               | _ \<Rightarrow> Err (Errorf ''no versions found on Packagist'' []))
     | Err e \<Rightarrow> Err e
     | Panic e \<Rightarrow> Panic e)"

definition extract_pypi :: "string \<Rightarrow> string res" where
  "extract_pypi = with_json (\<lambda>j. one_field ''info'' (one_field ''version'' string_field) j [])"

text \<open>The loop from the last index down: the last version without a dash.\<close>

fun last_stable :: "string list \<Rightarrow> string res" where
  "last_stable [] = Err (Errorf ''no stable versions found on NuGet'' [])"
| "last_stable (v # vs) = (if \<not> Contains v ''-'' then Ok v else last_stable vs)"

definition extract_nuget :: "string \<Rightarrow> string res" where
  "extract_nuget = with_json (\<lambda>j.
     case one_field ''versions'' (\<lambda>v _. decode_slice decode_string v) j [] of
       Ok vs \<Rightarrow> last_stable (rev vs) | Err e \<Rightarrow> Err e | Panic e \<Rightarrow> Panic e)"

definition registryQueries :: "(string \<times> registryQuery) list" where
  "registryQueries =
    [(''go'', \<lparr>q_url = ''https://proxy.golang.org/go.temporal.io/sdk/@latest'', q_extract = extract_version\<rparr>),
     (''typescript'', \<lparr>q_url = ''https://registry.npmjs.org/@temporalio/client/latest'', q_extract = extract_version\<rparr>),
     (''java'', \<lparr>q_url = ''https://search.maven.org/solrsearch/select?q=g:io.temporal+AND+a:temporal-sdk&rows=1&wt=json'',
        q_extract = extract_maven\<rparr>),
     (''php'', \<lparr>q_url = ''https://repo.packagist.org/p2/temporal/sdk.json'', q_extract = extract_packagist\<rparr>),
     (''python'', \<lparr>q_url = ''https://pypi.org/pypi/temporalio/json'', q_extract = extract_pypi\<rparr>),
     (''dotnet'', \<lparr>q_url = ''https://api.nuget.org/v3-flatcontainer/temporalio/index.json'', q_extract = extract_nuget\<rparr>),
     (''ruby'', \<lparr>q_url = ''https://rubygems.org/api/v1/gems/temporalio.json'', q_extract = extract_version\<rparr>)]"

text \<open>
  The answer of the server: a transport error, or a status code and what reading the body gives. The
  result is the line that is printed.
\<close>

definition getLatestSdkVersion :: "(string \<Rightarrow> (int \<times> string res) res) \<Rightarrow> string \<Rightarrow> string res" where
  "getLatestSdkVersion http_get clang =
     (case expandLangName clang of
        Ok lang \<Rightarrow>
          (case map_of registryQueries lang of
             None \<Rightarrow> Err (Errorf ''no package registry configured for language %q'' [lang])
           | Some q \<Rightarrow>
               (case http_get (q_url q) of
                  Ok (status, rd) \<Rightarrow>
                    if status \<noteq> 200
                    then Err (Errorf ''package registry returned status %d for %s'' [show_int status, q_url q])
                    else (case rd of
                        Ok body \<Rightarrow>
                          (case q_extract q body of
                             Ok v \<Rightarrow> Ok (TrimPrefix v ''v'')
                           | Err e \<Rightarrow> Err (Wrapf ''failed to extract version from response: %w'' [] e)
                           | Panic e \<Rightarrow> Panic e)
                      | Err e \<Rightarrow> Err (Wrapf ''failed to read response body: %w'' [] e)
                      | Panic e \<Rightarrow> Panic e)
                | Err e \<Rightarrow> Err (Wrapf ''failed to query package registry: %w'' [] e)
                | Panic e \<Rightarrow> Panic e))
      | Err e \<Rightarrow> Err e
      | Panic e \<Rightarrow> Panic e)"

section \<open>Lemmas\<close>

lemma last_stable_Ok:
  "last_stable vs = Ok v \<longleftrightarrow> (\<exists>a b. vs = a @ v # b \<and> \<not> Contains v ''-'' \<and> (\<forall>x \<in> set a. Contains x ''-''))"
proof (induction vs)
  case (Cons x vs)
  show ?case
  proof (cases "Contains x ''-''")
    case True
    then show ?thesis
      using Cons by (auto simp: Cons_eq_append_conv) (metis append_Cons set_ConsD)
  next
    case False
    then show ?thesis by (auto simp: Cons_eq_append_conv)
  qed
qed simp

lemma last_stable_Err: "last_stable vs = Err e \<Longrightarrow> \<forall>v \<in> set vs. Contains v ''-''"
  by (induction vs) (auto split: if_splits)

lemma last_stable_not_Panic: "last_stable vs \<noteq> Panic e"
  by (induction vs) auto

lemma parse_res_Marshal: "wf_json j \<Longrightarrow> parse_res (Marshal j) = Ok j"
  by (simp add: parse_res_def json_parse_Marshal)

section \<open>Properties\<close>

text \<open>
  The two forms of a language name. What \<open>normalizeLangName\<close> gives is one of seven short names, is
  left alone by a second call, has a long form, and the long form has a package registry and a
  repository. A name normalisation accepts is refused by \<open>expandLangName\<close> exactly when it is
  \<open>dotnet\<close> or \<open>csharp\<close>, though \<open>dotnet\<close> is itself a long form; every other name is expanded to
  the same long form before and after normalising it.
\<close>

lemma language_names:
  assumes "normalizeLangName l = Ok n"
  shows "n \<in> set [''go'', ''java'', ''ts'', ''php'', ''py'', ''cs'', ''rb''] \<and> normalizeLangName n = Ok n \<and>
    (\<exists>x q. expandLangName n = Ok x \<and> map_of registryQueries x = Some q \<and>
       defaultRepoURL n = Ok (''https://github.com/temporalio/sdk-'' @ x)) \<and>
    expandLangName l =
      (if l \<in> {''dotnet'', ''csharp''} then Err (invalid_language l) else expandLangName n)"
proof -
  let ?known = "[''go'', ''java'', ''ts'', ''php'', ''py'', ''cs'', ''rb'', ''typescript'', ''python'', ''dotnet'', ''csharp'', ''ruby'']"
  have l: "l \<in> set ?known"
    using assms by (auto simp: normalizeLangName_def split: if_splits)
  let ?P = "\<lambda>l n. n \<in> set [''go'', ''java'', ''ts'', ''php'', ''py'', ''cs'', ''rb''] \<and> normalizeLangName n = Ok n \<and>
    (\<exists>x q. expandLangName n = Ok x \<and> map_of registryQueries x = Some q \<and>
       defaultRepoURL n = Ok (''https://github.com/temporalio/sdk-'' @ x)) \<and>
    expandLangName l =
      (if l \<in> {''dotnet'', ''csharp''} then Err (invalid_language l) else expandLangName n)"
  have "list_all (\<lambda>l. \<forall>n. normalizeLangName l = Ok n \<longrightarrow> ?P l n) ?known"
    by (simp add: normalizeLangName_def expandLangName_def registryQueries_def defaultRepoURL_def)
  with l assms show ?thesis by (auto simp only: list_all_iff)
qed

text \<open>
  The latest version of the .NET SDK. The registry's answer lists the versions in ascending order;
  what is printed is the last one of them without a dash (no pre-release), less a leading \<open>v\<close>; if
  every one has a dash, or there is none, the command fails and prints nothing.
\<close>

lemma latest_dotnet_version:
  assumes "map_of registryQueries ''dotnet'' = Some q"
    "http_get (q_url q) = Ok (200, Ok (Marshal (JObj [(''versions'', JArr (map JStr vs))])))"
    "wf_json (JObj [(''versions'', JArr (map JStr vs))])"
  shows "(case getLatestSdkVersion http_get ''cs'' of
      Ok out \<Rightarrow> (\<exists>a v b. vs = a @ v # b \<and> out = TrimPrefix v ''v'' \<and> \<not> Contains v ''-'' \<and> (\<forall>x \<in> set b. Contains x ''-''))
    | Err e \<Rightarrow> (\<forall>v \<in> set vs. Contains v ''-'')
    | Panic e \<Rightarrow> False)"
proof -
  have q: "q_extract q = extract_nuget"
    using assms(1) by (auto simp: registryQueries_def)
  have "decode_slice decode_string (JArr (map JStr vs)) = Ok vs"
    by (simp add: decode_slice_def decode_list_map decode_string_def)
  then have x: "extract_nuget (Marshal (JObj [(''versions'', JArr (map JStr vs))])) = last_stable (rev vs)"
    using assms(3)
    by (simp add: extract_nuget_def with_json_def parse_res_Marshal one_field_def decode_struct_JObj fold_eq_def)
  have "expandLangName ''cs'' = Ok ''dotnet''" by (simp add: expandLangName_def)
  then have r: "getLatestSdkVersion http_get ''cs'' = (case last_stable (rev vs) of
       Ok v \<Rightarrow> Ok (TrimPrefix v ''v'')
     | Err e \<Rightarrow> Err (Wrapf ''failed to extract version from response: %w'' [] e) | Panic e \<Rightarrow> Panic e)"
    using assms(1,2) by (simp add: getLatestSdkVersion_def q x)
  show ?thesis
  proof (cases "last_stable (rev vs)")
    case (Ok v)
    then obtain a b where "rev vs = a @ v # b" "\<not> Contains v ''-''" "\<forall>x \<in> set a. Contains x ''-''"
      by (auto simp: last_stable_Ok)
    moreover from this(1) have "vs = rev b @ v # rev a" by (metis rev_append rev_rev_ident rev.simps(2) append.assoc append_Cons append_Nil)
    ultimately show ?thesis unfolding r Ok by simp (metis set_rev)
  next
    case (Err e)
    then show ?thesis using last_stable_Err [OF Err] by (simp add: r)
  qed (simp add: last_stable_not_Panic)
qed

end
