(* ===== verification/Go_Os.thy ===== *)
theory Go_Os
  imports Go_Base
begin

text \<open>
  What the code uses of \<open>path/filepath\<close> (on a Unix host), \<open>os\<close> and \<open>os/exec\<close>: lexical path
  functions, a file system as an association list from cleaned absolute paths to nodes, the process
  environment, and the commands the process has run. The choices the environment makes (which file
  operation fails, what a command returns and does to the files, which temporary names and which
  UUIDs are drawn) are fields of the state that no operation changes.
\<close>

section \<open>Paths\<close>

abbreviation slash :: char where
  "slash \<equiv> CHR ''/''"

definition path_comps :: "string \<Rightarrow> string list" where
  "path_comps p = filter (\<lambda>c. c \<noteq> []) (Split slash p)"

definition clean_step :: "bool \<Rightarrow> string list \<Rightarrow> string \<Rightarrow> string list" where
  "clean_step rooted st c =
     (if c = ''.'' then st
      else if c = ''..'' then
        (case st of
           [] \<Rightarrow> (if rooted then [] else [c])
         | t # st' \<Rightarrow> (if t = ''..'' then c # st else st'))
      else c # st)"

definition clean_comps :: "bool \<Rightarrow> string list \<Rightarrow> string list" where
  "clean_comps rooted cs = rev (foldl (clean_step rooted) [] cs)"

definition Clean :: "string \<Rightarrow> string" where
  "Clean p =
     (if p = [] then ''.''
      else let rooted = HasPrefix p ''/''; cs = clean_comps rooted (path_comps p) in
        if rooted then slash # Join cs ''/''
        else if cs = [] then ''.'' else Join cs ''/'')"

text \<open>\<open>filepath.Join\<close> drops leading empty elements and cleans the rest.\<close>

definition PathJoin :: "string list \<Rightarrow> string" where
  "PathJoin es =
     (case dropWhile (\<lambda>e. e = []) es of [] \<Rightarrow> [] | es' \<Rightarrow> Clean (Join es' ''/''))"

definition Base :: "string \<Rightarrow> string" where
  "Base p =
     (if p = [] then ''.''
      else let q = TrimRight p ''/'' in
        if q = [] then ''/'' else last (Split slash q))"

definition DirOf :: "string \<Rightarrow> string" where
  "DirOf p = Clean (case LastIndexByte slash p of None \<Rightarrow> [] | Some i \<Rightarrow> take (Suc i) p)"

fun strip_common :: "string list \<Rightarrow> string list \<Rightarrow> string list \<times> string list" where
  "strip_common (a # as) (b # bs) = (if a = b then strip_common as bs else (a # as, b # bs))"
| "strip_common as bs = (as, bs)"

text \<open>\<open>filepath.Rel\<close>: the target relative to the base, an error where that needs the current directory.\<close>

definition Rel :: "string \<Rightarrow> string \<Rightarrow> string res" where
  "Rel base targ =
     (let b = Clean base; t = Clean targ;
          cannot = Err (Errorf ''Rel: can't make %s relative to %s'' [targ, base]) in
      if t = b then Ok ''.''
      else if HasPrefix b ''/'' \<noteq> HasPrefix t ''/'' then cannot
      else (case strip_common (if b = ''.'' then [] else path_comps b)
                              (if t = ''.'' then [] else path_comps t) of
          (bs, ts) \<Rightarrow>
            (case bs of
               c # _ \<Rightarrow> (if c = ''..'' then cannot
                         else Ok (Join (map (\<lambda>_. ''..'') bs @ ts) ''/''))
             | [] \<Rightarrow> Ok (Join ts ''/''))))"

section \<open>Processes and files\<close>

datatype stream = Inherited | Custom nat

record command =
  c_exe :: string
  c_args :: "string list"
  c_dir :: string
  c_env :: "string list"
  c_stdin :: "stream option"
  c_stdout :: "stream option"
  c_stderr :: "stream option"

text \<open>\<open>exec.CommandContext(ctx, exe, args...)\<close>.\<close>

definition Command :: "string \<Rightarrow> string list \<Rightarrow> command" where
  "Command exe args = \<lparr>c_exe = exe, c_args = args, c_dir = [], c_env = [],
     c_stdin = None, c_stdout = None, c_stderr = None\<rparr>"

datatype node = FileN string | DirN

type_synonym fs = "(string \<times> node) list"

record world =
  w_cwd :: string
  w_fs :: fs
  w_env :: "(string \<times> string) list"
  w_cmds :: "command list"
  w_temps :: nat
  w_uuids :: nat
  x_fault :: "string \<Rightarrow> string \<Rightarrow> go_error option"
  x_exec :: "nat \<Rightarrow> command \<Rightarrow> go_error option"
  x_exec_fs :: "nat \<Rightarrow> command \<Rightarrow> fs \<Rightarrow> fs"
  x_output :: "nat \<Rightarrow> command \<Rightarrow> string"
  x_temp :: "nat \<Rightarrow> string"
  x_uuid :: "nat \<Rightarrow> string"

definition abs_path :: "'z world_scheme \<Rightarrow> string \<Rightarrow> string" where
  "abs_path w p = (if HasPrefix p ''/'' then Clean p else PathJoin [w_cwd w, p])"

definition fs_at :: "'z world_scheme \<Rightarrow> string \<Rightarrow> node option" where
  "fs_at w p = map_of (w_fs w) (abs_path w p)"

definition fs_put :: "string \<Rightarrow> node \<Rightarrow> fs \<Rightarrow> fs" where
  "fs_put p n m = (p, n) # filter (\<lambda>e. fst e \<noteq> p) m"

definition below :: "string \<Rightarrow> string \<Rightarrow> bool" where
  "below p q = (q = p \<or> HasPrefix q (p @ ''/''))"

definition fs_remove :: "string \<Rightarrow> fs \<Rightarrow> fs" where
  "fs_remove p m = filter (\<lambda>e. \<not> below p (fst e)) m"

definition is_dir :: "'z world_scheme \<Rightarrow> string \<Rightarrow> bool" where
  "is_dir w p = (p = ''/'' \<or> map_of (w_fs w) p = Some DirN)"

text \<open>Every file operation may also fail with an error the environment chooses.\<close>

definition faulty :: "string \<Rightarrow> string \<Rightarrow> ('z world_scheme, unit) io" where
  "faulty oper p = (\<lambda>w. case x_fault w oper p of None \<Rightarrow> (Ok (), w) | Some e \<Rightarrow> (Err e, w))"

definition not_exist :: "string \<Rightarrow> string \<Rightarrow> go_error" where
  "not_exist oper p = External NotExist (oper @ '' '' @ p @ '': no such file or directory'')"

definition os_Stat :: "string \<Rightarrow> ('z world_scheme, node) io" where
  "os_Stat p = thenE (faulty ''stat'' p)
     (\<lambda>w. case fs_at w p of None \<Rightarrow> (Err (not_exist ''stat'' p), w) | Some n \<Rightarrow> (Ok n, w))"

definition os_ReadFile :: "string \<Rightarrow> ('z world_scheme, string) io" where
  "os_ReadFile p = thenE (faulty ''open'' p)
     (\<lambda>w. case fs_at w p of
        None \<Rightarrow> (Err (not_exist ''open'' p), w)
      | Some DirN \<Rightarrow> (Err (External OtherError (''read '' @ p @ '': is a directory'')), w)
      | Some (FileN c) \<Rightarrow> (Ok c, w))"

definition os_WriteFile :: "string \<Rightarrow> string \<Rightarrow> ('z world_scheme, unit) io" where
  "os_WriteFile p c = thenE (faulty ''write'' p)
     (\<lambda>w. let q = abs_path w p in
        if \<not> is_dir w (DirOf q) then (Err (not_exist ''open'' p), w)
        else if is_dir w q then (Err (External OtherError (''open '' @ p @ '': is a directory'')), w)
        else (Ok (), w\<lparr>w_fs := fs_put q (FileN c) (w_fs w)\<rparr>))"

definition os_Mkdir :: "string \<Rightarrow> ('z world_scheme, unit) io" where
  "os_Mkdir p = thenE (faulty ''mkdir'' p)
     (\<lambda>w. let q = abs_path w p in
        if is_dir w q \<or> map_of (w_fs w) q \<noteq> None
        then (Err (External AlreadyExists (''mkdir '' @ p @ '': file exists'')), w)
        else if \<not> is_dir w (DirOf q) then (Err (not_exist ''mkdir'' p), w)
        else (Ok (), w\<lparr>w_fs := fs_put q DirN (w_fs w)\<rparr>))"

text \<open>\<open>os.MkdirAll\<close>: every prefix of the path that is not there becomes a directory.\<close>

definition path_prefixes :: "string \<Rightarrow> string list" where
  "path_prefixes q =
     (let cs = path_comps q in map (\<lambda>i. slash # Join (take (Suc i) cs) ''/'') [0..<length cs])"

fun mkdirs :: "string list \<Rightarrow> fs \<Rightarrow> fs option" where
  "mkdirs [] m = Some m"
| "mkdirs (p # ps) m =
     (case map_of m p of
        None \<Rightarrow> mkdirs ps (fs_put p DirN m)
      | Some DirN \<Rightarrow> mkdirs ps m
      | Some (FileN _) \<Rightarrow> None)"

definition os_MkdirAll :: "string \<Rightarrow> ('z world_scheme, unit) io" where
  "os_MkdirAll p = thenE (faulty ''mkdir'' p)
     (\<lambda>w. case mkdirs (path_prefixes (abs_path w p)) (w_fs w) of
        None \<Rightarrow> (Err (External OtherError (''mkdir '' @ p @ '': not a directory'')), w)
      | Some m \<Rightarrow> (Ok (), w\<lparr>w_fs := m\<rparr>))"

text \<open>\<open>os.MkdirTemp(dir, prefix)\<close>: the environment draws the rest of the name, never one in use.\<close>

definition os_MkdirTemp :: "string \<Rightarrow> string \<Rightarrow> ('z world_scheme, string) io" where
  "os_MkdirTemp d pre = thenE (faulty ''mkdirtemp'' d)
     (\<lambda>w. let p = PathJoin [d, pre @ x_temp w (w_temps w)]; q = abs_path w p;
              w1 = w\<lparr>w_temps := Suc (w_temps w)\<rparr> in
        if is_dir w q \<or> map_of (w_fs w) q \<noteq> None
        then (Err (External AlreadyExists (''mkdirtemp '' @ p @ '': file exists'')), w1)
        else if \<not> is_dir w (DirOf q) then (Err (not_exist ''stat'' d), w1)
        else (Ok p, w1\<lparr>w_fs := fs_put q DirN (w_fs w)\<rparr>))"

text \<open>\<open>os.RemoveAll\<close>, whose error the code always ignores.\<close>

definition os_RemoveAll :: "string \<Rightarrow> 'z world_scheme \<Rightarrow> 'z world_scheme" where
  "os_RemoveAll p w =
     (case x_fault w ''removeall'' p of
        Some _ \<Rightarrow> w
      | None \<Rightarrow> w\<lparr>w_fs := fs_remove (abs_path w p) (w_fs w)\<rparr>)"

definition entry_name :: "string \<Rightarrow> string \<Rightarrow> string option" where
  "entry_name d q =
     (let pre = (if d = ''/'' then d else d @ ''/''); n = drop (length pre) q in
      if HasPrefix q pre \<and> n \<noteq> [] \<and> slash \<notin> set n then Some n else None)"

text \<open>\<open>os.ReadDir\<close>: the entries of a directory, sorted by name.\<close>

definition os_ReadDir :: "string \<Rightarrow> ('z world_scheme, string list) io" where
  "os_ReadDir d = thenE (faulty ''readdir'' d)
     (\<lambda>w. let q = abs_path w d in
        if \<not> is_dir w q then (Err (not_exist ''open'' d), w)
        else (Ok (sort (remdups (List.map_filter (\<lambda>e. entry_name q (fst e)) (w_fs w)))), w))"

definition filepath_Abs :: "string \<Rightarrow> ('z world_scheme, string) io" where
  "filepath_Abs p = (if HasPrefix p ''/'' then ret (Clean p)
     else thenE (faulty ''getwd'' p) (asks (\<lambda>w. PathJoin [w_cwd w, p])))"

text \<open>\<open>cmd.Run()\<close>: the command is recorded, changes the files and returns as the environment says.\<close>

definition run_command :: "command \<Rightarrow> ('z world_scheme, unit) io" where
  "run_command c = (\<lambda>w. let n = length (w_cmds w) in
     ((case x_exec w n c of None \<Rightarrow> Ok () | Some e \<Rightarrow> Err e),
      w\<lparr>w_cmds := w_cmds w @ [c], w_fs := x_exec_fs w n c (w_fs w)\<rparr>))"

definition output_command :: "command \<Rightarrow> ('z world_scheme, string) io" where
  "output_command c =
     bindE (asks (\<lambda>w. x_output w (length (w_cmds w)) c)) (\<lambda>out. thenE (run_command c) (ret out))"

definition new_uuid :: "('z world_scheme, string) io" where
  "new_uuid = (\<lambda>w. (Ok (x_uuid w (w_uuids w)), w\<lparr>w_uuids := Suc (w_uuids w)\<rparr>))"

subsection \<open>The process environment\<close>

definition LookupEnv :: "string \<Rightarrow> 'z world_scheme \<Rightarrow> string option" where
  "LookupEnv k w = map_of (w_env w) k"

definition Getenv :: "string \<Rightarrow> 'z world_scheme \<Rightarrow> string" where
  "Getenv k w = (case LookupEnv k w of None \<Rightarrow> [] | Some v \<Rightarrow> v)"

definition Setenv :: "string \<Rightarrow> string \<Rightarrow> 'z world_scheme \<Rightarrow> 'z world_scheme" where
  "Setenv k v w = w\<lparr>w_env := (k, v) # filter (\<lambda>e. fst e \<noteq> k) (w_env w)\<rparr>"

definition Unsetenv :: "string \<Rightarrow> 'z world_scheme \<Rightarrow> 'z world_scheme" where
  "Unsetenv k w = w\<lparr>w_env := filter (\<lambda>e. fst e \<noteq> k) (w_env w)\<rparr>"

definition Environ :: "'z world_scheme \<Rightarrow> string list" where
  "Environ w = map (\<lambda>(k, v). k @ ''='' @ v) (w_env w)"

text \<open>An environment in which nothing fails and commands change no file, for concrete runs.\<close>

definition calm_world :: "fs \<Rightarrow> world" where
  "calm_world m = \<lparr>w_cwd = ''/'', w_fs = m, w_env = [], w_cmds = [], w_temps = 0, w_uuids = 0,
     x_fault = (\<lambda>_ _. None), x_exec = (\<lambda>_ _. None), x_exec_fs = (\<lambda>_ _ m. m), x_output = (\<lambda>_ _. []),
     x_temp = show_nat, x_uuid = show_nat\<rparr>"

section \<open>Lemmas\<close>

subsection \<open>Commands and identifiers\<close>

text \<open>The environment of a command: \<open>os/exec\<close> passes on the last of several entries for a variable.\<close>

definition env_value :: "string \<Rightarrow> string list \<Rightarrow> string option" where
  "env_value k env =
     map_option (drop (length k + 1)) (find (\<lambda>e. HasPrefix e (k @ ''='')) (rev env))"

lemma env_value_snoc:
  "env_value k (env @ [e]) = (if HasPrefix e (k @ ''='') then Some (drop (length k + 1) e) else env_value k env)"
  by (simp add: env_value_def)

lemma env_value_filter:
  assumes "\<And>e. HasPrefix e (k @ ''='') \<Longrightarrow> P e"
  shows "env_value k (filter P env) = env_value k env"
  using assms by (induction env rule: rev_induct) (auto simp: env_value_snoc env_value_def)

lemma env_value_entries:
  "env_value k env =
     (case rev (filter (\<lambda>e. HasPrefix e (k @ ''='')) env) of [] \<Rightarrow> None | e # _ \<Rightarrow> Some (drop (length k + 1) e))"
  by (induction env rule: rev_induct) (simp_all add: env_value_snoc env_value_def)

lemma bindE_new_uuid: "bindE new_uuid k w = k (x_uuid w (w_uuids w)) (w\<lparr>w_uuids := Suc (w_uuids w)\<rparr>)"
  by (simp add: bindE_def new_uuid_def)

lemma run_command_state:
  "run_command c w = (Ok u, w') \<Longrightarrow> w_cmds w' = w_cmds w @ [c]"
  by (auto simp: run_command_def Let_def split: option.splits)

subsection \<open>Files\<close>

lemma map_of_filter_other: "p \<noteq> q \<Longrightarrow> map_of (filter (\<lambda>e. fst e \<noteq> p) m) q = map_of m q"
  by (induction m) auto

lemma map_of_filter_same: "map_of (filter (\<lambda>e. fst e \<noteq> p) m) p = None"
  by (induction m) auto

lemma map_of_fs_put: "map_of (fs_put p n m) = (map_of m)(p \<mapsto> n)"
  by (auto simp: fs_put_def fun_eq_iff map_of_filter_other)

lemma map_of_fs_remove: "map_of (fs_remove p m) q = (if below p q then None else map_of m q)"
  by (induction m) (auto simp: fs_remove_def)

lemma below_refl [simp]: "below p p"
  by (simp add: below_def)

lemma abs_path_idem_fs [simp]: "abs_path (w\<lparr>w_fs := m\<rparr>) p = abs_path w p"
  "abs_path (w\<lparr>w_cmds := l\<rparr>) p = abs_path w p" "abs_path (w\<lparr>w_temps := n\<rparr>) p = abs_path w p"
  by (simp_all add: abs_path_def)

subsection \<open>Environment\<close>

lemma LookupEnv_Setenv: "LookupEnv k (Setenv j v w) = (if k = j then Some v else LookupEnv k w)"
  by (auto simp: LookupEnv_def Setenv_def map_of_filter_other)

lemma LookupEnv_Unsetenv: "LookupEnv k (Unsetenv j w) = (if k = j then None else LookupEnv k w)"
  by (auto simp: LookupEnv_def Unsetenv_def map_of_filter_other map_of_filter_same)

subsection \<open>What the operations leave alone\<close>

lemma faulty_cases: "faulty oper p w = (Ok (), w) \<or> (\<exists>e. faulty oper p w = (Err e, w))"
  by (auto simp: faulty_def split: option.splits)

lemma keeps_faulty [keeps_intros]: "keeps f (faulty oper p)"
  by (auto simp: keeps_def faulty_def split: option.splits)

lemma keeps_os_read [keeps_intros]:
  "keeps f (os_Stat p)" "keeps f (os_ReadFile p)" "keeps f (os_ReadDir p)" "keeps f (filepath_Abs p)"
  unfolding os_Stat_def os_ReadFile_def os_ReadDir_def filepath_Abs_def
  by (intro keeps_intros; auto simp: keeps_def Let_def split: option.splits node.splits)+

lemma keeps_os_write:
  assumes "\<And>w m. f (w\<lparr>w_fs := m\<rparr>) = f w"
  shows "keeps f (os_WriteFile p c)" "keeps f (os_Mkdir p)" "keeps f (os_MkdirAll p)"
  unfolding os_WriteFile_def os_Mkdir_def os_MkdirAll_def
  by (intro keeps_thenE keeps_faulty; auto simp: keeps_def Let_def assms split: option.splits)+

lemma keeps_os_MkdirTemp:
  assumes "\<And>w m. f (w\<lparr>w_fs := m\<rparr>) = f w" "\<And>w n. f (w\<lparr>w_temps := n\<rparr>) = f w"
  shows "keeps f (os_MkdirTemp d p)"
  unfolding os_MkdirTemp_def
  by (intro keeps_thenE keeps_faulty) (auto simp: keeps_def Let_def assms)

lemma keeps_run_command:
  assumes "\<And>w m l. f (w\<lparr>w_cmds := l, w_fs := m\<rparr>) = f w"
  shows "keeps f (run_command c)"
  by (auto simp: keeps_def run_command_def Let_def assms)

lemma keeps_output_command:
  assumes "\<And>w m l. f (w\<lparr>w_cmds := l, w_fs := m\<rparr>) = f w"
  shows "keeps f (output_command c)"
  unfolding output_command_def by (intro keeps_intros keeps_run_command assms)

subsection \<open>Clean absolute paths\<close>

definition ordinary :: "string \<Rightarrow> bool" where
  "ordinary c = (c \<noteq> [] \<and> c \<noteq> ''.'' \<and> c \<noteq> ''..'' \<and> slash \<notin> set c)"

definition clean_abs :: "string \<Rightarrow> bool" where
  "clean_abs d = (path_comps d \<noteq> [] \<and> list_all ordinary (path_comps d) \<and> d = slash # Join (path_comps d) ''/'')"

lemma path_comps_Join:
  assumes "list_all ordinary cs"
  shows "path_comps (slash # Join cs ''/'') = cs"
proof (cases cs)
  case (Cons c cs')
  with assms have "Split slash (Join cs ''/'') = cs"
    by (intro Split_Join) (auto simp: ordinary_def list_all_iff)
  with assms show ?thesis
    by (simp add: path_comps_def filter_id_conv) (auto simp: ordinary_def list_all_iff)
qed (simp add: path_comps_def)

lemma clean_abs_JoinI: "cs \<noteq> [] \<Longrightarrow> list_all ordinary cs \<Longrightarrow> clean_abs (slash # Join cs ''/'')"
  by (simp add: clean_abs_def path_comps_Join)

lemma foldl_clean_ordinary: "list_all ordinary cs \<Longrightarrow> foldl (clean_step r) st cs = rev cs @ st"
  by (induction cs arbitrary: st) (auto simp: clean_step_def ordinary_def)

lemma clean_absE:
  assumes "clean_abs d"
  obtains cs where "d = slash # Join cs ''/''" "cs \<noteq> []" "list_all ordinary cs" "path_comps d = cs"
  using assms unfolding clean_abs_def by blast

lemma Clean_rooted: "list_all ordinary cs \<Longrightarrow> Clean (slash # Join cs ''/'') = slash # Join cs ''/''"
  by (simp add: Clean_def Let_def clean_comps_def foldl_clean_ordinary path_comps_Join)

lemma Clean_abs: "clean_abs d \<Longrightarrow> Clean d = d"
  by (erule clean_absE) (simp only: Clean_rooted)

lemma Join_snoc: "cs \<noteq> [] \<Longrightarrow> Join (cs @ [n]) sep = Join cs sep @ sep @ n"
proof (induction cs sep rule: Join.induct)
  case (3 x y ys sep)
  then show ?case by simp
qed simp_all

lemma clean_abs_sub:
  assumes "clean_abs d" "ordinary n"
  shows "clean_abs (d @ slash # n)" "path_comps (d @ slash # n) = path_comps d @ [n]"
proof -
  from assms(1) obtain cs where d: "d = slash # Join cs ''/''" "cs \<noteq> []" "list_all ordinary cs" "path_comps d = cs"
    by (rule clean_absE)
  have e: "d @ slash # n = slash # Join (cs @ [n]) ''/''"
    using d(2) by (simp add: Join_snoc d(1))
  have o: "list_all ordinary (cs @ [n])" using assms(2) d(3) by simp
  show "clean_abs (d @ slash # n)" unfolding e by (rule clean_abs_JoinI) (use o in simp_all)
  show "path_comps (d @ slash # n) = path_comps d @ [n]" unfolding e d(4) by (rule path_comps_Join) (rule o)
qed

lemma clean_abs_nonempty: "clean_abs d \<Longrightarrow> d \<noteq> []"
  by (erule clean_absE) simp

lemma clean_abs_prefix: "clean_abs d \<Longrightarrow> HasPrefix d ''/''"
  by (erule clean_absE) simp

lemma PathJoin_sub: "clean_abs d \<Longrightarrow> ordinary n \<Longrightarrow> PathJoin [d, n] = d @ slash # n"
  using Clean_abs [OF clean_abs_sub(1)] by (simp add: PathJoin_def clean_abs_nonempty)

lemma abs_path_clean: "clean_abs d \<Longrightarrow> abs_path w d = d"
  by (simp add: abs_path_def clean_abs_prefix Clean_abs)

lemma IndexByte_append: "d \<notin> set a \<Longrightarrow> IndexByte d (a @ d # b) = Some (length a)"
  by (induction a) auto

lemma Split_trailing: "Split d (s @ [d]) = Split d s @ [[]]"
  by (induction s) (auto split: list.splits)

lemma DirOf_sub: "clean_abs d \<Longrightarrow> ordinary n \<Longrightarrow> DirOf (d @ slash # n) = d"
proof -
  assume d: "clean_abs d" and n: "ordinary n"
  have "LastIndexByte slash (d @ slash # n) = Some (length d)"
    using n IndexByte_append [of slash "rev n" "rev d"] by (simp add: LastIndexByte_def ordinary_def)
  moreover have "path_comps (d @ ''/'') = path_comps d" by (simp add: path_comps_def Split_trailing)
  then have "Clean (d @ ''/'') = Clean d"
    using clean_abs_prefix [OF d] clean_abs_nonempty [OF d] by (auto simp: Clean_def Let_def HasPrefix_iff)
  ultimately show ?thesis using Clean_abs [OF d] by (simp add: DirOf_def)
qed

lemma entry_name_sub: "clean_abs d \<Longrightarrow> entry_name d q = Some n \<longleftrightarrow> q = d @ slash # n \<and> n \<noteq> [] \<and> slash \<notin> set n"
proof -
  assume d: "clean_abs d"
  then obtain cs where cs: "d = slash # Join cs ''/''" "cs \<noteq> []" "list_all ordinary cs" by (rule clean_absE)
  then have "d \<noteq> ''/''"
    by (cases cs; cases "tl cs") (auto simp: ordinary_def)
  then show ?thesis by (auto simp: entry_name_def Let_def HasPrefix_iff)
qed

subsection \<open>Making directories\<close>

lemma clean_abs_comps: "clean_abs d \<Longrightarrow> path_comps d \<noteq> []"
  by (simp add: clean_abs_def)

lemma path_prefixes_clean: "clean_abs d \<Longrightarrow> d \<in> set (path_prefixes d)"
proof -
  assume d: "clean_abs d"
  then obtain cs where cs: "d = slash # Join cs ''/''" "cs \<noteq> []" "path_comps d = cs" by (rule clean_absE)
  let ?i = "length cs - 1"
  have "?i \<in> set [0..<length cs]" "slash # Join (take (Suc ?i) cs) ''/'' = d"
    using cs(1,2) by simp_all
  then show ?thesis
    unfolding path_prefixes_def Let_def cs(3) set_map by (intro image_eqI [of _ _ ?i]) simp_all
qed

lemma mkdirs_result:
  "mkdirs ps m = Some m' \<Longrightarrow> map_of m' q = (if q \<in> set ps then Some DirN else map_of m q)"
proof (induction ps arbitrary: m)
  case (Cons p ps)
  show ?case
  proof (cases "map_of m p")
    case None
    with Cons.prems have "mkdirs ps (fs_put p DirN m) = Some m'" by simp
    from Cons.IH [OF this] show ?thesis by (simp add: map_of_fs_put)
  next
    case (Some n)
    with Cons.prems have m: "mkdirs ps m = Some m'" "n = DirN" by (cases n; simp)+
    from Cons.IH [OF m(1)] Some m(2) show ?thesis by simp
  qed
qed simp

end
