(* ===== verification/Image.thy ===== *)
theory Image
  imports Languages Go_Os
begin

text \<open>
  Building and publishing the docker images of a language: \<open>cmd/build_image.go\<close>,
  \<open>cmd/push_images.go\<close> and \<open>cmd/github.go\<close>. The packages \<open>golang.org/x/mod/semver\<close> and
  \<open>urfave/cli\<close> (the usage text), the clock, the processor and the order in which Go walks a map are
  parameters, the fields of \<open>image_env\<close>; \<open>git\<close> and \<open>docker\<close> are commands of the process.
\<close>

section \<open>The configuration\<close>

record ImageBuildConfig =
  i_Lang :: string
  i_Version :: string
  i_RepoURL :: string
  i_RepoRef :: string
  i_Platform :: string
  i_ImageName :: string
  i_SemverLatest :: string
  i_DryRun :: bool

record buildConfig =
  bc_tags :: "string list"
  bc_labels :: "(string \<times> string) list"
  bc_buildArgs :: "(string \<times> string) list"

record image_env =
  ie_Canonical :: "string \<Rightarrow> string"
  ie_MajorMinor :: "string \<Rightarrow> string"
  ie_Major :: "string \<Rightarrow> string"
  ie_order :: "(string \<times> string) list \<Rightarrow> (string \<times> string) list"
  ie_usage :: "string res"
  ie_now :: string
  ie_GOARCH :: string

text \<open>An error whose text becomes part of another one, without wrapping it.\<close>

definition textE :: "string \<Rightarrow> ('w, 'a) io \<Rightarrow> ('w, 'a) io" where
  "textE f m = (\<lambda>w. case m w of (Err e, w') \<Rightarrow> (Err (Errorf f [error_text e]), w') | x \<Rightarrow> x)"

section \<open>The GitHub environment\<close>

text \<open>\<open>os.OpenFile\<close> with \<open>O_APPEND|O_CREATE|O_WRONLY\<close>, and \<open>Write\<close> on the file it gives.\<close>

definition open_append :: "string \<Rightarrow> ('z world_scheme, unit) io" where
  "open_append p = thenE (faulty ''open'' p)
     (\<lambda>w. let q = abs_path w p in
        if is_dir w q then (Err (External OtherError (''open '' @ p @ '': is a directory'')), w)
        else if map_of (w_fs w) q \<noteq> None then (Ok (), w)
        else if \<not> is_dir w (DirOf q) then (Err (not_exist ''open'' p), w)
        else (Ok (), w\<lparr>w_fs := fs_put q (FileN []) (w_fs w)\<rparr>))"

definition append_bytes :: "string \<Rightarrow> string \<Rightarrow> ('z world_scheme, unit) io" where
  "append_bytes p c = thenE (faulty ''write'' p)
     (\<lambda>w. let q = abs_path w p in
        (Ok (), case map_of (w_fs w) q of
           Some (FileN old) \<Rightarrow> w\<lparr>w_fs := fs_put q (FileN (old @ c)) (w_fs w)\<rparr>
         | _ \<Rightarrow> w))"

text \<open>The deferred \<open>Close\<close>: its error is the result when nothing else failed.\<close>

definition close_file :: "string \<Rightarrow> ('z world_scheme, unit) io \<Rightarrow> ('z world_scheme, unit) io" where
  "close_file p m = (\<lambda>w. case m w of (r, w1) \<Rightarrow>
     (case faulty ''close'' p w1 of (c, w2) \<Rightarrow> (if r = Ok () then c else r, w2)))"

definition env_line :: "string \<Rightarrow> string \<Rightarrow> string" where
  "env_line name val = name @ ''='' @ val @ [newline]"

definition errFileCmdFmt :: string where
  "errFileCmdFmt = ''failed to write to github file: %v''"

definition writeGitHubEnv :: "string \<Rightarrow> string \<Rightarrow> ('z world_scheme, unit) io" where
  "writeGitHubEnv name val = bindE (asks (Getenv ''GITHUB_ENV'')) (\<lambda>p.
     if p = [] then ret ()
     else thenE (textE errFileCmdFmt (open_append p))
       (close_file p (textE errFileCmdFmt (append_bytes p (env_line name val)))))"

section \<open>Git\<close>

definition gitRef :: "string \<Rightarrow> ('z world_scheme, string) io" where
  "gitRef gitDir =
     bindE (output_command ((Command ''git'' [''--git-dir'', gitDir, ''rev-parse'', ''HEAD''])\<lparr>c_stderr := Some Inherited\<rparr>))
       (\<lambda>out. ret (TrimRight out [CHR 0x0D, newline]))"

text \<open>A command that writes to the process's own output.\<close>

definition shown :: "string \<Rightarrow> string list \<Rightarrow> command" where
  "shown exe args = (Command exe args)\<lparr>c_stdout := Some Inherited, c_stderr := Some Inherited\<rparr>"

definition gitClone :: "ImageBuildConfig \<Rightarrow> string \<Rightarrow> ('z world_scheme, string) io" where
  "gitClone c rootDir =
     bindE (of_res (expandLangName (i_Lang c))) (\<lambda>expandedLangName.
       let repoBaseDir = ''sdk-'' @ expandedLangName; targetDir = PathJoin [rootDir, repoBaseDir] in
       thenE (run_command (shown ''git'' [''clone'', ''--recurse-submodules'', i_RepoURL c, targetDir])) (ret repoBaseDir))"

section \<open>Docker\<close>

definition image_name :: "ImageBuildConfig \<Rightarrow> string" where
  "image_name c = (if i_ImageName c = [] then ''features'' else i_ImageName c)"

definition image_tag :: "ImageBuildConfig \<Rightarrow> string \<Rightarrow> string" where
  "image_tag c tag = image_name c @ '':'' @ tag"

definition defaultLabels :: "image_env \<Rightarrow> ImageBuildConfig \<Rightarrow> string \<Rightarrow> string \<Rightarrow> string \<Rightarrow> (string \<times> string) list" where
  "defaultLabels E c repoURL usage ref =
    [(''org.opencontainers.image.created'', ie_now E),
     (''org.opencontainers.image.source'', repoURL),
     (''org.opencontainers.image.vendor'', ''Temporal Technologies Inc.''),
     (''org.opencontainers.image.authors'', ''Temporal SDK team <sdk-team@temporal.io>''),
     (''org.opencontainers.image.licenses'', ''MIT''),
     (''org.opencontainers.image.revision'', ref),
     (''org.opencontainers.image.title'', ''SDK features compliance test suite for '' @ i_Lang c),
     (''org.opencontainers.image.documentation'', usage),
     (''io.temporal.sdk.name'', i_Lang c)]"

definition key_value_args :: "image_env \<Rightarrow> string \<Rightarrow> (string \<times> string) list \<Rightarrow> string list" where
  "key_value_args E flag kvs = concat (map (\<lambda>(k, v). [flag, k @ ''='' @ v]) (ie_order E kvs))"

definition tag_args :: "ImageBuildConfig \<Rightarrow> string list \<Rightarrow> string list" where
  "tag_args c tags = concat (map (\<lambda>tag. if tag \<noteq> [] then [''--tag'', image_tag c tag] else []) tags)"

definition docker_args ::
  "image_env \<Rightarrow> string \<Rightarrow> ImageBuildConfig \<Rightarrow> buildConfig \<Rightarrow> string \<Rightarrow> string \<Rightarrow> string \<Rightarrow> string list" where
  "docker_args E rootDir c b repoURL usage ref =
     [''build'', ''--pull'', ''--file'', ''dockerfiles/'' @ i_Lang c @ ''.Dockerfile''] @
     (if i_Platform c \<noteq> [] then [''--platform'', i_Platform c] else []) @
     [''--build-arg'', ''PLATFORM='' @ (if i_Platform c \<noteq> [] then i_Platform c else ie_GOARCH E)] @
     tag_args c (bc_tags b) @
     key_value_args E ''--label'' (defaultLabels E c repoURL usage ref) @
     key_value_args E ''--label'' (bc_labels b) @
     key_value_args E ''--build-arg'' (bc_buildArgs b) @ [rootDir]"

definition slice_out_of_range :: go_error where
  "slice_out_of_range = External OtherError ''runtime error: index out of range''"

definition dockerBuild ::
  "image_env \<Rightarrow> string \<Rightarrow> ImageBuildConfig \<Rightarrow> buildConfig \<Rightarrow> ('z world_scheme, unit) io" where
  "dockerBuild E rootDir c b =
     bindE (gitRef (PathJoin [rootDir, ''.git''])) (\<lambda>ref.
     let imageTags = map (image_tag c) (bc_tags b) in
     thenE (case imageTags of
         [] \<Rightarrow> panic slice_out_of_range
       | t # _ \<Rightarrow> textE ''writing test image tag to github env failed: %s'' (writeGitHubEnv ''FEATURES_BUILT_IMAGE_TAG'' t))
    (thenE (textE ''writing image tags to github env failed: %s''
         (writeGitHubEnv ''FEATURES_BUILT_IMAGE_TAGS'' (Join imageTags '';'')))
    (bindE (textE ''failed to generate usage string: %s'' (of_res (ie_usage E))) (\<lambda>usage.
     bindE (asks (Getenv ''REPO_URL'')) (\<lambda>url.
     let repoURL = (if url = [] then ''https://github.com/temporalio/features'' else url) in
     if i_DryRun c then ret ()
     else run_command (shown ''docker'' (docker_args E rootDir c b repoURL usage ref)))))))"

section \<open>Building an image\<close>

text \<open>\<open>s[1:]\<close>\<close>

definition slice_tail :: "string \<Rightarrow> string res" where
  "slice_tail s = (case s of [] \<Rightarrow> Panic slice_out_of_range | _ # t \<Rightarrow> Ok t)"

definition lang_tag :: "ImageBuildConfig \<Rightarrow> string \<Rightarrow> ('w, string) io" where
  "lang_tag c version = bindE (of_res (slice_tail version)) (\<lambda>v. ret (i_Lang c @ ''-'' @ v))"

definition version_tags :: "image_env \<Rightarrow> ImageBuildConfig \<Rightarrow> bool \<Rightarrow> string \<Rightarrow> ('w, string list) io" where
  "version_tags E c isPreRelease version =
     bindE (lang_tag c version) (\<lambda>t.
       if i_SemverLatest c = ''minor'' then
         if \<not> isPreRelease then bindE (lang_tag c (ie_MajorMinor E version)) (\<lambda>t1. ret [t, t1]) else ret [t]
       else if i_SemverLatest c = ''major'' then
         if isPreRelease then ret [t, i_Lang c]
         else bindE (lang_tag c (ie_MajorMinor E version)) (\<lambda>t1.
              bindE (lang_tag c (ie_Major E version)) (\<lambda>t2. ret [t, t1, t2, i_Lang c]))
       else if i_SemverLatest c \<noteq> [] then
         fail (Errorf ''unsupported --semver-latest: %s, valid values ('minor' or 'major')'' [i_SemverLatest c])
       else ret [t])"

definition buildFromVersion :: "image_env \<Rightarrow> string \<Rightarrow> ImageBuildConfig \<Rightarrow> ('z world_scheme, unit) io" where
  "buildFromVersion E rootDir c =
     (if \<not> HasPrefix (i_Version c) ''v'' then fail (Errorf (''version must start with '' @ [squote] @ ''v'' @ [squote]) [])
      else let isPreRelease = HasPrefix (i_Version c) ''v0''; canonical = ie_Canonical E (i_Version c) in
      bindE (if canonical \<noteq> ''none'' \<and> canonical \<noteq> [] then ret canonical
             else if isPreRelease then ret (i_Version c)
             else fail (Errorf ''expected version to be valid semver'' [])) (\<lambda>version.
      bindE (version_tags E c isPreRelease version) (\<lambda>tags.
        dockerBuild E rootDir c
          \<lparr>bc_tags = tags, bc_labels = [(''io.temporal.sdk.version'', version)],
           bc_buildArgs = [(''SDK_VERSION'', version), (''REPO_DIR_OR_PLACEHOLDER'', ''main.go'')]\<rparr>)))"

text \<open>What is done in the directory made for the clone.\<close>

definition build_clone :: "image_env \<Rightarrow> string \<Rightarrow> ImageBuildConfig \<Rightarrow> string \<Rightarrow> ('z world_scheme, unit) io" where
  "build_clone E rootDir c tempDir =
     bindE (gitClone c tempDir) (\<lambda>repoBaseDir.
       let repoDir = PathJoin [Base tempDir, repoBaseDir] in
       bindE (gitRef (PathJoin [tempDir, repoBaseDir, ''.git''])) (\<lambda>repoRef.
         dockerBuild E rootDir c
           \<lparr>bc_tags = [i_Lang c @ ''-'' @ i_RepoRef c],
            bc_labels = [(''io.temporal.sdk.repo-url'', i_RepoURL c), (''io.temporal.sdk.repo-ref'', repoRef)],
            bc_buildArgs = [(''SDK_VERSION'', PathJoin [''/app'', repoDir]), (''REPO_DIR_OR_PLACEHOLDER'', repoDir)]\<rparr>))"

definition buildFromRepo :: "image_env \<Rightarrow> string \<Rightarrow> ImageBuildConfig \<Rightarrow> ('z world_scheme, unit) io" where
  "buildFromRepo E rootDir c0 =
     bindE (if i_RepoURL c0 = [] then bindE (of_res (defaultRepoURL (i_Lang c0))) (\<lambda>u. ret (c0\<lparr>i_RepoURL := u\<rparr>))
            else ret c0) (\<lambda>c.
     bindE (os_MkdirTemp rootDir ''cloned-repo-'') (\<lambda>tempDir.
       deferE (os_RemoveAll tempDir) (build_clone E rootDir c tempDir)))"

definition BuildImage :: "image_env \<Rightarrow> string \<Rightarrow> ImageBuildConfig \<Rightarrow> ('z world_scheme, unit) io" where
  "BuildImage E rootDir c =
     bindE (of_res (normalizeLangName (i_Lang c))) (\<lambda>lang. let c = c\<lparr>i_Lang := lang\<rparr> in
       if i_RepoRef c \<noteq> [] then
         if i_Version c \<noteq> [] then fail (Errorf ''version and repo-ref are mutually exclusive'' [])
         else buildFromRepo E rootDir c
       else if i_Version c \<noteq> [] then buildFromVersion E rootDir c
       else fail (Errorf ''either version or repo-ref is required'' []))"

section \<open>Publishing\<close>

definition push_as :: "string \<Rightarrow> string \<Rightarrow> string" where
  "push_as repoPrefix tag = repoPrefix @ ''/'' @ tag"

definition publishImages :: "string \<Rightarrow> ('z world_scheme, unit) io" where
  "publishImages repoPrefix =
     bindE (asks (\<lambda>w. Split (CHR '';'') (Getenv ''FEATURES_BUILT_IMAGE_TAGS'' w))) (\<lambda>tagsFromEnv.
       if tagsFromEnv = [] then fail (Errorf ''no image tags found in FEATURES_BUILT_IMAGE_TAGS'' [])
       else
         thenE (for_each (\<lambda>tag. wrapE ''failed to tag docker image: %w'' []
             (run_command (shown ''docker'' [''tag'', tag, push_as repoPrefix tag]))) tagsFromEnv)
           (for_each (\<lambda>tag. wrapE ''failed to push docker image: %w'' []
             (run_command (shown ''docker'' [''push'', tag]))) (map (push_as repoPrefix) tagsFromEnv)))"

section \<open>Lemmas\<close>

lemma keeps_textE [keeps_intros]: "keeps f m \<Longrightarrow> keeps f (textE t m)"
  by (auto simp: keeps_def textE_def split: res.splits prod.splits)
    (metis snd_conv)+

lemma textE_Ok: "textE t m w = (Ok a, w') \<longleftrightarrow> m w = (Ok a, w')"
  by (auto simp: textE_def split: res.splits prod.splits)

lemma keeps_close_file [keeps_intros]: "keeps f m \<Longrightarrow> keeps f (close_file p m)"
  using keeps_faulty [of f "''close''" p] by (auto simp: keeps_def close_file_def split: prod.splits) (metis snd_conv)+

lemma keeps_append:
  assumes "\<And>w m. f (w\<lparr>w_fs := m\<rparr>) = f w"
  shows "keeps f (open_append p)" "keeps f (append_bytes p c)"
  unfolding open_append_def append_bytes_def
  by (intro keeps_thenE keeps_faulty; auto simp: keeps_def Let_def assms split: option.splits node.splits)+

lemma keeps_writeGitHubEnv:
  assumes "\<And>w m. f (w\<lparr>w_fs := m\<rparr>) = f w"
  shows "keeps f (writeGitHubEnv name val)"
  unfolding writeGitHubEnv_def by (intro keeps_intros keeps_append assms)

subsection \<open>Commands in sequence\<close>

lemma run_each:
  assumes "for_each (\<lambda>x. wrapE f [] (run_command (g x))) xs w = (r, w')"
  shows "\<exists>k \<le> length xs. w_cmds w' = w_cmds w @ map g (take k xs) \<and>
    (case r of Ok _ \<Rightarrow> k = length xs | Err _ \<Rightarrow> 0 < k | Panic _ \<Rightarrow> False)"
  using assms
proof (induction xs arbitrary: w)
  case Nil
  then show ?case by (auto simp: ret_def)
next
  case (Cons x xs)
  obtain w1 where w1: "run_command (g x) w = (case x_exec w (length (w_cmds w)) (g x) of None \<Rightarrow> Ok () | Some e \<Rightarrow> Err e, w1)"
    "w_cmds w1 = w_cmds w @ [g x]"
    by (auto simp: run_command_def Let_def)
  show ?case
  proof (cases "x_exec w (length (w_cmds w)) (g x)")
    case None
    with Cons.prems w1 have "for_each (\<lambda>x. wrapE f [] (run_command (g x))) xs w1 = (r, w')"
      by (simp add: io_defs)
    from Cons.IH [OF this] obtain k where "k \<le> length xs" "w_cmds w' = w_cmds w1 @ map g (take k xs)"
      "case r of Ok _ \<Rightarrow> k = length xs | Err _ \<Rightarrow> 0 < k | Panic _ \<Rightarrow> False"
      by auto
    then show ?thesis using w1(2) by (intro exI [of _ "Suc k"]) (auto split: res.splits)
  next
    case (Some e)
    with Cons.prems w1 have "r = Err (Wrapf f [] e)" "w' = w1" by (auto simp: io_defs)
    then show ?thesis using w1(2) by (intro exI [of _ 1]) auto
  qed
qed

text \<open>What publishing some tags runs when nothing fails: all are named anew before the first is pushed.\<close>

definition publish_plan :: "string \<Rightarrow> string list \<Rightarrow> command list" where
  "publish_plan repoPrefix tags =
     map (\<lambda>t. shown ''docker'' [''tag'', t, push_as repoPrefix t]) tags @
     map (\<lambda>t. shown ''docker'' [''push'', push_as repoPrefix t]) tags"

definition published :: "string \<Rightarrow> string list \<Rightarrow> 'z world_scheme \<Rightarrow> unit res \<times> 'z world_scheme \<Rightarrow> bool" where
  "published repoPrefix tags w out = (let plan = publish_plan repoPrefix tags in
     case out of
       (Ok _, w') \<Rightarrow> w_cmds w' = w_cmds w @ plan
     | (Err _, w') \<Rightarrow> (\<exists>k. 0 < k \<and> k \<le> length plan \<and> w_cmds w' = w_cmds w @ take k plan)
     | (Panic _, w') \<Rightarrow> False)"

lemma publishImages_published:
  assumes "Split (CHR '';'') (Getenv ''FEATURES_BUILT_IMAGE_TAGS'' w) = tags"
  shows "published repoPrefix tags w (publishImages repoPrefix w)"
proof -
  have ne: "tags \<noteq> []" using assms by auto
  let ?t = "\<lambda>t. shown ''docker'' [''tag'', t, push_as repoPrefix t]"
  let ?p = "\<lambda>t. shown ''docker'' [''push'', t]"
  obtain r1 w1 where r1: "for_each (\<lambda>t. wrapE ''failed to tag docker image: %w'' [] (run_command (?t t))) tags w = (r1, w1)"
    by (rule prod.exhaust)
  obtain r2 w2 where r2: "for_each (\<lambda>t. wrapE ''failed to push docker image: %w'' [] (run_command (?p t)))
      (map (push_as repoPrefix) tags) w1 = (r2, w2)"
    by (rule prod.exhaust)
  from run_each [OF r1] obtain k where k: "k \<le> length tags" "w_cmds w1 = w_cmds w @ map ?t (take k tags)"
    "case r1 of Ok _ \<Rightarrow> k = length tags | Err _ \<Rightarrow> 0 < k | Panic _ \<Rightarrow> False" by auto
  from run_each [OF r2, unfolded length_map] obtain j where j: "j \<le> length tags"
    "w_cmds w2 = w_cmds w1 @ map ?p (take j (map (push_as repoPrefix) tags))"
    "case r2 of Ok _ \<Rightarrow> j = length tags | Err _ \<Rightarrow> 0 < j | Panic _ \<Rightarrow> False" by blast
  have pub: "publishImages repoPrefix w = (case r1 of Ok _ \<Rightarrow> (r2, w2) | Err e \<Rightarrow> (Err e, w1) | Panic e \<Rightarrow> (Panic e, w1))"
    using ne r1 r2 assms by (auto simp: publishImages_def io_defs split: res.splits)
  show ?thesis
  proof (cases r1)
    case (Ok u)
    then show ?thesis
      using k j by (auto simp: pub published_def publish_plan_def Let_def take_map o_def split: res.splits
          intro!: exI [of _ "length tags + j"])
  next
    case (Err e)
    then show ?thesis
      using k by (auto simp: pub published_def publish_plan_def Let_def take_map intro!: exI [of _ k])
  qed (use k in simp)
qed

subsection \<open>The environment file\<close>

definition content_at :: "'z world_scheme \<Rightarrow> string \<Rightarrow> string" where
  "content_at w p = (case fs_at w p of Some (FileN c) \<Rightarrow> c | _ \<Rightarrow> [])"

text \<open>What writing to a file and running a command both leave alone.\<close>

definition setting :: "'z world_scheme \<Rightarrow> string \<times> (string \<times> string) list \<times> (string \<Rightarrow> string \<Rightarrow> go_error option) \<times>
    (nat \<Rightarrow> command \<Rightarrow> fs \<Rightarrow> fs)" where
  "setting w = (w_cwd w, w_env w, x_fault w, x_exec_fs w)"

lemma setting_upd [simp]:
  "setting (w\<lparr>w_fs := m\<rparr>) = setting w" "setting (w\<lparr>w_cmds := l\<rparr>) = setting w"
  "setting (w\<lparr>w_temps := n\<rparr>) = setting w"
  by (simp_all add: setting_def)

lemma settingD:
  "setting w' = setting w \<Longrightarrow> abs_path w' p = abs_path w p \<and> Getenv k w' = Getenv k w \<and> x_fault w' = x_fault w \<and> x_exec_fs w' = x_exec_fs w"
  by (simp add: setting_def abs_path_def Getenv_def LookupEnv_def)

lemma faulty_Ok: "faulty oper p w = (Ok (), w') \<longleftrightarrow> x_fault w oper p = None \<and> w' = w"
  by (auto simp: faulty_def split: option.splits)

lemma open_append_Ok:
  assumes "open_append p w = (Ok (), w')"
  shows "fs_at w' p = Some (FileN (content_at w p)) \<and> w_cmds w' = w_cmds w \<and> setting w' = setting w"
  using assms
  by (auto simp: open_append_def thenE_Ok_iff faulty_Ok Let_def fs_at_def content_at_def is_dir_def map_of_fs_put
      split: if_splits node.splits option.splits)

lemma append_bytes_Ok:
  assumes "append_bytes p c w = (Ok (), w')" "fs_at w p = Some (FileN old)"
  shows "fs_at w' p = Some (FileN (old @ c)) \<and> w_cmds w' = w_cmds w \<and> setting w' = setting w"
  using assms by (auto simp: append_bytes_def thenE_Ok_iff faulty_Ok Let_def fs_at_def map_of_fs_put)

lemma close_file_Ok: "close_file p m w = (Ok (), w') \<Longrightarrow> m w = (Ok (), w')"
  by (auto simp: close_file_def faulty_def split: prod.splits if_splits option.splits)

lemma writeGitHubEnv_Ok:
  assumes "writeGitHubEnv name val w = (Ok (), w')" "Getenv ''GITHUB_ENV'' w = p" "p \<noteq> []"
  shows "fs_at w' p = Some (FileN (content_at w p @ env_line name val)) \<and> w_cmds w' = w_cmds w \<and> setting w' = setting w"
proof -
  from assms obtain w1 where o: "open_append p w = (Ok (), w1)"
    and a: "close_file p (textE errFileCmdFmt (append_bytes p (env_line name val))) w1 = (Ok (), w')"
    by (auto simp: writeGitHubEnv_def thenE_Ok_iff textE_Ok)
  from open_append_Ok [OF o] append_bytes_Ok [OF close_file_Ok [OF a, unfolded textE_Ok]]
  show ?thesis by simp
qed

lemma run_command_Ok:
  "run_command c w = (Ok (), w') \<Longrightarrow> w_cmds w' = w_cmds w @ [c] \<and> w_fs w' = x_exec_fs w (length (w_cmds w)) c (w_fs w) \<and> setting w' = setting w"
  by (auto simp: run_command_def Let_def split: option.splits)

lemma gitRef_Ok:
  assumes "gitRef d w = (Ok ref, w')"
  shows "\<exists>c. w_cmds w' = w_cmds w @ [c] \<and> w_fs w' = x_exec_fs w (length (w_cmds w)) c (w_fs w) \<and> setting w' = setting w"
  using assms
  by (auto simp: gitRef_def output_command_def bindE_Ok_iff thenE_Ok_iff ret_def dest!: run_command_Ok)

subsection \<open>A docker build\<close>

definition leave_file :: "'z world_scheme \<Rightarrow> string \<Rightarrow> bool" where
  "leave_file w p = (\<forall>n c m. map_of (x_exec_fs w n c m) (abs_path w p) = map_of m (abs_path w p))"

lemma dockerBuild_Ok:
  assumes "dockerBuild E rootDir c b w = (Ok (), w')" "\<not> i_DryRun c" "ts = map (image_tag c) (bc_tags b)"
    and "Getenv ''GITHUB_ENV'' w = p" "p \<noteq> []" "leave_file w p"
  shows "(\<exists>git ref repoURL usage.
      w_cmds w' = w_cmds w @ [git, shown ''docker'' (docker_args E rootDir c b repoURL usage ref)]) \<and>
    fs_at w' p = Some (FileN (content_at w p @ env_line ''FEATURES_BUILT_IMAGE_TAG'' (hd ts) @
      env_line ''FEATURES_BUILT_IMAGE_TAGS'' (Join ts '';''))) \<and> ts \<noteq> []"
proof -
  let ?l = "env_line ''FEATURES_BUILT_IMAGE_TAG'' (hd ts)"
  let ?d = "\<lambda>ref repoURL usage. shown ''docker'' (docker_args E rootDir c b repoURL usage ref)"
  from assms(1) obtain ref w1 where r: "gitRef (PathJoin [rootDir, ''.git'']) w = (Ok ref, w1)"
    and rest: "thenE (case ts of [] \<Rightarrow> panic slice_out_of_range
         | t # _ \<Rightarrow> textE ''writing test image tag to github env failed: %s'' (writeGitHubEnv ''FEATURES_BUILT_IMAGE_TAG'' t))
      (thenE (textE ''writing image tags to github env failed: %s'' (writeGitHubEnv ''FEATURES_BUILT_IMAGE_TAGS'' (Join ts '';'')))
      (bindE (textE ''failed to generate usage string: %s'' (of_res (ie_usage E))) (\<lambda>usage.
       bindE (asks (Getenv ''REPO_URL'')) (\<lambda>url. run_command
         (?d ref (if url = [] then ''https://github.com/temporalio/features'' else url) usage))))) w1 = (Ok (), w')"
    unfolding dockerBuild_def bindE_Ok_iff Let_def assms(3) using assms(2) by auto
  obtain git where g: "w_cmds w1 = w_cmds w @ [git]" "w_fs w1 = x_exec_fs w (length (w_cmds w)) git (w_fs w)" "setting w1 = setting w"
    using gitRef_Ok [OF r] by auto
  from rest obtain t ts' where ts: "ts = t # ts'"
    by (cases ts) (auto simp: thenE_Ok_iff panic_def)
  from rest obtain w2 w3 usage url where
    a: "writeGitHubEnv ''FEATURES_BUILT_IMAGE_TAG'' t w1 = (Ok (), w2)" and
    b: "writeGitHubEnv ''FEATURES_BUILT_IMAGE_TAGS'' (Join ts '';'') w2 = (Ok (), w3)" and
    d: "run_command (?d ref url usage) w3 = (Ok (), w')"
    unfolding ts by (auto simp: thenE_Ok_iff bindE_Ok_iff textE_Ok of_res_def asks_def)
  note s1 = settingD [OF g(3)]
  have p1: "Getenv ''GITHUB_ENV'' w1 = p" using s1 assms(4) by simp
  note w2 = writeGitHubEnv_Ok [OF a p1 assms(5)]
  have s2: "setting w2 = setting w" using w2 g(3) by simp
  have p2: "Getenv ''GITHUB_ENV'' w2 = p" using settingD [OF s2] assms(4) by simp
  note w3 = writeGitHubEnv_Ok [OF b p2 assms(5)]
  have s3: "setting w3 = setting w" using w3 s2 by simp
  note d' = run_command_Ok [OF d]
  have c1: "content_at w1 p = content_at w p"
    using assms(6) s1 g(2) by (simp add: content_at_def fs_at_def leave_file_def)
  have c2: "content_at w2 p = content_at w p @ ?l"
    using w2 c1 by (simp add: content_at_def ts)
  have c3: "fs_at w3 p = Some (FileN (content_at w p @ ?l @ env_line ''FEATURES_BUILT_IMAGE_TAGS'' (Join ts '';'')))"
    using w3 c2 by simp
  have "fs_at w' p = fs_at w3 p"
    using assms(6) settingD [OF s3] settingD [of w' w3 p] d' by (simp add: fs_at_def leave_file_def)
  moreover have "w_cmds w' = w_cmds w @ [git, ?d ref url usage]" using d' w3 w2 g(1) by simp
  ultimately show ?thesis using c3 ts by auto
qed

lemma tag_args_named: "list_all (\<lambda>t. t \<noteq> []) tags \<Longrightarrow> tag_args c tags = concat (map (\<lambda>t. [''--tag'', t]) (map (image_tag c) tags))"
  by (induction tags) (simp_all add: tag_args_def)

lemma docker_args_tags: "\<exists>pre post. docker_args E rootDir c b repoURL usage ref = pre @ tag_args c (bc_tags b) @ post"
proof -
  let ?pre = "[''build'', ''--pull'', ''--file'', ''dockerfiles/'' @ i_Lang c @ ''.Dockerfile''] @
     (if i_Platform c \<noteq> [] then [''--platform'', i_Platform c] else []) @
     [''--build-arg'', ''PLATFORM='' @ (if i_Platform c \<noteq> [] then i_Platform c else ie_GOARCH E)]"
  show ?thesis unfolding docker_args_def by (rule exI [of _ ?pre], rule exI) (simp only: append_assoc)
qed

subsection \<open>The clone\<close>

lemma keeps_commands: "keeps setting (run_command c)" "keeps setting (output_command c)"
  by (intro keeps_run_command keeps_output_command; simp add: setting_def)+

lemma keeps_dockerBuild: "keeps setting (dockerBuild E rootDir c b)"
  unfolding dockerBuild_def gitRef_def Let_def
  by (intro keeps_intros keeps_commands keeps_writeGitHubEnv; auto split: list.splits intro!: keeps_intros keeps_writeGitHubEnv)

lemma keeps_clone: "keeps setting (gitClone c d)" "keeps setting (gitRef d)"
  unfolding gitClone_def gitRef_def Let_def by (intro keeps_intros keeps_commands)+

lemma removed_below:
  assumes "x_fault w ''removeall'' d = None" "below (abs_path w d) q"
  shows "map_of (w_fs (os_RemoveAll d w)) q = None"
  using assms by (simp add: os_RemoveAll_def map_of_fs_remove)

lemma deferred_removal:
  assumes "keeps setting m" "setting w1 = setting w" "x_fault w ''removeall'' d = None" "below (abs_path w d) q"
  shows "map_of (w_fs (snd (deferE (os_RemoveAll d) m w1))) q = None"
proof -
  have "setting (snd (m w1)) = setting w" using assms(1,2) by (simp add: keeps_def)
  from settingD [OF this] assms(3,4) have "map_of (w_fs (os_RemoveAll d (snd (m w1)))) q = None"
    by (intro removed_below) simp_all
  then show ?thesis by (cases "m w1") (simp add: deferE_def)
qed

lemma setting_MkdirTemp: "setting (snd (os_MkdirTemp d p w)) = setting w"
  by (rule keeps_os_MkdirTemp [of setting, unfolded keeps_def, rule_format]) simp_all

lemma bindE_of_res:
  "bindE (of_res (Ok a)) k = k a" "bindE (of_res (Err e)) k = fail e" "bindE (of_res (Panic e)) k = panic e"
  by (simp_all add: io_defs fun_eq_iff)

lemma bindE_panic: "bindE (panic e) k = panic e"
  by (simp add: io_defs fun_eq_iff)

lemma bindE_bindE: "bindE (bindE m f) g = bindE m (\<lambda>x. bindE (f x) g)"
  by (auto simp: bindE_def fun_eq_iff split: prod.splits res.splits)

lemma buildFromRepo_removes:
  assumes "os_MkdirTemp rootDir ''cloned-repo-'' w = (Ok d, w0)" "x_fault w ''removeall'' d = None"
    and "below (abs_path w d) q"
  shows "snd (buildFromRepo E rootDir c w) = w \<or> map_of (w_fs (snd (buildFromRepo E rootDir c w))) q = None"
proof -
  have removed: "map_of (w_fs (snd (deferE (os_RemoveAll d) (build_clone E rootDir c d) w0))) q = None" for c
  proof (rule deferred_removal [OF _ _ assms(2,3)])
    show "keeps setting (build_clone E rootDir c d)"
      unfolding build_clone_def Let_def by (intro keeps_bindE keeps_clone keeps_dockerBuild)
    show "setting w0 = setting w" using setting_MkdirTemp [of rootDir "''cloned-repo-''" w] assms(1) by simp
  qed
  have built: "snd (bindE (os_MkdirTemp rootDir ''cloned-repo-'') (\<lambda>tempDir. deferE (os_RemoveAll tempDir) (f tempDir)) w) =
      snd (deferE (os_RemoveAll d) (f d) w0)" for f :: "string \<Rightarrow> ('a world_scheme, unit) io"
    using assms(1) by (simp add: bindE_def)
  show ?thesis
  proof (cases "i_RepoURL c = []")
    case True
    then show ?thesis using removed
      by (cases "defaultRepoURL (i_Lang c)")
        (simp_all add: buildFromRepo_def Let_def built bindE_bindE bindE_of_res bindE_panic, simp_all add: fail_def panic_def)
  next
    case False
    then show ?thesis using removed by (simp add: buildFromRepo_def Let_def built)
  qed
qed

section \<open>Properties\<close>

text \<open>
  What is built is what is published. A docker build that succeeds (not a dry run) names the image with
  all its tags, and appends two lines to the file of the GitHub environment: the first tag and the list
  of all tags. When that list is the value of the variable, publishing names each of these images anew
  under the repository, in order, and then pushes each of the new names, and nothing else; when a command
  fails it stops there. No image is pushed before all are named.
\<close>

lemma published_as_built:
  assumes "dockerBuild E rootDir c b w = (Ok (), w')" "\<not> i_DryRun c"
    and "Getenv ''GITHUB_ENV'' w = p" "p \<noteq> []" "leave_file w p"
    and "\<forall>t \<in> set (bc_tags b). t \<noteq> [] \<and> CHR '';'' \<notin> set t" "CHR '';'' \<notin> set (image_name c)"
  shows "\<exists>t ts val pre post git.
    t # ts = map (image_tag c) (bc_tags b) \<and>
    w_cmds w' = w_cmds w @ [git, shown ''docker'' (pre @ concat (map (\<lambda>t. [''--tag'', t]) (t # ts)) @ post)] \<and>
    fs_at w' p = Some (FileN (content_at w p @ env_line ''FEATURES_BUILT_IMAGE_TAG'' t @ env_line ''FEATURES_BUILT_IMAGE_TAGS'' val)) \<and>
    (\<forall>repoPrefix v. Getenv ''FEATURES_BUILT_IMAGE_TAGS'' (v::world) = val \<longrightarrow>
      published repoPrefix (t # ts) v (publishImages repoPrefix v))"
proof -
  let ?ts = "map (image_tag c) (bc_tags b)"
  from dockerBuild_Ok [OF assms(1,2) refl assms(3-5)] obtain git ref repoURL usage where
    d: "w_cmds w' = w_cmds w @ [git, shown ''docker'' (docker_args E rootDir c b repoURL usage ref)]"
    "fs_at w' p = Some (FileN (content_at w p @ env_line ''FEATURES_BUILT_IMAGE_TAG'' (hd ?ts) @
      env_line ''FEATURES_BUILT_IMAGE_TAGS'' (Join ?ts '';'')))" "?ts \<noteq> []"
    by blast
  from d(3) obtain t ts where ts: "?ts = t # ts" by (cases ?ts) auto
  have args: "\<exists>pre post. docker_args E rootDir c b repoURL usage ref = pre @ concat (map (\<lambda>t. [''--tag'', t]) (t # ts)) @ post"
    using docker_args_tags [of E rootDir c b repoURL usage ref] tag_args_named [of "bc_tags b" c] assms(6)
    unfolding ts [symmetric] by (simp add: list_all_iff)
  have "CHR '';'' \<notin> set x" if "x \<in> set (t # ts)" for x
    using that assms(6,7) unfolding ts [symmetric] by (auto simp: image_tag_def)
  then have "Split (CHR '';'') (Join (t # ts) '';'') = t # ts"
    by (intro Split_Join) auto
  then have "\<forall>repoPrefix v. Getenv ''FEATURES_BUILT_IMAGE_TAGS'' (v::world) = Join (t # ts) '';'' \<longrightarrow>
      published repoPrefix (t # ts) v (publishImages repoPrefix v)"
    by (simp add: publishImages_published)
  moreover from args obtain pre post where
    "docker_args E rootDir c b repoURL usage ref = pre @ concat (map (\<lambda>t. [''--tag'', t]) (t # ts)) @ post" by blast
  ultimately show ?thesis using d(1,2) ts
    by (intro exI [of _ t] exI [of _ ts] exI [of _ "Join (t # ts) '';''"] exI [of _ pre] exI [of _ post] exI [of _ git]) simp
qed

definition plain_image_env :: image_env where
  "plain_image_env = \<lparr>ie_Canonical = id, ie_MajorMinor = (\<lambda>_. ''v1.2''), ie_Major = (\<lambda>_. ''v1''), ie_order = id,
     ie_usage = Ok ''usage'', ie_now = ''2024-01-01T00:00:00Z'', ie_GOARCH = ''amd64''\<rparr>"

definition plain_image_config :: ImageBuildConfig where
  "plain_image_config = \<lparr>i_Lang = ''go'', i_Version = ''v1.2.3'', i_RepoURL = [], i_RepoRef = [], i_Platform = [],
     i_ImageName = [], i_SemverLatest = ''major'', i_DryRun = False\<rparr>"

definition github_world :: world where
  "github_world = (calm_world [(''/env'', FileN ''A=b'')])\<lparr>w_env := [(''GITHUB_ENV'', ''/env'')]\<rparr>"

text \<open>
  C11: a clone does not outlive its build. An image built from a repository leaves nothing at or below the
  directory it cloned into, whichever way the build ends: with an error of git, of docker or of the
  environment file, in a dry run, or with an image. Only a build that is refused before it makes that directory
  does nothing at all.
\<close>

theorem clone_removed:
  assumes "BuildImage E rootDir c w = (r, w')" "i_RepoRef c \<noteq> []"
    and "os_MkdirTemp rootDir ''cloned-repo-'' w = (Ok d, w0)" "x_fault w ''removeall'' d = None"
    and "below (abs_path w d) q"
  shows "w' = w \<or> map_of (w_fs w') q = None"
proof (cases "normalizeLangName (i_Lang c)")
  case (Ok l)
  with assms(1,2) buildFromRepo_removes [OF assms(3-5), of E "c\<lparr>i_Lang := l\<rparr>"] show ?thesis
    by (auto simp: BuildImage_def bindE_of_res Let_def fail_def split: if_splits)
qed (use assms(1) in \<open>auto simp: BuildImage_def bindE_of_res fail_def panic_def\<close>)

definition clone_world :: world where
  "clone_world = (calm_world [(''/r'', DirN)])\<lparr>x_exec_fs := (\<lambda>n c m. if c_exe c = ''git'' \<and> hd (c_args c) = ''clone''
     then fs_put (last (c_args c)) DirN m else m), x_exec := (\<lambda>n c. if c_exe c = ''docker'' then Some (Errorf ''exit status 1'' []) else None)\<rparr>"

theorem clone_removed_witness:
  "\<exists>w'. BuildImage plain_image_env ''/r'' (plain_image_config\<lparr>i_Version := [], i_RepoRef := ''main''\<rparr>) clone_world =
      (Err (Errorf ''exit status 1'' []), w') \<and> map_of (w_fs w') ''/r/cloned-repo-0/sdk-go'' = None"
proof -
  let ?c = "plain_image_config\<lparr>i_Version := [], i_RepoRef := ''main''\<rparr>"
  have "fst (BuildImage plain_image_env ''/r'' ?c clone_world) = Err (Errorf ''exit status 1'' [])" by code_simp
  from fst_res [OF this] obtain w' where
    run: "BuildImage plain_image_env ''/r'' ?c clone_world = (Err (Errorf ''exit status 1'' []), w')" by (rule that)
  have "fst (os_MkdirTemp ''/r'' ''cloned-repo-'' clone_world) = Ok ''/r/cloned-repo-0''" by code_simp
  from fst_res [OF this] obtain w0 where
    tmp: "os_MkdirTemp ''/r'' ''cloned-repo-'' clone_world = (Ok ''/r/cloned-repo-0'', w0)" by (rule that)
  have "length (w_cmds (snd (BuildImage plain_image_env ''/r'' ?c clone_world))) = 4" by code_simp
  then have "length (w_cmds w') = 4" by (simp only: run snd_conv)
  moreover have "length (w_cmds clone_world) = 0" by code_simp
  ultimately have "w' \<noteq> clone_world" by auto
  moreover have "i_RepoRef ?c \<noteq> []" "x_fault clone_world ''removeall'' ''/r/cloned-repo-0'' = None"
    "below (abs_path clone_world ''/r/cloned-repo-0'') ''/r/cloned-repo-0/sdk-go''" by code_simp+
  ultimately show ?thesis using run clone_removed [OF run _ tmp] by blast
qed

end
