(* ===== verification/Run_Args.thy ===== *)
theory Run_Args
  imports Go_Json
begin

text \<open>
  The unit of work that the top-level runner hands to a language harness: \<open>Run\<close>, \<open>RunFeature\<close> and
  \<open>RunFeatureConfig\<close> of \<open>harness/go/cmd/run.go\<close>, their command-line encoding (\<open>ToArgs\<close>,
  \<open>FromArgs\<close>) and the validation of \<open>config.json\<close>.
\<close>

section \<open>Data\<close>

text \<open>
  \<open>DynamicConfig\<close> is a \<open>map[string]any\<close> whose values are JSON values. A Go map is an association list with distinct keys, in the order one iteration visits it.
\<close>

record RunVariantConfig =
  v_Name :: string
  v_DynamicConfig :: "(string \<times> json) list"
  v_Capabilities :: "(string \<times> bool) list"

record RunFeatureConfig =
  c_NoWorkflow :: bool
  c_MinVersion :: string
  c_UnauthedProxyCount :: int
  c_AuthedProxyCount :: int
  c_RunVariants :: "RunVariantConfig list"

record RunFeature =
  f_Dir :: string
  f_TaskQueue :: string
  f_NexusEndpoint :: string
  f_Config :: RunFeatureConfig
  f_VariantName :: string

definition zero_config :: RunFeatureConfig where
  "zero_config = \<lparr>c_NoWorkflow = False, c_MinVersion = [], c_UnauthedProxyCount = 0,
     c_AuthedProxyCount = 0, c_RunVariants = []\<rparr>"

definition SummaryName :: "RunFeature \<Rightarrow> string" where
  "SummaryName f = (if f_VariantName f = [] then f_Dir f else f_Dir f @ ''#'' @ f_VariantName f)"

section \<open>Command-line arguments\<close>

definition feature_arg :: "RunFeature \<Rightarrow> string" where
  "feature_arg f = f_Dir f @ '':'' @ f_TaskQueue f @
     (if f_NexusEndpoint f \<noteq> [] then '':'' @ f_NexusEndpoint f else [])"

definition ToArgs :: "RunFeature list \<Rightarrow> string list" where
  "ToArgs fs = map feature_arg fs"

definition parseRunFeature :: "string \<Rightarrow> RunFeature res" where
  "parseRunFeature arg =
     (case SplitN (CHR '':'') 3 arg of
        d # tq # rest \<Rightarrow>
          Ok \<lparr>f_Dir = d, f_TaskQueue = tq,
              f_NexusEndpoint = (case rest of [] \<Rightarrow> [] | ep # _ \<Rightarrow> ep),
              f_Config = zero_config, f_VariantName = []\<rparr>
      | _ \<Rightarrow> Err (Errorf ''missing task queue'' []))"

text \<open>\<open>FromArgs\<close> appends to the features already there and stops at the first bad argument.\<close>

fun FromArgs :: "RunFeature list \<Rightarrow> string list \<Rightarrow> RunFeature list res" where
  "FromArgs fs [] = Ok fs"
| "FromArgs fs (arg # args) =
     (case parseRunFeature arg of
        Ok f \<Rightarrow> FromArgs (fs @ [f]) args
      | Err e \<Rightarrow> Err (Wrapf ''parsing argument %q: %w'' [arg] e)
      | Panic e \<Rightarrow> Panic e)"

section \<open>Validation\<close>

fun validate_from :: "string list \<Rightarrow> RunVariantConfig list \<Rightarrow> unit res" where
  "validate_from seen [] = Ok ()"
| "validate_from seen (v # vs) =
     (if v_Name v = [] then Err (Errorf ''runVariants entries must have a non-empty name'' [])
      else if v_Name v \<in> set seen then Err (Errorf ''duplicate run variant name %q'' [v_Name v])
      else validate_from (v_Name v # seen) vs)"

definition Validate :: "RunFeatureConfig \<Rightarrow> unit res" where
  "Validate c = validate_from [] (c_RunVariants c)"

section \<open>Lemmas\<close>

lemmas splitn3 = SplitN_step [where n = "Suc 0", folded numeral_3_eq_3]
  SplitN_step [where n = 0] SplitN_free

lemma parse_feature_arg:
  assumes "CHR '':'' \<notin> set (f_Dir f)" and "CHR '':'' \<notin> set (f_TaskQueue f)"
  shows "parseRunFeature (feature_arg f) = Ok (f\<lparr>f_Config := zero_config, f_VariantName := []\<rparr>)"
  using assms by (simp add: parseRunFeature_def feature_arg_def splitn3)

lemma validate_from_Ok:
  "validate_from seen vs = Ok () \<longleftrightarrow>
     distinct (map v_Name vs) \<and> [] \<notin> set (map v_Name vs) \<and> set seen \<inter> set (map v_Name vs) = {}"
  by (induction seen vs rule: validate_from.induct) auto

text \<open>
  The features a runner passes to a language harness on its command line arrive there: decoding
  the encoded arguments gives back every feature's directory, task queue and Nexus endpoint, in
  order, after those already present (the configuration and the variant name are not transmitted).
  A directory and a task queue without a colon are all it takes; the endpoint may contain one.
\<close>

lemma run_args_roundtrip:
  assumes "\<forall>f \<in> set fs. CHR '':'' \<notin> set (f_Dir f) \<and> CHR '':'' \<notin> set (f_TaskQueue f)"
  shows "FromArgs pre (ToArgs fs) =
    Ok (pre @ map (\<lambda>f. f\<lparr>f_Config := zero_config, f_VariantName := []\<rparr>) fs)"
  using assms
  by (induction fs arbitrary: pre) (auto simp: ToArgs_def parse_feature_arg)

end
