(* ===== verification/Feature_Config.thy ===== *)
theory Feature_Config
  imports Run_Args Go_Os
begin

text \<open>
  What a feature's \<open>config.json\<close> asks of the runner: its decoding (\<open>RunFeatureConfig.LoadFromDir\<close> of
  \<open>harness/go/cmd/run.go\<close>), the environment variable that tells a harness which namespace
  capabilities to expect (\<open>cmd/env.go\<close>) and the dynamic configuration of the dev server
  (\<open>Runner.dynamicConfigArgs\<close> of \<open>cmd/run.go\<close>). Decoding YAML is a parameter.
\<close>

section \<open>Decoding\<close>

definition decode_variant :: "json \<Rightarrow> RunVariantConfig res" where
  "decode_variant j = decode_struct (\<lambda>k v r.
     if fold_eq k ''name'' then set_string (\<lambda>s r. r\<lparr>v_Name := s\<rparr>) v r
     else if fold_eq k ''dynamicConfig''
       then set_field (\<lambda>j. decode_map (\<lambda>x. Ok (decode_any x)) j (v_DynamicConfig r))
              (\<lambda>m r. r\<lparr>v_DynamicConfig := m\<rparr>) v r
     else if fold_eq k ''expectNamespaceCapabilities''
       then set_field (\<lambda>j. decode_map decode_bool j (v_Capabilities r)) (\<lambda>m r. r\<lparr>v_Capabilities := m\<rparr>) v r
     else Ok r) j \<lparr>v_Name = [], v_DynamicConfig = [], v_Capabilities = []\<rparr>"

definition decode_go_config :: "json \<Rightarrow> RunFeatureConfig \<Rightarrow> RunFeatureConfig res" where
  "decode_go_config = decode_struct (\<lambda>k v r.
     if fold_eq k ''minVersion'' then set_string (\<lambda>s r. r\<lparr>c_MinVersion := s\<rparr>) v r else Ok r)"

definition decode_config :: "json \<Rightarrow> RunFeatureConfig \<Rightarrow> RunFeatureConfig res" where
  "decode_config = decode_struct (\<lambda>k v r.
     if fold_eq k ''noWorkflow'' then set_bool (\<lambda>b r. r\<lparr>c_NoWorkflow := b\<rparr>) v r
     else if fold_eq k ''go'' then decode_go_config v r
     else if fold_eq k ''expectUnauthedProxyCount'' then set_int (\<lambda>i r. r\<lparr>c_UnauthedProxyCount := i\<rparr>) v r
     else if fold_eq k ''expectAuthedProxyCount'' then set_int (\<lambda>i r. r\<lparr>c_AuthedProxyCount := i\<rparr>) v r
     else if fold_eq k ''runVariants''
       then set_field (decode_slice decode_variant) (\<lambda>vs r. r\<lparr>c_RunVariants := vs\<rparr>) v r
     else Ok r)"

definition Unmarshal_config :: "string \<Rightarrow> RunFeatureConfig \<Rightarrow> RunFeatureConfig res" where
  "Unmarshal_config b r =
     (case parse_res b of Ok j \<Rightarrow> decode_config j r | Err e \<Rightarrow> Err e | Panic e \<Rightarrow> Panic e)"

text \<open>A missing file leaves the zero configuration; what was loaded is validated.\<close>

definition LoadFromDir :: "string \<Rightarrow> ('z world_scheme, RunFeatureConfig) io" where
  "LoadFromDir dir =
     bindE (attempt (os_ReadFile (PathJoin [dir, ''config.json'']))) (\<lambda>rd.
     bindE (case rd of
              Inl e \<Rightarrow> if has_kind NotExist e then ret zero_config else fail e
            | Inr b \<Rightarrow> of_res (Unmarshal_config b zero_config)) (\<lambda>c.
     thenE (of_res (Validate c)) (ret c)))"

section \<open>Namespace capabilities in the environment\<close>

definition featureNamespaceCapabilitiesEnv :: string where
  "featureNamespaceCapabilitiesEnv = ''FEATURE_NAMESPACE_CAPABILITIES''"

text \<open>A map is marshalled with its keys sorted.\<close>

definition map_json :: "('a \<Rightarrow> json) \<Rightarrow> (string \<times> 'a) list \<Rightarrow> json" where
  "map_json f m = JObj (map (\<lambda>k. (k, f (the (map_of m k)))) (sort (map fst m)))"

definition namespaceCapabilitiesEnv :: "(string \<times> bool) list \<Rightarrow> string" where
  "namespaceCapabilitiesEnv caps = (if caps = [] then [] else Marshal (map_json JBool caps))"

definition capabilities_entry :: "string \<Rightarrow> string" where
  "capabilities_entry j = featureNamespaceCapabilitiesEnv @ ''='' @ j"

definition applyNamespaceCapabilitiesEnv :: "'z world_scheme \<Rightarrow> command \<Rightarrow> string \<Rightarrow> command" where
  "applyNamespaceCapabilitiesEnv w cmd j =
     (if j = [] then cmd
      else let env = (if c_env cmd = [] then Environ w else c_env cmd) in
        cmd\<lparr>c_env := filter (\<lambda>e. \<not> HasPrefix e (capabilities_entry [])) env @ [capabilities_entry j]\<rparr>)"

text \<open>Setting the variable of this process returns the function that restores it.\<close>

definition setNamespaceCapabilitiesEnv ::
  "string \<Rightarrow> 'z world_scheme \<Rightarrow> ('z world_scheme \<Rightarrow> 'z world_scheme) \<times> 'z world_scheme" where
  "setNamespaceCapabilitiesEnv j w =
     (if j = [] then (id, w)
      else ((case LookupEnv featureNamespaceCapabilitiesEnv w of
               Some old \<Rightarrow> Setenv featureNamespaceCapabilitiesEnv old
             | None \<Rightarrow> Unsetenv featureNamespaceCapabilitiesEnv),
            Setenv featureNamespaceCapabilitiesEnv j w))"

section \<open>Dynamic configuration\<close>

record dynamicConfigValue =
  dc_Constraints :: "(string \<times> json) list"
  dc_Value :: json

definition dc_flag :: string where
  "dc_flag = ''--dynamic-config-value''"

fun value_args :: "string \<Rightarrow> dynamicConfigValue list \<Rightarrow> string list res" where
  "value_args k [] = Ok []"
| "value_args k (v # vs) =
     (case MarshalE (dc_Value v) of
        Ok t \<Rightarrow> (case value_args k vs of
                  Ok as \<Rightarrow> Ok (dc_flag # (k @ ''='' @ t) # as) | Err e \<Rightarrow> Err e | Panic e \<Rightarrow> Panic e)
      | Err e \<Rightarrow> Err (Wrapf ''unable to marshal dynamic config value %s: %w'' [k] e)
      | Panic e \<Rightarrow> Panic e)"

fun key_args :: "(string \<times> dynamicConfigValue list) list \<Rightarrow> string list \<Rightarrow> string list res" where
  "key_args m [] = Ok []"
| "key_args m (k # ks) =
     (case value_args k (the (map_of m k)) of
        Ok as \<Rightarrow> (case key_args m ks of Ok bs \<Rightarrow> Ok (as @ bs) | Err e \<Rightarrow> Err e | Panic e \<Rightarrow> Panic e)
      | Err e \<Rightarrow> Err e
      | Panic e \<Rightarrow> Panic e)"

text \<open>The overrides replace whatever the file says on their keys.\<close>

definition override_values ::
  "(string \<times> json) list \<Rightarrow> (string \<times> dynamicConfigValue list) list \<Rightarrow> (string \<times> dynamicConfigValue list) list" where
  "override_values os m = foldl (\<lambda>m (k, v). map_put k [\<lparr>dc_Constraints = [], dc_Value = v\<rparr>] m) m os"

definition dynamicConfigArgs ::
  "(string \<Rightarrow> (string \<times> dynamicConfigValue list) list res) \<Rightarrow> string \<Rightarrow> (string \<times> json) list
     \<Rightarrow> ('z world_scheme, string list) io" where
  "dynamicConfigArgs yaml_Unmarshal rootDir overrides =
     bindE (attempt (os_ReadFile (PathJoin [rootDir, ''dockerfiles'', ''dynamicconfig'', ''docker.yaml'']))) (\<lambda>rd.
     bindE (case rd of
              Inl e \<Rightarrow> if has_kind NotExist e then ret [] else fail (Wrapf ''unable to read dynamic config: %w'' [] e)
            | Inr b \<Rightarrow> if b = [] then ret []
                       else wrapE ''unable to decode dynamic config: %w'' [] (of_res (yaml_Unmarshal b))) (\<lambda>m.
     let m' = override_values overrides m in
     of_res (key_args m' (sort (map fst m')))))"

section \<open>Lemmas\<close>

subsection \<open>Loading\<close>

lemma keeps_LoadFromDir [keeps_intros]: "keeps f (LoadFromDir d)"
  unfolding LoadFromDir_def
  by (intro keeps_bindE keeps_attempt keeps_os_read keeps_thenE keeps_pure)
    (auto intro: keeps_pure split: sum.splits)

lemma LoadFromDir_valid:
  "LoadFromDir d w = (Ok c, w') \<Longrightarrow> Validate c = Ok ()"
  by (auto simp: LoadFromDir_def bindE_Ok_iff thenE_Ok_iff of_res_def ret_def)

subsection \<open>Dynamic configuration\<close>

definition pair_args :: "(string \<times> string) list \<Rightarrow> string list" where
  "pair_args ps = concat (map (\<lambda>(k, t). [dc_flag, k @ ''='' @ t]) ps)"

definition key_pairs :: "(string \<times> dynamicConfigValue list) list \<Rightarrow> string \<Rightarrow> (string \<times> string) list" where
  "key_pairs m k = map (\<lambda>v. (k, Marshal (dc_Value v))) (the (map_of m k))"

lemma value_args_Ok: "value_args k vs = Ok as \<Longrightarrow> as = pair_args (map (\<lambda>v. (k, Marshal (dc_Value v))) vs)"
  by (induction vs arbitrary: as) (auto simp: pair_args_def MarshalE_def split: res.splits if_splits)

lemma key_args_Ok: "key_args m ks = Ok as \<Longrightarrow> as = pair_args (concat (map (key_pairs m) ks))"
  by (induction ks arbitrary: as)
    (auto simp: pair_args_def key_pairs_def dest!: value_args_Ok split: res.splits)

lemma filter_key_pairs:
  "distinct ks \<Longrightarrow> filter (\<lambda>p. fst p = k) (concat (map (key_pairs m) ks)) = (if k \<in> set ks then key_pairs m k else [])"
proof (induction ks)
  case (Cons j ks)
  have "filter (\<lambda>p. fst p = k) (key_pairs m j) = (if j = k then key_pairs m j else [])"
    by (auto simp: key_pairs_def filter_id_conv filter_empty_conv)
  with Cons show ?case by auto
qed simp

lemma sorted_key_pairs: "sorted ks \<Longrightarrow> sorted (map fst (concat (map (key_pairs m) ks)))"
proof (induction ks)
  case (Cons j ks)
  have "map fst (key_pairs m j) = replicate (length (the (map_of m j))) j"
    by (simp add: key_pairs_def comp_def map_replicate_const)
  moreover have "\<forall>p \<in> set (concat (map (key_pairs m) ks)). fst p \<in> set ks"
    by (auto simp: key_pairs_def)
  ultimately show ?case using Cons by (auto simp: sorted_append)
qed simp

lemma map_of_override_values:
  "distinct (map fst os) \<Longrightarrow> map_of (override_values os m) k =
     (case map_of os k of Some v \<Rightarrow> Some [\<lparr>dc_Constraints = [], dc_Value = v\<rparr>] | None \<Rightarrow> map_of m k)"
proof (induction os arbitrary: m)
  case (Cons p os)
  obtain j v where p: "p = (j, v)" by force
  with Cons.prems have "map_of os j = None" by (simp add: map_of_eq_None_iff)
  with Cons p show ?case
    by (auto simp: override_values_def map_of_map_put split: option.splits)
qed (simp add: override_values_def)

lemma distinct_override_values:
  "distinct (map fst m) \<Longrightarrow> distinct (map fst (override_values os m))"
  by (induction os arbitrary: m) (auto simp: override_values_def distinct_map_put)

lemma keys_override_values: "k \<in> set (map fst (override_values os m)) \<longleftrightarrow> k \<in> fst ` set os \<or> k \<in> fst ` set m"
proof (induction os arbitrary: m)
  case (Cons p os)
  have "fst ` set (map_put (fst p) x m) = insert (fst p) (fst ` set m)" for x :: "dynamicConfigValue list"
    by (force simp: map_put_def)
  with Cons show ?case by (auto simp: override_values_def case_prod_unfold)
qed (simp add: override_values_def)

text \<open>The values the base file gives, when it can be read.\<close>

definition base_config ::
  "(string \<Rightarrow> (string \<times> dynamicConfigValue list) list res) \<Rightarrow> string \<Rightarrow> 'z world_scheme
     \<Rightarrow> (string \<times> dynamicConfigValue list) list" where
  "base_config yaml rootDir w =
     (case fs_at w (PathJoin [rootDir, ''dockerfiles'', ''dynamicconfig'', ''docker.yaml'']) of
        Some (FileN b) \<Rightarrow> if b = [] then [] else (case yaml b of Ok m \<Rightarrow> m | _ \<Rightarrow> [])
      | _ \<Rightarrow> [])"

lemma dynamicConfigArgs_Ok:
  assumes "dynamicConfigArgs yaml rootDir os w = (Ok as, w')" and "\<forall>p. x_fault w ''open'' p = None"
  shows "key_args (override_values os (base_config yaml rootDir w))
    (sort (map fst (override_values os (base_config yaml rootDir w)))) = Ok as"
  using assms
  by (auto simp: dynamicConfigArgs_def base_config_def os_ReadFile_def faulty_def io_defs has_kind_def not_exist_def Let_def
      split: option.splits node.splits res.splits if_splits sum.splits prod.splits)

text \<open>
  The dev server of a variant gets exactly the configuration the variant asks for. The arguments
  are pairs of the flag and \<open>key=value\<close>, sorted by key; a key the variant overrides occurs once, with
  the overriding value, whatever the base file says about it; every other key has the values of the
  base file, in their order, and nothing else occurs.
\<close>

lemma dynamic_config_args:
  assumes "dynamicConfigArgs yaml rootDir os w = (Ok as, w')"
    and "distinct (map fst os)"
    and "\<forall>b m. yaml b = Ok m \<longrightarrow> distinct (map fst m)"
    and "\<forall>p. x_fault w ''open'' p = None"
  shows "\<exists>ps. as = pair_args ps \<and> sorted (map fst ps) \<and>
    (\<forall>k. filter (\<lambda>p. fst p = k) ps =
       (case map_of os k of
          Some v \<Rightarrow> [(k, Marshal v)]
        | None \<Rightarrow> (case map_of (base_config yaml rootDir w) k of
                    Some vs \<Rightarrow> map (\<lambda>v. (k, Marshal (dc_Value v))) vs
                  | None \<Rightarrow> [])))"
proof -
  let ?b = "base_config yaml rootDir w"
  let ?m = "override_values os ?b"
  let ?ps = "concat (map (key_pairs ?m) (sort (map fst ?m)))"
  have d: "distinct (map fst ?b)"
    using assms(3) by (auto simp: base_config_def split: option.splits node.splits res.splits)
  have "distinct (sort (map fst ?m))"
    using distinct_override_values [OF d] by simp
  then have f: "filter (\<lambda>p. fst p = k) ?ps = (if k \<in> set (map fst ?m) then key_pairs ?m k else [])" for k
    by (simp add: filter_key_pairs)
  have "(k \<in> set (map fst ?m)) = (map_of ?m k \<noteq> None)" for k
    by (simp add: map_of_eq_None_iff)
  then have "filter (\<lambda>p. fst p = k) ?ps =
       (case map_of os k of
          Some v \<Rightarrow> [(k, Marshal v)]
        | None \<Rightarrow> (case map_of ?b k of Some vs \<Rightarrow> map (\<lambda>v. (k, Marshal (dc_Value v))) vs | None \<Rightarrow> []))" for k
    unfolding f by (auto simp: key_pairs_def map_of_override_values [OF assms(2)] split: option.splits)
  moreover have "as = pair_args ?ps"
    using dynamicConfigArgs_Ok [OF assms(1,4)] by (rule key_args_Ok)
  moreover have "sorted (map fst ?ps)" by (rule sorted_key_pairs) simp
  ultimately show ?thesis by blast
qed

section \<open>The environment a subprocess sees\<close>

lemma prefix_same_name:
  assumes "HasPrefix e (a @ ''='')" "HasPrefix e (b @ ''='')" "CHR ''='' \<notin> set a" "CHR ''='' \<notin> set b"
  shows "a = b"
proof -
  from assms obtain s t where "a @ CHR ''='' # s = b @ CHR ''='' # t" by (auto simp: HasPrefix_iff)
  from sep_unique [OF this assms(3,4)] show ?thesis by simp
qed

lemma capabilities_entry_prefix: "HasPrefix (capabilities_entry j) (capabilities_entry [])"
  by (simp add: capabilities_entry_def HasPrefix_iff)

text \<open>
  The capabilities a subprocess is told of are those of its batch. After
  \<open>applyNamespaceCapabilitiesEnv\<close> the command runs with an explicit environment in which the variable
  has exactly one entry, the last one, with the JSON of this batch, whatever the environment of this
  process or an earlier call said; every other variable has the value it had, and nothing else of the
  command changes. Without capabilities the command is untouched.
\<close>

lemma capabilities_env_applied:
  assumes "j \<noteq> []" and "env = (if c_env cmd = [] then Environ w else c_env cmd)"
    and "cmd' = applyNamespaceCapabilitiesEnv w cmd j"
  shows "env_value featureNamespaceCapabilitiesEnv (c_env cmd') = Some j \<and>
    length (filter (\<lambda>e. HasPrefix e (capabilities_entry [])) (c_env cmd')) = 1 \<and>
    (\<forall>k. CHR ''='' \<notin> set k \<and> k \<noteq> featureNamespaceCapabilitiesEnv \<longrightarrow> env_value k (c_env cmd') = env_value k env) \<and>
    cmd'\<lparr>c_env := c_env cmd\<rparr> = cmd \<and>
    applyNamespaceCapabilitiesEnv w cmd' j' = (if j' = [] then cmd' else applyNamespaceCapabilitiesEnv w cmd j') \<and>
    applyNamespaceCapabilitiesEnv w cmd [] = cmd"
proof (intro conjI allI impI)
  let ?n = featureNamespaceCapabilitiesEnv and ?p = "capabilities_entry []"
  have env: "c_env cmd' = filter (\<lambda>e. \<not> HasPrefix e ?p) env @ [capabilities_entry j]"
    using assms by (simp add: applyNamespaceCapabilitiesEnv_def Let_def)
  have name: "?p = ?n @ ''=''" "CHR ''='' \<notin> set ?n"
    by (simp_all add: capabilities_entry_def featureNamespaceCapabilitiesEnv_def)
  show "env_value ?n (c_env cmd') = Some j"
    using capabilities_entry_prefix [of j] name(1)
    by (simp add: env env_value_snoc) (simp add: capabilities_entry_def)
  show "length (filter (\<lambda>e. HasPrefix e ?p) (c_env cmd')) = 1"
    by (simp add: env capabilities_entry_prefix)
  {
    fix k assume k: "CHR ''='' \<notin> set k \<and> k \<noteq> ?n"
    have other: "\<not> HasPrefix e ?p" if "HasPrefix e (k @ ''='')" for e
      using prefix_same_name [of e k ?n] that k name by auto
    have "\<not> HasPrefix (capabilities_entry j) (k @ ''='')"
      using other capabilities_entry_prefix by blast
    then show "env_value k (c_env cmd') = env_value k env"
      using env_value_filter [of k "\<lambda>e. \<not> HasPrefix e ?p"] other by (simp add: env env_value_snoc)
  }
  show "cmd'\<lparr>c_env := c_env cmd\<rparr> = cmd"
    using assms by (simp add: applyNamespaceCapabilitiesEnv_def Let_def)
  show "applyNamespaceCapabilitiesEnv w cmd' j' = (if j' = [] then cmd' else applyNamespaceCapabilitiesEnv w cmd j')"
    using assms by (simp add: applyNamespaceCapabilitiesEnv_def Let_def capabilities_entry_prefix)
  show "applyNamespaceCapabilitiesEnv w cmd [] = cmd"
    by (simp add: applyNamespaceCapabilitiesEnv_def)
qed

text \<open>
  An in-process Go run leaves the process environment as it found it. The function returned by
  \<open>setNamespaceCapabilitiesEnv\<close> gives the variable back its old value, or unsets it when it was not
  set, even when the run changed it meanwhile; it touches no other variable, and during the run the
  variable holds the JSON of the batch.
\<close>

lemma capabilities_env_restored:
  assumes "setNamespaceCapabilitiesEnv j w = (restore, w1)" and "j \<noteq> []"
  shows "LookupEnv featureNamespaceCapabilitiesEnv w1 = Some j \<and>
    LookupEnv k (restore w2) = (if k = featureNamespaceCapabilitiesEnv then LookupEnv k w else LookupEnv k w2)"
  using assms
  by (auto simp: setNamespaceCapabilitiesEnv_def LookupEnv_Setenv LookupEnv_Unsetenv split: option.splits)

text \<open>
  A configuration that loads is usable for batches: its variant names are distinct and not empty,
  which is what keeps the summary names of the variants of a feature apart. Loading never changes the
  state, and a directory without \<open>config.json\<close> loads as the zero configuration.
\<close>

lemma loaded_config_valid:
  assumes "LoadFromDir dir w = (Ok c, w')"
  shows "distinct (map v_Name (c_RunVariants c)) \<and> [] \<notin> set (map v_Name (c_RunVariants c)) \<and> w' = w \<and>
    inj_on (\<lambda>v. SummaryName \<lparr>f_Dir = d, f_TaskQueue = tq, f_NexusEndpoint = ep, f_Config = c, f_VariantName = v_Name v\<rparr>)
      (set (c_RunVariants c))"
proof -
  have "validate_from [] (c_RunVariants c) = Ok ()"
    using LoadFromDir_valid [OF assms] by (simp add: Validate_def)
  then have v: "distinct (map v_Name (c_RunVariants c))" "[] \<notin> set (map v_Name (c_RunVariants c))"
    by (simp_all add: validate_from_Ok)
  moreover have "w' = w"
    using keepsD [OF keeps_LoadFromDir [of "\<lambda>w. w"] assms] by simp
  ultimately show ?thesis
    by (auto simp: inj_on_def SummaryName_def distinct_map)
qed

end
