(* ===== verification/Go_Glob.thy ===== *)
theory Go_Glob
  imports Go_Os
begin

text \<open>
  \<open>filepath.Match\<close> on single-byte characters (Unix separator) and the order in which
  \<open>filepath.WalkDir\<close> visits a tree.
\<close>

section \<open>Patterns\<close>

definition bad_pattern :: go_error where
  "bad_pattern = External BadPattern ''syntax error in pattern''"

fun scan_len :: "bool \<Rightarrow> string \<Rightarrow> nat" where
  "scan_len inrange [] = 0"
| "scan_len inrange (c # p) =
     (if c = bslash then (case p of [] \<Rightarrow> 1 | _ # p' \<Rightarrow> 2 + scan_len inrange p')
      else if c = CHR ''['' then Suc (scan_len True p)
      else if c = CHR '']'' then Suc (scan_len False p)
      else if c = CHR ''*'' \<and> \<not> inrange then 0
      else Suc (scan_len inrange p))"

text \<open>A star or not, the text up to the next star, and the rest of the pattern.\<close>

definition scanChunk :: "string \<Rightarrow> bool \<times> string \<times> string" where
  "scanChunk p =
     (let q = dropWhile (\<lambda>c. c = CHR ''*'') p; n = scan_len False q in
      (length q < length p, take n q, drop n q))"

definition getEsc :: "string \<Rightarrow> (char \<times> string) option" where
  "getEsc chunk =
     (case chunk of
        [] \<Rightarrow> None
      | c # t \<Rightarrow>
          if c = CHR ''-'' \<or> c = CHR '']'' then None
          else (case (if c = bslash then t else c # t) of
                  [] \<Rightarrow> None
                | r # u \<Rightarrow> if u = [] then None else Some (r, u)))"

lemma getEsc_shorter: "getEsc s = Some (r, t) \<Longrightarrow> length t < length s"
  by (auto simp: getEsc_def split: list.splits if_splits)

text \<open>The ranges of a character class: whether the character is in one, and the rest.\<close>

function class_ranges :: "nat option \<Rightarrow> bool \<Rightarrow> bool \<Rightarrow> string \<Rightarrow> (bool \<times> string) option" where
  "class_ranges r found any chunk =
     (if any \<and> chunk \<noteq> [] \<and> hd chunk = CHR '']'' then Some (found, tl chunk)
      else (case getEsc chunk of
              None \<Rightarrow> None
            | Some (lo, c1) \<Rightarrow>
                (case (if hd c1 = CHR ''-'' then getEsc (tl c1) else Some (lo, c1)) of
                   None \<Rightarrow> None
                 | Some (hi, c2) \<Rightarrow>
                     class_ranges r
                       (found \<or> (let x = (case r of None \<Rightarrow> 0 | Some n \<Rightarrow> n) in of_char lo \<le> x \<and> x \<le> of_char hi))
                       True c2)))"
  by pat_completeness auto
termination
  by (relation "measure (\<lambda>(r, f, a, c). length c)")
    (auto split: if_splits dest!: getEsc_shorter simp: length_tl)

declare class_ranges.simps [simp del]

lemma class_ranges_shorter: "class_ranges r f a c = Some (b, t) \<Longrightarrow> length t \<le> length c"
proof (induction r f a c rule: class_ranges.induct)
  case (1 r f a c)
  show ?case
  proof (cases "a \<and> c \<noteq> [] \<and> hd c = CHR '']''")
    case True
    then have "class_ranges r f a c = Some (f, tl c)" by (subst class_ranges.simps) simp
    with "1.prems" show ?thesis by auto
  next
    case False
    with "1.prems" obtain lo c1 hi c2 f' where
      s: "getEsc c = Some (lo, c1)"
         "(if hd c1 = CHR ''-'' then getEsc (tl c1) else Some (lo, c1)) = Some (hi, c2)"
      and "class_ranges r f' True c2 = Some (b, t)"
      and f': "f' = (f \<or> (let x = (case r of None \<Rightarrow> 0 | Some n \<Rightarrow> n) in of_char lo \<le> x \<and> x \<le> of_char hi))"
      by (auto simp: class_ranges.simps [of r f a c] split: option.splits)
    then have "length t \<le> length c2" using "1.IH" [OF False s(1) refl s(2) refl] by simp
    moreover have "length c2 \<le> length c"
      using s by (auto split: if_splits dest!: getEsc_shorter)
    ultimately show ?thesis by simp
  qed
qed

text \<open>
  Match one chunk at the start of the name. Once it has failed (the name is \<open>None\<close>) the rest of the
  chunk is still checked; \<open>Err\<close> is a malformed pattern.
\<close>

function matchChunk :: "string \<Rightarrow> string option \<Rightarrow> string option res" where
  "matchChunk [] s = Ok s"
| "matchChunk (c # ch) s =
     (let s0 = (if s = Some [] then None else s);
          r = map_option hd s0; t = map_option tl s0 in
      if c = CHR ''['' then
        (let negated = (ch \<noteq> [] \<and> hd ch = CHR ''^'') in
         case class_ranges (map_option of_char r) False False (if negated then tl ch else ch) of
           None \<Rightarrow> Err bad_pattern
         | Some (found, ch') \<Rightarrow> matchChunk ch' (if found = negated then None else t))
      else if c = CHR ''?'' then matchChunk ch (if r = Some slash then None else t)
      else if c = bslash then
        (case ch of [] \<Rightarrow> Err bad_pattern | d # ch' \<Rightarrow> matchChunk ch' (if r = Some d then t else None))
      else matchChunk ch (if r = Some c then t else None))"
  by pat_completeness auto
termination
  by (relation "measure (\<lambda>(c, s). length c)")
    (auto split: if_splits dest!: class_ranges_shorter simp: length_tl)

text \<open>After a star: skip one more byte at a time, never a separator, until the chunk matches.\<close>

fun match_skip :: "string \<Rightarrow> bool \<Rightarrow> string \<Rightarrow> string option res" where
  "match_skip chunk final [] = Ok None"
| "match_skip chunk final (c # name) =
     (if c = slash then Ok None
      else (case matchChunk chunk (Some name) of
              Ok (Some t) \<Rightarrow> if final \<and> t \<noteq> [] then match_skip chunk final name else Ok (Some t)
            | Ok None \<Rightarrow> match_skip chunk final name
            | Err e \<Rightarrow> Err e
            | Panic e \<Rightarrow> Panic e))"

lemma scan_rest_shorter: "(st, ch, rest) = scanChunk p \<Longrightarrow> p \<noteq> [] \<Longrightarrow> length rest < length p"
proof -
  assume p: "p \<noteq> []" "(st, ch, rest) = scanChunk p"
  let ?q = "dropWhile (\<lambda>c. c = CHR ''*'') p"
  have le: "length ?q \<le> length p" by (rule length_dropWhile_le)
  have rest: "rest = drop (scan_len False ?q) ?q" using p by (simp add: scanChunk_def Let_def)
  show "length rest < length p"
  proof (cases ?q)
    case Nil
    then show ?thesis using rest p(1) by (simp add: Nil)
  next
    case (Cons c q)
    then have "c \<noteq> CHR ''*''" using hd_dropWhile [of "\<lambda>c. c = CHR ''*''" p] by force
    then have "0 < scan_len False ?q" using Cons by (auto split: list.splits)
    then show ?thesis using rest Cons le by simp
  qed
qed

function check_rest :: "string \<Rightarrow> bool res" where
  "check_rest p =
     (if p = [] then Ok False
      else (case scanChunk p of (_, chunk, rest) \<Rightarrow>
        (case matchChunk chunk (Some []) of
           Ok _ \<Rightarrow> check_rest rest | Err e \<Rightarrow> Err e | Panic e \<Rightarrow> Panic e)))"
  by pat_completeness auto
termination
  by (relation "measure length") (auto dest: scan_rest_shorter)

function Match :: "string \<Rightarrow> string \<Rightarrow> bool res" where
  "Match p name =
     (if p = [] then Ok (name = [])
      else (case scanChunk p of (star, chunk, rest) \<Rightarrow>
        if star \<and> chunk = [] then Ok (slash \<notin> set name)
        else (case matchChunk chunk (Some name) of
                Err e \<Rightarrow> Err e
              | Panic e \<Rightarrow> Panic e
              | Ok t \<Rightarrow>
                  (case (case t of
                           Some t' \<Rightarrow> if t' = [] \<or> rest \<noteq> [] then Ok (Some t')
                                      else if star then match_skip chunk (rest = []) name else Ok None
                         | None \<Rightarrow> if star then match_skip chunk (rest = []) name else Ok None) of
                     Ok (Some t') \<Rightarrow> Match rest t'
                   | Ok None \<Rightarrow> check_rest rest
                   | Err e \<Rightarrow> Err e
                   | Panic e \<Rightarrow> Panic e))))"
  by pat_completeness auto
termination
  by (relation "measure (\<lambda>(p, n). length p)") (auto dest: scan_rest_shorter)

declare check_rest.simps [simp del] Match.simps [simp del]

section \<open>Walking a tree\<close>

text \<open>
  Every file and directory at or below a directory, parents first and siblings in lexical order: the
  paths in the lexical order of their components.
\<close>

definition walk :: "string \<Rightarrow> fs \<Rightarrow> string list" where
  "walk d m = sort_key path_comps (filter (below d) (remdups (map fst m)))"

section \<open>Lemmas\<close>

definition plain_char :: "char \<Rightarrow> bool" where
  "plain_char c = (c \<notin> set ''*?['' \<and> c \<noteq> bslash)"

lemma scan_len_plain: "list_all plain_char p \<Longrightarrow> scan_len b p = length p"
  by (induction p arbitrary: b) (auto simp: plain_char_def)

declare matchChunk.simps(2) [simp del]

lemma matchChunk_step:
  "plain_char c \<Longrightarrow> matchChunk (c # ch) s = matchChunk ch (case s of Some (d # t) \<Rightarrow> if d = c then Some t else None | _ \<Rightarrow> None)"
  by (auto simp: matchChunk.simps(2) plain_char_def Let_def split: option.splits list.splits)

lemma matchChunk_None: "list_all plain_char p \<Longrightarrow> matchChunk p None = Ok None"
  by (induction p) (auto simp: matchChunk_step)

lemma matchChunk_plain:
  "list_all plain_char p \<Longrightarrow> matchChunk p (Some s) = Ok (if HasPrefix s p then Some (drop (length p) s) else None)"
proof (induction p arbitrary: s)
  case (Cons c p)
  then show ?case
    using matchChunk_None [of p] by (cases s) (auto simp: matchChunk_step)
qed simp

text \<open>A pattern without special characters matches exactly itself.\<close>

lemma Match_plain:
  assumes "list_all plain_char p"
  shows "Match p name = Ok (name = p)"
proof (cases p)
  case Nil
  then show ?thesis by (simp add: Match.simps [of "[]"])
next
  case (Cons c q)
  then have "c \<noteq> CHR ''*''" using assms by (simp add: plain_char_def)
  then have "scanChunk p = (False, p, [])"
    using Cons assms scan_len_plain [of p False] by (simp add: scanChunk_def Let_def)
  moreover have "matchChunk p (Some name) = Ok (if HasPrefix name p then Some (drop (length p) name) else None)"
    using assms by (rule matchChunk_plain)
  ultimately show ?thesis
    using Cons by (cases "HasPrefix name p")
      (auto simp: Match.simps [of "c # q"] Match.simps [of "[]"] check_rest.simps [of "[]"] HasPrefix_iff)
qed

lemma set_walk: "set (walk d m) = {p \<in> fst ` set m. below d p}"
  by (auto simp: walk_def)

lemma distinct_walk: "distinct (walk d m)"
  by (simp add: walk_def)

end
