(* ===== verification/Batching.thy ===== *)
theory Batching
  imports Feature_Config Go_Glob
begin

text \<open>
  From patterns to batches: the features on disk that a run selects (\<open>Runner.GlobFeatures\<close> of
  \<open>cmd/run_feature.go\<close>), the filter for external servers, the batches of one dev server each
  (\<open>Runner.makeRunBatches\<close> of \<open>cmd/run.go\<close>), and the names under which results come back
  (\<open>rewriteVariantSummary\<close>, \<open>Summary.Find\<close>).
\<close>

section \<open>Configuration of a run\<close>

record RunConfig =
  r_DirName :: string
  r_Lang :: string
  r_Version :: string
  r_Server :: string
  r_Namespace :: string
  r_ClientCertPath :: string
  r_ClientKeyPath :: string
  r_CACertPath :: string
  r_TLSServerName :: string
  r_GenerateHistory :: bool
  r_DisableHistoryCheck :: bool
  r_RetainTempDir :: bool
  r_SummaryURI :: string
  r_HTTPProxyURL :: string
  r_NamespaceCapabilitiesJSON :: string

definition zero_run_config :: RunConfig where
  "zero_run_config = \<lparr>r_DirName = [], r_Lang = [], r_Version = [], r_Server = [], r_Namespace = [],
     r_ClientCertPath = [], r_ClientKeyPath = [], r_CACertPath = [], r_TLSServerName = [],
     r_GenerateHistory = False, r_DisableHistoryCheck = False, r_RetainTempDir = False,
     r_SummaryURI = [], r_HTTPProxyURL = [], r_NamespaceCapabilitiesJSON = []\<rparr>"

section \<open>Features on disk\<close>

record disk_feature =
  d_Dir :: string
  d_Config :: RunFeatureConfig

definition match_pattern :: "string \<Rightarrow> string \<Rightarrow> string \<Rightarrow> bool res" where
  "match_pattern lang dir pattern =
     (let p = TrimPrefix pattern ''features/'' in
      case (case Match p dir of Ok False \<Rightarrow> Match p (dir @ ''/feature.'' @ lang) | r \<Rightarrow> r) of
        Err e \<Rightarrow> Err (Wrapf ''invalid pattern %q: %w'' [p] e)
      | r \<Rightarrow> r)"

fun match_patterns :: "string \<Rightarrow> string \<Rightarrow> string list \<Rightarrow> bool res" where
  "match_patterns lang dir [] = Ok False"
| "match_patterns lang dir (p # ps) =
     (case match_pattern lang dir p of
        Ok True \<Rightarrow> Ok True | Ok False \<Rightarrow> match_patterns lang dir ps | Err e \<Rightarrow> Err e | Panic e \<Rightarrow> Panic e)"

definition version_too_low :: "(string \<Rightarrow> string \<Rightarrow> int) \<Rightarrow> RunConfig \<Rightarrow> RunFeatureConfig \<Rightarrow> bool" where
  "version_too_low semver_Compare cfg c =
     (r_Lang cfg = ''go'' \<and> r_Version cfg \<noteq> [] \<and> c_MinVersion c \<noteq> [] \<and>
      semver_Compare (r_Version cfg) (c_MinVersion c) < 0)"

text \<open>The callback of \<open>WalkDir\<close>.\<close>

definition glob_visit ::
  "(string \<Rightarrow> string \<Rightarrow> int) \<Rightarrow> RunConfig \<Rightarrow> string \<Rightarrow> string list \<Rightarrow> string \<Rightarrow> disk_feature list
     \<Rightarrow> ('z world_scheme, disk_feature list) io" where
  "glob_visit semver_Compare cfg featuresDir patterns path acc =
     (if Base path \<noteq> ''feature.'' @ r_Lang cfg then ret acc
      else bindE (of_res (Rel featuresDir (DirOf path))) (\<lambda>dir.
           bindE (of_res (if patterns \<noteq> [] then match_patterns (r_Lang cfg) dir patterns else Ok True)) (\<lambda>found.
           if \<not> found then ret acc
           else bindE (wrapE ''failed reading config from %v: %w'' [path] (LoadFromDir (DirOf path))) (\<lambda>c.
             if version_too_low semver_Compare cfg c then ret acc
             else ret (acc @ [\<lparr>d_Dir = dir, d_Config = c\<rparr>])))))"

definition GlobFeatures ::
  "(string \<Rightarrow> string \<Rightarrow> int) \<Rightarrow> RunConfig \<Rightarrow> string \<Rightarrow> string list \<Rightarrow> ('z world_scheme, disk_feature list) io" where
  "GlobFeatures semver_Compare cfg rootDir patterns =
     (let featuresDir = PathJoin [rootDir, ''features''] in
      bindE (asks (\<lambda>w. walk featuresDir (w_fs w))) (\<lambda>paths.
        fold_io (glob_visit semver_Compare cfg featuresDir patterns) paths []))"

definition filterFeaturesForExternalServer :: "RunConfig \<Rightarrow> disk_feature list \<Rightarrow> string list \<Rightarrow> disk_feature list" where
  "filterFeaturesForExternalServer cfg fs patterns =
     (if r_Server cfg = [] \<or> patterns \<noteq> [] then fs
      else filter (\<lambda>f. c_RunVariants (d_Config f) = []) fs)"

section \<open>Batches\<close>

record runBatch =
  b_Features :: "RunFeature list"
  b_VariantName :: string
  b_DynamicConfig :: "(string \<times> json) list"
  b_Capabilities :: "(string \<times> bool) list"
  b_CapabilitiesJSON :: string
  b_ExpectsProxy :: bool

definition default_batch :: runBatch where
  "default_batch = \<lparr>b_Features = [], b_VariantName = [], b_DynamicConfig = [], b_Capabilities = [],
     b_CapabilitiesJSON = [], b_ExpectsProxy = False\<rparr>"

definition taskQueueForFeature :: "string \<Rightarrow> string \<Rightarrow> ('z world_scheme, string) io" where
  "taskQueueForFeature dir variant = bindE new_uuid (\<lambda>u.
     ret (if variant = [] then Sprintf ''features-%v-%v'' [dir, u]
          else Sprintf ''features-%v-%v-%v'' [dir, variant, u]))"

definition expects_proxy :: "RunFeatureConfig \<Rightarrow> bool" where
  "expects_proxy c = (c_UnauthedProxyCount c > 0 \<or> c_AuthedProxyCount c > 0)"

definition run_feature :: "disk_feature \<Rightarrow> string \<Rightarrow> string \<Rightarrow> RunFeature" where
  "run_feature f variant tq = \<lparr>f_Dir = d_Dir f, f_TaskQueue = tq, f_NexusEndpoint = [],
     f_Config = d_Config f, f_VariantName = variant\<rparr>"

definition variant_batch :: "disk_feature \<Rightarrow> RunVariantConfig \<Rightarrow> string \<Rightarrow> runBatch" where
  "variant_batch f v tq = \<lparr>b_Features = [run_feature f (v_Name v) tq], b_VariantName = v_Name v,
     b_DynamicConfig = v_DynamicConfig v, b_Capabilities = v_Capabilities v,
     b_CapabilitiesJSON = namespaceCapabilitiesEnv (v_Capabilities v),
     b_ExpectsProxy = expects_proxy (d_Config f)\<rparr>"

definition add_variant ::
  "disk_feature \<Rightarrow> RunVariantConfig \<Rightarrow> runBatch list \<Rightarrow> ('z world_scheme, runBatch list) io" where
  "add_variant f v bs =
     bindE (taskQueueForFeature (d_Dir f) (v_Name v)) (\<lambda>tq. ret (bs @ [variant_batch f v tq]))"

definition add_feature ::
  "disk_feature \<Rightarrow> runBatch \<times> runBatch list \<Rightarrow> ('z world_scheme, runBatch \<times> runBatch list) io" where
  "add_feature f acc = (case acc of (def, bs) \<Rightarrow>
     if c_RunVariants (d_Config f) = [] then
       bindE (taskQueueForFeature (d_Dir f) []) (\<lambda>tq.
         ret (def\<lparr>b_Features := b_Features def @ [run_feature f [] tq],
                  b_ExpectsProxy := b_ExpectsProxy def \<or> expects_proxy (d_Config f)\<rparr>, bs))
     else bindE (fold_io (add_variant f) (c_RunVariants (d_Config f)) bs) (\<lambda>bs'. ret (def, bs')))"

definition makeRunBatches :: "disk_feature list \<Rightarrow> ('z world_scheme, runBatch list) io" where
  "makeRunBatches fs =
     bindE (fold_io add_feature fs (default_batch, [])) (\<lambda>(def, bs).
       ret (if b_Features def \<noteq> [] then def # bs else bs))"

section \<open>Summaries\<close>

record SummaryEntry =
  s_Name :: string
  s_Outcome :: string
  s_Message :: string

type_synonym Summary = "SummaryEntry list"

definition featureSummaryNames :: "RunFeature list \<Rightarrow> string list" where
  "featureSummaryNames fs = map SummaryName fs"

definition formatMap :: "(string \<times> json) list \<Rightarrow> string" where
  "formatMap m = (if m = [] then ''{}'' else Marshal (map_json id m))"

text \<open>The lines printed for a summary.\<close>

definition logFeatureSummary :: "string \<Rightarrow> Summary \<Rightarrow> string list" where
  "logFeatureSummary variant summary = map (\<lambda>e.
     if s_Message e = []
     then Sprintf ''Feature result variant=%s feature=%s outcome=%s'' [variant, s_Name e, s_Outcome e]
     else Sprintf ''Feature result variant=%s feature=%s outcome=%s message=%q''
            [variant, s_Name e, s_Outcome e, s_Message e]) summary"

definition rewriteVariantSummary :: "Summary \<Rightarrow> RunFeature list \<Rightarrow> Summary" where
  "rewriteVariantSummary summary fs = map (\<lambda>e.
     case find (\<lambda>f. s_Name e = f_Dir f) fs of
       None \<Rightarrow> e | Some f \<Rightarrow> e\<lparr>s_Name := SummaryName f\<rparr>) summary"

definition Find :: "Summary \<Rightarrow> string \<Rightarrow> SummaryEntry option" where
  "Find s featureName = find (\<lambda>e. s_Name e = featureName) s"

section \<open>Lemmas\<close>

subsection \<open>Selecting features\<close>

definition selected :: "string \<Rightarrow> string list \<Rightarrow> string \<Rightarrow> bool" where
  "selected lang patterns dir =
     (patterns = [] \<or> (\<exists>p \<in> set patterns. TrimPrefix p ''features/'' \<in> {dir, dir @ ''/feature.'' @ lang}))"

lemma match_patterns_plain:
  "list_all (list_all plain_char) patterns \<Longrightarrow>
     match_patterns lang dir patterns =
       Ok (\<exists>p \<in> set patterns. TrimPrefix p ''features/'' \<in> {dir, dir @ ''/feature.'' @ lang})"
proof (induction patterns)
  case (Cons p ps)
  have "list_all plain_char (TrimPrefix p ''features/'')"
    using Cons.prems by (auto simp: TrimPrefix_def list_all_iff dest: in_set_dropD)
  from Match_plain [OF this] have "match_pattern lang dir p =
      Ok (TrimPrefix p ''features/'' \<in> {dir, dir @ ''/feature.'' @ lang})"
    by (auto simp: match_pattern_def Let_def eq_commute split: res.splits bool.splits)
  with Cons show ?case by (auto split: bool.splits)
qed simp

definition picks ::
  "(string \<Rightarrow> string \<Rightarrow> int) \<Rightarrow> RunConfig \<Rightarrow> string \<Rightarrow> string list \<Rightarrow> 'z world_scheme \<Rightarrow> string \<Rightarrow> disk_feature \<Rightarrow> bool" where
  "picks cmp cfg fd patterns w path f =
     (Base path = ''feature.'' @ r_Lang cfg \<and> Rel fd (DirOf path) = Ok (d_Dir f) \<and>
      selected (r_Lang cfg) patterns (d_Dir f) \<and>
      LoadFromDir (DirOf path) w = (Ok (d_Config f), w) \<and> \<not> version_too_low cmp cfg (d_Config f))"

lemma glob_visit_Ok:
  assumes "list_all (list_all plain_char) patterns"
    and "glob_visit cmp cfg fd patterns path acc w = (Ok acc', w')"
  shows "w' = w \<and> (\<exists>fs. acc' = acc @ fs \<and> (\<forall>f. f \<in> set fs \<longleftrightarrow> picks cmp cfg fd patterns w path f))"
proof -
  have load: "v' = v" if "LoadFromDir d v = (r, v')" for d v r v'
    using keepsD [OF keeps_LoadFromDir [of "\<lambda>w. w"] that] by simp
  show ?thesis
  proof (cases "Base path = ''feature.'' @ r_Lang cfg")
    case False
    then have "acc' = acc @ []" "w' = w" "\<forall>f. \<not> picks cmp cfg fd patterns w path f"
      using assms(2) by (auto simp: glob_visit_def ret_def picks_def)
    then show ?thesis by (metis empty_iff empty_set)
  next
    case base: True
    with assms obtain dir where dir: "Rel fd (DirOf path) = Ok dir"
      by (auto simp: glob_visit_def bindE_Ok_iff of_res_def)
    show ?thesis
    proof (cases "selected (r_Lang cfg) patterns dir")
      case False
      then have "acc' = acc @ []" "w' = w" "\<forall>f. \<not> picks cmp cfg fd patterns w path f"
        using assms base dir match_patterns_plain [OF assms(1), of "r_Lang cfg" dir]
        by (auto simp: glob_visit_def ret_def picks_def selected_def bindE_Ok_iff of_res_def)
      then show ?thesis by (metis empty_iff empty_set)
    next
      case True
      then have "(if patterns \<noteq> [] then match_patterns (r_Lang cfg) dir patterns else Ok True) = Ok True"
        using match_patterns_plain [OF assms(1), of "r_Lang cfg" dir] by (auto simp: selected_def)
      then obtain c w1 where c1: "LoadFromDir (DirOf path) w = (Ok c, w1)"
          "(if version_too_low cmp cfg c then ret acc else ret (acc @ [\<lparr>d_Dir = dir, d_Config = c\<rparr>])) w1 = (Ok acc', w')"
        using assms(2) base dir
        by (auto simp: glob_visit_def bindE_Ok_iff of_res_def wrapE_def split: prod.splits res.splits)
      with load [OF c1(1)] have c: "LoadFromDir (DirOf path) w = (Ok c, w)"
          "(Ok acc', w') = (if version_too_low cmp cfg c then ret acc else ret (acc @ [\<lparr>d_Dir = dir, d_Config = c\<rparr>])) w"
        by simp_all
      let ?fs = "if version_too_low cmp cfg c then [] else [\<lparr>d_Dir = dir, d_Config = c\<rparr>]"
      have "acc' = acc @ ?fs" "w' = w" using c(2) by (auto simp: ret_def split: if_splits)
      moreover have "f \<in> set ?fs \<longleftrightarrow> picks cmp cfg fd patterns w path f" for f
        using True base dir c(1) by (cases f) (auto simp: picks_def)
      ultimately show ?thesis by blast
    qed
  qed
qed

lemma fold_glob_visit_Ok:
  assumes "list_all (list_all plain_char) patterns"
    and "fold_io (glob_visit cmp cfg fd patterns) paths acc w = (Ok acc', w')"
  shows "w' = w \<and> (\<exists>fs. acc' = acc @ fs \<and> (\<forall>f. f \<in> set fs \<longleftrightarrow> (\<exists>p \<in> set paths. picks cmp cfg fd patterns w p f)))"
  using assms(2)
proof (induction paths arbitrary: acc)
  case Nil
  then show ?case by (auto simp: ret_def)
next
  case (Cons p ps)
  then obtain a1 w1 where 1: "glob_visit cmp cfg fd patterns p acc w = (Ok a1, w1)"
      "fold_io (glob_visit cmp cfg fd patterns) ps a1 w1 = (Ok acc', w')"
    by (auto simp: bindE_Ok_iff)
  from glob_visit_Ok [OF assms(1) 1(1)] obtain fs where
    fs: "w1 = w" "a1 = acc @ fs" "\<forall>f. f \<in> set fs \<longleftrightarrow> picks cmp cfg fd patterns w p f" by blast
  from Cons.IH [OF 1(2) [unfolded fs(1)]] obtain gs where
    gs: "w' = w" "acc' = a1 @ gs" "\<forall>f. f \<in> set gs \<longleftrightarrow> (\<exists>p \<in> set ps. picks cmp cfg fd patterns w p f)"
    by blast
  have "acc' = acc @ (fs @ gs)" using fs gs by simp
  moreover have "f \<in> set (fs @ gs) \<longleftrightarrow> (\<exists>p \<in> set (p # ps). picks cmp cfg fd patterns w p f)" for f
    using fs gs by auto
  ultimately show ?case using gs(1) by blast
qed

subsection \<open>Batches\<close>

definition no_variants :: "disk_feature \<Rightarrow> bool" where
  "no_variants f = (c_RunVariants (d_Config f) = [])"

definition queues_needed :: "disk_feature \<Rightarrow> nat" where
  "queues_needed f = max 1 (length (c_RunVariants (d_Config f)))"

text \<open>The task queue of a feature ends with the UUID of the given number.\<close>

definition drawn :: "'z world_scheme \<Rightarrow> RunFeature \<Rightarrow> nat \<Rightarrow> bool" where
  "drawn w r i = (\<exists>p. f_TaskQueue r = p @ x_uuid w i)"

lemma taskQueueForFeature_run:
  "taskQueueForFeature d v w = (Ok (''features-'' @ d @ ''-'' @ (if v = [] then [] else v @ ''-'') @ x_uuid w (w_uuids w)),
     w\<lparr>w_uuids := Suc (w_uuids w)\<rparr>)"
  by (simp add: taskQueueForFeature_def new_uuid_def io_defs)

lemma add_variants_run:
  "\<exists>tqs. fold_io (add_variant f) vs bs w = (Ok (bs @ map2 (variant_batch f) vs tqs), w\<lparr>w_uuids := w_uuids w + length vs\<rparr>) \<and>
     length tqs = length vs \<and>
     (\<forall>i < length vs. drawn w (run_feature f (v_Name (vs ! i)) (tqs ! i)) (w_uuids w + i))"
proof (induction vs arbitrary: bs w)
  case Nil
  then show ?case by (simp add: ret_def)
next
  case (Cons v vs)
  define tq where "tq = ''features-'' @ d_Dir f @ ''-'' @ (if v_Name v = [] then [] else v_Name v @ ''-'') @ x_uuid w (w_uuids w)"
  let ?w = "w\<lparr>w_uuids := Suc (w_uuids w)\<rparr>"
  from Cons [of "bs @ [variant_batch f v tq]" ?w] obtain tqs where
    tqs: "fold_io (add_variant f) vs (bs @ [variant_batch f v tq]) ?w =
        (Ok ((bs @ [variant_batch f v tq]) @ map2 (variant_batch f) vs tqs), ?w\<lparr>w_uuids := w_uuids ?w + length vs\<rparr>)"
      "length tqs = length vs"
      "\<forall>i < length vs. drawn ?w (run_feature f (v_Name (vs ! i)) (tqs ! i)) (w_uuids ?w + i)" by blast
  have "add_variant f v bs w = (Ok (bs @ [variant_batch f v tq]), ?w)"
    by (simp add: add_variant_def bindE_def taskQueueForFeature_run ret_def tq_def)
  then have "fold_io (add_variant f) (v # vs) bs w =
      (Ok (bs @ map2 (variant_batch f) (v # vs) (tq # tqs)), w\<lparr>w_uuids := w_uuids w + length (v # vs)\<rparr>)"
    using tqs(1) by (simp add: bindE_def)
  moreover have "drawn w (run_feature f (v_Name ((v # vs) ! i)) ((tq # tqs) ! i)) (w_uuids w + i)"
    if "i < length (v # vs)" for i
    using that tqs(3) by (cases i) (auto simp: drawn_def run_feature_def tq_def)
  ultimately show ?case using tqs(2) by (intro exI [of _ "tq # tqs"]) auto
qed

text \<open>
  The loop over the features: the plain ones go to the default batch, the others give a batch for each
  variant, and the task queues draw consecutive UUIDs.
\<close>

definition batch_of :: "disk_feature \<Rightarrow> RunVariantConfig \<Rightarrow> runBatch \<Rightarrow> bool" where
  "batch_of f v b = (\<exists>tq. b = variant_batch f v tq)"

definition variant_pairs :: "disk_feature list \<Rightarrow> (disk_feature \<times> RunVariantConfig) list" where
  "variant_pairs fs = concat (map (\<lambda>f. map (Pair f) (c_RunVariants (d_Config f))) fs)"

definition batch_queues :: "runBatch list \<Rightarrow> RunFeature list" where
  "batch_queues bs = concat (map b_Features bs)"

lemma add_features_run:
  "\<exists>D B js ks. fold_io add_feature fs (def, bs) w =
      (Ok (def\<lparr>b_Features := b_Features def @ D,
               b_ExpectsProxy := b_ExpectsProxy def \<or> (\<exists>f \<in> set fs. no_variants f \<and> expects_proxy (d_Config f))\<rparr>, bs @ B),
       w\<lparr>w_uuids := w_uuids w + sum_list (map queues_needed fs)\<rparr>) \<and>
     list_all2 (\<lambda>f r. \<exists>tq. r = run_feature f [] tq) (filter no_variants fs) D \<and>
     list_all2 (\<lambda>(f, v) b. batch_of f v b) (variant_pairs fs) B \<and>
     list_all2 (drawn w) D js \<and> list_all2 (drawn w) (batch_queues B) ks \<and>
     distinct (js @ ks) \<and> set (js @ ks) \<subseteq> {w_uuids w ..< w_uuids w + sum_list (map queues_needed fs)}"
proof (induction fs arbitrary: def bs w)
  case Nil
  then show ?case by (simp add: ret_def variant_pairs_def batch_queues_def)
next
  case (Cons f fs)
  show ?case
  proof (cases "no_variants f")
    case True
    define tq where "tq = ''features-'' @ d_Dir f @ ''-'' @ x_uuid w (w_uuids w)"
    let ?w = "w\<lparr>w_uuids := Suc (w_uuids w)\<rparr>"
    let ?def = "def\<lparr>b_Features := b_Features def @ [run_feature f [] tq],
                  b_ExpectsProxy := b_ExpectsProxy def \<or> expects_proxy (d_Config f)\<rparr>"
    have 1: "add_feature f (def, bs) w = (Ok (?def, bs), ?w)"
      using True by (simp add: add_feature_def no_variants_def bindE_def taskQueueForFeature_run ret_def tq_def)
    have vp: "variant_pairs (f # fs) = variant_pairs fs" and q: "queues_needed f = 1"
      using True by (simp_all add: variant_pairs_def no_variants_def queues_needed_def)
    from Cons.IH [of ?def bs ?w] obtain D B js ks where
      2: "fold_io add_feature fs (?def, bs) ?w =
      (Ok (?def\<lparr>b_Features := b_Features ?def @ D,
               b_ExpectsProxy := b_ExpectsProxy ?def \<or> (\<exists>f \<in> set fs. no_variants f \<and> expects_proxy (d_Config f))\<rparr>, bs @ B),
       ?w\<lparr>w_uuids := w_uuids ?w + sum_list (map queues_needed fs)\<rparr>)"
      and 3: "list_all2 (\<lambda>f r. \<exists>tq. r = run_feature f [] tq) (filter no_variants fs) D"
      "list_all2 (\<lambda>(f, v) b. batch_of f v b) (variant_pairs fs) B"
      "list_all2 (drawn ?w) D js" "list_all2 (drawn ?w) (batch_queues B) ks" "distinct (js @ ks)"
      "set (js @ ks) \<subseteq> {w_uuids ?w ..< w_uuids ?w + sum_list (map queues_needed fs)}" by blast
    have d: "drawn ?w = drawn w" by (simp add: drawn_def fun_eq_iff)
    have "drawn w (run_feature f [] tq) (w_uuids w)" by (simp add: drawn_def run_feature_def tq_def)
    then show ?thesis
      using 1 2 3 True q
      by (intro exI [of _ "run_feature f [] tq # D"] exI [of _ B] exI [of _ "w_uuids w # js"] exI [of _ ks])
        (auto simp: bindE_def d vp)
  next
    case False
    let ?vs = "c_RunVariants (d_Config f)"
    let ?w = "w\<lparr>w_uuids := w_uuids w + length ?vs\<rparr>"
    from add_variants_run [of f ?vs bs w] obtain tqs where
      1: "fold_io (add_variant f) ?vs bs w = (Ok (bs @ map2 (variant_batch f) ?vs tqs), ?w)"
      and len: "length tqs = length ?vs"
      and dr: "\<forall>i < length ?vs. drawn w (run_feature f (v_Name (?vs ! i)) (tqs ! i)) (w_uuids w + i)" by blast
    let ?B = "map2 (variant_batch f) ?vs tqs"
    have 2: "add_feature f (def, bs) w = (Ok (def, bs @ ?B), ?w)"
      using False 1 by (simp add: add_feature_def no_variants_def bindE_def ret_def)
    have vp: "variant_pairs (f # fs) = map (Pair f) ?vs @ variant_pairs fs" by (simp add: variant_pairs_def)
    have q: "queues_needed f = length ?vs"
      using False by (cases ?vs) (simp_all add: no_variants_def queues_needed_def)
    have qs: "batch_queues ?B = map2 (\<lambda>v tq. run_feature f (v_Name v) tq) ?vs tqs"
      using len by (induction ?vs tqs rule: list_induct2') (auto simp: batch_queues_def variant_batch_def comp_def case_prod_unfold)
    have "list_all2 (drawn w) (batch_queues ?B) [w_uuids w ..< w_uuids w + length ?vs]"
      using dr len by (simp add: qs list_all2_conv_all_nth)
    moreover have "list_all2 (\<lambda>(f, v) b. batch_of f v b) (map (Pair f) ?vs) ?B"
      using len by (simp add: list_all2_conv_all_nth) (auto simp: batch_of_def)
    moreover from Cons.IH [of def "bs @ ?B" ?w] obtain D B js ks where
      3: "fold_io add_feature fs (def, bs @ ?B) ?w =
      (Ok (def\<lparr>b_Features := b_Features def @ D,
               b_ExpectsProxy := b_ExpectsProxy def \<or> (\<exists>f \<in> set fs. no_variants f \<and> expects_proxy (d_Config f))\<rparr>, (bs @ ?B) @ B),
       ?w\<lparr>w_uuids := w_uuids ?w + sum_list (map queues_needed fs)\<rparr>)"
      and 4: "list_all2 (\<lambda>f r. \<exists>tq. r = run_feature f [] tq) (filter no_variants fs) D"
      "list_all2 (\<lambda>(f, v) b. batch_of f v b) (variant_pairs fs) B"
      "list_all2 (drawn ?w) D js" "list_all2 (drawn ?w) (batch_queues B) ks" "distinct (js @ ks)"
      "set (js @ ks) \<subseteq> {w_uuids ?w ..< w_uuids ?w + sum_list (map queues_needed fs)}" by blast
    moreover have "drawn ?w = drawn w" by (simp add: drawn_def fun_eq_iff)
    moreover have "batch_queues (?B @ B) = batch_queues ?B @ batch_queues B" by (simp add: batch_queues_def)
    moreover have "fold_io add_feature (f # fs) (def, bs) w = fold_io add_feature fs (def, bs @ ?B) ?w"
      by (simp add: bindE_def 2)
    ultimately show ?thesis
      using False q vp
      by (intro exI [of _ D] exI [of _ "?B @ B"] exI [of _ js] exI [of _ "[w_uuids w ..< w_uuids w + length ?vs] @ ks"])
        (auto intro: list_all2_appendI)
  qed
qed

section \<open>Properties\<close>



text \<open>
  C1: every selected feature runs exactly once for each of its variants. \<open>makeRunBatches\<close> always
  succeeds; the features without variants make up one batch, the first one, in their order, and no
  such batch exists without them; each variant of each other feature, in order, is a batch of its own
  with that one feature, the variant's dynamic configuration and its capabilities; a batch starts a
  proxy exactly when a feature of it expects connections.
\<close>

theorem batches_cover:
  "\<exists>bs. fst (makeRunBatches fs w) = Ok bs \<and>
     map (\<lambda>r. (f_Dir r, f_VariantName r, f_Config r)) (batch_queues bs) =
       map (\<lambda>f. (d_Dir f, [], d_Config f)) (filter no_variants fs) @
       map (\<lambda>(f, v). (d_Dir f, v_Name v, d_Config f)) (variant_pairs fs) \<and>
     length bs = (if \<exists>f \<in> set fs. no_variants f then 1 else 0) + length (variant_pairs fs) \<and>
     (\<forall>b \<in> set bs. b_Features b \<noteq> [] \<and> (b_ExpectsProxy b \<longleftrightarrow> (\<exists>r \<in> set (b_Features b). expects_proxy (f_Config r)))) \<and>
     list_all2 (\<lambda>(f, v) b. b_VariantName b = v_Name v \<and> b_DynamicConfig b = v_DynamicConfig v \<and>
         b_Capabilities b = v_Capabilities v \<and> length (b_Features b) = 1)
       (variant_pairs fs) (if \<exists>f \<in> set fs. no_variants f then tl bs else bs)"
proof -
  from add_features_run [of fs default_batch "[]" w] obtain D B where
    run: "fst (fold_io add_feature fs (default_batch, []) w) =
      Ok (default_batch\<lparr>b_Features := D, b_ExpectsProxy := (\<exists>f \<in> set fs. no_variants f \<and> expects_proxy (d_Config f))\<rparr>, B)"
    and D: "list_all2 (\<lambda>f r. \<exists>tq. r = run_feature f [] tq) (filter no_variants fs) D"
    and B: "list_all2 (\<lambda>(f, v) b. batch_of f v b) (variant_pairs fs) B"
    by (auto simp: default_batch_def)
  let ?def = "default_batch\<lparr>b_Features := D, b_ExpectsProxy := (\<exists>f \<in> set fs. no_variants f \<and> expects_proxy (d_Config f))\<rparr>"
  have empty: "D = [] \<longleftrightarrow> (\<forall>f \<in> set fs. \<not> no_variants f)"
  proof -
    have "D = [] \<longleftrightarrow> filter no_variants fs = []"
      using list_all2_lengthD [OF D] by (metis length_0_conv)
    then show ?thesis by (simp add: filter_empty_conv)
  qed
  have keysD: "map (\<lambda>r. (f_Dir r, f_VariantName r, f_Config r)) D = map (\<lambda>f. (d_Dir f, [], d_Config f)) (filter no_variants fs)"
    using D by (induction rule: list_all2_induct) (auto simp: run_feature_def)
  have proxyD: "(\<exists>f \<in> set fs. no_variants f \<and> expects_proxy (d_Config f)) \<longleftrightarrow> (\<exists>r \<in> set D. expects_proxy (f_Config r))"
  proof -
    have "(\<exists>r \<in> set D. expects_proxy (f_Config r)) \<longleftrightarrow> (\<exists>f \<in> set (filter no_variants fs). expects_proxy (d_Config f))"
      using D by (induction rule: list_all2_induct) (auto simp: run_feature_def)
    then show ?thesis by auto
  qed
  have keysB: "map (\<lambda>r. (f_Dir r, f_VariantName r, f_Config r)) (batch_queues B) =
      map (\<lambda>(f, v). (d_Dir f, v_Name v, d_Config f)) (variant_pairs fs)"
    using B by (induction rule: list_all2_induct) (auto simp: batch_of_def variant_batch_def run_feature_def batch_queues_def)
  have B': "\<forall>b \<in> set B. \<exists>f v. batch_of f v b"
    using B by (induction rule: list_all2_induct) auto
  have B2: "list_all2 (\<lambda>(f, v) b. b_VariantName b = v_Name v \<and> b_DynamicConfig b = v_DynamicConfig v \<and>
      b_Capabilities b = v_Capabilities v \<and> length (b_Features b) = 1) (variant_pairs fs) B"
    using B by (rule list_all2_mono) (auto simp: batch_of_def variant_batch_def)
  let ?bs = "if D \<noteq> [] then ?def # B else B"
  have "fst (makeRunBatches fs w) = Ok ?bs"
    using run by (auto simp: makeRunBatches_def bindE_def ret_def split: prod.splits)
  moreover have "map (\<lambda>r. (f_Dir r, f_VariantName r, f_Config r)) (batch_queues ?bs) =
       map (\<lambda>f. (d_Dir f, [], d_Config f)) (filter no_variants fs) @
       map (\<lambda>(f, v). (d_Dir f, v_Name v, d_Config f)) (variant_pairs fs)"
    using keysD keysB by (auto simp: batch_queues_def)
  moreover have "length ?bs = (if \<exists>f \<in> set fs. no_variants f then 1 else 0) + length (variant_pairs fs)"
    using list_all2_lengthD [OF B] empty by auto
  moreover have "\<forall>b \<in> set ?bs. b_Features b \<noteq> [] \<and> (b_ExpectsProxy b \<longleftrightarrow> (\<exists>r \<in> set (b_Features b). expects_proxy (f_Config r)))"
    using proxyD B' by (auto simp: batch_of_def variant_batch_def run_feature_def)
  moreover have "(if \<exists>f \<in> set fs. no_variants f then tl ?bs else ?bs) = B" using empty by auto
  ultimately show ?thesis using B2 by (intro exI [of _ ?bs]) simp
qed

theorem batches_cover_witness:
  "\<exists>bs. fst (makeRunBatches [\<lparr>d_Dir = ''a'', d_Config = zero_config\<rparr>] (calm_world [])) = Ok bs \<and> length bs = 1 \<and>
     map (\<lambda>r. (f_Dir r, f_VariantName r, f_Config r)) (batch_queues bs) = [(''a'', [], zero_config)]"
  using batches_cover [of "[\<lparr>d_Dir = ''a'', d_Config = zero_config\<rparr>]" "calm_world []"]
  by (auto simp: no_variants_def variant_pairs_def zero_config_def)

text \<open>
  Two runs never share a task queue. When the UUIDs drawn are distinct (and of one length, as the
  text form of a UUID is), the task queues of all features of all batches are distinct, also for
  directories and variants whose names run into each other.
\<close>

lemma task_queues_distinct:
  assumes "makeRunBatches fs w = (Ok bs, w')"
    and "inj_on (x_uuid w) {w_uuids w ..< w_uuids w'}"
    and "\<forall>i \<in> {w_uuids w ..< w_uuids w'}. length (x_uuid w i) = n"
  shows "distinct (map f_TaskQueue (batch_queues bs))"
proof -
  from add_features_run [of fs default_batch "[]" w] obtain D B js ks def where
    run: "fold_io add_feature fs (default_batch, []) w = (Ok (def, B), w\<lparr>w_uuids := w_uuids w + sum_list (map queues_needed fs)\<rparr>)"
    "b_Features def = D"
    and q: "list_all2 (drawn w) D js" "list_all2 (drawn w) (batch_queues B) ks" "distinct (js @ ks)"
      "set (js @ ks) \<subseteq> {w_uuids w ..< w_uuids w + sum_list (map queues_needed fs)}"
    by (auto simp: default_batch_def)
  from run assms(1) have bs: "batch_queues bs = D @ batch_queues B"
    and w': "w_uuids w' = w_uuids w + sum_list (map queues_needed fs)"
    by (auto simp: makeRunBatches_def bindE_def ret_def batch_queues_def split: if_splits)
  have l: "list_all2 (drawn w) (batch_queues bs) (js @ ks)"
    using q by (simp add: bs list_all2_appendI)
  have "f_TaskQueue (batch_queues bs ! i) \<noteq> f_TaskQueue (batch_queues bs ! j)"
    if "i < length (batch_queues bs)" "j < length (batch_queues bs)" "i \<noteq> j" for i j
  proof
    assume eq: "f_TaskQueue (batch_queues bs ! i) = f_TaskQueue (batch_queues bs ! j)"
    let ?k = "js @ ks"
    have len: "length (batch_queues bs) = length ?k" using l by (rule list_all2_lengthD)
    have in_range: "?k ! i \<in> {w_uuids w ..< w_uuids w'}" "?k ! j \<in> {w_uuids w ..< w_uuids w'}"
      using q(4) w' that len by (metis nth_mem subsetD)+
    from l that obtain p p' where "f_TaskQueue (batch_queues bs ! i) = p @ x_uuid w (?k ! i)"
      "f_TaskQueue (batch_queues bs ! j) = p' @ x_uuid w (?k ! j)"
      unfolding list_all2_conv_all_nth drawn_def by blast
    with eq assms(3) in_range have "x_uuid w (?k ! i) = x_uuid w (?k ! j)" by (metis append_eq_append_conv)
    with assms(2) in_range have "?k ! i = ?k ! j" by (auto dest: inj_onD)
    with q(3) that len show False by (simp add: nth_eq_iff_index_eq)
  qed
  then show ?thesis by (simp add: distinct_conv_nth)
qed

text \<open>
  A run of everything against an external server never asks it for a variant. With a server and no
  patterns, no batch of the filtered features has a variant name or overrides, so the refusal of
  \<open>runBatch\<close> to run a variant there is reached only by naming the feature; with patterns, or without a
  server, nothing is filtered.
\<close>

lemma external_server_no_variants:
  assumes "makeRunBatches (filterFeaturesForExternalServer cfg fs patterns) w = (Ok bs, w')"
  shows "(r_Server cfg \<noteq> [] \<and> patterns = [] \<longrightarrow>
      (\<forall>b \<in> set bs. b_VariantName b = [] \<and> b_DynamicConfig b = [] \<and> b_Capabilities b = [])) \<and>
    (r_Server cfg = [] \<or> patterns \<noteq> [] \<longrightarrow> filterFeaturesForExternalServer cfg fs patterns = fs)"
proof (intro conjI impI)
  assume ext: "r_Server cfg \<noteq> [] \<and> patterns = []"
  let ?fs = "filterFeaturesForExternalServer cfg fs patterns"
  have "variant_pairs ?fs = []"
    using ext by (auto simp: filterFeaturesForExternalServer_def variant_pairs_def)
  with add_features_run [of ?fs default_batch "[]" w] assms
  show "\<forall>b \<in> set bs. b_VariantName b = [] \<and> b_DynamicConfig b = [] \<and> b_Capabilities b = []"
    by (auto simp: makeRunBatches_def bindE_def ret_def default_batch_def split: if_splits)
qed (auto simp: filterFeaturesForExternalServer_def)

text \<open>
  The results of a batch are found again under the names the history check looks up. When a harness
  reports an entry under the directory of each feature it ran, rewriting gives each feature's entry its
  summary name, so looking that name up returns the outcome the harness reported first for it.
\<close>

lemma rewritten_summary_found:
  assumes "distinct (map f_Dir fs)" and "r \<in> set fs"
    and "\<forall>e \<in> set s. s_Name e \<in> f_Dir ` set fs"
    and "\<forall>x \<in> set fs. CHR ''#'' \<notin> set (f_Dir x)"
    and "Find s (f_Dir r) = Some e"
  shows "Find (rewriteVariantSummary s fs) (SummaryName r) = Some (e\<lparr>s_Name := SummaryName r\<rparr>)"
  using assms(3,5)
proof (induction s)
  case Nil
  then show ?case by (simp add: Find_def)
next
  case (Cons a s)
  have first: "find (\<lambda>f. s_Name a = f_Dir f) fs = Some x" if "x \<in> set fs" "s_Name a = f_Dir x" for x
    using that assms(1) by (induction fs) (auto, metis image_eqI)
  show ?case
  proof (cases "s_Name a = f_Dir r")
    case True
    with first [OF assms(2)] Cons.prems show ?thesis by (simp add: Find_def rewriteVariantSummary_def)
  next
    case False
    from Cons.prems obtain x where x: "x \<in> set fs" "s_Name a = f_Dir x" by auto
    have "SummaryName x \<noteq> SummaryName r"
    proof
      assume "SummaryName x = SummaryName r"
      with x False assms(2,4) show False
        by (auto simp: SummaryName_def split: if_splits dest!: sep_unique [of _ "CHR ''#''"])
          (metis in_set_conv_decomp)
    qed
    with first [OF x] False Cons show ?thesis by (simp add: Find_def rewriteVariantSummary_def)
  qed
qed

end
