(* ===== verification/Sdk_Build.thy ===== *)
theory Sdk_Build
  imports Go_Os
begin

text \<open>
  Building SDK programs (\<open>sdkbuild/\<close>), on a Unix host: what the builders share, and the builders for Go,
  Java and .NET. A builder checks its options, works in a given directory or in a fresh temporary one
  that it removes when it fails, writes the files of a project and runs the tools of the language. A
  built program is the directory it is in, with the commands it makes; \<open>FromDir\<close> finds it again.
\<close>

section \<open>Shared\<close>

text \<open>\<open>ApplyToCommand\<close> changes a command before it is run, or fails; \<open>None\<close> is a nil function or writer.\<close>

record tool_options =
  o_Version :: string
  o_DirName :: string
  o_Stdout :: "stream option"
  o_Stderr :: "stream option"

record build_options = tool_options +
  o_BaseDir :: string
  o_ApplyToCommand :: "(command \<Rightarrow> command res) option"

definition writer_or :: "stream option \<Rightarrow> stream option" where
  "writer_or s = (case s of None \<Rightarrow> Some Inherited | Some x \<Rightarrow> Some x)"

definition setupCommandIO :: "command \<Rightarrow> stream option \<Rightarrow> stream option \<Rightarrow> command" where
  "setupCommandIO cmd out err = cmd\<lparr>c_stdin := Some Inherited, c_stdout := writer_or out, c_stderr := writer_or err\<rparr>"

definition tool :: "'o tool_options_scheme \<Rightarrow> string \<Rightarrow> string \<Rightarrow> string list \<Rightarrow> command" where
  "tool opts dir exe args = setupCommandIO ((Command exe args)\<lparr>c_dir := dir\<rparr>) (o_Stdout opts) (o_Stderr opts)"

definition apply_to_command :: "'o build_options_scheme \<Rightarrow> command \<Rightarrow> command res" where
  "apply_to_command opts cmd = (case o_ApplyToCommand opts of None \<Rightarrow> Ok cmd | Some f \<Rightarrow> f cmd)"

definition apply_and_run ::
  "'o build_options_scheme \<Rightarrow> string \<Rightarrow> command \<Rightarrow> ('z world_scheme, unit) io" where
  "apply_and_run opts failed cmd =
     bindE (of_res (apply_to_command opts cmd)) (\<lambda>c. wrapE failed [] (run_command c))"

definition temp_program_dir :: "string \<Rightarrow> ('z world_scheme, string) io" where
  "temp_program_dir base = wrapE ''failed making temp dir: %w'' [] (os_MkdirTemp base ''program-'')"

text \<open>The directory: the one named, or a temporary one that goes away unless the rest succeeds.\<close>

definition with_program_dir ::
  "'o tool_options_scheme \<Rightarrow> string \<Rightarrow> (string \<Rightarrow> ('z world_scheme, 'a) io) \<Rightarrow> ('z world_scheme, 'a) io" where
  "with_program_dir opts base body =
     (if o_DirName opts \<noteq> [] then body (PathJoin [base, o_DirName opts])
      else bindE (temp_program_dir base) (\<lambda>dir. defer_unless_ok (os_RemoveAll dir) (body dir)))"

definition write_file :: "string \<Rightarrow> string \<Rightarrow> string \<Rightarrow> ('z world_scheme, unit) io" where
  "write_file dir name content =
     wrapE (''failed writing '' @ name @ '': %w'') [] (os_WriteFile (PathJoin [dir, name]) content)"

definition find_file :: "string \<Rightarrow> string \<Rightarrow> string \<Rightarrow> ('z world_scheme, unit) io" where
  "find_file failed dir name = thenE (wrapE failed [] (os_Stat (PathJoin [dir, name]))) (ret ())"

definition require :: "bool \<Rightarrow> string \<Rightarrow> ('w, unit) io" where
  "require b text = (if b then ret () else fail (Errorf text []))"

definition is_path :: "string \<Rightarrow> bool" where
  "is_path version = ContainsAny version (''/'' @ [bslash])"

definition exists_dir :: "string \<Rightarrow> ('z world_scheme, bool) io" where
  "exists_dir p = bindE (attempt (os_Stat p)) (\<lambda>r. ret (r = Inr DirN))"

definition exists_file :: "string \<Rightarrow> ('z world_scheme, bool) io" where
  "exists_file p = bindE (attempt (os_Stat p)) (\<lambda>r. ret (case r of Inr _ \<Rightarrow> True | Inl _ \<Rightarrow> False))"

definition program_command :: "string \<Rightarrow> string \<Rightarrow> string list \<Rightarrow> command" where
  "program_command dir exe args = setupCommandIO ((Command exe args)\<lparr>c_dir := dir\<rparr>) None None"

section \<open>Go\<close>

record go_options = build_options +
  og_SDKRepository :: string
  og_GoModContents :: string
  og_GoMainContents :: string
  og_GoBuildTags :: "string list"

definition sdkImport :: string where
  "sdkImport = ''go.temporal.io/sdk''"

text \<open>The \<open>replace\<close> directive added to \<open>go.mod\<close>.\<close>

definition go_replace :: "go_options \<Rightarrow> string \<Rightarrow> ('z world_scheme, string) io" where
  "go_replace opts dir =
     (if o_Version opts \<noteq> [] \<or> og_SDKRepository opts \<noteq> [] then
        if og_SDKRepository opts \<noteq> [] then
          if o_Version opts = [] then fail (Errorf ''Version must be provided alongside SDKRepository'' [])
          else ret (Sprintf ([newline] @ ''replace %s => %s v%s'')
                 [sdkImport, og_SDKRepository opts, TrimPrefix (o_Version opts) ''v''])
        else if \<not> Contains (o_Version opts) ''/'' then
          ret (Sprintf ([newline] @ ''replace %s => %s v%s'') [sdkImport, sdkImport, TrimPrefix (o_Version opts) ''v''])
        else
          bindE (wrapE (''version has a '' @ [squote] @ ''/'' @ [squote] @ '' and cannot get abs dir: %w'') []
              (filepath_Abs (o_Version opts))) (\<lambda>absVersion.
          bindE (wrapE (''version has a '' @ [squote] @ ''/'' @ [squote] @ '' and unable to relativize: %w'') []
              (of_res (Rel dir absVersion))) (\<lambda>relVersion.
            ret (Sprintf ([newline] @ ''replace %s => %s'') [sdkImport, relVersion])))
      else ret [])"

definition go_build_args :: "string list \<Rightarrow> string list" where
  "go_build_args tags = [''build'', ''-o'', ''program''] @ concat (map (\<lambda>tag. [''-tags'', tag]) tags)"

definition BuildGoProgram :: "go_options \<Rightarrow> ('z world_scheme, string) io" where
  "BuildGoProgram opts =
     thenE (require (o_BaseDir opts \<noteq> []) ''base dir required'')
    (thenE (require (og_GoModContents opts \<noteq> []) ''go.mod contents required'')
    (thenE (require (og_GoMainContents opts \<noteq> []) ''main.go contents required'')
    (with_program_dir opts (o_BaseDir opts) (\<lambda>dir.
       bindE (go_replace opts dir) (\<lambda>replace.
       thenE (write_file dir ''go.mod'' (og_GoModContents opts @ replace))
      (thenE (write_file dir ''main.go'' (og_GoMainContents opts))
      (thenE (apply_and_run opts ''failed go mod tidy: %w'' (tool opts dir ''go'' [''mod'', ''tidy'']))
      (thenE (apply_and_run opts ''failed go build: %w'' (tool opts dir ''go'' (go_build_args (og_GoBuildTags opts))))
      (ret dir)))))))))"

definition GoProgramFromDir :: "string \<Rightarrow> ('z world_scheme, string) io" where
  "GoProgramFromDir dir = thenE (find_file ''failed finding go.mod in dir: %w'' dir ''go.mod'') (ret dir)"

definition go_NewCommand :: "string \<Rightarrow> string list \<Rightarrow> command res" where
  "go_NewCommand dir args = Ok (program_command dir ''./program'' args)"

section \<open>Java\<close>

record java_options = build_options +
  oj_HarnessDependency :: string
  oj_MainClass :: string
  oj_Build :: bool

definition sq :: "string \<Rightarrow> string" where
  "sq s = squote # s @ [squote]"

definition gradle_dependency :: "string \<Rightarrow> string" where
  "gradle_dependency version =
     (if is_path version then ''implementation '' @ sq ''io.temporal:temporal-sdk:[1.0,''
      else if version \<noteq> [] then ''implementation '' @ sq (''io.temporal:temporal-sdk:'' @ TrimPrefix version ''v'')
      else [])"

definition build_gradle :: "java_options \<Rightarrow> string" where
  \<open>build_gradle opts = Join
     [[], ''plugins {'', ''    id '' @ sq ''application'', ''}'', [], ''repositories {'', ''    maven {'',
      ''        url "https://oss.sonatype.org/content/repositories/snapshots/"'', ''    }'', ''    mavenCentral()'', ''}'', [],
      ''dependencies {'', ''    implementation '' @ sq (oj_HarnessDependency opts),
      ''    '' @ gradle_dependency (o_Version opts), ''}'', [], ''application {'',
      ''    mainClass = '' @ sq (oj_MainClass opts), ''}''] [newline]\<close>

definition settings_gradle :: "java_options \<Rightarrow> string \<Rightarrow> ('z world_scheme, string) io" where
  "settings_gradle opts dir =
     (let name = ''rootProject.name = '' @ sq (Base dir) in
      if is_path (o_Version opts) then
        bindE (wrapE ''failed getting absolute path of by-path-version: %w'' [] (filepath_Abs (o_Version opts))) (\<lambda>abs.
          ret (name @ Join [[], ''includeBuild('' @ sq abs @ '') {'', ''    dependencySubstitution {'',
            ''        substitute module('' @ sq ''io.temporal:temporal-sdk'' @ '') using project('' @ sq '':temporal-sdk'' @ '')'',
            ''    }'', ''}'', []] [newline]))
      else ret name)"

text \<open>Gradle's wrapper, in the parent directory or here. The builder's \<open>ApplyToCommand\<close> is a parameter that is not used.\<close>

definition buildGradleCommand :: "string \<Rightarrow> bool \<Rightarrow> (command \<Rightarrow> command res) option \<Rightarrow> string list \<Rightarrow> command" where
  "buildGradleCommand dir gradleInParentDir applyToCommand args =
     (Command ''/bin/sh'' ((if gradleInParentDir then ''../gradlew'' else ''gradlew'') # args))\<lparr>c_dir := dir\<rparr>"

definition BuildJavaProgram :: "java_options \<Rightarrow> ('z world_scheme, string) io" where
  "BuildJavaProgram opts =
     thenE (require (o_BaseDir opts \<noteq> []) ''base dir required'')
    (thenE (find_file ''failed finding build.gradle in base dir: %w'' (o_BaseDir opts) ''build.gradle'')
    (thenE (require (oj_HarnessDependency opts \<noteq> []) ''harness dependency required'')
    (thenE (require (oj_MainClass opts \<noteq> []) ''main class required'')
    (with_program_dir opts (o_BaseDir opts) (\<lambda>dir.
       thenE (write_file dir ''build.gradle'' (build_gradle opts))
      (bindE (settings_gradle opts dir) (\<lambda>settings.
       thenE (write_file dir ''settings.gradle'' settings)
      (thenE (whenE (oj_Build opts) (run_command (setupCommandIO
           (buildGradleCommand dir True (o_ApplyToCommand opts) [''--no-daemon'', ''--include-build'', ''../'', ''build''])
           (o_Stdout opts) (o_Stderr opts))))
      (ret dir)))))))))"

definition JavaProgramFromDir :: "string \<Rightarrow> ('z world_scheme, string) io" where
  "JavaProgramFromDir dir =
     thenE (find_file ''failed finding build.gradle in dir: %w'' dir ''build.gradle'')
    (thenE (find_file ''failed finding build.gradle in base dir: %w'' dir ''../build.gradle'') (ret dir))"

text \<open>The arguments become one string, each in single quotes; an argument with a quote is refused.\<close>

fun java_args :: "string \<Rightarrow> string list \<Rightarrow> string res" where
  "java_args argsStr [] = Ok argsStr"
| "java_args argsStr (arg # args) =
     (if ContainsAny arg [dquote, squote] then Err (Errorf ''java argument cannot contain single or double quote'' [])
      else java_args (argsStr @ (if argsStr \<noteq> [] then '' '' else []) @ squote # arg @ [squote]) args)"

definition java_NewCommand :: "string \<Rightarrow> string list \<Rightarrow> command res" where
  "java_NewCommand dir args =
     (case java_args [] args of
        Ok argsStr \<Rightarrow> Ok (setupCommandIO (buildGradleCommand dir True None
            [''--include-build'', ''../'', ''run'', ''--args'', argsStr]) None None)
      | Err e \<Rightarrow> Err e
      | Panic e \<Rightarrow> Panic e)"

section \<open>.NET\<close>

record dotnet_options = tool_options +
  od_BaseDir :: string
  od_ProgramContents :: string
  od_CsprojContents :: string
  od_Configuration :: string

text \<open>\<open>html.EscapeString\<close>.\<close>

definition escape_char :: "char \<Rightarrow> string" where
  "escape_char c =
     (if c = CHR ''<'' then ''&lt;'' else if c = CHR ''>'' then ''&gt;'' else if c = CHR ''&'' then ''&amp;''
      else if c = squote then ''&#39;'' else if c = dquote then ''&#34;'' else [c])"

definition EscapeString :: "string \<Rightarrow> string" where
  "EscapeString s = concat (map escape_char s)"

definition configuration_args :: "dotnet_options \<Rightarrow> string list" where
  "configuration_args opts = (if od_Configuration opts \<noteq> [] then [''--configuration'', od_Configuration opts] else [])"

definition dotnet_version_arg :: "dotnet_options \<Rightarrow> string \<Rightarrow> ('z world_scheme, string) io" where
  "dotnet_version_arg opts dir =
     (if is_path (o_Version opts) then
        bindE (wrapE ''cannot make absolute path from version: %w'' []
            (filepath_Abs (PathJoin [o_Version opts, ''src/Temporalio/Temporalio.csproj'']))) (\<lambda>absCsproj.
        bindE (wrapE ''cannot find version path of %v: %w'' [absCsproj] (os_Stat absCsproj)) (\<lambda>_.
        thenE (wrapE ''failed dotnet build of csproj in version: %w'' []
            (run_command (tool opts dir ''dotnet'' ([''build'', absCsproj] @ configuration_args opts))))
          (ret (''-property:TemporalioProjectReference='' @ [dquote] @ EscapeString absCsproj @ [dquote]))))
      else if o_Version opts \<noteq> [] then
        ret (''-property:TemporalioVersion='' @ [dquote] @ EscapeString (TrimPrefix (o_Version opts) ''v'') @ [dquote])
      else ret [])"

definition BuildDotNetProgram :: "dotnet_options \<Rightarrow> ('z world_scheme, string) io" where
  "BuildDotNetProgram opts =
     thenE (require (od_BaseDir opts \<noteq> []) ''base dir required'')
    (thenE (require (od_ProgramContents opts \<noteq> []) ''program contents required'')
    (thenE (require (od_CsprojContents opts \<noteq> []) ''csproj contents required'')
    (if od_Configuration opts \<notin> {[], ''Debug'', ''Release''}
     then fail (Errorf (''configuration must be empty, '' @ [dquote] @ ''Debug'' @ [dquote] @ '', or '' @ [dquote] @ ''Release''
         @ [dquote] @ '', got %q'') [od_Configuration opts])
     else with_program_dir opts (od_BaseDir opts) (\<lambda>dir.
       bindE (dotnet_version_arg opts dir) (\<lambda>versionArg.
       thenE (write_file dir ''program.csproj'' (od_CsprojContents opts))
      (thenE (write_file dir ''Program.cs'' (od_ProgramContents opts))
      (thenE (wrapE ''failed dotnet build: %w'' [] (run_command (tool opts dir ''dotnet''
           ([''build'', ''--output'', ''build''] @ configuration_args opts @ (if versionArg \<noteq> [] then [versionArg] else [])))))
      (ret dir))))))))"

definition DotNetProgramFromDir :: "string \<Rightarrow> ('z world_scheme, string) io" where
  "DotNetProgramFromDir dir = thenE (find_file ''failed finding program.csproj in dir: %w'' dir ''program.csproj'') (ret dir)"

definition dotnet_NewCommand :: "string \<Rightarrow> string list \<Rightarrow> command res" where
  "dotnet_NewCommand dir args = Ok (program_command dir ''./build/program'' args)"

end
