(* ===== verification/Sdk_Scripts.thy ===== *)
theory Sdk_Scripts
  imports Sdk_Build Go_Glob
begin

text \<open>
  Building SDK programs (\<open>sdkbuild/\<close>): the builders for TypeScript, PHP, Python and Ruby, and what they
  use of \<open>filepath.Glob\<close>. Maps that the code ranges over are association lists, in the order it ranges.
\<close>

section \<open>Globbing\<close>

text \<open>\<open>filepath.Glob\<close> (Unix). Its own limit on the number of nested directories with wildcards is the fuel.\<close>

definition hasMeta :: "string \<Rightarrow> bool" where
  "hasMeta p = ContainsAny p (''*?['' @ [bslash])"

definition cleanGlobPath :: "string \<Rightarrow> string" where
  "cleanGlobPath p = (if p = [] then ''.'' else if p = ''/'' then p else butlast p)"

fun match_names :: "string \<Rightarrow> string \<Rightarrow> string list \<Rightarrow> string list \<Rightarrow> string list res" where
  "match_names dir pat [] matches = Ok matches"
| "match_names dir pat (n # ns) matches =
     (case Match pat n of
        Err e \<Rightarrow> Err e
      | Panic e \<Rightarrow> Panic e
      | Ok matched \<Rightarrow> match_names dir pat ns (matches @ (if matched then [PathJoin [dir, n]] else [])))"

text \<open>What cannot be listed gives no match and no error.\<close>

definition glob_dir :: "string \<Rightarrow> string \<Rightarrow> string list \<Rightarrow> ('z world_scheme, string list) io" where
  "glob_dir dir pat matches =
     bindE (exists_dir dir) (\<lambda>is. if \<not> is then ret matches
       else bindE (attempt (os_ReadDir dir)) (\<lambda>r.
         case r of Inl _ \<Rightarrow> ret matches | Inr names \<Rightarrow> of_res (match_names dir pat names matches)))"

fun glob_limit :: "nat \<Rightarrow> string \<Rightarrow> ('z world_scheme, string list) io" where
  "glob_limit 0 pat = fail bad_pattern"
| "glob_limit (Suc n) pat =
     bindE (of_res (Match pat [])) (\<lambda>_.
       if \<not> hasMeta pat then bindE (exists_file pat) (\<lambda>there. ret (if there then [pat] else []))
       else let i = (case LastIndexByte slash pat of None \<Rightarrow> 0 | Some k \<Rightarrow> Suc k);
                dir = cleanGlobPath (take i pat); file = drop i pat in
         if \<not> hasMeta dir then glob_dir dir file []
         else if dir = pat then fail bad_pattern
         else bindE (glob_limit n dir) (\<lambda>ds. fold_io (\<lambda>d. glob_dir d file) ds []))"

definition Glob :: "string \<Rightarrow> ('z world_scheme, string list) io" where
  "Glob = glob_limit 10000"

section \<open>TypeScript\<close>

record ts_options = build_options +
  ot_TSConfigPaths :: "(string \<times> string list) list"
  ot_Includes :: "string list"
  ot_Excludes :: "string list"
  ot_MoreDependencies :: "(string \<times> string) list"

text \<open>The commands of this builder write to the process's own output; \<open>Stdout\<close> and \<open>Stderr\<close> are not used.\<close>

definition pnpm :: "string \<Rightarrow> string list \<Rightarrow> command" where
  "pnpm dir args = (Command ''corepack'' (''pnpm'' # args))
     \<lparr>c_dir := dir, c_stdin := Some Inherited, c_stdout := Some Inherited, c_stderr := Some Inherited\<rparr>"

definition ts_packages :: "string list" where
  "ts_packages = [''activity'', ''client'', ''common'', ''proto'', ''plugin'', ''worker'', ''workflow'']"

definition ts_build_local :: "ts_options \<Rightarrow> ('z world_scheme, unit) io" where
  "ts_build_local opts =
     bindE (exists_dir (PathJoin [o_Version opts, ''node_modules''])) (\<lambda>installed.
       whenE (\<not> installed)
         (thenE (wrapE ''failed installing SDK deps: %w'' []
              (run_command (pnpm (o_Version opts) [''install'', ''--frozen-lockfile'', ''--ignore-scripts''])))
           (wrapE ''failed building SDK: %w'' []
              (run_command (pnpm (o_Version opts) [''--filter'', ''!@temporalio/create'', ''run'', ''build''])))))"

definition package_line :: "string \<Rightarrow> string \<Rightarrow> string" where
  \<open>package_line pkg version = Sprintf ''"@temporalio/%v": %q,'' [pkg, version]\<close>

definition ts_dependencies :: "ts_options \<Rightarrow> ('z world_scheme, string) io" where
  "ts_dependencies opts =
     (if is_path (o_Version opts) then
        thenE (find_file ''failed finding package.json in version dir: %w'' (o_Version opts) ''package.json'')
       (thenE (ts_build_local opts)
       (bindE (wrapE ''cannot get absolute path from version path: %w'' [] (filepath_Abs (o_Version opts))) (\<lambda>localPath.
          ret (concat (map (\<lambda>pkg.
            package_line pkg (''link:'' @ PathJoin [localPath, ''packages'', pkg]) @ newline # ''    '') ts_packages)))))
      else let version = TrimPrefix (o_Version opts) ''v'' in
        ret (concat (map (\<lambda>pkg. ''    '' @ package_line pkg version @ [newline]) ts_packages)))"

definition more_dependencies :: "(string \<times> string) list \<Rightarrow> string" where
  \<open>more_dependencies deps = concat (map (\<lambda>(dep, version). Sprintf ''    "%v": "%v",'' [dep, version] @ [newline]) deps)\<close>

abbreviation tab :: char where
  "tab \<equiv> CHR 0x09"

definition package_json :: "string \<Rightarrow> string \<Rightarrow> string" where
  \<open>package_json packageJSONDepStr moreDeps = Join
     [''{'', ''  "name": "program",'', ''  "private": true,'', ''  "scripts": {'', ''    "build": "tsc --build"'', ''  },'',
      ''  "dependencies": {'', ''    '' @ packageJSONDepStr, tab # moreDeps, ''    "@grpc/grpc-js": "^1.12.4",'',
      ''    "commander": "^8.3.0",'', ''    "ms": "^3.0.0-canary.1",'', ''    "nexus-rpc": "^0.0.1",'',
      ''    "proto3-json-serializer": "^1.1.1"'', ''  },'', ''  "devDependencies": {'',
      ''    "@tsconfig/node24": "^24.0.4",'', ''    "@types/node": "^24.1.0",'', ''    "tsconfig-paths": "^3.12.0",'',
      ''    "typescript": "^5.9.3"'', ''  },'', ''  "pnpm": {'', [tab, tab] @ ''"overrides": {'',
      [tab, tab, tab] @ ''"protobufjs": "7.5.1"'', [tab, tab] @ ''}'', ''  }'', ''}''] [newline]\<close>

fun tsconfig_paths :: "(string \<times> string list) list \<Rightarrow> string res" where
  "tsconfig_paths [] = Ok []"
| "tsconfig_paths ((name, paths) # others) =
     (if paths = [] then Err (Errorf ''harness path slice is empty'' [])
      else (case tsconfig_paths others of
          Ok t \<Rightarrow> Ok (Sprintf ''%q: ['' [name] @ Join (map Quote paths) '', '' @ ''],'' @ newline # ''      '' @ t)
        | Err e \<Rightarrow> Err e
        | Panic e \<Rightarrow> Panic e))"

definition ts_includes :: "ts_options \<Rightarrow> string list" where
  "ts_includes opts =
     (if ot_Includes opts \<noteq> [] then ot_Includes opts else [''../features/**/*.ts'', ''../harness/ts/**/*.ts''])"

definition ts_excludes :: "ts_options \<Rightarrow> string list" where
  "ts_excludes opts =
     (if ot_Excludes opts \<noteq> [] then ot_Excludes opts else [''../node_modules'', ''../harness/go'', ''../harness/java''])"

definition tsconfig_json :: "ts_options \<Rightarrow> string \<Rightarrow> string" where
  \<open>tsconfig_json opts tsConfigPathStr = Join
     [''{'', ''  "extends": "@tsconfig/node24/tsconfig.json",'', ''  "version": "5.9.3",'', ''  "compilerOptions": {'',
      ''    "baseUrl": ".",'', ''    "outDir": "./tslib",'', ''    "rootDirs": ["../", "."],'', ''    "paths": {'',
      ''      '' @ tsConfigPathStr, ''      "*": ["node_modules/*", "node_modules/@types/*"]'', ''    },'',
      ''    "typeRoots": ["node_modules/@types"],'', ''    "module": "commonjs",'', ''    "moduleResolution": "node",'',
      ''    "sourceMap": true,'', ''    "resolveJsonModule": true,'', ''    "declaration": true,'',
      ''    "declarationMap": true,'', ''    "allowJs": true'', ''  },'',
      ''  "include": ['' @ Join (map Quote (ts_includes opts)) '', '' @ ''],'',
      ''  "exclude": ['' @ Join (map Quote (ts_excludes opts)) '', '' @ '']'', ''}''] [newline]\<close>

definition BuildTypeScriptProgram :: "ts_options \<Rightarrow> ('z world_scheme, string) io" where
  "BuildTypeScriptProgram opts =
     thenE (require (o_BaseDir opts \<noteq> []) ''base dir required'')
    (thenE (require (o_Version opts \<noteq> []) ''version required'')
    (thenE (require (ot_TSConfigPaths opts \<noteq> []) ''at least one tsconfig path required'')
    (with_program_dir opts (o_BaseDir opts) (\<lambda>dir.
       bindE (ts_dependencies opts) (\<lambda>deps.
       thenE (write_file dir ''package.json'' (package_json deps (more_dependencies (ot_MoreDependencies opts))))
      (bindE (of_res (tsconfig_paths (ot_TSConfigPaths opts))) (\<lambda>paths.
       thenE (write_file dir ''tsconfig.json'' (tsconfig_json opts paths))
      (thenE (apply_and_run opts ''failed installing: %w'' (pnpm dir [''install'', ''--ignore-scripts'']))
      (thenE (apply_and_run opts ''failed compiling: %w'' (pnpm dir [''run'', ''build'']))
      (ret dir))))))))))"

definition TypeScriptProgramFromDir :: "string \<Rightarrow> ('z world_scheme, string) io" where
  "TypeScriptProgramFromDir dir = thenE (find_file ''failed finding package.json in dir: %w'' dir ''package.json'') (ret dir)"

definition ts_NewCommand :: "string \<Rightarrow> string list \<Rightarrow> command res" where
  "ts_NewCommand dir args = Ok (program_command dir ''node'' ([''-r'', ''tsconfig-paths/register''] @ args))"

section \<open>PHP\<close>

record php_options = tool_options +
  op_RootDir :: string

definition GetSourceDir :: "string \<Rightarrow> string" where
  "GetSourceDir rootDir = PathJoin [rootDir, ''harness'', ''php'']"

definition copy_file :: "string \<Rightarrow> string \<Rightarrow> string \<Rightarrow> ('z world_scheme, unit) io" where
  "copy_file sourceDir dir name =
     bindE (wrapE (''failed reading '' @ name @ '' file: %w'') [] (os_ReadFile (PathJoin [sourceDir, name]))) (\<lambda>data.
       wrapE (''failed writing '' @ name @ '' file: %w'') [] (os_WriteFile (PathJoin [dir, name]) data))"

definition composer :: "php_options \<Rightarrow> string \<Rightarrow> string \<Rightarrow> string list \<Rightarrow> ('z world_scheme, unit) io" where
  "composer opts dir failed args = wrapE failed [] (run_command (tool opts dir ''composer'' args))"

definition is_not_exist :: "go_error + 'a \<Rightarrow> bool" where
  "is_not_exist r = (case r of Inl (External NotExist m) \<Rightarrow> True | _ \<Rightarrow> False)"

definition php_install :: "php_options \<Rightarrow> string \<Rightarrow> ('z world_scheme, unit) io" where
  "php_install opts dir =
     thenE (copy_file (GetSourceDir (op_RootDir opts)) dir ''composer.json'')
    (thenE (copy_file (GetSourceDir (op_RootDir opts)) dir ''.rr.yaml'')
    (thenE (whenE (o_Version opts \<noteq> []) (composer opts dir ''failed installing SDK deps: %w''
         [''req'', ''temporal/sdk'', o_Version opts, ''-W'', ''--no-install'']))
    (thenE (composer opts dir ''failed installing SDK deps: %w'' [''i'', ''-n'', ''-o'', ''-q'', ''--no-scripts''])
    (bindE (attempt (os_Stat (PathJoin [dir, ''rr'']))) (\<lambda>r.
       whenE (is_not_exist r) (composer opts dir ''failed downloading RoadRunner: %w'' [''run'', ''rr-get'']))))))"

text \<open>The program is its directory and the directory of its source. A temporary directory is never removed.\<close>

definition BuildPhpProgram :: "php_options \<Rightarrow> ('z world_scheme, string \<times> string) io" where
  "BuildPhpProgram opts =
     bindE (if o_DirName opts \<noteq> [] then ret (PathJoin [op_RootDir opts, o_DirName opts])
            else temp_program_dir (op_RootDir opts)) (\<lambda>dir.
     bindE (exists_dir (PathJoin [dir, ''vendor''])) (\<lambda>installed.
       thenE (whenE (\<not> installed) (php_install opts dir)) (ret (dir, GetSourceDir (op_RootDir opts)))))"

definition PhpProgramFromDir :: "string \<Rightarrow> string \<Rightarrow> ('z world_scheme, string \<times> string) io" where
  "PhpProgramFromDir dir rootDir =
     thenE (find_file ''failed finding composer.json in dir: %w'' dir ''composer.json'') (ret (dir, GetSourceDir rootDir))"

definition php_NewCommand :: "string \<times> string \<Rightarrow> string list \<Rightarrow> command res" where
  "php_NewCommand p args = Ok (program_command (fst p) ''php'' (PathJoin [snd p, ''runner.php''] # args))"

section \<open>Python\<close>

record py_options = build_options +
  oy_VersionFromPyProj :: string

text \<open>
  The single wheel in the \<open>dist\<close> directory of a local repository, built once when there is none: the
  number is how many more times the code may jump back to the lookup.
\<close>

fun get_wheels :: "nat \<Rightarrow> py_options \<Rightarrow> string \<Rightarrow> ('z world_scheme, string) io" where
  "get_wheels n opts sdkPath =
     bindE (wrapE ''failed glob wheel lookup: %w'' [] (Glob (PathJoin [sdkPath, ''dist/*.whl'']))) (\<lambda>wheels.
       case (wheels, n) of
         ([], Suc m) \<Rightarrow>
           thenE (wrapE ''problem installing deps when building sdk by path: %w'' []
                (run_command (tool opts sdkPath ''uv'' [''sync''])))
          (thenE (wrapE ''problem building sdk by path: %w'' [] (run_command (tool opts sdkPath ''uv'' [''build''])))
             (get_wheels m opts sdkPath))
       | ([wheel], _) \<Rightarrow> ret wheel
       | _ \<Rightarrow> fail (Errorf ''expected single dist wheel, found %v - consider cleaning dist dir''
              [CHR ''['' # Join wheels '' '' @ '']'']))"

definition getWheel :: "py_options \<Rightarrow> ('z world_scheme, string) io" where
  "getWheel opts =
     bindE (wrapE ''unable to make sdk path absolute: %w'' [] (filepath_Abs (o_Version opts))) (\<lambda>sdkPath.
     bindE (get_wheels 1 opts sdkPath) (\<lambda>wheel.
       wrapE ''unable to make wheel path absolute: %w'' [] (filepath_Abs wheel)))"

definition py_execute :: "py_options \<Rightarrow> string \<Rightarrow> string list \<Rightarrow> ('z world_scheme, unit) io" where
  "py_execute opts dir args = (case args of
     [] \<Rightarrow> ret ()
   | name # rest \<Rightarrow> bindE (of_res (apply_to_command opts (tool opts dir name rest))) run_command)"

text \<open>\<open>uv add\<close>, whose error is dropped.\<close>

definition uv_add :: "py_options \<Rightarrow> string \<Rightarrow> string list \<Rightarrow> ('z world_scheme, unit) io" where
  "uv_add opts dir args = bindE (attempt (py_execute opts dir ([''uv'', ''add''] @ args))) (\<lambda>_. ret ())"

definition py_add_sdk :: "py_options \<Rightarrow> string \<Rightarrow> ('z world_scheme, unit) io" where
  "py_add_sdk opts dir =
     (if oy_VersionFromPyProj opts \<noteq> [] then uv_add opts dir [oy_VersionFromPyProj opts]
      else if is_path (o_Version opts) then bindE (getWheel opts) (\<lambda>wheel. uv_add opts dir [wheel])
      else if o_Version opts \<noteq> [] then uv_add opts dir [Sprintf ''temporalio==%s'' [TrimPrefix (o_Version opts) ''v'']]
      else uv_add opts dir [''temporalio''])"

definition pyproject :: "string \<Rightarrow> string" where
  \<open>pyproject dir = Join
     [[], ''[project]'', ''name = "python-program-'' @ Base dir @ ''"'', ''version = "0.1.0"'',
      ''description = "Temporal SDK Python Test"'',
      ''authors = [{ name = "Temporal Technologies Inc", email = "sdk@temporal.io" }]'',
      ''requires-python = "~=3.10"'', []] [newline]\<close>

definition BuildPythonProgram :: "py_options \<Rightarrow> ('z world_scheme, string) io" where
  "BuildPythonProgram opts =
     thenE (require (o_BaseDir opts \<noteq> []) ''base dir required'')
    (thenE (find_file ''failed finding pyproject.toml in base dir: %w'' (o_BaseDir opts) ''pyproject.toml'')
    (with_program_dir opts (o_BaseDir opts) (\<lambda>dir.
       thenE (write_file dir ''pyproject.toml'' (pyproject dir))
      (thenE (py_add_sdk opts dir)
      (thenE (uv_add opts dir [''--editable'', ''../''])
      (thenE (wrapE ''failed installing: %w'' [] (py_execute opts dir [''uv'', ''sync'']))
      (thenE (wrapE ''failed installing mypy: %w'' [] (py_execute opts dir [''uv'', ''add'', ''--dev'', ''mypy'']))
      (bindE (exists_file (PathJoin [dir, ''../features''])) (\<lambda>features.
       thenE (whenE features
         (thenE (wrapE ''failed creating __init__.py files: %w'' [] (py_execute opts dir
              [''find'', ''../features'', ''-type'', ''d'', ''-exec'', ''touch'', ''{}/__init__.py'', '';'']))
            (wrapE ''failed type checking: %w'' [] (py_execute opts dir
              [''uv'', ''run'', ''mypy'', ''--explicit-package-bases'', ''../features'']))))
      (ret dir))))))))))"

definition PythonProgramFromDir :: "string \<Rightarrow> ('z world_scheme, string) io" where
  "PythonProgramFromDir dir =
     thenE (find_file ''failed finding pyproject.toml in dir: %w'' dir ''pyproject.toml'')
    (thenE (find_file ''failed finding pyproject.toml in base dir: %w'' dir ''../pyproject.toml'') (ret dir))"

definition py_NewCommand :: "string \<Rightarrow> string list \<Rightarrow> command res" where
  "py_NewCommand dir args = Ok (program_command dir ''uv'' ([''run'', ''python'', ''-m''] @ args))"

section \<open>Ruby\<close>

record RubyDependency =
  rd_Name :: string
  rd_Version :: string
  rd_Path :: string

record ruby_options = tool_options +
  ob_BaseDir :: string
  ob_SourceDir :: string
  ob_MoreDependencies :: "RubyDependency list"

fun renderRubyDependencies :: "RubyDependency list \<Rightarrow> string list res" where
  "renderRubyDependencies [] = Ok []"
| "renderRubyDependencies (d # ds) =
     (if rd_Name d = [] then Err (Errorf ''ruby dependency name required'' [])
      else if rd_Path d \<noteq> [] \<and> rd_Version d \<noteq> []
      then Err (Errorf ''ruby dependency %q cannot have both path and version'' [rd_Name d])
      else (case renderRubyDependencies ds of
          Ok lines \<Rightarrow>
            Ok ((if rd_Path d \<noteq> [] then Sprintf ''gem %q, path: %q'' [rd_Name d, rd_Path d]
                 else if rd_Version d \<noteq> [] then Sprintf ''gem %q, %q'' [rd_Name d, rd_Version d]
                 else Sprintf ''gem %q'' [rd_Name d]) # lines)
        | Err e \<Rightarrow> Err e
        | Panic e \<Rightarrow> Panic e))"

text \<open>The line of the \<open>Gemfile\<close> for the SDK; the gem of a local repository is in \<open>temporalio\<close> or right there.\<close>

definition sdk_gem :: "string \<Rightarrow> ('z world_scheme, string) io" where
  \<open>sdk_gem version =
     (if is_path version then
        bindE (wrapE ''unable to make sdk path absolute: %w'' [] (filepath_Abs version)) (\<lambda>sdkPath.
        let gemPath = PathJoin [sdkPath, ''temporalio''] in
        bindE (exists_file (PathJoin [gemPath, ''temporalio.gemspec''])) (\<lambda>sub.
          if sub then ret (Sprintf ''gem "temporalio", path: %q'' [gemPath])
          else thenE (find_file ''failed finding temporalio.gemspec in version dir: %w'' sdkPath ''temporalio.gemspec'')
                 (ret (Sprintf ''gem "temporalio", path: %q'' [sdkPath]))))
      else if version \<noteq> [] then ret (Sprintf ''gem "temporalio", %q'' [TrimPrefix version ''v''])
      else ret ''gem "temporalio"'')\<close>

definition gemfile :: "string \<Rightarrow> string list \<Rightarrow> string \<Rightarrow> string" where
  \<open>gemfile gem deps sourceDir =
     Join ([''source "https://rubygems.org"'', [], gem] @ (if deps \<noteq> [] then deps @ [[]] else [])
       @ [Sprintf ''gemspec path: %q'' [sourceDir], []]) [newline]\<close>

text \<open>The native extension of a local repository; the error of the absolute path leaves it empty.\<close>

definition ruby_compile :: "ruby_options \<Rightarrow> ('z world_scheme, unit) io" where
  "ruby_compile opts =
     whenE (is_path (o_Version opts))
       (bindE (attempt (filepath_Abs (o_Version opts))) (\<lambda>r.
        let sdkPath = (case r of Inr p \<Rightarrow> p | Inl e \<Rightarrow> []) in
        bindE (exists_file (PathJoin [PathJoin [sdkPath, ''temporalio''], ''Rakefile''])) (\<lambda>sub.
        let gemPath = (if sub then PathJoin [sdkPath, ''temporalio''] else sdkPath) in
        bindE (exists_file (PathJoin [gemPath, ''Rakefile''])) (\<lambda>there.
          whenE there (wrapE ''failed compiling native extension: %w'' []
            (run_command (tool opts gemPath ''bundle'' [''exec'', ''rake'', ''compile''])))))))"

definition ruby_install :: "ruby_options \<Rightarrow> string \<Rightarrow> ('z world_scheme, unit) io" where
  \<open>ruby_install opts dir =
     bindE (sdk_gem (o_Version opts)) (\<lambda>gem.
     bindE (of_res (renderRubyDependencies (ob_MoreDependencies opts))) (\<lambda>deps.
     thenE (write_file dir ''Gemfile'' (gemfile gem deps (ob_SourceDir opts)))
    (thenE (wrapE ''failed creating .bundle dir: %w'' [] (os_MkdirAll (PathJoin [dir, ''.bundle''])))
    (thenE (wrapE ''failed writing .bundle/config: %w'' [] (os_WriteFile (PathJoin [PathJoin [dir, ''.bundle''], ''config''])
         (''---'' @ newline # ''BUNDLE_PATH: "vendor/bundle"'' @ [newline])))
    (thenE (wrapE ''failed installing dependencies: %w'' [] (run_command (tool opts dir ''bundle'' [''install''])))
      (ruby_compile opts))))))\<close>

text \<open>
  An installation that is found is returned early, before the code sets its flag of success: a temporary
  directory would be removed all the same.
\<close>

definition ruby_body :: "ruby_options \<Rightarrow> string \<Rightarrow> ('z world_scheme, bool) io" where
  "ruby_body opts dir =
     bindE (exists_dir (PathJoin [dir, ''vendor''])) (\<lambda>installed.
       if installed then ret False else thenE (ruby_install opts dir) (ret True))"

definition BuildRubyProgram :: "ruby_options \<Rightarrow> ('z world_scheme, string \<times> string) io" where
  "BuildRubyProgram opts =
     thenE (require (ob_BaseDir opts \<noteq> []) ''base dir required'')
       (if o_DirName opts \<noteq> [] then
          let dir = PathJoin [ob_BaseDir opts, o_DirName opts] in
          thenE (bindE (ruby_body opts dir) (\<lambda>success. ret ())) (ret (dir, ob_SourceDir opts))
        else bindE (temp_program_dir (ob_BaseDir opts)) (\<lambda>dir.
          bindE (defer_unless_ok (os_RemoveAll dir) (ruby_body opts dir)) (\<lambda>success.
            thenE (whenE (\<not> success) (upd (os_RemoveAll dir))) (ret (dir, ob_SourceDir opts)))))"

definition RubyProgramFromDir :: "string \<Rightarrow> string \<Rightarrow> ('z world_scheme, string \<times> string) io" where
  "RubyProgramFromDir dir sourceDir = thenE (find_file ''failed finding Gemfile in dir: %w'' dir ''Gemfile'') (ret (dir, sourceDir))"

definition ruby_NewCommand :: "string \<times> string \<Rightarrow> string list \<Rightarrow> command res" where
  "ruby_NewCommand p args =
     Ok (program_command (fst p) ''bundle'' ([''exec'', ''ruby'', PathJoin [snd p, ''runner.rb'']] @ args))"

end
