(* ===== verification/Sdk_Programs.thy ===== *)
theory Sdk_Programs
  imports Sdk_Scripts
begin

text \<open>
  Built programs (the interface \<open>Program\<close> of \<open>sdkbuild/sdkbuild.go\<close>): the directory of a program and the
  commands it makes. The locale \<open>sdk_program\<close> is what the runner relies on when it takes up a prepared
  directory again; each language's \<open>FromDir\<close> and \<open>NewCommand\<close> meets it. The theorems on the builders say
  that a build that fails leaves no temporary directory behind, and that a build that succeeds can be
  taken up again.
\<close>

section \<open>Programs\<close>

datatype Program =
    GoProgram string
  | JavaProgram string
  | TypeScriptProgram string
  | PhpProgram "string \<times> string"
  | PythonProgram string
  | DotNetProgram string
  | RubyProgram "string \<times> string"

fun Dir :: "Program \<Rightarrow> string" where
  "Dir (GoProgram d) = d"
| "Dir (JavaProgram d) = d"
| "Dir (TypeScriptProgram d) = d"
| "Dir (PhpProgram p) = fst p"
| "Dir (PythonProgram d) = d"
| "Dir (DotNetProgram d) = d"
| "Dir (RubyProgram p) = fst p"

fun NewCommand :: "Program \<Rightarrow> string list \<Rightarrow> command res" where
  "NewCommand (GoProgram d) args = go_NewCommand d args"
| "NewCommand (JavaProgram d) args = java_NewCommand d args"
| "NewCommand (TypeScriptProgram d) args = ts_NewCommand d args"
| "NewCommand (PhpProgram p) args = php_NewCommand p args"
| "NewCommand (PythonProgram d) args = py_NewCommand d args"
| "NewCommand (DotNetProgram d) args = dotnet_NewCommand d args"
| "NewCommand (RubyProgram p) args = ruby_NewCommand p args"

section \<open>The contract of a program\<close>

definition inherits_io :: "command \<Rightarrow> bool" where
  "inherits_io c = (c_stdin c = Some Inherited \<and> c_stdout c = Some Inherited \<and> c_stderr c = Some Inherited)"

locale sdk_program =
  fixes from_dir :: "string \<Rightarrow> ('z world_scheme, 'p) io"
    and dir_of :: "'p \<Rightarrow> string"
    and command :: "'p \<Rightarrow> string list \<Rightarrow> command res"
  assumes from_dir_quiet: "keeps (\<lambda>w. w) (from_dir d)"
    and from_dir_there: "from_dir d w = (Ok p, w') \<Longrightarrow> dir_of p = d"
    and command_there: "command p args = Ok c \<Longrightarrow> c_dir c = dir_of p \<and> inherits_io c \<and> c_env c = []"
begin

lemma reopened_command:
  assumes "from_dir d w = (Ok p, w')" "command p args = Ok c"
  shows "w' = w \<and> c_dir c = d \<and> inherits_io c \<and> c_env c = []"
  using assms keepsD [OF from_dir_quiet assms(1)] from_dir_there [OF assms(1)] command_there [OF assms(2)] by simp

end

lemma program_command_facts:
  "c_dir (program_command d exe args) = d" "inherits_io (program_command d exe args)" "c_env (program_command d exe args) = []"
  by (simp_all add: program_command_def setupCommandIO_def Command_def writer_or_def inherits_io_def)

lemma keeps_find_file [keeps_intros]: "keeps f (find_file s d n)"
  unfolding find_file_def by (intro keeps_intros)

lemma find_file_ret: "thenE (find_file s d n) (ret x) w = (Ok p, w') \<Longrightarrow> p = x"
  by (auto simp: thenE_Ok_iff ret_def)

lemma keeps_from_dir [keeps_intros]:
  "keeps f (GoProgramFromDir d)" "keeps f (JavaProgramFromDir d)" "keeps f (TypeScriptProgramFromDir d)"
  "keeps f (PhpProgramFromDir d root)" "keeps f (PythonProgramFromDir d)" "keeps f (DotNetProgramFromDir d)"
  "keeps f (RubyProgramFromDir d source)"
  unfolding GoProgramFromDir_def JavaProgramFromDir_def TypeScriptProgramFromDir_def PhpProgramFromDir_def
    PythonProgramFromDir_def DotNetProgramFromDir_def RubyProgramFromDir_def
  by (intro keeps_intros)+

lemma from_dir_dirs:
  "GoProgramFromDir d w = (Ok p, w') \<Longrightarrow> p = d" "JavaProgramFromDir d w = (Ok p, w') \<Longrightarrow> p = d"
  "TypeScriptProgramFromDir d w = (Ok p, w') \<Longrightarrow> p = d" "PythonProgramFromDir d w = (Ok p, w') \<Longrightarrow> p = d"
  "DotNetProgramFromDir d w = (Ok p, w') \<Longrightarrow> p = d"
  "PhpProgramFromDir d root w = (Ok q, w') \<Longrightarrow> q = (d, GetSourceDir root)"
  "RubyProgramFromDir d source w = (Ok q, w') \<Longrightarrow> q = (d, source)"
  by (auto simp: GoProgramFromDir_def JavaProgramFromDir_def TypeScriptProgramFromDir_def PhpProgramFromDir_def
    PythonProgramFromDir_def DotNetProgramFromDir_def RubyProgramFromDir_def thenE_Ok_iff ret_def)

lemmas program_commands = go_NewCommand_def ts_NewCommand_def dotnet_NewCommand_def py_NewCommand_def
  php_NewCommand_def ruby_NewCommand_def program_command_facts

lemma java_command_facts:
  "java_NewCommand d args = Ok c \<Longrightarrow> c_dir c = d \<and> inherits_io c \<and> c_env c = []"
  by (auto simp: java_NewCommand_def buildGradleCommand_def setupCommandIO_def Command_def writer_or_def inherits_io_def
      split: res.splits)

interpretation go_program: sdk_program GoProgramFromDir "\<lambda>d. d" go_NewCommand
  by unfold_locales (auto simp: program_commands keeps_from_dir dest: from_dir_dirs)

interpretation ts_program: sdk_program TypeScriptProgramFromDir "\<lambda>d. d" ts_NewCommand
  by unfold_locales (auto simp: program_commands keeps_from_dir dest: from_dir_dirs)

interpretation dotnet_program: sdk_program DotNetProgramFromDir "\<lambda>d. d" dotnet_NewCommand
  by unfold_locales (auto simp: program_commands keeps_from_dir dest: from_dir_dirs)

interpretation py_program: sdk_program PythonProgramFromDir "\<lambda>d. d" py_NewCommand
  by unfold_locales (auto simp: program_commands keeps_from_dir dest: from_dir_dirs)

interpretation java_program: sdk_program JavaProgramFromDir "\<lambda>d. d" java_NewCommand
  by unfold_locales (auto simp: keeps_from_dir dest: from_dir_dirs java_command_facts)

interpretation php_program: sdk_program "\<lambda>d. PhpProgramFromDir d root" fst php_NewCommand for root
  by unfold_locales (auto simp: program_commands keeps_from_dir dest: from_dir_dirs)

interpretation ruby_program: sdk_program "\<lambda>d. RubyProgramFromDir d source" fst ruby_NewCommand for source
  by unfold_locales (auto simp: program_commands keeps_from_dir dest: from_dir_dirs)

section \<open>What a build keeps\<close>

text \<open>The choices of the environment that the theorems on builders speak of.\<close>

definition env_of :: "'z world_scheme \<Rightarrow> string \<times> (string \<Rightarrow> string \<Rightarrow> go_error option) \<times> (nat \<Rightarrow> command \<Rightarrow> fs \<Rightarrow> fs)" where
  "env_of w = (w_cwd w, x_fault w, x_exec_fs w)"

text \<open>An observation that does not see the files, the temporary names and the commands run so far.\<close>

definition ignores_files :: "('z world_scheme \<Rightarrow> 'o) \<Rightarrow> bool" where
  "ignores_files f = (\<forall>w m l n. f (w\<lparr>w_fs := m\<rparr>) = f w \<and> f (w\<lparr>w_temps := n\<rparr>) = f w \<and> f (w\<lparr>w_cmds := l\<rparr>) = f w)"

lemma ignores_files_env [keeps_intros]: "ignores_files env_of"
  by (simp add: ignores_files_def env_of_def)

lemma keeps_env [keeps_intros]:
  assumes "ignores_files f"
  shows "keeps f (os_WriteFile p c)" "keeps f (os_MkdirAll p)" "keeps f (os_MkdirTemp d p)" "keeps f (run_command cmd)"
  by (intro keeps_os_write keeps_os_MkdirTemp keeps_run_command; use assms in \<open>simp add: ignores_files_def\<close>)+

lemma ignores_RemoveAll [keeps_intros]: "ignores_files f \<Longrightarrow> f (os_RemoveAll p w) = f w"
  by (simp add: os_RemoveAll_def ignores_files_def split: option.splits)

lemma env_of_RemoveAll [simp]: "env_of (os_RemoveAll p w) = env_of w"
  by (rule ignores_RemoveAll [OF ignores_files_env])

lemma keeps_checks [keeps_intros]:
  "keeps f (exists_dir p)" "keeps f (exists_file p)" "keeps f (require b t)"
  unfolding exists_dir_def exists_file_def require_def by (intro keeps_intros)+

lemma keeps_glob_dir [keeps_intros]: "keeps f (glob_dir d p ms)"
  unfolding glob_dir_def by (intro keeps_intros) (auto split: sum.splits intro!: keeps_intros)

lemma keeps_glob_limit: "keeps f (glob_limit n p)"
proof (induction n arbitrary: p)
  case (Suc n)
  then show ?case unfolding glob_limit.simps Let_def by (intro keeps_intros)
qed (simp add: keeps_pure)

lemma keeps_Glob [keeps_intros]: "keeps f (Glob p)"
  unfolding Glob_def by (rule keeps_glob_limit)

lemma keeps_steps [keeps_intros]:
  assumes i [keeps_intros]: "ignores_files f"
  shows "keeps f (write_file d n c)" "keeps f (apply_and_run opts t cmd)" "keeps f (temp_program_dir b)"
  unfolding write_file_def apply_and_run_def temp_program_dir_def by (intro keeps_intros)+

lemma keeps_go_replace [keeps_intros]: "keeps f (go_replace opts dir)"
  unfolding go_replace_def by (intro keeps_intros)

lemma keeps_settings_gradle [keeps_intros]: "keeps f (settings_gradle opts dir)"
  unfolding settings_gradle_def Let_def by (intro keeps_intros)

lemma keeps_dotnet_version_arg [keeps_intros]:
  assumes i [keeps_intros]: "ignores_files f"
  shows "keeps f (dotnet_version_arg opts dir)"
  unfolding dotnet_version_arg_def by (intro keeps_intros)

lemma keeps_ts_dependencies [keeps_intros]:
  assumes i [keeps_intros]: "ignores_files f"
  shows "keeps f (ts_dependencies opts)"
  unfolding ts_dependencies_def ts_build_local_def Let_def by (intro keeps_intros)

lemma keeps_get_wheels [keeps_intros]:
  assumes i [keeps_intros]: "ignores_files f"
  shows "keeps f (get_wheels n opts p)"
proof (induction n)
  case 0
  show ?case unfolding get_wheels.simps [of 0]
    by (intro keeps_intros) (auto split: list.splits intro!: keeps_intros)
next
  case (Suc n)
  then show ?case unfolding get_wheels.simps [of "Suc n"]
    by (intro keeps_intros) (auto split: list.splits intro!: keeps_intros)
qed

lemma keeps_python [keeps_intros]:
  assumes i [keeps_intros]: "ignores_files f"
  shows "keeps f (py_execute opts dir args)" "keeps f (uv_add opts dir as)" "keeps f (py_add_sdk opts dir)"
proof -
  show e: "keeps f (py_execute opts dir args)" for args
    unfolding py_execute_def by (auto split: list.splits intro!: keeps_intros)
  show u: "keeps f (uv_add opts dir as)" for as
    unfolding uv_add_def by (intro keeps_intros e)
  show "keeps f (py_add_sdk opts dir)"
    unfolding py_add_sdk_def getWheel_def by (intro keeps_intros u)
qed

lemma keeps_ruby_body [keeps_intros]:
  assumes i [keeps_intros]: "ignores_files f"
  shows "keeps f (ruby_body opts dir)"
  unfolding ruby_body_def ruby_install_def sdk_gem_def ruby_compile_def Let_def by (intro keeps_intros)

text \<open>Whole builds.\<close>

lemma keeps_with_program_dir [keeps_intros]:
  assumes i [keeps_intros]: "ignores_files f" and "\<And>d. keeps f (body d)"
  shows "keeps f (with_program_dir opts base body)"
  unfolding with_program_dir_def by (intro keeps_intros assms(2))

lemma keeps_builds [keeps_intros]:
  assumes i [keeps_intros]: "ignores_files f"
  shows "keeps f (BuildGoProgram og)" "keeps f (BuildJavaProgram oj)" "keeps f (BuildDotNetProgram od)"
    "keeps f (BuildTypeScriptProgram ot)" "keeps f (BuildPhpProgram op)" "keeps f (BuildPythonProgram oy)"
    "keeps f (BuildRubyProgram ob)"
proof -
  show "keeps f (BuildGoProgram og)" unfolding BuildGoProgram_def by (intro keeps_intros)
  show "keeps f (BuildJavaProgram oj)" unfolding BuildJavaProgram_def by (intro keeps_intros)
  show "keeps f (BuildDotNetProgram od)" unfolding BuildDotNetProgram_def by (intro keeps_intros)
  show "keeps f (BuildTypeScriptProgram ot)" unfolding BuildTypeScriptProgram_def by (intro keeps_intros)
  show "keeps f (BuildPhpProgram op)"
    unfolding BuildPhpProgram_def php_install_def copy_file_def composer_def by (intro keeps_intros)
  show "keeps f (BuildPythonProgram oy)" unfolding BuildPythonProgram_def by (intro keeps_intros)
  show "keeps f (BuildRubyProgram ob)" unfolding BuildRubyProgram_def Let_def by (intro keeps_intros)
qed

section \<open>Builds that fail\<close>

text \<open>
  A failing build leaves no temporary directory: either it changed no file, or nothing is left at or
  below the directory it drew.
\<close>

definition temp_dir :: "string \<Rightarrow> 'z world_scheme \<Rightarrow> string" where
  "temp_dir base w = PathJoin [base, ''program-'' @ x_temp w (w_temps w)]"

definition cleans_up :: "string \<Rightarrow> ('z world_scheme, 'p) io \<Rightarrow> bool" where
  "cleans_up base build = (\<forall>w r w'. (\<forall>p. x_fault w ''removeall'' p = None) \<longrightarrow> build w = (r, w') \<longrightarrow> (\<forall>a. r \<noteq> Ok a) \<longrightarrow>
     w_fs w' = w_fs w \<or> (\<forall>q. below (abs_path w (temp_dir base w)) q \<longrightarrow> map_of (w_fs w') q = None))"

lemma cleans_upD:
  "cleans_up base m \<Longrightarrow> m w = (r, w') \<Longrightarrow> (\<And>a. r \<noteq> Ok a) \<Longrightarrow> (\<And>p. x_fault w ''removeall'' p = None) \<Longrightarrow>
     w_fs w' = w_fs w \<or> (\<forall>q. below (abs_path w (temp_dir base w)) q \<longrightarrow> map_of (w_fs w') q = None)"
  by (simp add: cleans_up_def)

lemma cleans_up_fail: "cleans_up base (fail e)"
  by (simp add: cleans_up_def fail_def)

lemma cleans_up_guard:
  assumes "keeps (\<lambda>w. w) g" "cleans_up base m"
  shows "cleans_up base (thenE g m)"
  unfolding cleans_up_def
proof (intro allI impI)
  fix w r w'
  assume a: "\<forall>p. x_fault w ''removeall'' p = None" "thenE g m w = (r, w')" "\<forall>a. r \<noteq> Ok a"
  obtain x where x: "g w = (x, w)" using keepsD [OF assms(1)] by (metis surj_pair)
  show "w_fs w' = w_fs w \<or> (\<forall>q. below (abs_path w (temp_dir base w)) q \<longrightarrow> map_of (w_fs w') q = None)"
    using assms(2) a x by (cases x) (auto simp: cleans_up_def thenE_def bindE_def)
qed

lemma MkdirTemp_result:
  assumes "os_MkdirTemp d pre w = (r, w')"
  shows "(case r of Ok p \<Rightarrow> p = PathJoin [d, pre @ x_temp w (w_temps w)] | _ \<Rightarrow> w_fs w' = w_fs w)"
  using assms faulty_cases [of "''mkdirtemp''" d w]
  by (auto simp: os_MkdirTemp_def thenE_def bindE_def Let_def split: if_splits)

text \<open>The shape of a builder: a temporary directory, a body that may fail, and an end that does not.\<close>

lemma cleans_up_temp:
  assumes "\<And>d. keeps env_of (body d)" "\<And>d a x. \<exists>b x'. k d a x = (Ok b, x')"
  shows "cleans_up base (bindE (temp_program_dir base) (\<lambda>dir. bindE (defer_unless_ok (os_RemoveAll dir) (body dir)) (k dir)))"
  unfolding cleans_up_def
proof (intro allI impI)
  fix w r w'
  assume a: "\<forall>p. x_fault w ''removeall'' p = None" "\<forall>a. r \<noteq> Ok a" and
    run: "bindE (temp_program_dir base) (\<lambda>dir. bindE (defer_unless_ok (os_RemoveAll dir) (body dir)) (k dir)) w = (r, w')"
  obtain x w1 where m: "os_MkdirTemp base ''program-'' w = (x, w1)" by force
  show "w_fs w' = w_fs w \<or> (\<forall>q. below (abs_path w (temp_dir base w)) q \<longrightarrow> map_of (w_fs w') q = None)"
  proof (cases x)
    case (Ok d)
    then have d: "d = temp_dir base w" using MkdirTemp_result [OF m] by (simp add: temp_dir_def)
    obtain y w2 where b: "body d w1 = (y, w2)" by force
    have "env_of w2 = env_of w" using keepsD [OF assms(1) b] keepsD [OF keeps_env(3) [OF ignores_files_env] m] by simp
    then have e: "w_cwd w2 = w_cwd w" "x_fault w2 = x_fault w" by (simp_all add: env_of_def)
    have after: "bindE (defer_unless_ok (os_RemoveAll d) (body d)) (k d) w1 = (r, w')"
      using run m Ok by (simp add: bindE_def temp_program_dir_def wrapE_def)
    have "w' = os_RemoveAll d w2"
    proof (cases y)
      case (Ok z)
      then show ?thesis using after b a(2) assms(2) [of d z w2] by (auto simp: bindE_def defer_unless_ok_def)
    qed (use after b in \<open>simp_all add: bindE_def defer_unless_ok_def\<close>)
    then have "w_fs w' = fs_remove (abs_path w d) (w_fs w2)"
      using a(1) e by (simp add: os_RemoveAll_def abs_path_def)
    then show ?thesis by (simp add: map_of_fs_remove d)
  next
    case (Err e)
    then show ?thesis using run m MkdirTemp_result [OF m]
      by (simp add: bindE_def temp_program_dir_def wrapE_def)
  next
    case (Panic e)
    then show ?thesis using run m MkdirTemp_result [OF m]
      by (simp add: bindE_def temp_program_dir_def wrapE_def)
  qed
qed

lemma bindE_ret_right: "bindE m ret = m"
  by (auto simp: bindE_def ret_def fun_eq_iff split: prod.splits res.splits)

lemma cleans_up_dir:
  assumes "o_DirName opts = []" "\<And>d. keeps env_of (body d)"
  shows "cleans_up base (with_program_dir opts base body)"
proof -
  have "cleans_up base (bindE (temp_program_dir base) (\<lambda>dir. bindE (defer_unless_ok (os_RemoveAll dir) (body dir)) ret))"
    by (rule cleans_up_temp [OF assms(2)]) (simp add: ret_def)
  then show ?thesis using assms(1) by (simp add: with_program_dir_def bindE_ret_right)
qed

lemmas cleans_up_intros = cleans_up_guard keeps_checks keeps_find_file cleans_up_dir cleans_up_fail

lemma undo_succeeds: "\<exists>b x'. thenE (whenE c (upd f)) (ret p) x = (Ok b, x')"
  by (simp add: thenE_def bindE_def whenE_def upd_def ret_def)

text \<open>
  C19: a build that fails cleans up. When the directory may be removed, each builder that works in a
  temporary directory (Go, Java, .NET, TypeScript, Python, Ruby) and does not return a program, whether it
  fails or panics, at whatever step, has either changed no file or left nothing at or below the
  directory it made, whatever files the commands it ran created there.
\<close>

theorem failed_builds_clean:
  assumes "o_DirName og = []" "o_DirName oj = []" "o_DirName od = []" "o_DirName ot = []" "o_DirName oy = []" "o_DirName ob = []"
  shows "cleans_up (o_BaseDir og) (BuildGoProgram og) \<and> cleans_up (o_BaseDir oj) (BuildJavaProgram oj) \<and>
    cleans_up (od_BaseDir od) (BuildDotNetProgram od) \<and> cleans_up (o_BaseDir ot) (BuildTypeScriptProgram ot) \<and>
    cleans_up (o_BaseDir oy) (BuildPythonProgram oy) \<and> cleans_up (ob_BaseDir ob) (BuildRubyProgram ob)"
proof (intro conjI)
  show "cleans_up (o_BaseDir og) (BuildGoProgram og)"
    unfolding BuildGoProgram_def by (intro cleans_up_intros assms keeps_intros)
  show "cleans_up (o_BaseDir oj) (BuildJavaProgram oj)"
    unfolding BuildJavaProgram_def by (intro cleans_up_intros assms keeps_intros)
  show "cleans_up (od_BaseDir od) (BuildDotNetProgram od)"
    unfolding BuildDotNetProgram_def by (auto intro!: cleans_up_intros assms keeps_intros)
  show "cleans_up (o_BaseDir ot) (BuildTypeScriptProgram ot)"
    unfolding BuildTypeScriptProgram_def by (intro cleans_up_intros assms keeps_intros)
  show "cleans_up (o_BaseDir oy) (BuildPythonProgram oy)"
    unfolding BuildPythonProgram_def by (intro cleans_up_intros assms keeps_intros)
  show "cleans_up (ob_BaseDir ob) (BuildRubyProgram ob)"
    unfolding BuildRubyProgram_def assms(6)
    by (simp, intro cleans_up_guard keeps_checks cleans_up_temp keeps_ruby_body ignores_files_env undo_succeeds)
qed

definition sample_go_options :: go_options where
  "sample_go_options = \<lparr>o_Version = [], o_DirName = [], o_Stdout = None, o_Stderr = None, o_BaseDir = ''/b'',
     o_ApplyToCommand = None, og_SDKRepository = [], og_GoModContents = ''m'', og_GoMainContents = ''p'', og_GoBuildTags = []\<rparr>"

theorem failed_builds_clean_witness:
  "map_of (w_fs (snd (BuildGoProgram sample_go_options
     ((calm_world [(''/b'', DirN)])\<lparr>x_exec := (\<lambda>_ _. Some (Errorf ''no tool'' []))\<rparr>)))) ''/b/program-0'' = None"
proof -
  let ?w = "(calm_world [(''/b'', DirN)])\<lparr>x_exec := (\<lambda>_ _. Some (Errorf ''no tool'' []))\<rparr>"
  have no: "o_DirName sample_go_options = []" by (simp add: sample_go_options_def)
  have c: "cleans_up (o_BaseDir sample_go_options) (BuildGoProgram sample_go_options :: (world, string) io)"
    by (rule conjunct1 [OF failed_builds_clean [of _ "undefined\<lparr>o_DirName := []\<rparr>" "undefined\<lparr>o_DirName := []\<rparr>"
      "undefined\<lparr>o_DirName := []\<rparr>" "undefined\<lparr>o_DirName := []\<rparr>" "undefined\<lparr>o_DirName := []\<rparr>"]]) (simp_all add: no)
  obtain r w' where b: "BuildGoProgram sample_go_options ?w = (r, w')" by force
  have "case fst (BuildGoProgram sample_go_options ?w) of Err e \<Rightarrow> True | _ \<Rightarrow> False" by code_simp
  then have f: "r \<noteq> Ok a" for a unfolding b by auto
  have "abs_path ?w (temp_dir (o_BaseDir sample_go_options) ?w) = ''/b/program-0''" by code_simp
  with cleans_upD [OF c b f] have "w_fs w' = [(''/b'', DirN)] \<or> map_of (w_fs w') ''/b/program-0'' = None"
    by (simp add: calm_world_def) (metis below_refl)
  then show ?thesis unfolding b by auto
qed

section \<open>Builds that succeed\<close>

text \<open>Commands may change files and make new ones, but take none away; \<open>os.Stat\<close> works.\<close>

definition tame :: "'z world_scheme \<Rightarrow> bool" where
  "tame w = ((\<forall>n c m q. map_of m q \<noteq> None \<longrightarrow> map_of (x_exec_fs w n c m) q \<noteq> None) \<and> (\<forall>p. x_fault w ''stat'' p = None))"

definition settled :: "string \<Rightarrow> 'z world_scheme \<Rightarrow> bool" where
  "settled p w = (tame w \<and> fs_at w p \<noteq> None)"

lemma tame_env: "tame w = ((\<forall>n c m q. map_of m q \<noteq> None \<longrightarrow> map_of (snd (snd (env_of w)) n c m) q \<noteq> None) \<and>
    (\<forall>p. fst (snd (env_of w)) ''stat'' p = None))"
  by (simp add: tame_def env_of_def)

lemma tame_keeps: "keeps env_of m \<Longrightarrow> preserves tame m"
  by (simp add: preserves_def keeps_def tame_env)

lemma settled_more:
  "settled p w \<Longrightarrow> (\<And>q. map_of (w_fs w) q \<noteq> None \<Longrightarrow> map_of m q \<noteq> None) \<Longrightarrow> settled p (w\<lparr>w_fs := m\<rparr>)"
  by (auto simp: settled_def tame_def fs_at_def)

lemma preserves_faulty [preserves_intros]: "preserves I (faulty oper p)"
  by (auto simp: preserves_def faulty_def split: option.splits)

lemma settled_os [preserves_intros]:
  "preserves (settled p) (os_WriteFile f c)" "preserves (settled p) (os_MkdirAll f)" "preserves (settled p) (run_command cmd)"
proof -
  show "preserves (settled p) (os_WriteFile f c)"
    unfolding os_WriteFile_def
    by (intro preserves_thenE preserves_faulty) (auto simp: preserves_def Let_def map_of_fs_put intro!: settled_more)
  show "preserves (settled p) (os_MkdirAll f)"
    unfolding os_MkdirAll_def
    by (intro preserves_thenE preserves_faulty)
      (auto simp: preserves_def mkdirs_result intro!: settled_more split: option.splits)
  show "preserves (settled p) (run_command cmd)"
    by (auto simp: preserves_def run_command_def Let_def settled_def tame_def fs_at_def abs_path_def)
qed

lemma settled_quiet: "keeps (\<lambda>w. w) m \<Longrightarrow> preserves I m"
  using preserves_keeps [of "\<lambda>w. w" m I] by simp

lemma settled_reads [preserves_intros]:
  "preserves I (os_Stat p)" "preserves I (os_ReadFile p)" "preserves I (filepath_Abs p)" "preserves I (exists_dir p)"
  "preserves I (exists_file p)" "preserves I (find_file s d n)" "preserves I (require b t)" "preserves I (Glob p)"
  "preserves I (settings_gradle oj d)" "preserves I (go_replace og d)"
  by (rule settled_quiet; intro keeps_intros)+

lemma settled_steps [preserves_intros]:
  "preserves (settled p) (write_file d n c)" "preserves (settled p) (apply_and_run opts t cmd)"
  unfolding write_file_def apply_and_run_def by (intro preserves_intros)+

text \<open>A file that is written is there, and \<open>FromDir\<close> finds it.\<close>

lemma WriteFile_settled: "ends tame (os_WriteFile p c) (\<lambda>_. settled p)"
  unfolding ends_def
proof (intro allI impI)
  fix w :: "'a world_scheme" and a w'
  assume t: "tame w" and r: "os_WriteFile p c w = (Ok a, w')"
  have "w' = w\<lparr>w_fs := fs_put (abs_path w p) (FileN c) (w_fs w)\<rparr>"
    using r faulty_cases [of "''write''" p w]
    by (auto simp: os_WriteFile_def thenE_def bindE_def Let_def split: if_splits)
  with t show "settled p w'" by (simp add: settled_def tame_def fs_at_def map_of_fs_put)
qed

lemma write_file_settled: "ends tame (write_file d n c) (\<lambda>_. settled (PathJoin [d, n]))"
  unfolding write_file_def by (intro ends_intros WriteFile_settled)

lemma find_file_settled: "settled (PathJoin [d, n]) w \<Longrightarrow> find_file t d n w = (Ok (), w)"
  by (auto simp: find_file_def thenE_def bindE_def wrapE_def os_Stat_def faulty_def settled_def tame_def ret_def)

lemma settled_temp [preserves_intros]: "preserves (settled p) (temp_program_dir base)"
  unfolding temp_program_dir_def os_MkdirTemp_def
  by (intro preserves_wrapE preserves_thenE preserves_faulty)
    (auto simp: preserves_def Let_def settled_def tame_def fs_at_def map_of_fs_put abs_path_def)

lemma tame_temp: "preserves tame (temp_program_dir base)"
  by (intro tame_keeps keeps_intros)

lemma ends_dir:
  assumes "preserves I (temp_program_dir base)" "\<And>d. ends I (body d) J"
  shows "ends I (with_program_dir opts base body) J"
  unfolding with_program_dir_def using assms(2)
  by (auto intro!: ends_if ends_bindE [OF ends_preserves [OF assms(1)]] ends_defer_unless_ok)

lemma ends_step:
  "preserves I m \<Longrightarrow> ends I k K \<Longrightarrow> ends I (thenE m k) K"
  "preserves I m \<Longrightarrow> (\<And>a. ends I (h a) K) \<Longrightarrow> ends I (bindE m h) K"
  by (auto intro: ends_thenE ends_bindE dest: ends_preserves)

lemma tame_steps: "preserves tame (go_replace og d)" "preserves tame (ts_dependencies ot)" "preserves tame (dotnet_version_arg od d)"
  "preserves tame (write_file d n c)" "preserves I (of_res r)" "preserves tame (require b t)" "preserves tame (find_file t d n)"
  by (intro tame_keeps keeps_intros preserves_pure)+

lemma settled_python [preserves_intros]:
  "preserves (settled p) (py_execute opts dir args)" "preserves (settled p) (uv_add opts dir as)"
  "preserves (settled p) (py_add_sdk opts dir)"
proof -
  show e: "preserves (settled p) (py_execute opts dir args)" for args
    unfolding py_execute_def by (auto split: list.splits intro!: preserves_intros)
  show u: "preserves (settled p) (uv_add opts dir as)" for as
    unfolding uv_add_def by (intro preserves_intros e)
  have g: "preserves (settled p) (get_wheels n opts d)" for n d
  proof (induction n)
    case 0
    show ?case unfolding get_wheels.simps [of 0]
      by (intro preserves_intros) (auto split: list.splits intro!: preserves_intros)
  next
    case (Suc n)
    then show ?case unfolding get_wheels.simps [of "Suc n"]
      by (intro preserves_intros) (auto split: list.splits intro!: preserves_intros)
  qed
  show "preserves (settled p) (py_add_sdk opts dir)"
    unfolding py_add_sdk_def getWheel_def by (intro preserves_intros u g)
qed

lemmas settles = ends_dir [OF tame_temp] ends_thenE [OF write_file_settled]

lemma go_settles: "ends tame (BuildGoProgram og) (\<lambda>d. settled (PathJoin [d, ''go.mod'']))"
  unfolding BuildGoProgram_def
  by (rule ends_step, rule tame_steps)+
    (rule settles, rule ends_step(2) [OF tame_steps(1)], rule settles,
     (rule ends_step, intro preserves_intros)+, rule ends_ret)

lemma ts_settles: "ends tame (BuildTypeScriptProgram ot) (\<lambda>d. settled (PathJoin [d, ''package.json'']))"
  unfolding BuildTypeScriptProgram_def
  by (rule ends_step, rule tame_steps)+
    (rule settles, rule ends_step(2) [OF tame_steps(2)], rule settles,
     (rule ends_step, intro preserves_intros)+, rule ends_ret)

lemma ends_fail: "ends I (fail e) J"
  by (simp add: ends_def fail_def)

lemma dotnet_settles: "ends tame (BuildDotNetProgram od) (\<lambda>d. settled (PathJoin [d, ''program.csproj'']))"
  unfolding BuildDotNetProgram_def
  by (rule ends_step, rule tame_steps)+
    (rule ends_if, rule ends_fail, rule settles, rule ends_step(2) [OF tame_steps(3)], rule settles,
     (rule ends_step, intro preserves_intros)+, rule ends_ret)

lemma java_settles: "ends tame (BuildJavaProgram oj) (\<lambda>d. settled (PathJoin [d, ''build.gradle'']))"
  unfolding BuildJavaProgram_def
  by (rule ends_step, rule tame_steps)+
    (rule settles, rule settles, (rule ends_step, intro preserves_intros)+, rule ends_ret)

lemma py_settles: "ends tame (BuildPythonProgram oy) (\<lambda>d. settled (PathJoin [d, ''pyproject.toml'']))"
  unfolding BuildPythonProgram_def
  by (rule ends_step, rule tame_steps)+
    (rule settles, rule settles, (rule ends_step, intro preserves_intros)+, rule ends_ret)

text \<open>The project file in the base directory, which Java and Python look for too, stays.\<close>

lemma java_keeps_base: "ends (settled p) (BuildJavaProgram oj) (\<lambda>_. settled p)"
  unfolding BuildJavaProgram_def
  by (rule ends_step, intro preserves_intros)+
    (rule ends_dir, intro preserves_intros, (rule ends_step, intro preserves_intros)+, rule ends_ret)

lemma py_keeps_base: "ends (settled p) (BuildPythonProgram oy) (\<lambda>_. settled p)"
  unfolding BuildPythonProgram_def
  by (rule ends_step, intro preserves_intros)+
    (rule ends_dir, intro preserves_intros, (rule ends_step, intro preserves_intros)+, rule ends_ret)

lemma parent_file:
  assumes "clean_abs b" "ordinary n" "ordinary f"
  shows "PathJoin [PathJoin [b, n], ''../'' @ f] = PathJoin [b, f]"
proof -
  from assms(1) obtain cs where cs: "b = slash # Join cs ''/''" "cs \<noteq> []" "list_all ordinary cs" by (rule clean_absE)
  let ?es = "cs @ [n, ''..'', f]"
  have long: "b @ slash # n @ slash # ''../'' @ f = slash # Join ?es ''/''"
    using Join_snoc [of "cs @ [n, ''..'']" f "''/''"] Join_snoc [of "cs @ [n]" "''..''" "''/''"] Join_snoc [of cs n "''/''"] cs
    by simp
  have o: "slash \<notin> set c \<and> c \<noteq> []" if "c \<in> set cs" for c
    using cs(3) that by (simp add: list_all_iff ordinary_def)
  have sep: "slash \<notin> set c" "c \<noteq> []" if "c \<in> set ?es" for c
    using that o assms(2,3) by (auto simp: ordinary_def)
  have "Split slash (Join ?es ''/'') = ?es"
    by (rule Split_Join) (simp, rule sep(1))
  then have "path_comps (slash # Join ?es ''/'') = filter (\<lambda>c. c \<noteq> []) ?es" by (simp add: path_comps_def)
  also have "\<dots> = ?es" using sep(2) by (simp add: filter_id_conv)
  finally have "Clean (slash # Join ?es ''/'') = slash # Join (cs @ [f]) ''/''"
    using cs(3) assms(2,3)
    by (simp add: Clean_def clean_comps_def foldl_clean_ordinary) (auto simp: clean_step_def ordinary_def)
  then show ?thesis
    using PathJoin_sub [OF assms(1,2)] PathJoin_sub [OF assms(1,3)] long Join_snoc [OF cs(2), of f "''/''"] cs(1)
      clean_abs_nonempty [OF assms(1)]
    by (simp add: PathJoin_def)
qed

lemma preserves_True [simp]: "preserves (\<lambda>_. True) m"
  by (simp add: preserves_def)

lemma ends_named_dir:
  "o_DirName opts \<noteq> [] \<Longrightarrow> ends I (body (PathJoin [base, o_DirName opts])) J \<Longrightarrow> ends I (with_program_dir opts base body) J"
  by (simp add: with_program_dir_def)

lemma java_dir: "o_DirName oj \<noteq> [] \<Longrightarrow> ends (\<lambda>_. True) (BuildJavaProgram oj) (\<lambda>d _. d = PathJoin [o_BaseDir oj, o_DirName oj])"
  unfolding BuildJavaProgram_def by (intro ends_step preserves_True ends_named_dir ends_ret; simp)

lemma py_dir: "o_DirName oy \<noteq> [] \<Longrightarrow> ends (\<lambda>_. True) (BuildPythonProgram oy) (\<lambda>d _. d = PathJoin [o_BaseDir oy, o_DirName oy])"
  unfolding BuildPythonProgram_def by (intro ends_step preserves_True ends_named_dir ends_ret; simp)

lemma thenE_settled: "settled (PathJoin [d, n]) w \<Longrightarrow> thenE (find_file t d n) m w = m w"
  by (simp add: thenE_def bindE_def find_file_settled)

lemma found_settled: "tame w \<Longrightarrow> find_file t d n w = (Ok (), w') \<Longrightarrow> settled (PathJoin [d, n]) w"
  by (auto simp: find_file_def thenE_Ok_iff wrapE_def os_Stat_def faulty_def settled_def tame_def ret_def thenE_def bindE_def
      split: prod.splits res.splits option.splits)

text \<open>A build that succeeds leaves a directory that \<open>FromDir\<close> accepts.\<close>

lemma builds_reopen:
  assumes "tame w"
  shows "BuildGoProgram og w = (Ok d, w') \<Longrightarrow> GoProgramFromDir d w' = (Ok d, w')"
    and "BuildTypeScriptProgram ot w = (Ok d, w') \<Longrightarrow> TypeScriptProgramFromDir d w' = (Ok d, w')"
    and "BuildDotNetProgram od w = (Ok d, w') \<Longrightarrow> DotNetProgramFromDir d w' = (Ok d, w')"
  using endsD [OF go_settles assms, of og d w'] endsD [OF ts_settles assms, of ot d w']
    endsD [OF dotnet_settles assms, of od d w']
  by (simp_all add: GoProgramFromDir_def TypeScriptProgramFromDir_def DotNetProgramFromDir_def thenE_settled ret_def)

text \<open>For Java and Python the project file of the base directory is wanted too.\<close>

lemma java_reopens:
  assumes "tame w" "BuildJavaProgram oj w = (Ok d, w')" "clean_abs (o_BaseDir oj)" "ordinary (o_DirName oj)"
  shows "JavaProgramFromDir d w' = (Ok d, w')"
proof -
  have dir: "d = PathJoin [o_BaseDir oj, o_DirName oj]"
    using endsD [OF java_dir, of oj w d w'] assms(2,4) by (auto simp: ordinary_def)
  have "settled (PathJoin [o_BaseDir oj, ''build.gradle'']) w"
    using assms(2) found_settled [OF assms(1)]
    by (auto simp: BuildJavaProgram_def thenE_Ok_iff require_def ret_def fail_def split: if_splits)
  from endsD [OF java_keeps_base this assms(2)] have "settled (PathJoin [d, ''../build.gradle'']) w'"
    using parent_file [OF assms(3,4), of "''build.gradle''"] unfolding dir by (simp add: ordinary_def)
  with endsD [OF java_settles assms(1,2)] show ?thesis
    by (simp add: JavaProgramFromDir_def thenE_settled ret_def)
qed

lemma py_reopens:
  assumes "tame w" "BuildPythonProgram oy w = (Ok d, w')" "clean_abs (o_BaseDir oy)" "ordinary (o_DirName oy)"
  shows "PythonProgramFromDir d w' = (Ok d, w')"
proof -
  have dir: "d = PathJoin [o_BaseDir oy, o_DirName oy]"
    using endsD [OF py_dir, of oy w d w'] assms(2,4) by (auto simp: ordinary_def)
  have "settled (PathJoin [o_BaseDir oy, ''pyproject.toml'']) w"
    using assms(2) found_settled [OF assms(1)]
    by (auto simp: BuildPythonProgram_def thenE_Ok_iff require_def ret_def fail_def split: if_splits)
  from endsD [OF py_keeps_base this assms(2)] have "settled (PathJoin [d, ''../pyproject.toml'']) w'"
    using parent_file [OF assms(3,4), of "''pyproject.toml''"] unfolding dir by (simp add: ordinary_def)
  with endsD [OF py_settles assms(1,2)] show ?thesis
    by (simp add: PythonProgramFromDir_def thenE_settled ret_def)
qed

lemma named_dirs:
  "o_DirName og \<noteq> [] \<Longrightarrow> ends (\<lambda>_. True) (BuildGoProgram og) (\<lambda>d _. d = PathJoin [o_BaseDir og, o_DirName og])"
  "o_DirName ot \<noteq> [] \<Longrightarrow> ends (\<lambda>_. True) (BuildTypeScriptProgram ot) (\<lambda>d _. d = PathJoin [o_BaseDir ot, o_DirName ot])"
  "o_DirName od \<noteq> [] \<Longrightarrow> ends (\<lambda>_. True) (BuildDotNetProgram od) (\<lambda>d _. d = PathJoin [od_BaseDir od, o_DirName od])"
  unfolding BuildGoProgram_def BuildTypeScriptProgram_def BuildDotNetProgram_def
  by (intro ends_step preserves_True ends_named_dir ends_if ends_fail ends_ret; simp)+

lemma exists_dir_tame: "tame w \<Longrightarrow> exists_dir p w = (Ok (fs_at w p = Some DirN), w)"
  by (auto simp: exists_dir_def bindE_def attempt_def os_Stat_def thenE_def faulty_def tame_def ret_def split: option.splits)

text \<open>With a directory for the installed packages there already, the builders for PHP and Ruby do nothing.\<close>

definition fresh :: "string \<Rightarrow> 'z world_scheme \<Rightarrow> bool" where
  "fresh dir w = (tame w \<and> fs_at w (PathJoin [dir, ''vendor'']) \<noteq> Some DirN)"

lemma fresh_exists: "ends (fresh dir) (exists_dir (PathJoin [dir, ''vendor''])) (\<lambda>b w. \<not> b \<and> tame w)"
  by (auto simp: ends_def fresh_def exists_dir_tame)

lemma copy_file_settled: "ends tame (copy_file src dir n) (\<lambda>_. settled (PathJoin [dir, n]))"
  unfolding copy_file_def by (intro ends_step(2) preserves_intros ends_wrapE WriteFile_settled)

lemma settled_php [preserves_intros]: "preserves (settled p) (copy_file src dir n)" "preserves (settled p) (composer opts dir t as)"
  unfolding copy_file_def composer_def by (intro preserves_intros)+

lemma php_settles:
  assumes "o_DirName op \<noteq> []"
  shows "ends (fresh (PathJoin [op_RootDir op, o_DirName op])) (BuildPhpProgram op)
    (\<lambda>p w. p = (PathJoin [op_RootDir op, o_DirName op], GetSourceDir (op_RootDir op)) \<and> settled (PathJoin [fst p, ''composer.json'']) w)"
proof -
  have i: "ends tame (php_install op d) (\<lambda>_. settled (PathJoin [d, ''composer.json'']))" for d
    unfolding php_install_def
    by (rule ends_thenE [OF copy_file_settled], rule ends_preserves, intro preserves_intros)
  have w: "ends (\<lambda>w. \<not> b \<and> tame w) (whenE (\<not> b) (php_install op d)) (\<lambda>_. settled (PathJoin [d, ''composer.json'']))" for b d
    using i by (cases b) (simp_all add: whenE_def ends_def)
  show ?thesis
    unfolding BuildPhpProgram_def using assms
    by simp (rule ends_bindE [OF fresh_exists], rule ends_thenE [OF w], rule ends_ret, simp)
qed

lemma ruby_settles:
  assumes "o_DirName ob \<noteq> []"
  shows "ends (fresh (PathJoin [ob_BaseDir ob, o_DirName ob])) (BuildRubyProgram ob)
    (\<lambda>p w. p = (PathJoin [ob_BaseDir ob, o_DirName ob], ob_SourceDir ob) \<and> settled (PathJoin [fst p, ''Gemfile'']) w)"
proof -
  have gem: "preserves tame (sdk_gem v)" for v
    unfolding sdk_gem_def Let_def by (intro tame_keeps keeps_intros)
  have i: "ends tame (ruby_install ob d) (\<lambda>_. settled (PathJoin [d, ''Gemfile'']))" for d
    unfolding ruby_install_def
    by (rule ends_step(2) [OF gem], rule ends_step(2) [OF tame_steps(5)], rule ends_thenE [OF write_file_settled],
        rule ends_preserves)
      (auto simp: ruby_compile_def Let_def intro!: preserves_intros)
  have b: "ends (fresh d) (ruby_body ob d) (\<lambda>_. settled (PathJoin [d, ''Gemfile'']))" for d
    unfolding ruby_body_def
  proof (rule ends_bindE [OF fresh_exists])
    fix b
    show "ends (\<lambda>w. \<not> b \<and> tame w) (if b then ret False else thenE (ruby_install ob d) (ret True))
        (\<lambda>_. settled (PathJoin [d, ''Gemfile'']))"
      using ends_thenE [OF i ends_ret, of d "\<lambda>_. settled (PathJoin [d, ''Gemfile''])" True] by (cases b) (simp_all add: ends_def)
  qed
  have r: "preserves (fresh d) (require c t)" for d c t
    by (rule settled_quiet) (intro keeps_intros)
  show ?thesis
    unfolding BuildRubyProgram_def using assms
    by (simp add: Let_def)
      (rule ends_step(1) [OF r], rule ends_thenE [OF ends_bindE [OF b ends_ret] ends_ret], simp_all)
qed

end
