(* ===== verification/Net.thy ===== *)
theory Net
  imports Go_Os
begin

text \<open>
  The services outside the process: dialling the Temporal server and calling it, workers, listeners, the
  dev server, the proxy, sleeping and printing. Every such call is an action appended to a trace, so
  that what was acquired and released, and in which order, is part of the state; the environment
  answers the action number \<open>n\<close> with an error or a text. TLS configurations are loaded here too
  (\<open>LoadTLSConfig\<close> of \<open>harness/go/harness/util.go\<close>).
\<close>

section \<open>Actions\<close>

record tls_config =
  t_Cert :: "string \<times> string"
  t_ServerName :: string
  t_RootCAs :: "string option"

datatype action =
    ADial string string "tls_config option"
  | ACloseClient
  | ADescribeExecution string string
  | ADescribeNamespace string
  | AStartWorker string
  | AStopWorker
  | AExecuteWorkflow string string
  | AStartWorkflow string string string
  | AGetResult string
  | AResetSticky string string string
  | ACreateEndpoint string string string
  | ADeleteEndpoint string string
  | AStartDevServer string "string list"
  | AStopDevServer
  | AStartProxy
  | ACloseProxy
  | AListen string
  | ACloseListener
  | AOpenSummary string string
  | ACloseSummary
  | AWriteSummary string
  | ASleep nat
  | APrint string
  | AInProcess "string list"

record net_world = world +
  n_trace :: "action list"
  x_answer :: "nat \<Rightarrow> action \<Rightarrow> go_error option"
  x_text :: "nat \<Rightarrow> action \<Rightarrow> string"
  x_keypair :: "string \<Rightarrow> string \<Rightarrow> go_error option"
  x_pem_ok :: "string \<Rightarrow> bool"

definition act :: "action \<Rightarrow> ('z net_world_scheme, string) io" where
  "act a = (\<lambda>w. let n = length (n_trace w); w' = w\<lparr>n_trace := n_trace w @ [a]\<rparr> in
     (case x_answer w n a of None \<Rightarrow> (Ok (x_text w n a), w') | Some e \<Rightarrow> (Err e, w')))"

text \<open>An action whose error is not looked at.\<close>

definition act_ignore :: "action \<Rightarrow> 'z net_world_scheme \<Rightarrow> 'z net_world_scheme" where
  "act_ignore a w = w\<lparr>n_trace := n_trace w @ [a]\<rparr>"

definition act_unit :: "action \<Rightarrow> ('z net_world_scheme, unit) io" where
  "act_unit a = bindE (act a) (\<lambda>_. ret ())"

section \<open>TLS\<close>

definition LoadTLSConfig ::
  "string \<Rightarrow> string \<Rightarrow> string \<Rightarrow> string \<Rightarrow> ('z net_world_scheme, tls_config option) io" where
  "LoadTLSConfig clientCertPath clientKeyPath caCertPath tlsServerName =
     (if clientCertPath \<noteq> [] then
        if clientKeyPath = [] then fail (Errorf ''got TLS cert with no key'' [])
        else (\<lambda>w. case x_keypair w clientCertPath clientKeyPath of
          Some e \<Rightarrow> (Err (Errorf ''failed to load certs: %s'' [error_text e]), w)
        | None \<Rightarrow>
            let cfg = \<lparr>t_Cert = (clientCertPath, clientKeyPath), t_ServerName = tlsServerName, t_RootCAs = None\<rparr> in
            if caCertPath \<noteq> [] then
              bindE (attempt (os_ReadFile caCertPath)) (\<lambda>r.
                case r of
                  Inl e \<Rightarrow> fail (Errorf ''failed to read CA cert: %s'' [error_text e])
                | Inr pem \<Rightarrow>
                    if \<not> x_pem_ok w pem then fail (Errorf ''failed to parse CA cert'' [])
                    else ret (Some (cfg\<lparr>t_RootCAs := Some pem\<rparr>))) w
            else ret (Some cfg) w)
      else if clientKeyPath \<noteq> [] then fail (Errorf ''got TLS key with no cert'' [])
      else ret None)"

text \<open>An environment in which nothing fails.\<close>

definition calm_net :: "fs \<Rightarrow> net_world" where
  "calm_net m = world.extend (calm_world m) \<lparr>n_trace = [], x_answer = (\<lambda>_ _. None), x_text = (\<lambda>_ _. []),
     x_keypair = (\<lambda>_ _. None), x_pem_ok = (\<lambda>_. True)\<rparr>"

section \<open>Lemmas\<close>

lemma act_trace: "n_trace (snd (act a w)) = n_trace w @ [a]"
  by (simp add: act_def Let_def split: option.splits)

lemma act_ignore_trace [simp]: "n_trace (act_ignore a w) = n_trace w @ [a]"
  by (simp add: act_ignore_def)

lemma keeps_act:
  assumes "\<And>w t. f (w\<lparr>n_trace := t\<rparr>) = f w"
  shows "keeps f (act a)" "keeps f (act_unit a)"
  using assms unfolding act_unit_def
  by (auto simp: keeps_def act_def io_defs Let_def split: option.splits prod.splits res.splits)

lemma LoadTLSConfig_state: "snd (LoadTLSConfig c k ca sn w) = w"
proof -
  have r: "snd (attempt (os_ReadFile ca) w) = w"
    by (rule keeps_attempt [OF keeps_os_read(2) [of "\<lambda>x. x"], unfolded keeps_def, rule_format])
  then show ?thesis
    by (auto simp: LoadTLSConfig_def ret_def fail_def Let_def bindE_def split: option.splits prod.splits res.splits sum.splits)
qed

lemma keeps_LoadTLSConfig [keeps_intros]: "keeps f (LoadTLSConfig c k ca sn)"
  by (simp add: keeps_def LoadTLSConfig_state)

text \<open>
  What the TLS options give. No certificate and no key is no TLS, whatever the CA certificate and the
  server name say: they are not looked at. A certificate without a key, or a key without a
  certificate, is an error. With both, success means that the pair loads, that the server name is the
  one given, and that the roots are the CA file's content when a CA path is given and it parses, the
  system's otherwise. Loading changes nothing.
\<close>

lemma tls_config_table:
  "LoadTLSConfig [] [] ca sn w = (Ok None, w) \<and>
   (c \<noteq> [] \<longrightarrow> fst (LoadTLSConfig c [] ca sn w) = Err (Errorf ''got TLS cert with no key'' [])) \<and>
   (k \<noteq> [] \<longrightarrow> fst (LoadTLSConfig [] k ca sn w) = Err (Errorf ''got TLS key with no cert'' [])) \<and>
   (c \<noteq> [] \<and> k \<noteq> [] \<longrightarrow>
     (\<forall>r. fst (LoadTLSConfig c k ca sn w) = Ok r \<longleftrightarrow>
       x_keypair w c k = None \<and>
       (\<exists>roots. r = Some \<lparr>t_Cert = (c, k), t_ServerName = sn, t_RootCAs = roots\<rparr> \<and>
         (if ca = [] then roots = None
          else \<exists>pem. fst (os_ReadFile ca w) = Ok pem \<and> x_pem_ok w pem \<and> roots = Some pem)))) \<and>
   snd (LoadTLSConfig c k ca sn w) = w"
proof (intro conjI impI allI)
  show "snd (LoadTLSConfig c k ca sn w) = w"
    by (rule LoadTLSConfig_state)
next
  fix r assume "c \<noteq> [] \<and> k \<noteq> []"
  then show "fst (LoadTLSConfig c k ca sn w) = Ok r \<longleftrightarrow>
       x_keypair w c k = None \<and>
       (\<exists>roots. r = Some \<lparr>t_Cert = (c, k), t_ServerName = sn, t_RootCAs = roots\<rparr> \<and>
         (if ca = [] then roots = None
          else \<exists>pem. fst (os_ReadFile ca w) = Ok pem \<and> x_pem_ok w pem \<and> roots = Some pem))"
    by (cases "os_ReadFile ca w"; cases "fst (os_ReadFile ca w)")
      (auto simp: LoadTLSConfig_def bindE_def attempt_def ret_def fail_def Let_def split: option.splits)
qed (simp_all add: LoadTLSConfig_def ret_def fail_def)

section \<open>Resources\<close>

text \<open>
  The resources a trace holds, the last one acquired first. A call that acquires one holds it when it is
  answered without an error. Releasing the last one acquired gives it up, releasing one that is not
  held (already closed, never started) does nothing, releasing any other is out of order: \<open>None\<close>.
\<close>

datatype resource = RClient | RWorker | REndpoint | RServer | RProxy | RListener | RSummary

fun acquires :: "action \<Rightarrow> resource option" where
  "acquires (ADial h n t) = Some RClient"
| "acquires (AStartWorker q) = Some RWorker"
| "acquires (AStartDevServer n as) = Some RServer"
| "acquires (ACreateEndpoint n ns q) = Some REndpoint"
| "acquires AStartProxy = Some RProxy"
| "acquires (AListen a) = Some RListener"
| "acquires (AOpenSummary s a) = Some RSummary"
| "acquires a = None"

fun releases :: "action \<Rightarrow> resource option" where
  "releases ACloseClient = Some RClient"
| "releases AStopWorker = Some RWorker"
| "releases (ADeleteEndpoint i v) = Some REndpoint"
| "releases AStopDevServer = Some RServer"
| "releases ACloseProxy = Some RProxy"
| "releases ACloseListener = Some RListener"
| "releases ACloseSummary = Some RSummary"
| "releases a = None"

definition release :: "resource \<Rightarrow> resource list \<Rightarrow> resource list option" where
  "release r st =
     (case st of
        [] \<Rightarrow> Some []
      | q # st' \<Rightarrow> if q = r then Some st' else if r \<in> set st' then None else Some st)"

fun run_stack :: "(nat \<Rightarrow> action \<Rightarrow> go_error option) \<Rightarrow> nat \<Rightarrow> resource list \<Rightarrow> action list \<Rightarrow> resource list option" where
  "run_stack ans n st [] = Some st"
| "run_stack ans n st (a # as) =
     (case acquires a of
        Some r \<Rightarrow> run_stack ans (Suc n) (if ans n a = None then r # st else st) as
      | None \<Rightarrow>
          (case releases a of
             Some r \<Rightarrow> (case release r st of Some st' \<Rightarrow> run_stack ans (Suc n) st' as | None \<Rightarrow> None)
           | None \<Rightarrow> run_stack ans (Suc n) st as))"

definition held :: "'z net_world_scheme \<Rightarrow> resource list option" where
  "held w = run_stack (x_answer w) 0 [] (n_trace w)"

text \<open>A program gives back what it takes, in the order opposite to the one it took it in.\<close>

definition balanced :: "('z net_world_scheme, 'a) io \<Rightarrow> bool" where
  "balanced m = (\<forall>w st. held w = Some st \<longrightarrow> held (snd (m w)) = Some st)"

lemma run_stack_append:
  "run_stack ans n st (as @ bs) =
     (case run_stack ans n st as of Some st' \<Rightarrow> run_stack ans (n + length as) st' bs | None \<Rightarrow> None)"
  by (induction as arbitrary: n st) (simp_all split: option.splits)

lemma held_snoc:
  assumes "x_answer w' = x_answer w" "n_trace w' = n_trace w @ [a]" "held w = Some st"
  shows "held w' = run_stack (x_answer w) (length (n_trace w)) st [a]"
  using assms by (simp add: held_def run_stack_append)

lemma held_act:
  assumes "held w = Some st" "acquires a = Some r"
  shows "held (snd (act a w)) = Some (if \<exists>e. fst (act a w) = Err e then st else r # st)"
proof -
  have "held (snd (act a w)) = run_stack (x_answer w) (length (n_trace w)) st [a]"
    by (rule held_snoc [OF _ act_trace assms(1)]) (simp add: act_def Let_def split: option.splits)
  with assms(2) show ?thesis by (simp add: act_def Let_def split: option.splits)
qed

lemma held_act_ignore:
  assumes "held w = Some st" "acquires a = None" "releases a = Some r"
  shows "held (act_ignore a w) = release r st"
proof -
  have "held (act_ignore a w) = run_stack (x_answer w) (length (n_trace w)) st [a]"
    by (rule held_snoc [OF _ act_ignore_trace assms(1)]) (simp add: act_ignore_def)
  with assms(2,3) show ?thesis by (simp split: option.splits)
qed

lemma held_neutral:
  assumes "held w = Some st" "acquires a = None" "releases a = None"
  shows "held (snd (act a w)) = Some st" "held (act_ignore a w) = Some st"
proof -
  have "held (snd (act a w)) = run_stack (x_answer w) (length (n_trace w)) st [a]"
    by (rule held_snoc [OF _ act_trace assms(1)]) (simp add: act_def Let_def split: option.splits)
  then show "held (snd (act a w)) = Some st" using assms(2,3) by simp
  have "held (act_ignore a w) = run_stack (x_answer w) (length (n_trace w)) st [a]"
    by (rule held_snoc [OF _ act_ignore_trace assms(1)]) (simp add: act_ignore_def)
  then show "held (act_ignore a w) = Some st" using assms(2,3) by simp
qed

named_theorems balanced_intros \<open>rules for programs that give back what they take\<close>

lemma balancedI: "(\<And>w st. held w = Some st \<Longrightarrow> held (snd (m w)) = Some st) \<Longrightarrow> balanced m"
  by (simp add: balanced_def)

lemma balancedD: "balanced m \<Longrightarrow> held w = Some st \<Longrightarrow> m w = (r, w') \<Longrightarrow> held w' = Some st"
  by (metis balanced_def snd_conv)

lemma balanced_keeps: "keeps held m \<Longrightarrow> balanced m"
  by (simp add: keeps_def balanced_def)

lemma balanced_pure [balanced_intros]:
  "balanced (ret a)" "balanced (fail e)" "balanced (panic e)" "balanced (of_res r)" "balanced (asks g)"
  by (simp_all add: balanced_def io_defs)

lemma balanced_bindE [balanced_intros]: "balanced m \<Longrightarrow> (\<And>a. balanced (k a)) \<Longrightarrow> balanced (bindE m k)"
  by (auto simp: balanced_def bindE_def split: prod.splits res.splits) (metis snd_conv)+

lemma balanced_thenE [balanced_intros]: "balanced m \<Longrightarrow> balanced k \<Longrightarrow> balanced (thenE m k)"
  by (simp add: thenE_def balanced_bindE)

lemma balanced_attempt [balanced_intros]: "balanced m \<Longrightarrow> balanced (attempt m)"
  by (auto simp: balanced_def attempt_def split: prod.splits res.splits) (metis snd_conv)+

lemma balanced_wrapE [balanced_intros]: "balanced m \<Longrightarrow> balanced (wrapE s as m)"
  by (auto simp: balanced_def wrapE_def split: prod.splits res.splits) (metis snd_conv)+

lemma balanced_whenE [balanced_intros]: "(b \<Longrightarrow> balanced m) \<Longrightarrow> balanced (whenE b m)"
  by (simp add: whenE_def balanced_pure)

lemma balanced_if [balanced_intros]: "(b \<Longrightarrow> balanced m) \<Longrightarrow> (\<not> b \<Longrightarrow> balanced k) \<Longrightarrow> balanced (if b then m else k)"
  by simp

lemma balanced_for_each [balanced_intros]: "(\<And>x. x \<in> set xs \<Longrightarrow> balanced (f x)) \<Longrightarrow> balanced (for_each f xs)"
  by (induction xs) (simp_all add: balanced_pure balanced_thenE)

lemma balanced_fold_io [balanced_intros]:
  "(\<And>x a. x \<in> set xs \<Longrightarrow> balanced (f x a)) \<Longrightarrow> balanced (fold_io f xs a)"
  by (induction xs arbitrary: a) (simp_all add: balanced_pure balanced_bindE)

lemma balanced_deferE:
  "balanced m \<Longrightarrow> (\<And>w st. held w = Some st \<Longrightarrow> held (c w) = Some st) \<Longrightarrow> balanced (deferE c m)"
  by (auto simp: balanced_def deferE_def split: prod.splits) (metis snd_conv)

lemma balanced_act [balanced_intros]:
  "acquires a = None \<Longrightarrow> releases a = None \<Longrightarrow> balanced (act a)"
  by (simp add: balanced_def held_neutral)

lemma balanced_act_unit [balanced_intros]:
  "acquires a = None \<Longrightarrow> releases a = None \<Longrightarrow> balanced (act_unit a)"
  unfolding act_unit_def by (intro balanced_intros)

lemma balanced_upd: "(\<And>w st. held w = Some st \<Longrightarrow> held (f w) = Some st) \<Longrightarrow> balanced (upd f)"
  by (simp add: balanced_def upd_def)

lemma balanced_preserves: "balanced m \<Longrightarrow> preserves (\<lambda>w. held w = Some st) m"
  by (simp add: balanced_def preserves_def)

text \<open>
  Acquire, defer the release, go on: when what follows keeps what is held, the deferred release gives back
  what was acquired.
\<close>

lemma preserves_bracket:
  assumes "acquires a = Some r" "acquires b = None" "releases b = Some r" "\<And>x. preserves (\<lambda>w. held w = Some (r # st)) (k x)"
  shows "preserves (\<lambda>w. held w = Some st) (bindE (act a) (\<lambda>x. deferE (act_ignore b) (k x)))"
proof (rule preservesI)
  fix w :: "'a net_world_scheme"
  assume st: "held w = Some st"
  obtain res w1 where a: "act a w = (res, w1)" by force
  have not_panic: "res \<noteq> Panic e" for e using a by (auto simp: act_def Let_def split: option.splits)
  show "held (snd (bindE (act a) (\<lambda>x. deferE (act_ignore b) (k x)) w)) = Some st"
  proof (cases res)
    case (Ok x)
    then have "held w1 = Some (r # st)" using held_act [OF st assms(1)] a by simp
    moreover obtain q w2 where k: "k x w1 = (q, w2)" by force
    ultimately have "held w2 = Some (r # st)" using preservesD [OF assms(4)] by blast
    then have "held (act_ignore b w2) = Some st"
      using held_act_ignore [of w2, OF _ assms(2,3)] by (simp add: release_def)
    then show ?thesis using a Ok k by (simp add: bindE_def deferE_def)
  next
    case (Err e)
    then show ?thesis using held_act [OF st assms(1)] a by (simp add: bindE_def)
  qed (use not_panic in simp)
qed

lemma preserves_bracket_wrap:
  assumes "acquires a = Some r" "acquires b = None" "releases b = Some r" "\<And>x. preserves (\<lambda>w. held w = Some (r # st)) (k x)"
  shows "preserves (\<lambda>w. held w = Some st) (bindE (wrapE f as (act a)) (\<lambda>x. deferE (act_ignore b) (k x)))"
proof -
  have "snd (bindE (wrapE f as (act a)) (\<lambda>x. deferE (act_ignore b) (k x)) w) = snd (bindE (act a) (\<lambda>x. deferE (act_ignore b) (k x)) w)" for w
    by (simp add: bindE_def wrapE_def split: prod.splits res.splits)
  with preserves_bracket [OF assms] show ?thesis by (simp add: preserves_def)
qed

lemma balanced_bracket:
  assumes "acquires a = Some r" "acquires b = None" "releases b = Some r" "\<And>x. balanced (k x)"
  shows "balanced (bindE (act a) (\<lambda>x. deferE (act_ignore b) (k x)))"
    "balanced (bindE (wrapE f as (act a)) (\<lambda>x. deferE (act_ignore b) (k x)))"
  using preserves_bracket [OF assms(1-3) balanced_preserves [OF assms(4)]]
    preserves_bracket_wrap [OF assms(1-3) balanced_preserves [OF assms(4)]]
  by (simp_all add: balanced_def preserves_def)

lemma held_fields [simp]:
  "held (w\<lparr>w_fs := m\<rparr>) = held w" "held (w\<lparr>w_env := e\<rparr>) = held w" "held (w\<lparr>w_temps := t\<rparr>) = held w"
  "held (w\<lparr>w_uuids := u\<rparr>) = held w" "held (w\<lparr>w_cmds := l\<rparr>) = held w" "held (w\<lparr>w_cmds := l, w_fs := m\<rparr>) = held w"
  by (simp_all add: held_def)

lemma balanced_os [balanced_intros]:
  "balanced (os_Stat p)" "balanced (os_ReadFile p)" "balanced (os_ReadDir p)" "balanced (filepath_Abs p)"
  "balanced (os_WriteFile p c)" "balanced (os_Mkdir p)" "balanced (os_MkdirAll p)" "balanced (os_MkdirTemp d p)"
  "balanced (run_command cmd)" "balanced (output_command cmd)" "balanced new_uuid"
  "balanced (LoadTLSConfig c k ca sn)"
  by (rule balanced_keeps; (intro keeps_intros keeps_os_write keeps_os_MkdirTemp keeps_run_command keeps_output_command)?;
      simp add: keeps_def new_uuid_def)+

end
