(* ===== verification/Scrub.thy ===== *)
theory Scrub
  imports Go_Base
begin

text \<open>
  Workflow histories as Go values and the scrubbing of what differs between two runs of the same
  workflow (\<open>scrubRunSpecificFields\<close> of \<open>harness/go/history/history.go\<close>). The code walks any value by
  reflection: a value is a tree of nil, scalars, pointers, slices, maps, interfaces and structs, the
  struct with its type's name and its fields in order. Histories share no memory, so that in-place
  updates are updates of the tree.
\<close>

section \<open>Values\<close>

datatype gval =
    VNil
  | VStr string
  | VInt int
  | VBool bool
  | VOther string
  | VPtr gval
  | VIface gval
  | VSlice "gval list"
  | VMap "(string \<times> gval) list"
  | VStruct string "(string \<times> gval) list"

text \<open>\<open>reflect.Value.IsZero\<close> (with \<open>IsValid\<close>): nil, a zero scalar, a struct of zero fields.\<close>

fun is_zero :: "gval \<Rightarrow> bool" where
  "is_zero VNil = True"
| "is_zero (VStr s) = (s = [])"
| "is_zero (VInt i) = (i = 0)"
| "is_zero (VBool b) = (\<not> b)"
| "is_zero (VStruct t fs) = list_all (\<lambda>f. is_zero (snd f)) fs"
| "is_zero v = False"

text \<open>A field is exported when its name starts with an upper-case letter.\<close>

definition exported :: "string \<Rightarrow> bool" where
  "exported n = (n \<noteq> [] \<and> 65 \<le> (of_char (hd n) :: nat) \<and> (of_char (hd n) :: nat) \<le> 90)"

definition get_field :: "string \<Rightarrow> (string \<times> gval) list \<Rightarrow> gval" where
  "get_field n fs = (case map_of fs n of Some v \<Rightarrow> v | None \<Rightarrow> VNil)"

definition set_fields :: "(string \<times> gval) list \<Rightarrow> (string \<times> gval) list \<Rightarrow> (string \<times> gval) list" where
  "set_fields zs fs = map (\<lambda>(n, v). (n, case map_of zs n of Some z \<Rightarrow> z | None \<Rightarrow> v)) fs"

section \<open>The fields of a run\<close>

text \<open>
  For each pointer type the fields that are reset, with the zero value of each, and whether the worker
  version is dropped when versioning is off. Types whose case does nothing are left out.
\<close>

definition scrub_table :: "(string \<times> (string \<times> gval) list \<times> bool) list" where
  "scrub_table = [
    (''common.WorkflowExecution'', [(''RunId'', VStr [])], False),
    (''failure.Failure'', [(''Source'', VStr []), (''StackTrace'', VStr [])], False),
    (''failure.ActivityFailureInfo'', [(''ActivityId'', VStr []), (''Identity'', VStr [])], False),
    (''failure.ChildWorkflowExecutionFailureInfo'', [(''Namespace'', VStr [])], False),
    (''history.HistoryEvent'',
       [(''Version'', VInt 0), (''EventTime'', VNil), (''TaskId'', VInt 0), (''Principal'', VNil)], False),
    (''history.WorkflowExecutionStartedEventAttributes'',
       [(''OriginalExecutionRunId'', VStr []), (''Identity'', VStr []), (''FirstExecutionRunId'', VStr []),
        (''WorkflowExecutionExpirationTime'', VNil), (''WorkflowId'', VStr [])], False),
    (''history.WorkflowExecutionCompletedEventAttributes'', [(''NewExecutionRunId'', VStr [])], False),
    (''history.WorkflowExecutionFailedEventAttributes'', [(''NewExecutionRunId'', VStr [])], False),
    (''history.WorkflowTaskStartedEventAttributes'',
       [(''Identity'', VStr []), (''RequestId'', VStr []), (''HistorySizeBytes'', VInt 0)], True),
    (''history.WorkflowTaskCompletedEventAttributes'',
       [(''Identity'', VStr []), (''BinaryChecksum'', VStr []), (''SdkMetadata'', VNil),
        (''MeteringMetadata'', VNil), (''Deployment'', VNil)], True),
    (''history.WorkflowTaskFailedEventAttributes'',
       [(''Identity'', VStr []), (''BaseRunId'', VStr []), (''NewRunId'', VStr []), (''BinaryChecksum'', VStr [])], True),
    (''history.ActivityTaskScheduledEventAttributes'',
       [(''ActivityId'', VStr []), (''UseWorkflowBuildId'', VBool False)], False),
    (''history.ActivityTaskStartedEventAttributes'',
       [(''Identity'', VStr []), (''RequestId'', VStr []), (''LastFailure'', VNil)], True),
    (''history.ActivityTaskCompletedEventAttributes'', [(''Identity'', VStr [])], True),
    (''history.ActivityTaskFailedEventAttributes'', [(''Identity'', VStr [])], True),
    (''history.ActivityTaskCanceledEventAttributes'', [(''Identity'', VStr [])], False),
    (''history.TimerCanceledEventAttributes'', [(''Identity'', VStr [])], False),
    (''history.WorkflowExecutionSignaledEventAttributes'', [(''Identity'', VStr [])], False),
    (''history.WorkflowExecutionTerminatedEventAttributes'', [(''Identity'', VStr [])], False),
    (''history.WorkflowExecutionCancelRequestedEventAttributes'', [(''Identity'', VStr [])], False),
    (''history.RequestCancelExternalWorkflowExecutionInitiatedEventAttributes'', [(''Namespace'', VStr [])], False),
    (''history.ExternalWorkflowExecutionCancelRequestedEventAttributes'', [(''Namespace'', VStr [])], False),
    (''history.WorkflowExecutionContinuedAsNewEventAttributes'',
       [(''NewExecutionRunId'', VStr []), (''InheritBuildId'', VBool False)], False),
    (''history.StartChildWorkflowExecutionInitiatedEventAttributes'',
       [(''Namespace'', VStr []), (''InheritBuildId'', VBool False)], False),
    (''history.StartChildWorkflowExecutionFailedEventAttributes'', [(''Namespace'', VStr [])], False),
    (''history.ChildWorkflowExecutionCompletedEventAttributes'', [(''Namespace'', VStr [])], False),
    (''history.ChildWorkflowExecutionFailedEventAttributes'', [(''Namespace'', VStr [])], False),
    (''history.ChildWorkflowExecutionCanceledEventAttributes'', [(''Namespace'', VStr [])], False),
    (''history.ChildWorkflowExecutionTimedOutEventAttributes'', [(''Namespace'', VStr [])], False),
    (''history.ChildWorkflowExecutionTerminatedEventAttributes'', [(''Namespace'', VStr [])], False),
    (''history.SignalExternalWorkflowExecutionInitiatedEventAttributes'', [(''Namespace'', VStr [])], False),
    (''history.SignalExternalWorkflowExecutionFailedEventAttributes'', [(''Namespace'', VStr [])], False),
    (''history.ExternalWorkflowExecutionSignaledEventAttributes'', [(''Namespace'', VStr [])], False),
    (''taskqueue.TaskQueue'', [(''Name'', VStr []), (''NormalName'', VStr [])], False)]"

text \<open>\<open>v.GetWorkerVersion() != nil && !v.GetWorkerVersion().GetUseVersioning()\<close>\<close>

definition unversioned :: "gval \<Rightarrow> bool" where
  "unversioned v = (case v of VPtr (VStruct t fs) \<Rightarrow> get_field ''UseVersioning'' fs \<noteq> VBool True | _ \<Rightarrow> False)"

definition drop_unversioned :: "(string \<times> gval) list \<Rightarrow> (string \<times> gval) list" where
  "drop_unversioned fs = map (\<lambda>(n, v). (n, if n = ''WorkerVersion'' \<and> unversioned v then VNil else v)) fs"

definition scrub_struct :: "string \<Rightarrow> (string \<times> gval) list \<Rightarrow> (string \<times> gval) list" where
  "scrub_struct t fs =
     (case map_of scrub_table t of
        None \<Rightarrow> fs
      | Some (zs, wv) \<Rightarrow> (if wv then drop_unversioned (set_fields zs fs) else set_fields zs fs))"

text \<open>The type switch sees the dynamic value of an interface.\<close>

fun scrubRunSpecificScalars :: "gval \<Rightarrow> gval" where
  "scrubRunSpecificScalars (VPtr (VStruct t fs)) = VPtr (VStruct t (scrub_struct t fs))"
| "scrubRunSpecificScalars (VIface v) = VIface (scrubRunSpecificScalars v)"
| "scrubRunSpecificScalars v = v"

text \<open>The number of nodes, which bounds the walk.\<close>

fun nodes :: "gval \<Rightarrow> nat" where
  "nodes (VPtr v) = Suc (nodes v)"
| "nodes (VIface v) = Suc (nodes v)"
| "nodes (VSlice vs) = Suc (sum_list (map nodes vs))"
| "nodes (VMap ms) = Suc (sum_list (map (\<lambda>m. nodes (snd m)) ms))"
| "nodes (VStruct t fs) = Suc (sum_list (map (\<lambda>f. nodes (snd f)) fs))"
| "nodes v = 1"

lemma nodes_pos: "Suc 0 \<le> nodes v"
  by (cases v) auto

definition good_entry :: "string \<times> (string \<times> gval) list \<times> bool \<Rightarrow> bool" where
  "good_entry e = list_all (\<lambda>(n, z). nodes z = 1 \<and> is_zero z \<and> n \<noteq> ''WorkerVersion'' \<and> n \<noteq> ''UseVersioning'') (fst (snd e))"

lemma good_table: "list_all good_entry scrub_table"
  by code_simp

lemma good_reset:
  assumes "map_of scrub_table t = Some (zs, wv)" "map_of zs n = Some z"
  shows "nodes z = 1 \<and> is_zero z \<and> n \<noteq> ''WorkerVersion'' \<and> n \<noteq> ''UseVersioning''"
proof -
  have "good_entry (t, zs, wv)"
    using good_table map_of_SomeD [OF assms(1)] by (auto simp: list_all_iff)
  with map_of_SomeD [OF assms(2)] show ?thesis by (auto simp: good_entry_def list_all_iff)
qed

lemma nodes_zero: "map_of scrub_table t = Some (zs, wv) \<Longrightarrow> map_of zs n = Some z \<Longrightarrow> nodes z = 1 \<and> is_zero z"
  using good_reset by blast

lemma nodes_scrub_struct:
  "sum_list (map (\<lambda>f. nodes (snd f)) (scrub_struct t fs)) \<le> sum_list (map (\<lambda>f. nodes (snd f)) fs)"
proof (cases "map_of scrub_table t")
  case (Some p)
  obtain zs wv where p: "p = (zs, wv)" by force
  have "sum_list (map (\<lambda>f. nodes (snd f)) (set_fields zs gs)) \<le> sum_list (map (\<lambda>f. nodes (snd f)) gs)" for gs
    unfolding set_fields_def map_map
    by (rule sum_list_mono) (auto split: option.splits simp: nodes_zero [OF Some [unfolded p]] nodes_pos)
  moreover have "sum_list (map (\<lambda>f. nodes (snd f)) (drop_unversioned gs)) \<le> sum_list (map (\<lambda>f. nodes (snd f)) gs)" for gs
    unfolding drop_unversioned_def map_map
    by (rule sum_list_mono) (auto simp: nodes_pos)
  ultimately show ?thesis
    using Some p by (auto simp: scrub_struct_def intro: order_trans)
qed (simp add: scrub_struct_def)

lemma nodes_scrub_scalars: "nodes (scrubRunSpecificScalars v) \<le> nodes v"
  by (induction v rule: scrubRunSpecificScalars.induct) (simp_all add: nodes_scrub_struct)

lemma nodes_child: "x \<in> set xs \<Longrightarrow> f x < Suc (sum_list (map f xs))" for f :: "'a \<Rightarrow> nat"
  by (simp add: member_le_sum_list less_Suc_eq_le)

function scrubRunSpecificFields :: "gval \<Rightarrow> gval" where
  "scrubRunSpecificFields v =
     (if is_zero v then v
      else (case scrubRunSpecificScalars v of
          VSlice vs \<Rightarrow> VSlice (map scrubRunSpecificFields vs)
        | VIface x \<Rightarrow> VIface (scrubRunSpecificFields x)
        | VPtr x \<Rightarrow> VPtr (scrubRunSpecificFields x)
        | VMap ms \<Rightarrow> VMap (map (\<lambda>m. (fst m, scrubRunSpecificFields (snd m))) ms)
        | VStruct t fs \<Rightarrow>
            VStruct t (map (\<lambda>f. (fst f, if exported (fst f) then scrubRunSpecificFields (snd f) else snd f)) fs)
        | u \<Rightarrow> u))"
  by pat_completeness auto
termination
proof (relation "measure nodes")
  have le: "nodes y \<le> nodes v" if "scrubRunSpecificScalars v = y" for v y
    using nodes_scrub_scalars [of v] that by simp
  show "(x, v) \<in> measure nodes" if "scrubRunSpecificScalars v = VSlice vs" "x \<in> set vs" for v vs x
    using le [OF that(1)] nodes_child [OF that(2), of nodes] by simp
  show "(x, v) \<in> measure nodes" if "scrubRunSpecificScalars v = VIface x" for v x
    using le [OF that] by simp
  show "(x, v) \<in> measure nodes" if "scrubRunSpecificScalars v = VPtr x" for v x
    using le [OF that] by simp
  show "(snd m, v) \<in> measure nodes" if "scrubRunSpecificScalars v = VMap ms" "m \<in> set ms" for v ms m
    using le [OF that(1)] nodes_child [OF that(2), of "\<lambda>m. nodes (snd m)"] by simp
  show "(snd f, v) \<in> measure nodes"
    if "scrubRunSpecificScalars v = VStruct t fs" "f \<in> set fs" for v t fs f
    using le [OF that(1)] nodes_child [OF that(2), of "\<lambda>f. nodes (snd f)"] by simp
qed simp

declare scrubRunSpecificFields.simps [simp del]

section \<open>Lemmas\<close>

abbreviation "scrub \<equiv> scrubRunSpecificFields"

definition scrub_child :: "string \<times> gval \<Rightarrow> string \<times> gval" where
  "scrub_child f = (fst f, if exported (fst f) then scrub (snd f) else snd f)"

lemma scrub_zero: "is_zero v \<Longrightarrow> scrub v = v"
  by (simp add: scrubRunSpecificFields.simps)

lemma scrub_leaf [simp]:
  "scrub VNil = VNil" "scrub (VStr s) = VStr s" "scrub (VInt i) = VInt i" "scrub (VBool b) = VBool b"
  "scrub (VOther t) = VOther t"
  by (simp_all add: scrubRunSpecificFields.simps)

lemma scrub_slice [simp]: "scrub (VSlice vs) = VSlice (map scrub vs)"
  by (simp add: scrubRunSpecificFields.simps [of "VSlice vs"])

lemma scrub_map [simp]: "scrub (VMap ms) = VMap (map (\<lambda>m. (fst m, scrub (snd m))) ms)"
  by (simp add: scrubRunSpecificFields.simps [of "VMap ms"])

lemma scrub_struct_value [simp]: "scrub (VStruct t fs) = VStruct t (map scrub_child fs)"
proof (cases "is_zero (VStruct t fs)")
  case True
  then have "map scrub_child fs = fs"
    by (intro map_idI) (auto simp: scrub_child_def scrub_zero list_all_iff)
  with True show ?thesis by (simp add: scrub_zero del: is_zero.simps)
next
  case False
  then show ?thesis by (simp add: scrubRunSpecificFields.simps [of "VStruct t fs"] scrub_child_def)
qed

lemma scrub_pointer_struct [simp]:
  "scrub (VPtr (VStruct t fs)) = VPtr (VStruct t (map scrub_child (scrub_struct t fs)))"
  by (simp add: scrubRunSpecificFields.simps [of "VPtr (VStruct t fs)"])

lemma scrub_pointer: "(\<And>t fs. v \<noteq> VStruct t fs) \<Longrightarrow> scrub (VPtr v) = VPtr (scrub v)"
  by (subst scrubRunSpecificFields.simps) (cases v; auto)

subsection \<open>A second pass changes nothing\<close>

lemma set_fields_twice: "set_fields zs (set_fields zs fs) = set_fields zs fs"
  by (auto simp: set_fields_def split: option.splits)

lemma drop_unversioned_twice: "drop_unversioned (drop_unversioned fs) = drop_unversioned fs"
  by (auto simp: drop_unversioned_def unversioned_def)

lemma table_keeps_worker_version:
  "map_of scrub_table t = Some (zs, wv) \<Longrightarrow> map_of zs ''WorkerVersion'' = None \<and> map_of zs ''UseVersioning'' = None"
  using good_reset [of t zs wv] by (metis not_None_eq)

lemma set_fields_drop:
  "map_of zs ''WorkerVersion'' = None \<Longrightarrow> set_fields zs (drop_unversioned fs) = drop_unversioned (set_fields zs fs)"
  by (auto simp: set_fields_def drop_unversioned_def split: option.splits)

lemma scrub_struct_twice: "scrub_struct t (scrub_struct t fs) = scrub_struct t fs"
  by (auto simp: scrub_struct_def set_fields_twice drop_unversioned_twice set_fields_drop
      dest: table_keeps_worker_version split: option.splits)

lemma scrubRunSpecificScalars_twice:
  "scrubRunSpecificScalars (scrubRunSpecificScalars v) = scrubRunSpecificScalars v"
  by (induction v rule: scrubRunSpecificScalars.induct) (simp_all add: scrub_struct_twice)

lemma scrub_scalars: "scrub (scrubRunSpecificScalars v) = scrub v"
proof (cases "is_zero v")
  case True
  then have "scrubRunSpecificScalars v = v" by (cases v) simp_all
  then show ?thesis by simp
next
  case False
  then have "\<not> is_zero (scrubRunSpecificScalars v)"
    by (cases v rule: scrubRunSpecificScalars.cases) simp_all
  with False show ?thesis
    by (simp add: scrubRunSpecificFields.simps [of v] scrubRunSpecificFields.simps [of "scrubRunSpecificScalars v"]
        scrubRunSpecificScalars_twice)
qed

lemma scrub_iface [simp]: "scrub (VIface v) = VIface (scrub v)"
  by (simp add: scrubRunSpecificFields.simps [of "VIface v"] scrub_scalars)

lemma scrub_is_VBool: "scrub v = VBool b \<longleftrightarrow> v = VBool b"
proof (cases v)
  case (VPtr x)
  then show ?thesis by (cases x) (simp_all add: scrub_pointer)
qed simp_all

lemma get_field_map:
  assumes "\<And>f. fst (g f) = fst f"
  shows "get_field n (map g fs) = (if n \<in> fst ` set fs then snd (g (n, get_field n fs)) else VNil)"
proof (induction fs)
  case (Cons f fs)
  have "get_field n (f # fs) = (if fst f = n then snd f else get_field n fs)" for fs
    by (simp add: get_field_def)
  moreover have "get_field n (map g (f # fs)) = (if fst f = n then snd (g f) else get_field n (map g fs))"
    by (simp add: get_field_def assms)
  ultimately show ?case using Cons by (cases f) auto
qed (simp add: get_field_def)

lemma map_of_absent: "n \<notin> fst ` set fs \<Longrightarrow> get_field n fs = VNil"
  by (simp add: get_field_def map_of_eq_None_iff [THEN iffD2])

lemma use_versioning_scrub_struct:
  "get_field ''UseVersioning'' (scrub_struct t fs) = get_field ''UseVersioning'' fs"
proof (cases "map_of scrub_table t")
  case (Some p)
  obtain zs wv where p: "p = (zs, wv)" by force
  have "get_field ''UseVersioning'' (set_fields zs gs) = get_field ''UseVersioning'' gs" for gs
    using table_keeps_worker_version [OF Some [unfolded p]]
    by (induction gs) (auto simp: set_fields_def get_field_def)
  moreover have "get_field ''UseVersioning'' (drop_unversioned gs) = get_field ''UseVersioning'' gs" for gs
    by (induction gs) (auto simp: drop_unversioned_def get_field_def)
  ultimately show ?thesis using Some p by (simp add: scrub_struct_def)
qed (simp add: scrub_struct_def)

lemma use_versioning_children:
  "get_field ''UseVersioning'' (map scrub_child fs) = VBool True \<longleftrightarrow> get_field ''UseVersioning'' fs = VBool True"
  by (subst get_field_map) (auto simp: scrub_child_def exported_def scrub_is_VBool map_of_absent)

lemma unversioned_scrub [simp]: "unversioned (scrub v) = unversioned v"
proof (cases v)
  case (VPtr x)
  then show ?thesis
  proof (cases x)
    case (VPtr y)
    then show ?thesis using \<open>v = VPtr x\<close> by (cases y) (simp_all add: scrub_pointer unversioned_def)
  qed (simp_all add: scrub_pointer unversioned_def use_versioning_children use_versioning_scrub_struct)
qed (simp_all add: unversioned_def)

lemma zero_child:
  "map_of scrub_table t = Some (zs, wv) \<Longrightarrow> map_of zs n = Some z \<Longrightarrow> scrub z = z"
  by (simp add: scrub_zero nodes_zero)

lemma scrub_struct_commute: "scrub_struct t (map scrub_child fs) = map scrub_child (scrub_struct t fs)"
proof (cases "map_of scrub_table t")
  case (Some p)
  obtain zs wv where p: "p = (zs, wv)" by force
  note t = Some [unfolded p]
  have set: "set_fields zs (map scrub_child gs) = map scrub_child (set_fields zs gs)" for gs
    using zero_child [OF t] by (auto simp: set_fields_def scrub_child_def split: option.splits)
  have drop: "drop_unversioned (map scrub_child gs) = map scrub_child (drop_unversioned gs)" for gs
    by (auto simp: drop_unversioned_def scrub_child_def)
  show ?thesis by (simp add: t scrub_struct_def set drop)
qed (simp add: scrub_struct_def)

lemma scrub_struct_children:
  "scrub_struct t (map scrub_child (scrub_struct t fs)) = map scrub_child (scrub_struct t fs)"
  by (simp add: scrub_struct_commute scrub_struct_twice del: map_map)

lemma scrub_pointer_cong: "scrub a = scrub b \<Longrightarrow> scrub (VPtr a) = scrub (VPtr b)"
proof (cases "\<exists>t fs. a = VStruct t fs")
  case True
  then obtain t fs where a: "a = VStruct t fs" by blast
  assume eq: "scrub a = scrub b"
  then obtain gs where b: "b = VStruct t gs"
    by (cases b) (auto simp: a scrub_pointer, metis gval.distinct scrub_pointer scrub_pointer_struct)
  from eq show ?thesis by (simp add: a b flip: scrub_struct_commute)
next
  case False
  assume eq: "scrub a = scrub b"
  with False have "\<nexists>t fs. b = VStruct t fs"
    by (cases a) (auto, metis gval.distinct scrub_pointer scrub_pointer_struct)
  with False eq show ?thesis by (simp add: scrub_pointer)
qed

lemma scrub_child_twice:
  "(\<And>f. f \<in> set fs \<Longrightarrow> scrub (scrub (snd f)) = scrub (snd f)) \<Longrightarrow> map scrub_child (map scrub_child fs) = map scrub_child fs"
  by (auto simp: scrub_child_def)

lemma scrub_twice: "scrub (scrub v) = scrub v"
proof (induction v rule: measure_induct_rule [where f = nodes])
  case (less v)
  have kids: "map scrub_child (map scrub_child fs) = map scrub_child fs"
    if "sum_list (map (\<lambda>f. nodes (snd f)) fs) < nodes v" for fs
  proof (rule scrub_child_twice)
    fix f assume "f \<in> set fs"
    with nodes_child [of f fs "\<lambda>f. nodes (snd f)"] that show "scrub (scrub (snd f)) = scrub (snd f)"
      by (intro less) simp
  qed
  show ?case
  proof (cases v)
    case (VPtr x)
    show ?thesis
    proof (cases x)
      case (VStruct t fs)
      have "sum_list (map (\<lambda>f. nodes (snd f)) (scrub_struct t fs)) < nodes v"
        using nodes_scrub_struct [of t fs] VStruct \<open>v = VPtr x\<close> by simp
      from kids [OF this] show ?thesis
        by (simp add: \<open>v = VPtr x\<close> VStruct scrub_struct_children del: map_map)
    next
      case (VPtr y)
      with less [of x] \<open>v = VPtr x\<close> show ?thesis
        by (cases y) (simp_all add: scrub_pointer)
    qed (use less [of x] \<open>v = VPtr x\<close> in \<open>simp_all add: scrub_pointer\<close>)
  next
    case (VSlice vs)
    then show ?thesis using less nodes_child [of _ vs nodes] by auto
  next
    case (VMap ms)
    then show ?thesis using less nodes_child [of _ ms "\<lambda>m. nodes (snd m)"] by auto
  next
    case (VStruct t fs)
    then show ?thesis using kids [of fs] by (simp del: map_map)
  next
    case (VIface x)
    with less [of x] show ?thesis by simp
  qed simp_all
qed

subsection \<open>What is reset and what stays\<close>

datatype step = Deref | Index nat | Key string | Field string

fun at :: "step list \<Rightarrow> gval \<Rightarrow> gval option" where
  "at [] v = Some v"
| "at (Deref # p) (VPtr v) = at p v"
| "at (Deref # p) (VIface v) = at p v"
| "at (Index i # p) (VSlice vs) = (if i < length vs then at p (vs ! i) else None)"
| "at (Key k # p) (VMap ms) = (case map_of ms k of Some v \<Rightarrow> at p v | None \<Rightarrow> None)"
| "at (Field n # p) (VStruct t fs) = (case map_of fs n of Some v \<Rightarrow> at p v | None \<Rightarrow> None)"
| "at (s # p) v = None"

text \<open>The same tree with another value at a path.\<close>

fun upd_entry :: "string \<Rightarrow> (gval \<Rightarrow> gval) \<Rightarrow> (string \<times> gval) list \<Rightarrow> (string \<times> gval) list" where
  "upd_entry n g [] = []"
| "upd_entry n g (f # fs) = (if fst f = n then (n, g (snd f)) # fs else f # upd_entry n g fs)"

fun put :: "step list \<Rightarrow> gval \<Rightarrow> gval \<Rightarrow> gval" where
  "put [] y v = y"
| "put (Deref # p) y (VPtr v) = VPtr (put p y v)"
| "put (Deref # p) y (VIface v) = VIface (put p y v)"
| "put (Index i # p) y (VSlice vs) = (if i < length vs then VSlice (vs[i := put p y (vs ! i)]) else VSlice vs)"
| "put (Key k # p) y (VMap ms) = VMap (upd_entry k (put p y) ms)"
| "put (Field n # p) y (VStruct t fs) = VStruct t (upd_entry n (put p y) fs)"
| "put (s # p) y v = v"

definition reset_fields :: "string \<Rightarrow> string set" where
  "reset_fields t = (case map_of scrub_table t of Some (zs, _) \<Rightarrow> fst ` set zs | None \<Rightarrow> {})"

definition touched_fields :: "string \<Rightarrow> string set" where
  "touched_fields t = reset_fields t \<union>
     (case map_of scrub_table t of Some (_, True) \<Rightarrow> {''WorkerVersion''} | _ \<Rightarrow> {})"

text \<open>The path goes through a field that \<open>R\<close> gives for the type of the struct pointed to.\<close>

definition enters :: "(string \<Rightarrow> string set) \<Rightarrow> step list \<Rightarrow> gval \<Rightarrow> bool" where
  "enters R p v = (case p of Field n # _ \<Rightarrow> (case v of VStruct t fs \<Rightarrow> n \<in> R t | _ \<Rightarrow> False) | _ \<Rightarrow> False)"

fun through :: "(string \<Rightarrow> string set) \<Rightarrow> step list \<Rightarrow> gval \<Rightarrow> bool" where
  "through R [] v = False"
| "through R (Deref # p) v =
     (case v of VPtr x \<Rightarrow> enters R p x \<or> through R p x | VIface x \<Rightarrow> through R p x | _ \<Rightarrow> False)"
| "through R (Index i # p) v = (case v of VSlice vs \<Rightarrow> i < length vs \<and> through R p (vs ! i) | _ \<Rightarrow> False)"
| "through R (Key k # p) v =
     (case v of VMap ms \<Rightarrow> (case map_of ms k of Some x \<Rightarrow> through R p x | None \<Rightarrow> False) | _ \<Rightarrow> False)"
| "through R (Field n # p) v =
     (case v of
        VStruct t fs \<Rightarrow> exported n \<and> (case map_of fs n of Some x \<Rightarrow> through R p x | None \<Rightarrow> False)
      | _ \<Rightarrow> False)"

lemma enters_iff: "enters R p v \<longleftrightarrow> (\<exists>n q t fs. p = Field n # q \<and> v = VStruct t fs \<and> n \<in> R t)"
proof
  assume "enters R p v"
  then show "\<exists>n q t fs. p = Field n # q \<and> v = VStruct t fs \<and> n \<in> R t"
    by (simp add: enters_def split: list.splits step.splits gval.splits)
qed (auto simp: enters_def)

fun scalar :: "gval \<Rightarrow> bool" where
  "scalar (VStr s) = True"
| "scalar (VInt i) = True"
| "scalar (VBool b) = True"
| "scalar (VOther t) = True"
| "scalar v = False"

lemma map_of_children: "map_of (map scrub_child fs) n = map_option (\<lambda>v. if exported n then scrub v else v) (map_of fs n)"
  by (induction fs) (auto simp: scrub_child_def)

lemma map_of_set_fields:
  "map_of (set_fields zs fs) n = map_option (\<lambda>v. case map_of zs n of Some z \<Rightarrow> z | None \<Rightarrow> v) (map_of fs n)"
  by (induction fs) (auto simp: set_fields_def split: option.splits)

lemma map_of_values: "map_of (map (\<lambda>m. (fst m, g (snd m))) ms) k = map_option g (map_of ms k)"
  by (induction ms) auto

lemma map_of_drop_unversioned:
  "map_of (drop_unversioned fs) n = map_option (\<lambda>v. if n = ''WorkerVersion'' \<and> unversioned v then VNil else v) (map_of fs n)"
  by (induction fs) (auto simp: drop_unversioned_def)

lemma map_of_scrub_struct:
  assumes "n \<notin> touched_fields t"
  shows "map_of (scrub_struct t fs) n = map_of fs n"
proof (cases "map_of scrub_table t")
  case (Some p)
  obtain zs wv where p: "p = (zs, wv)" by force
  with Some assms have "map_of zs n = None" "wv \<Longrightarrow> n \<noteq> ''WorkerVersion''"
    by (auto simp: touched_fields_def reset_fields_def map_of_eq_None_iff)
  with Some p show ?thesis
    by (simp add: scrub_struct_def map_of_set_fields map_of_drop_unversioned option.map_ident)
qed (simp add: scrub_struct_def)

lemma scrub_keeps_scalar:
  "at p v = Some x \<Longrightarrow> scalar x \<Longrightarrow> \<not> through touched_fields p v \<Longrightarrow> at p (scrub v) = Some x"
proof (induction p v rule: at.induct)
  case (1 v)
  then show ?case by (cases x) simp_all
next
  case (2 p v)
  show ?case
  proof (cases "\<exists>t fs. v = VStruct t fs")
    case True
    then obtain t fs where v: "v = VStruct t fs" by blast
    with 2 obtain n q y where p: "p = Field n # q" "map_of fs n = Some y" "n \<notin> touched_fields t"
      by (cases p; cases "hd p") (auto simp: enters_def split: option.splits)
    have "at p (scrub v) = Some x" using 2 v by simp
    with p v show ?thesis by (simp add: map_of_children map_of_scrub_struct)
  next
    case False
    with 2 show ?thesis by (simp add: scrub_pointer)
  qed
qed (auto simp: map_of_children map_of_values split: option.splits if_splits)

lemma set_fields_forget: "n \<in> fst ` set zs \<Longrightarrow> set_fields zs (upd_entry n g fs) = set_fields zs fs"
  by (induction fs) (auto simp: set_fields_def split: option.splits dest: map_of_eq_None_iff [THEN iffD1])

lemma scrub_struct_forget:
  assumes "n \<in> reset_fields t"
  shows "scrub_struct t (upd_entry n g fs) = scrub_struct t fs"
proof (cases "map_of scrub_table t")
  case (Some p)
  obtain zs wv where p: "p = (zs, wv)" by force
  with Some assms have "n \<in> fst ` set zs" by (simp add: reset_fields_def)
  from set_fields_forget [OF this] Some p show ?thesis by (simp add: scrub_struct_def)
qed (use assms in \<open>simp add: reset_fields_def\<close>)

lemma map_upd_entry:
  assumes "map_of fs n = Some v" "\<And>f. h f = (fst f, h' (fst f) (snd f))" "h' n (g v) = h' n v"
  shows "map h (upd_entry n g fs) = map h fs"
  using assms(1) by (induction fs) (auto simp: assms(2,3))

lemma scrub_forgets_field:
  "through reset_fields p v \<Longrightarrow> at p v \<noteq> None \<Longrightarrow> scrub (put p y v) = scrub v"
proof (induction p v rule: at.induct)
  case (2 p v)
  show ?case
  proof (cases "enters reset_fields p v")
    case True
    then obtain t fs n q where "v = VStruct t fs" "p = Field n # q" and n: "n \<in> reset_fields t"
      unfolding enters_iff by blast
    with scrub_struct_forget [OF n, of "put q y" fs] show ?thesis by simp
  next
    case False
    with "2.prems" have "through reset_fields p v" "at p v \<noteq> None" by auto
    from scrub_pointer_cong [OF "2.IH" [OF this]] show ?thesis by simp
  qed
next
  case (4 i p vs)
  then have "i < length vs" "scrub (put p y (vs ! i)) = scrub (vs ! i)" by (auto split: if_splits)
  then show ?case by (simp add: map_update) (metis length_map list_update_id nth_map)
next
  case (5 k p ms)
  then obtain x where x: "map_of ms k = Some x" "scrub (put p y x) = scrub x" by (auto split: option.splits)
  then show ?case
    using map_upd_entry [OF x(1), of "\<lambda>m. (fst m, scrub (snd m))" "\<lambda>_. scrub" "put p y"] by simp
next
  case (6 n p t fs)
  then obtain x where x: "map_of fs n = Some x" "scrub (put p y x) = scrub x" "exported n"
    by (auto split: option.splits)
  then show ?case
    using map_upd_entry [OF x(1), of scrub_child "\<lambda>n v. if exported n then scrub v else v" "put p y"]
    by (simp add: scrub_child_def)
qed (auto split: option.splits)

end
