(* ===== verification/History.thy ===== *)
theory History
  imports Scrub Go_Json Go_Os
begin

text \<open>
  Histories and where they are stored (\<open>harness/go/history/history.go\<close> and \<open>storage.go\<close>). A history is
  a pointer to a \<open>history.History\<close> struct. The protobuf library (equality, cloning and its JSON form) is
  a record of functions; a \<open>json.RawMessage\<close> is the JSON value it holds. \<open>sort.Slice\<close> on at most twelve
  elements is an insertion sort, which is stable: \<open>sort_key\<close>.
\<close>

section \<open>Histories\<close>

record proto_api =
  p_Equal :: "gval \<Rightarrow> gval \<Rightarrow> bool"
  p_Clone :: "gval \<Rightarrow> gval"
  p_Marshal :: "gval \<Rightarrow> json res"
  p_Unmarshal :: "json \<Rightarrow> gval res"

type_synonym Histories = "gval list"

text \<open>Reading a field through a pointer, as the nil-safe getters of generated code do.\<close>

definition getter :: "string \<Rightarrow> gval \<Rightarrow> gval" where
  "getter n v = (case v of VPtr (VStruct t fs) \<Rightarrow> get_field n fs | _ \<Rightarrow> VNil)"

definition elements :: "gval \<Rightarrow> gval list" where
  "elements v = (case v of VSlice vs \<Rightarrow> vs | _ \<Rightarrow> [])"

definition text_of :: "gval \<Rightarrow> string" where
  "text_of v = (case v of VStr s \<Rightarrow> s | _ \<Rightarrow> [])"

definition nil_dereference :: go_error where
  "nil_dereference = External OtherError ''runtime error: invalid memory address or nil pointer dereference''"

definition started_attributes :: "gval \<Rightarrow> gval" where
  "started_attributes ev =
     (case getter ''Attributes'' ev of
        VIface (VPtr (VStruct t fs)) \<Rightarrow>
          if t = ''history.HistoryEvent_WorkflowExecutionStartedEventAttributes''
          then get_field ''WorkflowExecutionStartedEventAttributes'' fs else VNil
      | _ \<Rightarrow> VNil)"

definition historyFirstEventName :: "gval \<Rightarrow> string res" where
  "historyFirstEventName h =
     (if h = VNil then Panic nil_dereference
      else (case elements (getter ''Events'' h) of
          [] \<Rightarrow> Err (Errorf ''no events in history'' [])
        | ev # _ \<Rightarrow>
            if started_attributes ev = VNil then Err (Errorf ''first event not a workflow started event'' [])
            else Ok (text_of (getter ''Name'' (getter ''WorkflowType'' (started_attributes ev))))))"

definition name_or_empty :: "gval \<Rightarrow> string" where
  "name_or_empty h = (case historyFirstEventName h of Ok n \<Rightarrow> n | _ \<Rightarrow> [])"

text \<open>
  The first bad name the comparisons meet: with two or more histories every one is compared, the
  second one first.
\<close>

definition compare_order :: "gval list \<Rightarrow> gval list" where
  "compare_order hs = (case hs of a # b # r \<Rightarrow> b # a # r | _ \<Rightarrow> [])"

fun name_error :: "gval list \<Rightarrow> go_error option" where
  "name_error [] = None"
| "name_error (h # hs) =
     (case historyFirstEventName h of Ok _ \<Rightarrow> name_error hs | Err e \<Rightarrow> Some e | Panic e \<Rightarrow> Some e)"

definition Sort :: "Histories \<Rightarrow> Histories res" where
  "Sort hs = (case name_error (compare_order hs) of
     Some e \<Rightarrow> Panic e | None \<Rightarrow> Ok (sort_key name_or_empty hs))"

fun marshal_each :: "proto_api \<Rightarrow> gval list \<Rightarrow> json list res" where
  "marshal_each P [] = Ok []"
| "marshal_each P (h # hs) =
     (case p_Marshal P h of
        Ok j \<Rightarrow> (case marshal_each P hs of Ok js \<Rightarrow> Ok (j # js) | Err e \<Rightarrow> Err e | Panic e \<Rightarrow> Panic e)
      | Err e \<Rightarrow> Err (Wrapf ''failed marshaling history: %w'' [] e)
      | Panic e \<Rightarrow> Panic e)"

text \<open>The error the sort collects is not looked at afterwards; a nil history still panics.\<close>

definition MarshalJSON :: "proto_api \<Rightarrow> Histories \<Rightarrow> json res" where
  "MarshalJSON P hs =
     (if VNil \<in> set (compare_order hs) then Panic nil_dereference
      else (case marshal_each P (sort_key name_or_empty hs) of
          Ok js \<Rightarrow> Ok (JArr js) | Err e \<Rightarrow> Err e | Panic e \<Rightarrow> Panic e))"

definition UnmarshalJSON :: "proto_api \<Rightarrow> json \<Rightarrow> Histories res" where
  "UnmarshalJSON P = decode_slice (p_Unmarshal P)"

definition Clone :: "proto_api \<Rightarrow> Histories \<Rightarrow> Histories" where
  "Clone P hs = map (p_Clone P) hs"

definition Equals :: "proto_api \<Rightarrow> Histories \<Rightarrow> Histories \<Rightarrow> bool" where
  "Equals P h other = list_all2 (p_Equal P) h other"

definition ScrubRunSpecificFields :: "Histories \<Rightarrow> Histories" where
  "ScrubRunSpecificFields hs = elements (scrubRunSpecificFields (VSlice hs))"

section \<open>Storage\<close>

type_synonym StoredSet = "(string \<times> Histories) list"

record Storage =
  st_Dir :: string
  st_Lang :: string

definition hist_prefix :: "Storage \<Rightarrow> string" where
  "hist_prefix s = ''history.'' @ st_Lang s @ ''.''"

definition entry_version :: "Storage \<Rightarrow> string \<Rightarrow> string" where
  "entry_version s name = TrimPrefix (TrimSuffix name ''.json'') (hist_prefix s)"

definition hist_file :: "Storage \<Rightarrow> string \<Rightarrow> string" where
  "hist_file s version = PathJoin [st_Dir s, ''history.'' @ st_Lang s @ ''.'' @ version @ ''.json'']"

definition unmarshal_histories :: "proto_api \<Rightarrow> string \<Rightarrow> Histories res" where
  "unmarshal_histories P b =
     (case parse_res b of Ok j \<Rightarrow> UnmarshalJSON P j | Err e \<Rightarrow> Err e | Panic e \<Rightarrow> Panic e)"

definition load_entry ::
  "proto_api \<Rightarrow> Storage \<Rightarrow> string \<Rightarrow> StoredSet \<Rightarrow> ('z world_scheme, StoredSet) io" where
  "load_entry P s name acc =
     (if \<not> HasPrefix name (hist_prefix s) then ret acc
      else let file = PathJoin [st_Dir s, name] in
        bindE (wrapE ''failed reading %v: %w'' [file] (os_ReadFile file)) (\<lambda>b.
        bindE (wrapE ''failed unmarshaling %v: %w'' [file] (of_res (unmarshal_histories P b))) (\<lambda>h.
          ret (map_put (entry_version s name) h acc))))"

definition Load :: "proto_api \<Rightarrow> Storage \<Rightarrow> ('z world_scheme, StoredSet) io" where
  "Load P s =
     bindE (attempt (os_ReadDir (st_Dir s))) (\<lambda>r.
       case r of
         Inl e \<Rightarrow> if has_kind NotExist e then ret [] else fail e
       | Inr names \<Rightarrow> fold_io (load_entry P s) names [])"

definition store_one :: "proto_api \<Rightarrow> Storage \<Rightarrow> string \<times> Histories \<Rightarrow> ('z world_scheme, unit) io" where
  "store_one P s vh =
     (let file = hist_file s (fst vh) in
      case (case MarshalJSON P (snd vh) of
              Ok j \<Rightarrow> if wf_json j then Ok (MarshalIndent j) else Err syntax_error
            | Err e \<Rightarrow> Err e | Panic e \<Rightarrow> Panic e) of
        Ok b \<Rightarrow> wrapE ''failed writing %v: %w'' [file] (os_WriteFile file b)
      | Err e \<Rightarrow> fail (Wrapf ''failed marshaling %v: %w'' [file] e)
      | Panic e \<Rightarrow> panic e)"

definition Store :: "proto_api \<Rightarrow> Storage \<Rightarrow> StoredSet \<Rightarrow> ('z world_scheme, unit) io" where
  "Store P s vs = thenE (os_MkdirAll (st_Dir s)) (for_each (store_one P s) vs)"

section \<open>Lemmas\<close>

lemma keeps_Load: "keeps g (Load P st)"
  unfolding Load_def load_entry_def
  by (intro keeps_intros) (auto split: sum.splits res.splits option.splits intro!: keeps_intros simp: Let_def)

lemma ScrubRunSpecificFields_map: "ScrubRunSpecificFields hs = map scrub hs"
  by (simp add: ScrubRunSpecificFields_def elements_def)

lemma marshal_each_Ok: "marshal_each P hs = Ok js \<longleftrightarrow> list_all2 (\<lambda>h j. p_Marshal P h = Ok j) hs js"
  by (induction hs arbitrary: js) (auto simp: list_all2_Cons1 split: res.splits, (metis res.inject(1))+)

lemma decode_list_Ok: "decode_list f js = Ok as \<longleftrightarrow> list_all2 (\<lambda>j a. f j = Ok a) js as"
  by (induction js arbitrary: as) (auto simp: list_all2_Cons1 split: res.splits, (metis res.inject(1))+)

text \<open>What is written is read back in the order of the names.\<close>

lemma unmarshal_marshal:
  assumes "\<And>h j. h \<in> set hs \<Longrightarrow> p_Marshal P h = Ok j \<Longrightarrow> p_Unmarshal P j = Ok h"
    and "MarshalJSON P hs = Ok j" and "wf_json j"
  shows "unmarshal_histories P (MarshalIndent j) = Ok (sort_key name_or_empty hs)"
proof -
  from assms(2) obtain js where js: "j = JArr js" "list_all2 (\<lambda>h j. p_Marshal P h = Ok j) (sort_key name_or_empty hs) js"
    by (auto simp: MarshalJSON_def marshal_each_Ok [symmetric] split: if_splits res.splits)
  from js(2) have "list_all2 (\<lambda>j h. p_Unmarshal P j = Ok h) js (sort_key name_or_empty hs)"
    unfolding list_all2_conv_all_nth using assms(1) by (metis nth_mem set_sort)
  then show ?thesis
    using assms(3) js(1)
    by (simp add: unmarshal_histories_def parse_res_def json_parse_MarshalIndent UnmarshalJSON_def
        decode_slice_def decode_list_Ok del: wf_json.simps)
qed

subsection \<open>Loading\<close>

definition no_faults :: "'z world_scheme \<Rightarrow> bool" where
  "no_faults w = (\<forall>oper p. x_fault w oper p = None)"

lemma faulty_ok: "no_faults w \<Longrightarrow> faulty oper p w = (Ok (), w)"
  by (simp add: no_faults_def faulty_def)

lemma no_faults_fs [simp]: "no_faults (w\<lparr>w_fs := m\<rparr>) = no_faults w"
  by (simp add: no_faults_def)

definition entry_hist :: "proto_api \<Rightarrow> Storage \<Rightarrow> 'z world_scheme \<Rightarrow> string \<Rightarrow> Histories option" where
  "entry_hist P s w n =
     (case fs_at w (PathJoin [st_Dir s, n]) of
        Some (FileN b) \<Rightarrow> (case unmarshal_histories P b of Ok h \<Rightarrow> Some h | _ \<Rightarrow> None)
      | _ \<Rightarrow> None)"

definition put_entry :: "proto_api \<Rightarrow> Storage \<Rightarrow> 'z world_scheme \<Rightarrow> StoredSet \<Rightarrow> string \<Rightarrow> StoredSet" where
  "put_entry P s w acc n =
     (if HasPrefix n (hist_prefix s) then map_put (entry_version s n) (the (entry_hist P s w n)) acc else acc)"

lemma load_entry_Ok:
  "no_faults w \<Longrightarrow> load_entry P s n acc w = (Ok acc', w') \<longleftrightarrow>
     w' = w \<and> (HasPrefix n (hist_prefix s) \<longrightarrow> entry_hist P s w n \<noteq> None) \<and> acc' = put_entry P s w acc n"
  by (auto simp: load_entry_def put_entry_def entry_hist_def os_ReadFile_def faulty_ok io_defs Let_def
      split: option.splits node.splits res.splits prod.splits)

lemma fold_load_Ok:
  "no_faults w \<Longrightarrow> fold_io (load_entry P s) ns acc w = (Ok acc', w') \<longleftrightarrow>
     w' = w \<and> (\<forall>n \<in> set ns. HasPrefix n (hist_prefix s) \<longrightarrow> entry_hist P s w n \<noteq> None) \<and>
     acc' = foldl (put_entry P s w) acc ns"
proof (induction ns arbitrary: acc)
  case Nil
  then show ?case by (auto simp: ret_def)
next
  case (Cons n ns)
  then show ?case by (auto simp: bindE_Ok_iff load_entry_Ok)
qed

definition candidates :: "Storage \<Rightarrow> string \<Rightarrow> string \<Rightarrow> bool" where
  "candidates s v n = (HasPrefix n (hist_prefix s) \<and> entry_version s n = v)"

lemma map_of_fold_put:
  "map_of (foldl (put_entry P s w) acc ns) v =
     (case filter (candidates s v) ns of
        [] \<Rightarrow> map_of acc v | xs \<Rightarrow> Some (the (entry_hist P s w (last xs))))"
  by (induction ns rule: rev_induct)
    (auto simp: put_entry_def map_of_map_put candidates_def split: list.splits)

definition listing :: "string \<Rightarrow> fs \<Rightarrow> string list" where
  "listing d m = sort (remdups (List.map_filter (\<lambda>e. entry_name d (fst e)) m))"

lemma map_filter_set: "set (List.map_filter f xs) = {y. \<exists>x \<in> set xs. f x = Some y}"
  by (induction xs) (auto simp: List.map_filter_simps split: option.splits)

lemma set_listing:
  "clean_abs d \<Longrightarrow> n \<in> set (listing d m) \<longleftrightarrow> n \<noteq> [] \<and> slash \<notin> set n \<and> map_of m (d @ slash # n) \<noteq> None"
  by (auto simp: listing_def map_filter_set entry_name_sub map_of_eq_None_iff, force+)

lemma filter_listing:
  "filter p (listing d m) = sorted_list_of_set {n \<in> set (listing d m). p n}"
proof -
  have "sorted (filter p (listing d m))" "distinct (filter p (listing d m))"
    by (simp_all add: listing_def sorted_filter [where f = "\<lambda>x. x", simplified])
  moreover have "{n \<in> set (listing d m). p n} = set (filter p (listing d m))" by auto
  ultimately show ?thesis by (simp add: sorted_list_of_set.idem_if_sorted_distinct del: set_filter)
qed

lemma Load_Ok:
  assumes "no_faults w" "clean_abs (st_Dir s)"
  shows "Load P s w = (Ok vs, w') \<longleftrightarrow> w' = w \<and>
    (if is_dir w (st_Dir s)
     then (\<forall>n \<in> set (listing (st_Dir s) (w_fs w)). HasPrefix n (hist_prefix s) \<longrightarrow> entry_hist P s w n \<noteq> None) \<and>
       vs = foldl (put_entry P s w) [] (listing (st_Dir s) (w_fs w))
     else vs = [])"
proof (cases "is_dir w (st_Dir s)")
  case True
  then have "os_ReadDir (st_Dir s) w = (Ok (listing (st_Dir s) (w_fs w)), w)"
    using assms by (simp add: os_ReadDir_def thenE_def bindE_def faulty_ok abs_path_clean listing_def Let_def)
  then have "Load P s w = fold_io (load_entry P s) (listing (st_Dir s) (w_fs w)) [] w"
    by (simp add: Load_def bindE_def attempt_def)
  with True show ?thesis by (simp add: fold_load_Ok [OF assms(1)])
next
  case False
  then have "os_ReadDir (st_Dir s) w = (Err (not_exist ''open'' (st_Dir s)), w)"
    using assms by (simp add: os_ReadDir_def thenE_def bindE_def faulty_ok abs_path_clean Let_def)
  with False show ?thesis
    by (auto simp: Load_def bindE_def attempt_def not_exist_def has_kind_def ret_def)
qed

lemma hist_name_ordinary: "HasPrefix n (hist_prefix s) \<Longrightarrow> slash \<notin> set n \<Longrightarrow> ordinary n"
  by (auto simp: HasPrefix_iff hist_prefix_def ordinary_def)

lemma entry_hist_at:
  assumes "clean_abs (st_Dir s)" "HasPrefix n (hist_prefix s)" "slash \<notin> set n"
  shows "entry_hist P s w n =
    (case map_of (w_fs w) (st_Dir s @ slash # n) of
       Some (FileN b) \<Rightarrow> (case unmarshal_histories P b of Ok h \<Rightarrow> Some h | _ \<Rightarrow> None) | _ \<Rightarrow> None)"
  using assms hist_name_ordinary [OF assms(2,3)]
  by (simp add: entry_hist_def PathJoin_sub fs_at_def abs_path_clean clean_abs_sub)

subsection \<open>Storing\<close>

definition stored_name :: "Storage \<Rightarrow> string \<Rightarrow> string" where
  "stored_name s v = hist_prefix s @ v @ ''.json''"

definition hist_text :: "proto_api \<Rightarrow> Histories \<Rightarrow> string" where
  "hist_text P hs = (case MarshalJSON P hs of Ok j \<Rightarrow> MarshalIndent j | _ \<Rightarrow> [])"

definition storable :: "Storage \<Rightarrow> string \<Rightarrow> bool" where
  "storable s v = (slash \<notin> set (st_Lang s) \<and> slash \<notin> set v)"

lemma stored_name_facts:
  "HasPrefix (stored_name s v) (hist_prefix s)" "entry_version s (stored_name s v) = v"
  "storable s v \<Longrightarrow> slash \<notin> set (stored_name s v)"
proof -
  show "HasPrefix (stored_name s v) (hist_prefix s)" by (simp add: stored_name_def)
  have "TrimSuffix ((hist_prefix s @ v) @ ''.json'') ''.json'' = hist_prefix s @ v" by (rule TrimSuffix_append)
  then show "entry_version s (stored_name s v) = v" by (simp add: entry_version_def stored_name_def)
  show "slash \<notin> set (stored_name s v)" if "storable s v"
    using that by (simp add: stored_name_def storable_def hist_prefix_def)
qed

lemma hist_file_path:
  "clean_abs (st_Dir s) \<Longrightarrow> storable s v \<Longrightarrow> hist_file s v = st_Dir s @ slash # stored_name s v"
  using PathJoin_sub [of "st_Dir s" "stored_name s v"] hist_name_ordinary [of "stored_name s v" s]
    stored_name_facts [of s v]
  by (simp add: hist_file_def stored_name_def hist_prefix_def)

lemma store_one_Ok:
  assumes "clean_abs (st_Dir s)" "storable s v" "store_one P s (v, hs) w = (Ok (), w')"
  shows "w' = w\<lparr>w_fs := fs_put (st_Dir s @ slash # stored_name s v) (FileN (hist_text P hs)) (w_fs w)\<rparr>"
    and "\<exists>j. MarshalJSON P hs = Ok j \<and> wf_json j \<and> hist_text P hs = MarshalIndent j"
proof -
  have o: "ordinary (stored_name s v)"
    using stored_name_facts [of s v] assms(2) by (intro hist_name_ordinary)
  from assms(3) obtain j where j: "MarshalJSON P hs = Ok j" "wf_json j"
    by (auto simp: store_one_def Let_def io_defs split: res.splits if_splits)
  with assms(3) show "w' = w\<lparr>w_fs := fs_put (st_Dir s @ slash # stored_name s v) (FileN (hist_text P hs)) (w_fs w)\<rparr>"
    using clean_abs_sub(1) [OF assms(1) o]
    by (auto simp: store_one_def Let_def hist_file_path [OF assms(1,2)] hist_text_def os_WriteFile_def
        wrapE_def thenE_def bindE_def abs_path_clean split: prod.splits res.splits if_splits dest: keepsD [OF keeps_faulty [of "\<lambda>w. w"]])
  from j show "\<exists>j. MarshalJSON P hs = Ok j \<and> wf_json j \<and> hist_text P hs = MarshalIndent j"
    by (simp add: hist_text_def)
qed

lemma for_each_store_Ok:
  assumes "clean_abs (st_Dir s)"
  shows "for_each (store_one P s) vs w = (Ok (), w') \<Longrightarrow> \<forall>v \<in> fst ` set vs. storable s v \<Longrightarrow> distinct (map fst vs) \<Longrightarrow>
    (\<exists>m. w' = w\<lparr>w_fs := m\<rparr> \<and>
      (\<forall>v hs. map_of vs v = Some hs \<longrightarrow> map_of m (st_Dir s @ slash # stored_name s v) = Some (FileN (hist_text P hs))) \<and>
      (\<forall>q. (\<forall>v \<in> fst ` set vs. q \<noteq> st_Dir s @ slash # stored_name s v) \<longrightarrow> map_of m q = map_of (w_fs w) q)) \<and>
    (\<forall>v hs. map_of vs v = Some hs \<longrightarrow> (\<exists>j. MarshalJSON P hs = Ok j \<and> wf_json j \<and> hist_text P hs = MarshalIndent j))"
proof (induction vs arbitrary: w)
  case Nil
  then show ?case by (auto simp: ret_def intro: exI [of _ "w_fs w"])
next
  case (Cons vh vs)
  obtain v hs where vh: "vh = (v, hs)" by force
  from Cons.prems(1) vh obtain w1 where
    1: "store_one P s (v, hs) w = (Ok (), w1)" and 2: "for_each (store_one P s) vs w1 = (Ok (), w')"
    by (auto simp: thenE_Ok_iff)
  have st: "storable s v" using Cons.prems(2) vh by simp
  note one = store_one_Ok [OF assms st 1]
  from Cons.IH [OF 2] Cons.prems(2,3) vh obtain m where
    m: "w' = w1\<lparr>w_fs := m\<rparr>"
      "\<forall>v hs. map_of vs v = Some hs \<longrightarrow> map_of m (st_Dir s @ slash # stored_name s v) = Some (FileN (hist_text P hs))"
      "\<forall>q. (\<forall>v \<in> fst ` set vs. q \<noteq> st_Dir s @ slash # stored_name s v) \<longrightarrow> map_of m q = map_of (w_fs w1) q"
      "\<forall>v hs. map_of vs v = Some hs \<longrightarrow> (\<exists>j. MarshalJSON P hs = Ok j \<and> wf_json j \<and> hist_text P hs = MarshalIndent j)"
    by auto
  have inj: "stored_name s u = stored_name s v \<longleftrightarrow> u = v" for u by (simp add: stored_name_def)
  have "v \<notin> fst ` set vs" using Cons.prems(3) vh by simp
  then have "\<forall>u \<in> fst ` set vs. st_Dir s @ slash # stored_name s v \<noteq> st_Dir s @ slash # stored_name s u"
    using inj by (metis list.inject same_append_eq)
  with m(3) have "map_of m (st_Dir s @ slash # stored_name s v) = map_of (w_fs w1) (st_Dir s @ slash # stored_name s v)"
    by blast
  then have "map_of m (st_Dir s @ slash # stored_name s v) = Some (FileN (hist_text P hs))"
    using one(1) by (simp add: map_of_fs_put)
  moreover have "map_of m q = map_of (w_fs w) q"
    if "\<forall>v \<in> fst ` set (vh # vs). q \<noteq> st_Dir s @ slash # stored_name s v" for q
    using that m(3) one(1) vh by (auto simp: map_of_fs_put)
  ultimately show ?case
    using m one vh by (intro conjI exI [of _ m]) (auto simp: image_iff)
qed

lemma prefix_not_entry:
  assumes "clean_abs d" "ordinary n"
  shows "d @ slash # n \<notin> set (path_prefixes d)"
proof
  assume "d @ slash # n \<in> set (path_prefixes d)"
  then obtain i where "i < length (path_comps d)" and e: "d @ slash # n = slash # Join (take (Suc i) (path_comps d)) ''/''"
    by (auto simp: path_prefixes_def Let_def)
  have "list_all ordinary (take (Suc i) (path_comps d))"
    using assms(1) by (auto simp: clean_abs_def list_all_iff dest: in_set_takeD)
  then have "path_comps (d @ slash # n) = take (Suc i) (path_comps d)"
    unfolding e by (rule path_comps_Join)
  then have "length (path_comps (d @ slash # n)) \<le> length (path_comps d)" by simp
  then show False using clean_abs_sub(2) [OF assms] by simp
qed

lemma os_MkdirAll_Ok:
  assumes "clean_abs d" "os_MkdirAll d w = (Ok (), w')"
  shows "\<exists>m. w' = w\<lparr>w_fs := m\<rparr> \<and> map_of m d = Some DirN \<and> (\<forall>n. ordinary n \<longrightarrow> map_of m (d @ slash # n) = map_of (w_fs w) (d @ slash # n))"
proof -
  from assms have w': "\<exists>m. mkdirs (path_prefixes d) (w_fs w) = Some m \<and> w' = w\<lparr>w_fs := m\<rparr>"
    by (auto simp: os_MkdirAll_def thenE_def bindE_def abs_path_clean split: prod.splits res.splits option.splits
        dest: keepsD [OF keeps_faulty [of "\<lambda>w. w"]])
  then obtain m where m: "mkdirs (path_prefixes d) (w_fs w) = Some m" "w' = w\<lparr>w_fs := m\<rparr>" by blast
  have "map_of m d = Some DirN"
    using mkdirs_result [OF m(1), of d] path_prefixes_clean [OF assms(1)] by simp
  moreover have "map_of m (d @ slash # n) = map_of (w_fs w) (d @ slash # n)" if "ordinary n" for n
    using mkdirs_result [OF m(1), of "d @ slash # n"] prefix_not_entry [OF assms(1) that] by simp
  ultimately show ?thesis using m(2) by blast
qed

subsection \<open>Loading what was stored\<close>

lemma append_le: "xs \<le> xs @ ys" for xs ys :: string
  by (induction xs) simp_all

lemma last_of_sorted:
  assumes "sorted xs" "x \<in> set xs" "\<And>y. y \<in> set xs \<Longrightarrow> y \<le> x"
  shows "last xs = x"
proof -
  have "x \<le> last xs"
    using assms(1,2) by (induction xs) (auto split: if_splits)
  moreover have "last xs \<le> x" using assms(2,3) by (metis empty_iff empty_set last_in_set)
  ultimately show ?thesis by (rule antisym [rotated])
qed

lemma candidate_names:
  assumes "candidates s v n" "\<not> HasPrefix (hist_prefix s) v"
  shows "n = hist_prefix s @ v \<or> n = stored_name s v"
proof -
  from assms(1) obtain x where n: "n = hist_prefix s @ x" and v: "entry_version s n = v"
    by (auto simp: candidates_def HasPrefix_iff)
  show ?thesis
  proof (cases "HasSuffix n ''.json''")
    case False
    then have "entry_version s n = x" using n by (simp add: entry_version_def TrimSuffix_def)
    with n v show ?thesis by simp
  next
    case True
    then obtain y where y: "n = y @ ''.json''" by (auto simp: HasSuffix_iff)
    then have e: "entry_version s n = TrimPrefix y (hist_prefix s)"
      using TrimSuffix_append [of y "''.json''"] by (simp add: entry_version_def)
    have "hist_prefix s @ x = y @ ''.json''" using n y by simp
    then show ?thesis
    proof (elim append_eq_append_conv2 [THEN iffD1, elim_format] exE disjE)
      fix us assume a: "hist_prefix s @ us = y \<and> x = us @ ''.json''"
      then have "entry_version s n = us" using e TrimPrefix_append by metis
      with a v y show ?thesis by (auto simp: stored_name_def)
    next
      fix us assume a: "hist_prefix s = y @ us \<and> us @ x = ''.json''"
      have "HasPrefix (hist_prefix s) v"
      proof (cases us)
        case Nil
        with a e v show ?thesis using TrimPrefix_append [of y "[]"] by simp
      next
        case (Cons c us')
        then have "TrimPrefix y (hist_prefix s) = y"
          using a by (auto simp: TrimPrefix_def HasPrefix_def)
        with a e v show ?thesis by simp
      qed
      with assms(2) show ?thesis by simp
    qed
  qed
qed

lemma Load_after_Store:
  assumes w: "no_faults w" "clean_abs (st_Dir s)" "is_dir w (st_Dir s) \<or> (\<forall>n. map_of (w_fs w) (st_Dir s @ slash # n) = None)"
    and ver: "\<forall>v \<in> fst ` set vs. storable s v \<and> \<not> HasPrefix (hist_prefix s) v" "distinct (map fst vs)"
    and rt: "\<forall>v hs h j. map_of vs v = Some hs \<and> h \<in> set hs \<and> p_Marshal P h = Ok j \<longrightarrow> p_Unmarshal P j = Ok h"
    and old: "Load P s w = (Ok old, w0)" and st: "Store P s vs w = (Ok (), w1)"
  shows "\<exists>new. Load P s w1 = (Ok new, w1) \<and>
    (\<forall>v. map_of new v = (case map_of vs v of Some hs \<Rightarrow> Some (sort_key name_or_empty hs) | None \<Rightarrow> map_of old v))"
proof -
  let ?d = "st_Dir s"
  from st obtain w' where mk: "os_MkdirAll ?d w = (Ok (), w')" and each: "for_each (store_one P s) vs w' = (Ok (), w1)"
    by (auto simp: Store_def thenE_Ok_iff)
  from os_MkdirAll_Ok [OF w(2) mk] obtain m0 where m0: "w' = w\<lparr>w_fs := m0\<rparr>" "map_of m0 ?d = Some DirN"
    "\<And>n. ordinary n \<Longrightarrow> map_of m0 (?d @ slash # n) = map_of (w_fs w) (?d @ slash # n)" by blast
  from for_each_store_Ok [OF w(2) each] ver m0(1) obtain m where m: "w1 = w\<lparr>w_fs := m\<rparr>"
    "\<And>v hs. map_of vs v = Some hs \<Longrightarrow> map_of m (?d @ slash # stored_name s v) = Some (FileN (hist_text P hs))"
    "\<And>q. \<forall>v \<in> fst ` set vs. q \<noteq> ?d @ slash # stored_name s v \<Longrightarrow> map_of m q = map_of m0 q"
    "\<And>v hs. map_of vs v = Some hs \<Longrightarrow> \<exists>j. MarshalJSON P hs = Ok j \<and> wf_json j \<and> hist_text P hs = MarshalIndent j"
    by auto
  have "map_of m ?d = Some DirN" using m(3) [of ?d] m0(2) by simp
  then have dir1: "is_dir w1 ?d" by (simp add: is_dir_def m(1))
  have nf: "no_faults w1" using w(1) m(1) by simp
  have inlist: "n \<in> set (listing ?d m') \<longleftrightarrow> map_of m' (?d @ slash # n) \<noteq> None"
    if "HasPrefix n (hist_prefix s)" "slash \<notin> set n" for n m'
    using set_listing [OF w(2), of n m'] hist_name_ordinary [OF that] that by (auto simp: ordinary_def)
  have noslash: "slash \<notin> set n" if "n \<in> set (listing ?d m')" for n m'
    using that set_listing [OF w(2)] by blast
  have other: "map_of m (?d @ slash # n) = map_of (w_fs w) (?d @ slash # n)"
    if "HasPrefix n (hist_prefix s)" "slash \<notin> set n" "n \<notin> stored_name s ` fst ` set vs" for n
  proof -
    have "\<forall>v \<in> fst ` set vs. ?d @ slash # n \<noteq> ?d @ slash # stored_name s v"
      using that(3) by auto
    from m(3) [OF this] m0(3) [OF hist_name_ordinary [OF that(1,2)]] show ?thesis by simp
  qed
  have stored: "entry_hist P s w1 (stored_name s v) = Some (sort_key name_or_empty hs) \<and> stored_name s v \<in> set (listing ?d m)"
    if "map_of vs v = Some hs" for v hs
  proof -
    from that have "v \<in> fst ` set vs" by (metis map_of_eq_None_iff option.distinct(1))
    with ver(1) have n: "HasPrefix (stored_name s v) (hist_prefix s)" "slash \<notin> set (stored_name s v)"
      using stored_name_facts by blast+
    from m(4) [OF that] obtain j where j: "MarshalJSON P hs = Ok j" "wf_json j" "hist_text P hs = MarshalIndent j" by blast
    have "unmarshal_histories P (MarshalIndent j) = Ok (sort_key name_or_empty hs)"
      using rt that by (intro unmarshal_marshal [OF _ j(1,2)]) blast
    then show ?thesis
      using entry_hist_at [OF w(2) n, of P w1] m(1) m(2) [OF that] j(3) inlist [OF n] by simp
  qed
  have same_hist: "entry_hist P s w1 n = entry_hist P s w n"
    if "HasPrefix n (hist_prefix s)" "slash \<notin> set n" "n \<notin> stored_name s ` fst ` set vs" for n
    using entry_hist_at [OF w(2) that(1,2), of P w1] entry_hist_at [OF w(2) that(1,2), of P w] other [OF that] m(1) by simp
  have fresh: "n \<notin> stored_name s ` fst ` set vs" if "entry_version s n \<notin> fst ` set vs" for n
    using that stored_name_facts(2) by auto
  have oldl: "\<forall>n \<in> set (listing ?d (w_fs w)). HasPrefix n (hist_prefix s) \<longrightarrow> entry_hist P s w n \<noteq> None"
    and oldm: "map_of old v = (case filter (candidates s v) (listing ?d (w_fs w)) of [] \<Rightarrow> None | xs \<Rightarrow> Some (the (entry_hist P s w (last xs))))" for v
  proof -
    have "listing ?d (w_fs w) = [] \<or> is_dir w ?d"
      using w(3) set_listing [OF w(2), of "hd (listing ?d (w_fs w))" "w_fs w"] by (metis hd_in_set)
    with old [unfolded Load_Ok [OF w(1,2)]]
    show "\<forall>n \<in> set (listing ?d (w_fs w)). HasPrefix n (hist_prefix s) \<longrightarrow> entry_hist P s w n \<noteq> None"
      "map_of old v = (case filter (candidates s v) (listing ?d (w_fs w)) of [] \<Rightarrow> None | xs \<Rightarrow> Some (the (entry_hist P s w (last xs))))"
      by (elim disjE; auto simp: map_of_fold_put split: if_splits list.splits)+
  qed
  let ?new = "foldl (put_entry P s w1) [] (listing ?d m)"
  have "entry_hist P s w1 n \<noteq> None" if "n \<in> set (listing ?d m)" "HasPrefix n (hist_prefix s)" for n
  proof (cases "n \<in> stored_name s ` fst ` set vs")
    case True
    then obtain v hs where "n = stored_name s v" "map_of vs v = Some hs"
      by (auto dest: map_of_is_SomeI [OF ver(2)])
    with stored show ?thesis by simp
  next
    case False
    with same_hist [OF that(2) noslash [OF that(1)]] other [OF that(2) noslash [OF that(1)]] inlist [OF that(2) noslash [OF that(1)]] oldl that
    show ?thesis by auto
  qed
  then have "Load P s w1 = (Ok ?new, w1)"
    using Load_Ok [OF nf w(2), of P ?new w1] dir1 m(1) by simp
  moreover have "map_of ?new v = (case map_of vs v of Some hs \<Rightarrow> Some (sort_key name_or_empty hs) | None \<Rightarrow> map_of old v)" for v
  proof (cases "map_of vs v")
    case None
    then have v: "v \<notin> fst ` set vs" by (simp add: map_of_eq_None_iff)
    have cand: "HasPrefix n (hist_prefix s) \<and> entry_version s n = v" if "candidates s v n" for n
      using that by (simp add: candidates_def)
    have "n \<in> set (listing ?d m) \<longleftrightarrow> n \<in> set (listing ?d (w_fs w))" if "candidates s v n" "slash \<notin> set n" for n
      using inlist [OF conjunct1 [OF cand [OF that(1)]] that(2)] other [OF conjunct1 [OF cand [OF that(1)]] that(2)]
        fresh [of n] cand [OF that(1)] v by simp
    then have "{n \<in> set (listing ?d m). candidates s v n} = {n \<in> set (listing ?d (w_fs w)). candidates s v n}"
      using noslash by blast
    then have f: "filter (candidates s v) (listing ?d m) = filter (candidates s v) (listing ?d (w_fs w))"
      by (simp add: filter_listing)
    have "entry_hist P s w1 n = entry_hist P s w n" if "n \<in> set (filter (candidates s v) (listing ?d m))" for n
      using that same_hist cand noslash fresh v by auto
    then have "entry_hist P s w1 (last (filter (candidates s v) (listing ?d m))) = entry_hist P s w (last (filter (candidates s v) (listing ?d m)))"
      if "filter (candidates s v) (listing ?d m) \<noteq> []"
      using that last_in_set by blast
    with None oldm f show ?thesis by (auto simp: map_of_fold_put split: list.splits)
  next
    case (Some hs)
    then have "v \<in> fst ` set vs" by (metis map_of_eq_None_iff option.distinct(1))
    with ver(1) have v: "\<not> HasPrefix (hist_prefix s) v" by blast
    let ?xs = "filter (candidates s v) (listing ?d m)"
    have x: "stored_name s v \<in> set ?xs"
      using stored [OF Some] stored_name_facts(1,2) by (auto simp: candidates_def)
    have "last ?xs = stored_name s v"
    proof (rule last_of_sorted [OF _ x])
      show "sorted ?xs" by (simp add: listing_def sorted_filter [where f = "\<lambda>x. x", simplified])
      show "y \<le> stored_name s v" if "y \<in> set ?xs" for y
        using candidate_names [OF _ v, of y] that append_le [of "hist_prefix s @ v" "''.json''"]
        by (auto simp: stored_name_def)
    qed
    moreover from x have "?xs \<noteq> []" by force
    ultimately show ?thesis using stored [OF Some] Some by (auto simp: map_of_fold_put split: list.splits)
  qed
  ultimately show ?thesis by blast
qed

subsection \<open>Scrubbing whole histories\<close>

text \<open>
  A normal form that a second pass does not change: comparing normal forms does not depend on whether
  one side was normalised before.
\<close>

locale normal_form =
  fixes nf :: "'a \<Rightarrow> 'a"
  assumes nf_twice: "nf (nf a) = nf a"
begin

lemma nf_map_twice: "map nf (map nf xs) = map nf xs"
  by (simp add: nf_twice)

lemma nf_either_side: "R (nf (nf a)) (nf b) = R (nf a) (nf b)" "R (nf a) (nf (nf b)) = R (nf a) (nf b)"
  by (simp_all add: nf_twice)

end

interpretation scrubbed: normal_form scrubRunSpecificFields
  by unfold_locales (rule scrub_twice)

interpretation scrubbed_histories: normal_form ScrubRunSpecificFields
  by unfold_locales (simp only: ScrubRunSpecificFields_map scrubbed.nf_map_twice)

section \<open>Properties\<close>

text \<open>
  C3: what is specific to a run cannot fail the history check. Replacing, in one history, the value of
  any field of the table by any other value (a run id, an identity, a timestamp, at whatever depth)
  leaves the scrubbed histories as they are; and scrubbing scrubbed histories changes nothing, so that
  stored histories may be scrubbed already.
\<close>

theorem scrub_forgets:
  assumes "i < length hs" and "through reset_fields p (hs ! i)" and "at p (hs ! i) \<noteq> None"
  shows "ScrubRunSpecificFields (hs[i := put p y (hs ! i)]) = ScrubRunSpecificFields hs \<and>
    ScrubRunSpecificFields (ScrubRunSpecificFields hs) = ScrubRunSpecificFields hs"
  using scrubbed_histories.nf_twice [of hs] scrub_forgets_field [OF assms(2,3), of y] assms(1)
  by (simp add: ScrubRunSpecificFields_map map_update) (metis list_update_id nth_map)

text \<open>A history of one event, for concrete runs.\<close>

definition sample_history :: "string \<Rightarrow> string \<Rightarrow> gval" where
  "sample_history name ident =
     VPtr (VStruct ''history.History'' [(''Events'', VSlice [
       VPtr (VStruct ''history.HistoryEvent'' [(''EventId'', VInt 1), (''TaskId'', VInt 2), (''Attributes'',
         VIface (VPtr (VStruct ''history.HistoryEvent_WorkflowExecutionStartedEventAttributes''
           [(''WorkflowExecutionStartedEventAttributes'',
             VPtr (VStruct ''history.WorkflowExecutionStartedEventAttributes''
               [(''WorkflowType'', VPtr (VStruct ''common.WorkflowType'' [(''Name'', VStr name)])),
                (''Identity'', VStr ident)]))])))])])])"

definition sample_attributes :: "step list" where
  "sample_attributes = [Deref, Field ''Events'', Index 0, Deref, Field ''Attributes'', Deref, Deref,
     Field ''WorkflowExecutionStartedEventAttributes'', Deref]"

theorem scrub_forgets_witness:
  "ScrubRunSpecificFields [sample_history ''wf'' ''me''] = ScrubRunSpecificFields [sample_history ''wf'' ''you'']"
proof -
  let ?p = "sample_attributes @ [Field ''Identity'']"
  have 1: "through reset_fields ?p (sample_history ''wf'' ''you'')"
    by (simp add: sample_attributes_def sample_history_def enters_def reset_fields_def scrub_table_def exported_def)
  have 2: "at ?p (sample_history ''wf'' ''you'') \<noteq> None"
    by (simp add: sample_attributes_def sample_history_def)
  have 3: "put ?p (VStr ''me'') (sample_history ''wf'' ''you'') = sample_history ''wf'' ''me''"
    by (simp add: sample_attributes_def sample_history_def)
  show ?thesis
    using scrub_forgets [of 0 "[sample_history ''wf'' ''you'']" ?p "VStr ''me''"] 1 2 3 by simp
qed

text \<open>
  C4: nothing else is lost. A scalar of a history that is not inside a field of the table (nor inside the
  worker version of the task attributes, which is dropped when versioning is off) is still there, with
  its value, at the same place after scrubbing: two histories that differ in it still differ.
\<close>

theorem scrub_keeps:
  assumes "i < length hs" and "at p (hs ! i) = Some x" and "scalar x"
    and "\<not> through touched_fields p (hs ! i)"
  shows "at p (ScrubRunSpecificFields hs ! i) = Some x"
  using scrub_keeps_scalar [OF assms(2-4)] assms(1) by (simp add: ScrubRunSpecificFields_map)

theorem scrub_keeps_witness:
  "at (sample_attributes @ [Field ''WorkflowType'', Deref, Field ''Name''])
     (ScrubRunSpecificFields [sample_history ''wf'' ''me''] ! 0) = Some (VStr ''wf'')"
  by (rule scrub_keeps)
    (simp_all add: sample_attributes_def sample_history_def enters_def touched_fields_def reset_fields_def scrub_table_def)


definition sample_proto :: proto_api where
  "sample_proto = \<lparr>p_Equal = (=), p_Clone = id,
     p_Marshal = (\<lambda>h. Ok (JStr (name_or_empty h))),
     p_Unmarshal = (\<lambda>j. case j of JStr n \<Rightarrow> Ok (sample_history n ''me'') | _ \<Rightarrow> Err type_error)\<rparr>"


end
