(* ===== verification/Harness_Util.thy ===== *)
theory Harness_Util
  imports Net History
begin

text \<open>
  The helpers of the Go harness (\<open>harness/go/harness/util.go\<close> and the polling loops of \<open>runner.go\<close>):
  looking through history iterators, retrying, polling until something holds or the time is over, and
  waiting for a namespace. An iterator is the list of events and errors it yields; what a \<open>select\<close>
  receives is a list of occurrences, of which a loop consumes a prefix.
\<close>

section \<open>Histories\<close>

fun FindEvent :: "gval res list \<Rightarrow> (gval \<Rightarrow> bool) \<Rightarrow> gval option res" where
  "FindEvent [] cond = Ok None"
| "FindEvent (Ok ev # r) cond = (if cond ev then Ok (Some ev) else FindEvent r cond)"
| "FindEvent (Err e # r) cond = Err e"
| "FindEvent (Panic e # r) cond = Panic e"

fun count_events :: "nat \<Rightarrow> gval res list \<Rightarrow> (gval \<Rightarrow> bool) \<Rightarrow> nat res" where
  "count_events n [] cond = Ok n"
| "count_events n (Ok ev # r) cond = count_events (if cond ev then n + 1 else n) r cond"
| "count_events n (Err e # r) cond = Err e"
| "count_events n (Panic e # r) cond = Panic e"

definition CountEvents :: "gval res list \<Rightarrow> (gval \<Rightarrow> bool) \<Rightarrow> nat res" where
  "CountEvents = count_events 0"

text \<open>The generated getter of one of the attributes an event may have.\<close>

definition attributes_of :: "string \<Rightarrow> gval \<Rightarrow> gval" where
  "attributes_of name ev =
     (case getter ''Attributes'' ev of
        VIface (VPtr (VStruct t fs)) \<Rightarrow>
          if t = ''history.HistoryEvent_'' @ name then get_field name fs else VNil
      | _ \<Rightarrow> VNil)"

definition index_out_of_range :: go_error where
  "index_out_of_range = External OtherError ''runtime error: index out of range [0] with length 0''"

definition first_payload :: "string \<Rightarrow> gval \<Rightarrow> gval res" where
  "first_payload field attrs =
     (case elements (getter ''Payloads'' (getter field attrs)) of [] \<Rightarrow> Panic index_out_of_range | p # _ \<Rightarrow> Ok p)"

definition payload_of :: "string \<Rightarrow> string \<Rightarrow> string \<Rightarrow> string \<Rightarrow> gval res list \<Rightarrow> gval res" where
  "payload_of name field missing unlocated history =
     (case FindEvent history (\<lambda>ev. attributes_of name ev \<noteq> VNil) of
        Err e \<Rightarrow> Err e
      | Panic e \<Rightarrow> Panic e
      | Ok None \<Rightarrow> Err (Errorf missing [])
      | Ok (Some ev) \<Rightarrow>
          if attributes_of name ev = VNil then Err (Errorf unlocated []) else first_payload field (attributes_of name ev))"

definition GetWorkflowResultPayload :: "gval res list \<Rightarrow> gval res" where
  "GetWorkflowResultPayload = payload_of ''WorkflowExecutionCompletedEventAttributes'' ''Result''
     ''missing WorkflowExecutionCompleted event'' ''could not locate WorkflowExecutionCompleted event''"

definition GetWorkflowArgumentPayload :: "gval res list \<Rightarrow> gval res" where
  "GetWorkflowArgumentPayload = payload_of ''WorkflowExecutionStartedEventAttributes'' ''Input''
     ''missing WorkflowExecutionStarted event'' ''could not locate WorkflowExecutionStarted event''"

definition GetCountCompletedUpdates :: "gval res list \<Rightarrow> nat res" where
  "GetCountCompletedUpdates history =
     CountEvents history (\<lambda>ev. attributes_of ''WorkflowExecutionUpdateCompletedEventAttributes'' ev \<noteq> VNil)"

section \<open>Retrying\<close>

text \<open>\<open>Inr\<close>: the condition held; \<open>Inl\<close>: out of attempts, with the last error.\<close>

fun retry_loop ::
  "nat \<Rightarrow> ('w \<Rightarrow> 'w) \<Rightarrow> ('w, bool \<times> go_error option) io \<Rightarrow> go_error option \<Rightarrow> ('w, go_error option + unit) io" where
  "retry_loop 0 sleep cond lastErr = ret (Inl lastErr)"
| "retry_loop (Suc n) sleep cond lastErr =
     bindE cond (\<lambda>(ok, curE).
       if ok then ret (Inr ()) else thenE (upd sleep) (retry_loop n sleep cond curE))"

definition RetryFor :: "nat \<Rightarrow> ('w \<Rightarrow> 'w) \<Rightarrow> ('w, bool \<times> go_error option) io \<Rightarrow> ('w, unit) io" where
  "RetryFor maxAttempts sleep cond =
     bindE (retry_loop maxAttempts sleep cond None) (\<lambda>r.
       case r of
         Inr _ \<Rightarrow> ret ()
       | Inl (Some e) \<Rightarrow> fail e
       | Inl None \<Rightarrow> fail (Errorf ''failed after %d attempts'' [show_nat maxAttempts]))"

section \<open>Polling\<close>

datatype select_event = CtxDone go_error | TimeoutFired | Ticked

text \<open>\<open>None\<close>: still waiting after these occurrences.\<close>

fun DoUntilEventually :: "('w, bool) io \<Rightarrow> select_event list \<Rightarrow> 'w \<Rightarrow> (unit res \<times> 'w) option" where
  "DoUntilEventually predicate [] w = None"
| "DoUntilEventually predicate (CtxDone e # es) w = Some (Err e, w)"
| "DoUntilEventually predicate (TimeoutFired # es) w =
     Some (Err (Errorf ''timeout waiting for condition to be met'' []), w)"
| "DoUntilEventually predicate (Ticked # es) w =
     (case predicate w of
        (Ok True, w') \<Rightarrow> Some (Ok (), w')
      | (Ok False, w') \<Rightarrow> DoUntilEventually predicate es w'
      | (Err e, w') \<Rightarrow> Some (Err e, w')
      | (Panic e, w') \<Rightarrow> Some (Panic e, w'))"

text \<open>
  One tick of \<open>WaitForEvent\<close>: the history as it is at the tick number of the state, the event kept in
  the state when one is found.
\<close>

definition wait_tick :: "(nat \<Rightarrow> gval res list) \<Rightarrow> (gval \<Rightarrow> bool) \<Rightarrow> (nat \<times> gval option, bool) io" where
  "wait_tick hist cond = (\<lambda>(n, found).
     case FindEvent (hist n) cond of
       Ok (Some ev) \<Rightarrow> (Ok True, (Suc n, Some ev))
     | Panic e \<Rightarrow> (Panic e, (Suc n, found))
     | _ \<Rightarrow> (Ok False, (Suc n, found)))"

definition WaitForEvent ::
  "(nat \<Rightarrow> gval res list) \<Rightarrow> (gval \<Rightarrow> bool) \<Rightarrow> select_event list \<Rightarrow> (gval option \<times> unit res) option" where
  "WaitForEvent hist cond es =
     map_option (\<lambda>(r, (n, found)). (found, r)) (DoUntilEventually (wait_tick hist cond) es (0, None))"

definition WaitForActivityTaskScheduled ::
  "(nat \<Rightarrow> gval res list) \<Rightarrow> select_event list \<Rightarrow> (gval option \<times> unit res) option" where
  "WaitForActivityTaskScheduled hist =
     WaitForEvent hist (\<lambda>ev. attributes_of ''ActivityTaskScheduledEventAttributes'' ev \<noteq> VNil)"

text \<open>
  \<open>QueryUntilEventually\<close>: \<open>ask n\<close> is the answer of the query number \<open>n\<close>, whose value may fail to convert;
  \<open>eq\<close> is the assertion library's equality, whose failure leaves an error.
\<close>

definition tolerated :: "go_error \<Rightarrow> bool" where
  "tolerated e = (has_kind QueryFailed e \<or> Contains (error_text e) ''task is not scheduled'')"

fun QueryUntilEventually ::
  "(nat \<Rightarrow> gval res res) \<Rightarrow> (gval \<Rightarrow> gval \<Rightarrow> go_error option) \<Rightarrow> string \<Rightarrow> gval \<Rightarrow> select_event list
     \<Rightarrow> nat \<Rightarrow> go_error option \<Rightarrow> unit res option" where
  "QueryUntilEventually ask eq query expected [] n lastErr = None"
| "QueryUntilEventually ask eq query expected (CtxDone e # es) n lastErr = Some (Err e)"
| "QueryUntilEventually ask eq query expected (TimeoutFired # es) n lastErr =
     Some (Err (case lastErr of
         Some e \<Rightarrow> Wrapf ''timeout waiting for query %v to get proper value, last error: %w'' [query] e
       | None \<Rightarrow> Errorf ''timeout waiting for query %v to get proper value, last error: %!w(<nil>)'' [query]))"
| "QueryUntilEventually ask eq query expected (Ticked # es) n lastErr =
     (case ask n of
        Err e \<Rightarrow>
          if tolerated e then QueryUntilEventually ask eq query expected es (Suc n) lastErr
          else Some (Err (Wrapf ''failed querying %v: %w'' [query] e))
      | Panic e \<Rightarrow> Some (Panic e)
      | Ok (Err e) \<Rightarrow> Some (Err (Wrapf ''failed converting result of query %v: %w'' [query] e))
      | Ok (Panic e) \<Rightarrow> Some (Panic e)
      | Ok (Ok actual) \<Rightarrow>
          (case eq expected actual of
             None \<Rightarrow> Some (Ok ())
           | Some e \<Rightarrow> QueryUntilEventually ask eq query expected es (Suc n) (Some e)))"

section \<open>Waiting for a namespace\<close>

text \<open>The state of the closure: the outer state, and whether there is a client yet.\<close>

definition on_fst :: "('w, 'a) io \<Rightarrow> ('w \<times> bool, 'a) io" where
  "on_fst m = (\<lambda>(w, c). case m w of (r, w') \<Rightarrow> (r, (w', c)))"

definition namespace_ready :: "go_error \<Rightarrow> bool" where
  "namespace_ready e =
     (Contains (error_text e) ''Invalid RunId'' \<or> Contains (error_text e) ''operation GetCurrentExecution'')"

definition describe_step :: "('z net_world_scheme \<times> bool, bool \<times> go_error option) io" where
  "describe_step = on_fst (bindE (attempt (act (ADescribeExecution ''!sonotreal'' ''superneverexistwf!''))) (\<lambda>r.
     ret (case r of
        Inr _ \<Rightarrow> (False, None)
      | Inl e \<Rightarrow> if namespace_ready e then (True, None) else (False, Some e))))"

definition namespace_step ::
  "string \<Rightarrow> string \<Rightarrow> tls_config option \<Rightarrow> ('z net_world_scheme \<times> bool, bool \<times> go_error option) io" where
  "namespace_step host ns tls = (\<lambda>(w, c).
     if c then describe_step (w, c)
     else (case act (ADial host ns tls) w of
         (Err e, w') \<Rightarrow> (Ok (False, Some e), (w', False))
       | (Panic e, w') \<Rightarrow> (Panic e, (w', False))
       | (Ok _, w') \<Rightarrow> describe_step (w', True)))"

definition dummy_step :: "string \<Rightarrow> ('z net_world_scheme, bool \<times> go_error option) io" where
  "dummy_step tq =
     bindE new_uuid (\<lambda>u.
     bindE (attempt (bindE (act (AExecuteWorkflow (''dummy-wf-'' @ u) tq)) (\<lambda>run. act (AGetResult run)))) (\<lambda>r.
       ret (case r of Inr _ \<Rightarrow> (True, None) | Inl e \<Rightarrow> (False, Some e))))"

definition confirm_namespace :: "('z net_world_scheme, unit) io" where
  "confirm_namespace =
     bindE new_uuid (\<lambda>u. let tq = ''dummy-wf-tq-'' @ u in
     bindE (wrapE ''failed to start namespace-ready-checking dummy worker: %w'' [] (act (AStartWorker tq))) (\<lambda>_.
       deferE (act_ignore AStopWorker)
         (wrapE ''failed to run namespace-ready-checking workflow: %w'' []
            (RetryFor 600 (act_ignore (ASleep 1000)) (dummy_step tq)))))"

definition WaitNamespaceAvailable ::
  "string \<Rightarrow> string \<Rightarrow> string \<Rightarrow> string \<Rightarrow> string \<Rightarrow> string \<Rightarrow> ('z net_world_scheme, unit) io" where
  "WaitNamespaceAvailable host ns clientCert clientKey caCert serverName =
     bindE (LoadTLSConfig clientCert clientKey caCert serverName) (\<lambda>tls w.
       case deferE (\<lambda>(w, c). (if c then act_ignore ACloseClient w else w, c))
         (thenE
           (wrapE ''failed connecting / describing namespace after 5s, last error: %w'' []
              (RetryFor 600 (\<lambda>(w, c). (act_ignore (ASleep 100) w, c)) (namespace_step host ns tls)))
           (\<lambda>(w, c). if LookupEnv ''WAIT_EXTRA_FOR_NAMESPACE'' w = None then ret () (w, c)
                     else on_fst confirm_namespace (w, c)))
         (w, False) of
         (r, (w', c)) \<Rightarrow> (r, w'))"

section \<open>Lemmas\<close>

subsection \<open>Retrying\<close>

text \<open>A property that every attempt and every wait keep is kept by the loop.\<close>

lemma retry_loop_inv:
  assumes "\<And>s. I s \<Longrightarrow> I (snd (cond s))" "\<And>s. I s \<Longrightarrow> I (sleep s)"
  shows "I s \<Longrightarrow> I (snd (retry_loop n sleep cond e s))"
proof (induction n arbitrary: s e)
  case 0
  then show ?case by (simp add: ret_def)
next
  case (Suc n)
  obtain r s1 where c: "cond s = (r, s1)" by force
  then have "I s1" using assms(1) [OF Suc.prems] by simp
  with c Suc.IH [of "sleep s1"] assms(2) show ?case
    by (auto simp: bindE_def ret_def thenE_upd split: res.splits)
qed

lemma RetryFor_inv:
  assumes "\<And>s. I s \<Longrightarrow> I (snd (cond s))" "\<And>s. I s \<Longrightarrow> I (sleep s)" "I s"
  shows "I (snd (RetryFor n sleep cond s))"
  using retry_loop_inv [of I cond sleep s n None] assms
  by (auto simp: RetryFor_def bindE_def ret_def fail_def split: prod.splits res.splits sum.splits option.splits)

lemma balanced_RetryFor [balanced_intros]:
  assumes "balanced cond" "\<And>w st. held w = Some st \<Longrightarrow> held (sleep w) = Some st"
  shows "balanced (RetryFor n sleep cond)"
proof (rule balancedI)
  fix w :: "'a net_world_scheme" and st
  assume "held w = Some st"
  then show "held (snd (RetryFor n sleep cond w)) = Some st"
    by (rule RetryFor_inv [where I = "\<lambda>w. held w = Some st", rotated 2])
      (use assms in \<open>auto simp: balanced_def\<close>)
qed

lemma first_shift:
  "\<not> P 0 \<Longrightarrow> (\<exists>k < Suc n. P k) \<longleftrightarrow> (\<exists>k < n. P (Suc k))"
  "\<not> P 0 \<Longrightarrow> P (Suc k) \<Longrightarrow> (LEAST k. P k) = Suc (LEAST k. P (Suc k))"
  by (metis Suc_less_eq less_Suc_eq_0_disj) (rule Least_Suc)

lemma retry_loop_steps:
  fixes c :: "nat \<Rightarrow> bool \<times> go_error option"
  shows "retry_loop n (apsnd Suc) (\<lambda>(i, t). (Ok (c i), (Suc i, t))) e (i, t) =
    (if \<exists>k < n. fst (c (i + k))
     then let k = LEAST k. fst (c (i + k)) in (Ok (Inr ()), (i + Suc k, t + k))
     else (Ok (Inl (if n = 0 then e else snd (c (i + n - 1)))), (i + n, t + n)))"
proof (induction n arbitrary: e i t)
  case 0
  then show ?case by (simp add: ret_def)
next
  case (Suc n)
  show ?case
  proof (cases "fst (c i)")
    case True
    then obtain cur where ci: "c i = (True, cur)" by (cases "c i") simp
    then have "(LEAST k. fst (c (i + k))) = 0" by (intro Least_equality) simp_all
    moreover have "\<exists>k < Suc n. fst (c (i + k))" using True by (intro exI [of _ 0]) simp
    ultimately show ?thesis using ci by (simp add: bindE_def ret_def Let_def)
  next
    case False
    then have n0: "\<not> fst (c (i + 0))" by simp
    have ex: "(\<exists>k < Suc n. fst (c (i + k))) \<longleftrightarrow> (\<exists>k < n. fst (c (Suc i + k)))"
      using first_shift(1) [of "\<lambda>k. fst (c (i + k))", OF n0] by simp
    have least: "(LEAST k. fst (c (i + k))) = Suc (LEAST k. fst (c (Suc i + k)))" if "\<exists>k < n. fst (c (Suc i + k))"
      using first_shift(2) [of "\<lambda>k. fst (c (i + k))", OF n0] that by auto
    obtain b cur where ci: "c i = (b, cur)" by force
    with False have "retry_loop (Suc n) (apsnd Suc) (\<lambda>(i, t). (Ok (c i), (Suc i, t))) e (i, t) =
        retry_loop n (apsnd Suc) (\<lambda>(i, t). (Ok (c i), (Suc i, t))) cur (Suc i, Suc t)"
      by (simp add: bindE_def thenE_upd)
    also note Suc.IH
    finally show ?thesis
      using ex least ci by (cases n) (auto simp: Let_def)
  qed
qed

text \<open>
  C14: \<open>RetryFor\<close> makes the attempts it says. Attempts are numbered by the first counter of the state,
  waits by the second. If an attempt with a number below the maximum succeeds, the first such attempt
  is the last one made, after one wait for each earlier one; otherwise all the attempts are made, a
  wait after each, and the error is that of the last attempt, or says how many there were when that
  one gave none.
\<close>

lemma retry_for_attempts:
  fixes c :: "nat \<Rightarrow> bool \<times> go_error option"
  shows "RetryFor n (apsnd Suc) (\<lambda>(i, t). (Ok (c i), (Suc i, t))) (0, 0) =
    (if \<exists>k < n. fst (c k) then let k = LEAST k. fst (c k) in (Ok (), (Suc k, k))
     else (Err (case (if n = 0 then None else snd (c (n - 1))) of
             Some e \<Rightarrow> e | None \<Rightarrow> Errorf ''failed after %d attempts'' [show_nat n]), (n, n)))"
  using retry_loop_steps [of n c None 0 0]
  by (auto simp: RetryFor_def bindE_def ret_def fail_def Let_def split: option.splits)

subsection \<open>Waiting for a namespace\<close>

lemma inv_thenE:
  "I (snd (m s)) \<Longrightarrow> (\<And>s. I s \<Longrightarrow> I (snd (k s))) \<Longrightarrow> I (snd (thenE m k s))"
  by (cases "m s"; cases "fst (m s)") (auto simp: thenE_def bindE_def)

text \<open>The closure holds its client exactly when its flag says so.\<close>

definition holds_client :: "resource list \<Rightarrow> 'z net_world_scheme \<times> bool \<Rightarrow> bool" where
  "holds_client st s = (held (fst s) = Some (if snd s then RClient # st else st))"

lemma holds_on_fst:
  assumes "balanced m" "holds_client st s"
  shows "holds_client st (snd (on_fst m s))"
proof -
  obtain w c where s: "s = (w, c)" by force
  obtain r w' where m: "m w = (r, w')" by force
  from assms balancedD [OF assms(1) _ m] s m show ?thesis
    by (simp add: holds_client_def on_fst_def)
qed

lemma balanced_describe:
  "balanced (bindE (attempt (act (ADescribeExecution a b))) (\<lambda>r. ret (f r)))"
  by (intro balanced_intros) simp_all

lemma holds_namespace_step: "holds_client st s \<Longrightarrow> holds_client st (snd (namespace_step h n t s))"
proof -
  assume I: "holds_client st s"
  obtain w c where s: "s = (w, c)" by force
  show ?thesis
  proof (cases c)
    case True
    with s I holds_on_fst [OF balanced_describe] show ?thesis
      by (simp add: namespace_step_def describe_step_def)
  next
    case False
    then have st: "held w = Some st" using I s by (simp add: holds_client_def)
    have a: "acquires (ADial h n t) = Some RClient" by simp
    obtain r w' where d: "act (ADial h n t) w = (r, w')" by force
    have np: "r \<noteq> Panic e" for e using d by (auto simp: act_def Let_def split: option.splits)
    show ?thesis
    proof (cases r)
      case (Ok x)
      then have "holds_client st (w', True)" using held_act [OF st a] d by (simp add: holds_client_def)
      from holds_on_fst [OF balanced_describe this] show ?thesis
        using False s d Ok by (simp add: namespace_step_def describe_step_def)
    next
      case (Err e)
      then have "holds_client st (w', False)" using held_act [OF st a] d by (simp add: holds_client_def)
      then show ?thesis using False s d Err by (simp add: namespace_step_def)
    qed (use np in simp)
  qed
qed

lemma held_sleep: "held w = Some st \<Longrightarrow> held (act_ignore (ASleep t) w) = Some st"
  by (rule held_neutral) simp_all

lemma balanced_confirm: "balanced confirm_namespace"
proof -
  have d: "balanced (dummy_step tq)" for tq
    unfolding dummy_step_def by (intro balanced_intros) simp_all
  have r: "balanced (RetryFor 600 (act_ignore (ASleep 1000)) (dummy_step tq))" for tq
    using d held_sleep by (rule balanced_RetryFor)
  show ?thesis
    unfolding confirm_namespace_def Let_def
    by (rule balanced_bindE [OF balanced_os(11)], rule balanced_bracket(2), simp, simp, simp,
        rule balanced_wrapE, rule r)
qed

lemma WaitNamespaceAvailable_held:
  assumes "held w = Some st"
  shows "held (snd (WaitNamespaceAvailable host ns c k ca sn w)) = Some st"
proof -
  obtain r w1 where tls: "LoadTLSConfig c k ca sn w = (r, w1)" by force
  then have w1: "w1 = w" using LoadTLSConfig_state [of c k ca sn w] by simp
  show ?thesis
  proof (cases r)
    case (Ok t)
    let ?sleep = "\<lambda>(w, c). (act_ignore (ASleep 100) w, c)"
    let ?retry = "wrapE ''failed connecting / describing namespace after 5s, last error: %w'' []
        (RetryFor 600 ?sleep (namespace_step host ns t))"
    let ?more = "\<lambda>(w, c). if LookupEnv ''WAIT_EXTRA_FOR_NAMESPACE'' w = None then ret () (w, c) else on_fst confirm_namespace (w, c)"
    have "holds_client st (w, False)" using assms by (simp add: holds_client_def)
    moreover have "holds_client st s \<Longrightarrow> holds_client st (?sleep s)" for s
      by (cases s) (simp add: holds_client_def held_sleep)
    ultimately have "holds_client st (snd (RetryFor 600 ?sleep (namespace_step host ns t) (w, False)))"
      by (intro RetryFor_inv [where I = "holds_client st"] holds_namespace_step)
    then have "holds_client st (snd (?retry (w, False)))"
      by (auto simp: wrapE_def split: prod.splits res.splits)
    moreover have "holds_client st (snd (?more s))" if "holds_client st s" for s
      using that holds_on_fst [OF balanced_confirm that] by (cases s) (simp add: ret_def)
    ultimately have "holds_client st (snd (thenE ?retry ?more (w, False)))"
      by (rule inv_thenE)
    then show ?thesis
      using tls Ok w1 held_act_ignore [of _ "RClient # st" ACloseClient RClient]
      by (auto simp: WaitNamespaceAvailable_def bindE_def deferE_def holds_client_def release_def split: prod.splits if_splits)
  qed (use tls w1 assms in \<open>simp_all add: WaitNamespaceAvailable_def bindE_def\<close>)
qed

lemma balanced_WaitNamespaceAvailable [balanced_intros]: "balanced (WaitNamespaceAvailable host ns c k ca sn)"
  by (rule balancedI) (rule WaitNamespaceAvailable_held)

text \<open>An observation that does not see the trace and the UUIDs is kept by the wait.\<close>

lemma keeps_WaitNamespaceAvailable:
  assumes "\<And>w t. f (w\<lparr>n_trace := t\<rparr>) = f w" "\<And>w n. f (w\<lparr>w_uuids := n\<rparr>) = f w"
  shows "keeps f (WaitNamespaceAvailable host ns c k ca sn)"
proof (rule keepsI)
  fix w :: "'a net_world_scheme"
  have ig [simp]: "f (act_ignore a w) = f w" for a and w by (simp add: act_ignore_def assms(1))
  note act = keeps_act [where f = f, OF assms(1)]
  have uuid: "keeps f (new_uuid :: ('a net_world_scheme, string) io)" by (simp add: keeps_def new_uuid_def assms(2))
  have on: "f (fst (snd (on_fst m s))) = f (fst s)" if "keeps f m" for m :: "('a net_world_scheme, 'x) io" and s
    using that by (cases s) (auto simp: on_fst_def keeps_def split: prod.splits, metis snd_conv)
  have desc: "f (fst (snd (describe_step s))) = f (fst s)" for s
    unfolding describe_step_def by (rule on) (intro keeps_intros act)
  have dummy: "keeps f (dummy_step tq)" for tq
    unfolding dummy_step_def by (intro keeps_intros act uuid)
  have retry: "keeps f (RetryFor 600 (act_ignore (ASleep 1000)) (dummy_step tq))" for tq
  proof (rule keepsI)
    fix w
    show "f (snd (RetryFor 600 (act_ignore (ASleep 1000)) (dummy_step tq) w)) = f w"
      by (rule RetryFor_inv [where I = "\<lambda>v. f v = f w"]) (use dummy in \<open>simp_all add: keeps_def\<close>)
  qed
  have conf: "keeps f confirm_namespace"
    unfolding confirm_namespace_def Let_def by (intro keeps_intros uuid act retry) simp
  have step: "f (fst (snd (namespace_step host ns t s))) = f (fst s)" for t s
  proof -
    obtain v b where s: "s = (v, b)" by force
    obtain x v' where d: "act (ADial host ns t) v = (x, v')" by force
    have "f v' = f v" by (rule keepsD [OF act(1) d])
    then show ?thesis using s d desc by (cases x) (auto simp: namespace_step_def)
  qed
  let ?sleep = "\<lambda>(w, c). (act_ignore (ASleep 100) w, c)" and ?I = "\<lambda>s. f (fst s) = f w"
  let ?retry = "\<lambda>t. wrapE ''failed connecting / describing namespace after 5s, last error: %w'' []
      (RetryFor 600 ?sleep (namespace_step host ns t))"
  let ?more = "\<lambda>(w, c). if LookupEnv ''WAIT_EXTRA_FOR_NAMESPACE'' w = None then ret () (w, c) else on_fst confirm_namespace (w, c)"
  have 1: "?I (snd (?retry t (w, False)))" for t
  proof -
    have "?I (snd (RetryFor 600 ?sleep (namespace_step host ns t) (w, False)))"
      by (rule RetryFor_inv [where I = ?I]) (auto simp: step)
    then show ?thesis by (auto simp: wrapE_def split: prod.splits res.splits)
  qed
  have 2: "?I (snd (?more s))" if "?I s" for s
    using that on [OF conf, of s] by (cases s) (auto simp: ret_def)
  have body: "?I (snd (thenE (?retry t) ?more (w, False)))" for t
    by (rule inv_thenE [where I = ?I and m = "?retry t" and k = ?more]) (rule 1, rule 2)
  obtain r where tls: "LoadTLSConfig c k ca sn w = (r, w)"
    using LoadTLSConfig_state [of c k ca sn w] by (cases "LoadTLSConfig c k ca sn w") simp
  show "f (snd (WaitNamespaceAvailable host ns c k ca sn w)) = f w"
  proof (cases r)
    case (Ok t)
    obtain x v where "thenE (?retry t) ?more (w, False) = (x, v)" by (rule prod.exhaust)
    moreover obtain w2 b where "v = (w2, b)" by (rule prod.exhaust)
    ultimately show ?thesis using body [of t] tls Ok by (simp add: WaitNamespaceAvailable_def bindE_def deferE_def)
  qed (use tls in \<open>simp_all add: WaitNamespaceAvailable_def bindE_def\<close>)
qed

text \<open>
  Waiting for a namespace leaves nothing behind. Whatever the server answers to dialling, describing,
  starting the worker and running its workflow, the connection that was opened (at most one, by the
  first dial that succeeds) is closed and the worker that was started is stopped before it, so that the
  resources held afterwards are those held before.
\<close>

lemma wait_namespace_releases:
  assumes "held w = Some st"
  shows "held (snd (WaitNamespaceAvailable host ns c k ca sn w)) = Some st"
  using assms by (rule WaitNamespaceAvailable_held)

subsection \<open>Polling\<close>

lemma FindEvent_found: "FindEvent h cond = Ok (Some ev) \<Longrightarrow> cond ev \<and> Ok ev \<in> set h"
  by (induction h cond rule: FindEvent.induct) (auto split: if_splits)

lemma FindEvent_Panic: "FindEvent h cond = Panic e \<Longrightarrow> Panic e \<in> set h"
  by (induction h cond rule: FindEvent.induct) (auto split: if_splits)

definition found_in :: "gval res list \<Rightarrow> (gval \<Rightarrow> bool) \<Rightarrow> gval option" where
  "found_in h cond = (case FindEvent h cond of Ok x \<Rightarrow> x | _ \<Rightarrow> None)"

definition stop_error :: "select_event \<Rightarrow> go_error" where
  "stop_error s = (case s of CtxDone e \<Rightarrow> e | _ \<Rightarrow> Errorf ''timeout waiting for condition to be met'' [])"

lemma wait_ticks:
  assumes "\<And>i e. FindEvent (hist i) cond \<noteq> Panic e" and stop: "stop \<noteq> Ticked"
  shows "DoUntilEventually (wait_tick hist cond) (replicate k Ticked @ stop # rest) (n, None) =
    (if \<exists>i < k. found_in (hist (n + i)) cond \<noteq> None
     then let i = LEAST i. found_in (hist (n + i)) cond \<noteq> None in Some (Ok (), (Suc (n + i), found_in (hist (n + i)) cond))
     else Some (Err (stop_error stop), (n + k, None)))"
proof (induction k arbitrary: n)
  case 0
  show ?case using stop by (cases stop) (simp_all add: stop_error_def)
next
  case (Suc k)
  let ?P = "\<lambda>i. found_in (hist (n + i)) cond \<noteq> None"
  show ?case
  proof (cases "?P 0")
    case True
    then obtain ev where ev: "FindEvent (hist n) cond = Ok (Some ev)"
      by (auto simp: found_in_def split: res.splits)
    have "(LEAST i. ?P i) = 0" using True by (intro Least_equality) simp_all
    moreover have "\<exists>i < Suc k. ?P i" using True by (intro exI [of _ 0]) simp
    ultimately show ?thesis using ev by (simp add: wait_tick_def Let_def found_in_def)
  next
    case False
    then have "wait_tick hist cond (n, None) = (Ok False, (Suc n, None))"
      using assms(1) [of n] by (auto simp: wait_tick_def found_in_def split: res.splits option.splits)
    then have "DoUntilEventually (wait_tick hist cond) (replicate (Suc k) Ticked @ stop # rest) (n, None) =
        DoUntilEventually (wait_tick hist cond) (replicate k Ticked @ stop # rest) (Suc n, None)" by simp
    also note Suc.IH
    finally have run: "DoUntilEventually (wait_tick hist cond) (replicate (Suc k) Ticked @ stop # rest) (n, None) =
      (if \<exists>i < k. ?P (Suc i)
       then let i = LEAST i. ?P (Suc i) in Some (Ok (), (Suc (n + Suc i), found_in (hist (n + Suc i)) cond))
       else Some (Err (stop_error stop), (n + Suc k, None)))" by (simp only: add_Suc_shift)
    show ?thesis
    proof (cases "\<exists>i < k. ?P (Suc i)")
      case True
      then obtain i where "?P (Suc i)" by blast
      from first_shift(2) [of ?P, OF False this] first_shift(1) [of ?P, OF False, of k] True
      show ?thesis unfolding run by (simp add: Let_def del: add_Suc_right)
    next
      case nf: False
      then have "\<not> (\<exists>i < Suc k. ?P i)" using first_shift(1) [of ?P, OF False, of k] by blast
      then show ?thesis unfolding run if_not_P [OF nf] by (simp only: if_False)
    qed
  qed
qed

text \<open>
  A wait for an event returns an event that is there. If the history as it is at one of the ticks
  before the end of the wait has an event that meets the condition, the wait ends at the first such
  tick with that history's first such event; otherwise it ends with the error of what ended it, and no
  event. (Reading the history may fail at any tick, but not panic.)
\<close>

lemma wait_for_event:
  assumes "\<forall>n e. Panic e \<notin> set (hist n)" and "stop \<noteq> Ticked"
  shows "WaitForEvent hist cond (replicate k Ticked @ stop # rest) =
    (if \<exists>i < k. found_in (hist i) cond \<noteq> None
     then Some (found_in (hist (LEAST i. found_in (hist i) cond \<noteq> None)) cond, Ok ())
     else Some (None, Err (stop_error stop))) \<and>
    (\<forall>i ev. found_in (hist i) cond = Some ev \<longrightarrow> cond ev \<and> Ok ev \<in> set (hist i))"
proof -
  have "FindEvent (hist i) cond \<noteq> Panic e" for i e
    using assms(1) FindEvent_Panic by blast
  from wait_ticks [of hist cond, OF this assms(2), of k rest 0] show ?thesis
    by (auto simp: WaitForEvent_def Let_def found_in_def split: res.splits dest: FindEvent_found)
qed

lemma retry_all_fail:
  assumes "\<forall>i. x_answer w i (ADial h ns t) \<noteq> None"
  shows "retry_loop n (\<lambda>(w, c). (act_ignore (ASleep 100) w, c)) (namespace_step h ns t) e (w, False) =
    (Ok (Inl (if n = 0 then e else x_answer w (length (n_trace w) + 2 * (n - 1)) (ADial h ns t))),
     (w\<lparr>n_trace := n_trace w @ concat (replicate n [ADial h ns t, ASleep 100])\<rparr>, False))"
  using assms
proof (induction n arbitrary: e w)
  case 0
  then show ?case by (simp add: ret_def)
next
  case (Suc n)
  let ?a = "ADial h ns t"
  let ?w = "w\<lparr>n_trace := n_trace w @ [?a, ASleep 100]\<rparr>"
  from Suc.prems obtain e1 where e1: "x_answer w (length (n_trace w)) ?a = Some e1" by blast
  then have "retry_loop (Suc n) (\<lambda>(w, c). (act_ignore (ASleep 100) w, c)) (namespace_step h ns t) e (w, False) =
      retry_loop n (\<lambda>(w, c). (act_ignore (ASleep 100) w, c)) (namespace_step h ns t) (Some e1) (?w, False)"
    by (simp add: bindE_def namespace_step_def act_def Let_def act_ignore_def)
  also have "\<dots> = (Ok (Inl (if n = 0 then Some e1 else x_answer ?w (length (n_trace ?w) + 2 * (n - 1)) ?a)),
     (?w\<lparr>n_trace := n_trace ?w @ concat (replicate n [?a, ASleep 100])\<rparr>, False))"
    using Suc.IH [of ?w "Some e1"] Suc.prems by simp
  finally show ?case using e1 by (cases n) simp_all
qed

text \<open>
  C16: a namespace that never answers is given up after a minute, although the error speaks of five
  seconds: when no dial succeeds, the wait makes 600 dials with a pause of 100 ms after each, and fails
  with the error of the last dial, wrapped in the text \<open>after 5s\<close>.
\<close>

lemma wait_namespace_gives_up:
  assumes "\<forall>i. x_answer w i (ADial host ns None) = Some e"
  shows "WaitNamespaceAvailable host ns [] [] ca sn w =
    (Err (Wrapf ''failed connecting / describing namespace after 5s, last error: %w'' [] e),
     w\<lparr>n_trace := n_trace w @ concat (replicate 600 [ADial host ns None, ASleep 100])\<rparr>)"
  using retry_all_fail [of w host ns None 600 None] assms
  by (simp add: WaitNamespaceAvailable_def LoadTLSConfig_def ret_def bindE_def deferE_def thenE_def wrapE_def
      RetryFor_def fail_def)

end
