(* ===== verification/Registry.thy ===== *)
theory Registry
  imports Harness_Util
begin

text \<open>
  Features as the Go harness knows them (\<open>harness/go/harness/feature.go\<close>): what a feature declares, how it
  is prepared (its workflows, activities and services as slices, its directory from the file its first
  workflow is declared in), the global registry, and the commands for subprocesses, with the dispatch
  of \<open>harness/go/cmd/cmd.go\<close> that they reach. Values of type \<open>interface{}\<close> are the dynamic values the
  code tells apart by reflection or by a type switch.
\<close>

section \<open>Values\<close>

text \<open>
  A function carries its name and the file it is declared in; the options of a workflow or an activity
  are their names.
\<close>

datatype rvalue =
    RNil
  | RFunc string string
  | RSlice "rvalue list"
  | RWorkflowWithOptions rvalue string
  | RActivityWithOptions rvalue string
  | RService string
  | ROther string

text \<open>The verb \<open>%T\<close>.\<close>

fun type_name :: "rvalue \<Rightarrow> string" where
  "type_name RNil = ''<nil>''"
| "type_name (RFunc n f) = ''func''"
| "type_name (RSlice vs) = ''[]interface {}''"
| "type_name (RWorkflowWithOptions w n) = ''harness.WorkflowWithOptions''"
| "type_name (RActivityWithOptions a n) = ''harness.ActivityWithOptions''"
| "type_name (RService n) = ''*nexus.Service''"
| "type_name (ROther t) = t"

section \<open>Features\<close>

record RunnerConfig =
  hc_ServerHostPort :: string
  hc_Namespace :: string
  hc_TaskQueue :: string
  hc_NexusEndpoint :: string
  hc_ClientCertPath :: string
  hc_ClientKeyPath :: string
  hc_CACertPath :: string
  hc_Log :: "string option"
  hc_HTTPProxyURL :: string
  hc_TLSServerName :: string

record client_options =
  co_HostPort :: string
  co_Namespace :: string
  co_Logger :: "string option"
  co_TLS :: "tls_config option"
  co_DataConverter :: string

datatype panic_policy = BlockWorkflow | FailWorkflow

record start_options =
  so_ID :: string
  so_TaskQueue :: string
  so_WorkflowExecutionTimeout :: nat

record workflow_run =
  wr_ID :: string
  wr_RunID :: string

text \<open>
  The hooks of a feature see the configuration of their runner and work on its state; \<open>None\<close> is a nil
  function.
\<close>

record 'w Feature =
  fd_Workflows :: rvalue
  fd_Activities :: rvalue
  fd_NexusServices :: rvalue
  fd_ExpectActivityError :: string
  fd_ExpectRunResult :: "gval option"
  fd_ClientOptions :: client_options
  fd_PanicPolicy :: panic_policy
  fd_StartWorkflowOptionsMutator :: "(start_options \<Rightarrow> start_options) option"
  fd_DisableWorkflowPanicPolicyOverride :: bool
  fd_Execute :: "(RunnerConfig \<Rightarrow> ('w, workflow_run option) io) option"
  fd_CheckResult :: "(RunnerConfig \<Rightarrow> workflow_run \<Rightarrow> ('w, unit) io) option"
  fd_CheckHistory :: "(RunnerConfig \<Rightarrow> workflow_run \<Rightarrow> ('w, unit) io) option"
  fd_SkipReason :: string

record 'w PreparedFeature =
  pf_Feature :: "'w Feature"
  pf_Dir :: string
  pf_AbsDir :: string
  pf_Workflows :: "rvalue list"
  pf_Activities :: "rvalue list"
  pf_NexusServices :: "string list"

definition no_options :: client_options where
  "no_options = \<lparr>co_HostPort = [], co_Namespace = [], co_Logger = None, co_TLS = None, co_DataConverter = []\<rparr>"

definition zero_feature :: "'w Feature" where
  "zero_feature = \<lparr>fd_Workflows = RNil, fd_Activities = RNil, fd_NexusServices = RNil, fd_ExpectActivityError = [],
     fd_ExpectRunResult = None, fd_ClientOptions = no_options, fd_PanicPolicy = BlockWorkflow,
     fd_StartWorkflowOptionsMutator = None, fd_DisableWorkflowPanicPolicyOverride = False, fd_Execute = None,
     fd_CheckResult = None, fd_CheckHistory = None, fd_SkipReason = []\<rparr>"

section \<open>Preparing a feature\<close>

definition rawToSlice :: "rvalue \<Rightarrow> rvalue list" where
  "rawToSlice v = (case v of RNil \<Rightarrow> [] | RSlice vs \<Rightarrow> vs | _ \<Rightarrow> [v])"

text \<open>The first workflow and the name its options give it.\<close>

definition GetPrimaryWorkflow :: "'w PreparedFeature \<Rightarrow> (rvalue \<times> string) res" where
  "GetPrimaryWorkflow p =
     (case pf_Workflows p of
        [] \<Rightarrow> Err (Errorf ''feature missing workflow'' [])
      | RWorkflowWithOptions w n # _ \<Rightarrow> Ok (w, n)
      | w # _ \<Rightarrow> Ok (w, []))"

text \<open>
  The index of the last \<open>features\<close> from the first one on, -1 without any: the inner loop runs to the
  end of the pieces, the outer one stops at its first hit.
\<close>

fun inner_features :: "int \<Rightarrow> string list \<Rightarrow> int \<Rightarrow> int" where
  "inner_features j [] idx = idx"
| "inner_features j (p # ps) idx = inner_features (j + 1) ps (if p = ''features'' then j else idx)"

fun outer_features :: "int \<Rightarrow> string list \<Rightarrow> int" where
  "outer_features i [] = - 1"
| "outer_features i (p # ps) = (if p = ''features'' then inner_features i (p # ps) (- 1) else outer_features (i + 1) ps)"

definition featureDirFromFuncPointer :: "rvalue \<Rightarrow> (string \<times> string) res" where
  "featureDirFromFuncPointer v =
     (case v of
        RFunc name file \<Rightarrow>
          let absDir = DirOf file; dirPieces = Split slash absDir; featuresIndex = outer_features 0 dirPieces in
          if featuresIndex < 0 then Err (Errorf ''workflow %T is not in a subdirectory of features'' [type_name v])
          else Ok (PathJoin (drop (nat (featuresIndex + 1)) dirPieces), absDir)
      | _ \<Rightarrow> Err (Errorf ''first workflow %T is not a function'' [type_name v]))"

fun nexus_services :: "rvalue list \<Rightarrow> string list res" where
  "nexus_services [] = Ok []"
| "nexus_services (RService n # vs) =
     (case nexus_services vs of Ok ns \<Rightarrow> Ok (n # ns) | Err e \<Rightarrow> Err e | Panic e \<Rightarrow> Panic e)"
| "nexus_services (v # vs) = Err (Errorf ''nexus service must be *nexus.Service, got %T'' [type_name v])"

definition PrepareFeature :: "'w Feature \<Rightarrow> 'w PreparedFeature res" where
  "PrepareFeature feature =
     (case nexus_services (rawToSlice (fd_NexusServices feature)) of
        Err e \<Rightarrow> Err e
      | Panic e \<Rightarrow> Panic e
      | Ok svcs \<Rightarrow>
          let p = \<lparr>pf_Feature = feature, pf_Dir = [], pf_AbsDir = [], pf_Workflows = rawToSlice (fd_Workflows feature),
                   pf_Activities = rawToSlice (fd_Activities feature), pf_NexusServices = svcs\<rparr> in
          if fd_SkipReason feature \<noteq> [] then Ok p
          else (case GetPrimaryWorkflow p of
              Err e \<Rightarrow> Err e
            | Panic e \<Rightarrow> Panic e
            | Ok (w, _) \<Rightarrow>
                (case featureDirFromFuncPointer w of
                   Err e \<Rightarrow> Err e
                 | Panic e \<Rightarrow> Panic e
                 | Ok (dir, absDir) \<Rightarrow> Ok (p\<lparr>pf_Dir := dir, pf_AbsDir := absDir\<rparr>))))"

section \<open>The registry\<close>

record 'w registry =
  g_Features :: "'w PreparedFeature list"
  g_Commands :: "string list"

definition MustRegisterFeatures :: "'w Feature list \<Rightarrow> ('w registry, unit) io" where
  "MustRegisterFeatures features = for_each (\<lambda>feature.
     (case PrepareFeature feature of
        Ok p \<Rightarrow> upd (\<lambda>g. g\<lparr>g_Features := g_Features g @ [p]\<rparr>)
      | Err e \<Rightarrow> panic e
      | Panic e \<Rightarrow> panic e)) features"

definition RegisteredFeatures :: "'w registry \<Rightarrow> 'w PreparedFeature list" where
  "RegisteredFeatures g = g_Features g"

definition MustRegisterSubprocessCommand :: "string \<Rightarrow> 'w registry \<Rightarrow> 'w registry" where
  "MustRegisterSubprocessCommand c g = g\<lparr>g_Commands := g_Commands g @ [c]\<rparr>"

definition GetRegisteredSubprocessCommands :: "'w registry \<Rightarrow> string list" where
  "GetRegisteredSubprocessCommands g = g_Commands g"

definition NoHistoryCheck :: "RunnerConfig \<Rightarrow> workflow_run \<Rightarrow> ('w, unit) io" where
  "NoHistoryCheck c run = ret ()"

definition CreateSubprocessCommand :: "string res \<Rightarrow> string \<Rightarrow> string list \<Rightarrow> command res" where
  "CreateSubprocessCommand executable name as =
     (case executable of
        Err e \<Rightarrow> Err (Wrapf ''cannot get current executable: %w'' [] e)
      | Panic e \<Rightarrow> Panic e
      | Ok exe \<Rightarrow> Ok ((Command exe ([''go-subprocess'', name] @ as))\<lparr>c_stdout := Some Inherited, c_stderr := Some Inherited\<rparr>))"

text \<open>
  \<open>Execute\<close>: whether the arguments of the process (its own name first) select the subprocess app, and
  the arguments that app is given.
\<close>

definition dispatch :: "string list \<Rightarrow> bool \<times> string list" where
  "dispatch args =
     (if length args > 1 \<and> args ! 1 = ''go-subprocess'' then (True, args ! 0 # drop 2 args) else (False, args))"

section \<open>Lemmas\<close>

lemma inner_features_append:
  "inner_features j (as @ bs) idx = inner_features (j + int (length as)) bs (inner_features j as idx)"
  by (induction as arbitrary: j idx) (simp_all add: algebra_simps)

lemma inner_features_free: "''features'' \<notin> set ps \<Longrightarrow> inner_features j ps idx = idx"
  by (induction ps arbitrary: j) auto

lemma outer_features_split:
  assumes "''features'' \<notin> set ds"
  shows "outer_features i (rs @ ''features'' # ds) = i + int (length rs)"
proof (induction rs arbitrary: i)
  case Nil
  show ?case using assms by (simp add: inner_features_free)
next
  case (Cons r rs)
  show ?case
  proof (cases "r = ''features''")
    case True
    then show ?thesis using assms
      by (simp add: inner_features_append inner_features_free)
  next
    case False
    then show ?thesis using Cons by simp
  qed
qed

lemma Split_rooted:
  assumes "list_all ordinary cs" "cs \<noteq> []"
  shows "Split slash (slash # Join cs ''/'') = [] # cs"
proof -
  have "Split slash (Join cs ''/'') = cs"
    using assms by (intro Split_Join) (auto simp: ordinary_def list_all_iff)
  then show ?thesis by simp
qed

lemma DirOf_rooted:
  assumes "list_all ordinary cs" "cs \<noteq> []" "ordinary n"
  shows "DirOf (slash # Join (cs @ [n]) ''/'') = slash # Join cs ''/''"
  using DirOf_sub [OF clean_abs_JoinI [OF assms(2,1)] assms(3)] Join_snoc [OF assms(2), of n "''/''"] by simp

lemma PathJoin_ordinary:
  assumes "list_all ordinary ds" "ds \<noteq> []"
  shows "PathJoin ds = Join ds ''/''"
proof -
  obtain d ds' where ds: "ds = d # ds'" using assms(2) by (cases ds) auto
  have ne: "Join ds ''/'' \<noteq> []" "\<not> HasPrefix (Join ds ''/'') ''/''"
    using assms(1) unfolding ds by (cases ds'; cases d; auto simp: ordinary_def)+
  have "Split slash (Join ds ''/'') = ds"
    using assms by (intro Split_Join) (auto simp: ordinary_def list_all_iff)
  then have "path_comps (Join ds ''/'') = ds"
    using assms(1) by (simp add: path_comps_def filter_id_conv) (auto simp: ordinary_def list_all_iff)
  then have "Clean (Join ds ''/'') = Join ds ''/''"
    using ne assms by (simp add: Clean_def Let_def clean_comps_def foldl_clean_ordinary)
  moreover have "dropWhile (\<lambda>e. e = []) ds = ds" using assms(1) by (simp add: ds ordinary_def)
  ultimately show ?thesis by (simp add: PathJoin_def ds)
qed

lemma strip_common_prefix: "strip_common as (as @ bs) = ([], bs)"
  by (induction as) simp_all

lemma Rel_below:
  assumes "list_all ordinary (rs @ ds)" "rs \<noteq> []" "ds \<noteq> []"
  shows "Rel (slash # Join rs ''/'') (slash # Join (rs @ ds) ''/'') = Ok (Join ds ''/'')"
proof -
  let ?b = "slash # Join rs ''/''" and ?t = "slash # Join (rs @ ds) ''/''"
  have o: "list_all ordinary rs" using assms(1) by simp
  have pc: "path_comps ?b = rs" "path_comps ?t = rs @ ds"
    by (rule path_comps_Join, rule o) (rule path_comps_Join, rule assms(1))
  then have "?t \<noteq> ?b" using assms(3) by (metis append_self_conv)
  moreover have "Clean ?b = ?b" "Clean ?t = ?t" using Clean_rooted [OF o] Clean_rooted [OF assms(1)] by auto
  ultimately show ?thesis using pc by (simp add: Rel_def Let_def strip_common_prefix)
qed

section \<open>Properties\<close>

text \<open>
  C12: the runner and the harness call a feature by the same directory. For a feature file in a
  directory below \<open>features\<close> of the repository, in whose path no further directory is called
  \<open>features\<close>, the name \<open>GlobFeatures\<close> gives the feature (the path relative to the directory
  \<open>features\<close>) is the \<open>Dir\<close> that \<open>PrepareFeature\<close> derives from the file its first workflow is declared
  in, so the harness finds what the runner passes. If the feature has a skip reason it is not: its
  \<open>Dir\<close> is left empty.
\<close>

theorem feature_dirs_agree:
  assumes "list_all ordinary (rs @ ''features'' # ds @ [n])" "ds \<noteq> []" "''features'' \<notin> set ds"
    and "fd_Workflows f = RFunc w (slash # Join (rs @ ''features'' # ds @ [n]) ''/'')" "fd_NexusServices f = RNil"
  shows "Rel (slash # Join (rs @ [''features'']) ''/'') (DirOf (slash # Join (rs @ ''features'' # ds @ [n]) ''/'')) =
      Ok (Join ds ''/'') \<and>
    (\<exists>p. PrepareFeature f = Ok p \<and> pf_Workflows p = [fd_Workflows f] \<and>
       (if fd_SkipReason f = []
        then pf_Dir p = Join ds ''/'' \<and> pf_AbsDir p = slash # Join (rs @ ''features'' # ds) ''/''
        else pf_Dir p = []))"
proof -
  let ?file = "slash # Join (rs @ ''features'' # ds @ [n]) ''/''" and ?dir = "slash # Join (rs @ ''features'' # ds) ''/''"
  have o: "list_all ordinary (rs @ ''features'' # ds)" "ordinary n" "list_all ordinary ds"
    using assms(1) by simp_all
  have d: "DirOf ?file = ?dir" using DirOf_rooted [OF o(1) _ o(2)] by simp
  have "Split slash ?dir = [] # rs @ ''features'' # ds" by (rule Split_rooted [OF o(1)]) simp
  moreover have "outer_features 0 ([] # rs @ ''features'' # ds) = int (Suc (length rs))"
    using outer_features_split [OF assms(3), of 0 "[] # rs"] by simp
  ultimately have fd: "featureDirFromFuncPointer (RFunc w ?file) = Ok (Join ds ''/'', ?dir)"
    using PathJoin_ordinary [OF o(3) assms(2)] by (simp add: featureDirFromFuncPointer_def Let_def d nat_add_distrib)
  have r: "Rel (slash # Join (rs @ [''features'']) ''/'') (DirOf ?file) = Ok (Join ds ''/'')"
    using Rel_below [of "rs @ [''features'']" ds] o assms(2) by (simp add: d)
  show ?thesis
    using r fd assms(4,5) by (auto simp: PrepareFeature_def rawToSlice_def GetPrimaryWorkflow_def Let_def)
qed

theorem feature_dirs_agree_witness:
  "\<exists>p. PrepareFeature (zero_feature\<lparr>fd_Workflows := RFunc ''W'' ''/r/features/a/b/feature.go''\<rparr> :: unit Feature) = Ok p \<and>
     pf_Dir p = ''a/b''"
  using feature_dirs_agree [of "[''r'']" "[''a'', ''b'']" "''feature.go''"
      "zero_feature\<lparr>fd_Workflows := RFunc ''W'' ''/r/features/a/b/feature.go''\<rparr> :: unit Feature" "''W''"]
  by (auto simp: ordinary_def zero_feature_def)

text \<open>
  A subprocess command reaches the subcommand it names. A process started with the command that
  \<open>CreateSubprocessCommand\<close> makes selects the subprocess app, which gets the name and the arguments it
  was made for; no other command line does.
\<close>

lemma subprocess_dispatch:
  "(case CreateSubprocessCommand (Ok exe) name as of
      Ok c \<Rightarrow> dispatch (c_exe c # c_args c) = (True, exe # name # as)
    | _ \<Rightarrow> False) \<and>
   (fst (dispatch args) \<longleftrightarrow> (\<exists>e r. args = e # ''go-subprocess'' # r)) \<and>
   (\<not> fst (dispatch args) \<longrightarrow> snd (dispatch args) = args)"
proof (intro conjI)
  show "fst (dispatch args) \<longleftrightarrow> (\<exists>e r. args = e # ''go-subprocess'' # r)"
    by (cases args; cases "tl args") (auto simp: dispatch_def)
qed (simp_all add: CreateSubprocessCommand_def dispatch_def Command_def)

end
