(* ===== verification/Fetcher.thy ===== *)
theory Fetcher
  imports History
begin

text \<open>
  Fetching the histories of a feature from the server (\<open>harness/go/history/fetcher.go\<close>). The client is a
  record of functions of the number of calls made so far: the pages \<open>ListWorkflow\<close> answers, what
  \<open>time.Since(start)\<close> reads (in milliseconds), and the events and errors a history iterator yields. A
  loop that need not end has fuel, and \<open>None\<close> is the loop not having ended.
\<close>

section \<open>The client\<close>

record execution =
  e_WorkflowId :: string
  e_RunId :: string
  e_Type :: string
  e_Running :: bool

record list_request =
  l_Namespace :: string
  l_PageSize :: int
  l_NextPageToken :: string
  l_Query :: string

record fetch_client =
  k_list :: "nat \<Rightarrow> list_request \<Rightarrow> (execution list \<times> string) res"
  k_since :: "nat \<Rightarrow> int"
  k_history :: "string \<Rightarrow> string \<Rightarrow> gval res list"

record Fetcher =
  fe_Namespace :: string
  fe_TaskQueue :: string
  fe_Earliest :: string

section \<open>Listing executions\<close>

definition seen_key :: "execution \<Rightarrow> string" where
  "seen_key e = e_WorkflowId e @ ''_||_'' @ e_RunId e"

text \<open>The executions of a page that were not seen before.\<close>

fun add_new :: "execution list \<Rightarrow> execution list \<Rightarrow> execution list" where
  "add_new execs [] = execs"
| "add_new execs (e # es) =
     (if seen_key e \<in> seen_key ` set execs then add_new execs es else add_new (execs @ [e]) es)"

definition list_query :: "Fetcher \<Rightarrow> string" where
  "list_query f = Sprintf (''StartTime >= '' @ [squote] @ ''%s'' @ [squote] @ '' and TaskQueue = '' @ [squote] @ ''%s'' @ [squote])
     [fe_Earliest f, fe_TaskQueue f]"

definition page_request :: "Fetcher \<Rightarrow> string \<Rightarrow> list_request" where
  "page_request f token = \<lparr>l_Namespace = fe_Namespace f, l_PageSize = 1000, l_NextPageToken = token,
     l_Query = list_query f\<rparr>"

text \<open>The loop over the pages, from call number \<open>n\<close>; with the result, the number of calls made.\<close>

fun list_pages ::
  "nat \<Rightarrow> fetch_client \<Rightarrow> Fetcher \<Rightarrow> nat \<Rightarrow> string \<Rightarrow> execution list \<Rightarrow> (execution list res \<times> nat) option" where
  "list_pages 0 c f n token execs = None"
| "list_pages (Suc fuel) c f n token execs =
     (case k_list c n (page_request f token) of
        Err e \<Rightarrow> Some (Err (Wrapf ''failed listing workflows: %w'' [] e), Suc n)
      | Panic e \<Rightarrow> Some (Panic e, Suc n)
      | Ok (es, nxt) \<Rightarrow>
          let execs' = add_new execs es in
          if nxt = [] then Some (Ok execs', Suc n) else list_pages fuel c f (Suc n) nxt execs')"

definition GetExecutions ::
  "nat \<Rightarrow> fetch_client \<Rightarrow> Fetcher \<Rightarrow> nat \<Rightarrow> (execution list res \<times> nat) option" where
  "GetExecutions fuel c f n = list_pages fuel c f n [] []"

section \<open>Waiting\<close>

definition maxOpenWait :: int where
  "maxOpenWait = 5000"

definition still_running :: "execution list \<Rightarrow> string list" where
  "still_running execs =
     map (\<lambda>e. Sprintf ''%v (run: %v)'' [e_WorkflowId e, e_RunId e]) (filter e_Running execs)"

text \<open>
  Until nothing is running and something is there, or the time is over; \<open>i\<close> counts the readings of the
  clock. The executions of the last listing are the result.
\<close>

fun wait_closed ::
  "nat \<Rightarrow> nat \<Rightarrow> fetch_client \<Rightarrow> Fetcher \<Rightarrow> nat \<Rightarrow> nat \<Rightarrow> execution list \<Rightarrow> execution list res option" where
  "wait_closed 0 pfuel c f i n execs = None"
| "wait_closed (Suc fuel) pfuel c f i n execs =
     (if k_since c i \<ge> maxOpenWait then Some (Ok execs)
      else (case GetExecutions pfuel c f n of
          None \<Rightarrow> None
        | Some (Err e, n') \<Rightarrow> Some (Err e)
        | Some (Panic e, n') \<Rightarrow> Some (Panic e)
        | Some (Ok es, n') \<Rightarrow>
            if still_running es = [] \<and> es \<noteq> [] then Some (Ok es)
            else wait_closed fuel pfuel c f (Suc i) n' es))"

section \<open>Histories\<close>

fun collect_events :: "gval res list \<Rightarrow> gval list res" where
  "collect_events [] = Ok []"
| "collect_events (Ok ev # r) =
     (case collect_events r of Ok evs \<Rightarrow> Ok (ev # evs) | Err e \<Rightarrow> Err e | Panic e \<Rightarrow> Panic e)"
| "collect_events (Err e # r) = Err (Wrapf ''failed getting next history event: %w'' [] e)"
| "collect_events (Panic e # r) = Panic e"

definition new_history :: "gval list \<Rightarrow> gval" where
  "new_history evs = VPtr (VStruct ''history.History'' [(''Events'', VSlice evs)])"

fun collect_histories :: "fetch_client \<Rightarrow> execution list \<Rightarrow> Histories res" where
  "collect_histories c [] = Ok []"
| "collect_histories c (e # es) =
     (if e_Running e
      then Err (Errorf ''workflow %v (id %v, run id %v) is still running'' [e_Type e, e_WorkflowId e, e_RunId e])
      else (case collect_events (k_history c (e_WorkflowId e) (e_RunId e)) of
          Ok evs \<Rightarrow>
            (case collect_histories c es of
               Ok hs \<Rightarrow> Ok (new_history evs # hs) | Err e \<Rightarrow> Err e | Panic e \<Rightarrow> Panic e)
        | Err e \<Rightarrow> Err e
        | Panic e \<Rightarrow> Panic e))"

definition Fetch :: "nat \<Rightarrow> nat \<Rightarrow> fetch_client \<Rightarrow> Fetcher \<Rightarrow> Histories res option" where
  "Fetch fuel pfuel c f =
     (case wait_closed fuel pfuel c f 0 0 [] of
        None \<Rightarrow> None
      | Some (Err e) \<Rightarrow> Some (Err e)
      | Some (Panic e) \<Rightarrow> Some (Panic e)
      | Some (Ok execs) \<Rightarrow>
          let running = still_running execs in
          if running \<noteq> []
          then Some (Err (Errorf ''after %v, %v workflow(s) are still running: %v''
                 [''5s'', show_nat (length running), Join running '', '']))
          else if execs = [] then Some (Err (Errorf ''after %v, no workflow(s) found'' [''5s'']))
          else (case collect_histories c execs of
              Ok hs \<Rightarrow> Some (Sort hs) | Err e \<Rightarrow> Some (Err e) | Panic e \<Rightarrow> Some (Panic e)))"

section \<open>Lemmas\<close>

subsection \<open>Listing\<close>

lemma add_new_keys: "seen_key ` set (add_new execs es) = seen_key ` set execs \<union> seen_key ` set es"
  by (induction execs es rule: add_new.induct) auto

lemma add_new_subset: "set (add_new execs es) \<subseteq> set execs \<union> set es"
  by (induction execs es rule: add_new.induct) auto

lemma add_new_distinct: "distinct (map seen_key execs) \<Longrightarrow> distinct (map seen_key (add_new execs es))"
  by (induction execs es rule: add_new.induct) auto

text \<open>The pages a listing reads, when the server answers them without an error and ends.\<close>

inductive pages :: "fetch_client \<Rightarrow> Fetcher \<Rightarrow> nat \<Rightarrow> string \<Rightarrow> execution list list \<Rightarrow> bool" for c f where
  last_page: "k_list c n (page_request f token) = Ok (es, []) \<Longrightarrow> pages c f n token [es]"
| more_pages: "k_list c n (page_request f token) = Ok (es, nxt) \<Longrightarrow> nxt \<noteq> [] \<Longrightarrow> pages c f (Suc n) nxt ps
    \<Longrightarrow> pages c f n token (es # ps)"

inductive_cases pages_ConsE: "pages c f n token (es # ps)"

lemma list_pages_enough:
  "pages c f n token ps \<Longrightarrow> length ps \<le> fuel \<Longrightarrow>
     list_pages fuel c f n token execs = Some (Ok (foldl add_new execs ps), n + length ps)"
proof (induction arbitrary: fuel execs rule: pages.induct)
  case (last_page n token es)
  then show ?case by (cases fuel) simp_all
next
  case (more_pages n token es nxt ps)
  then show ?case by (cases fuel) (simp_all add: Let_def)
qed

lemma list_pages_Ok:
  "list_pages fuel c f n token execs = Some (Ok r, n') \<Longrightarrow>
     \<exists>ps. pages c f n token ps \<and> r = foldl add_new execs ps \<and> n' = n + length ps"
proof (induction fuel arbitrary: n token execs)
  case (Suc fuel)
  then obtain es nxt where p: "k_list c n (page_request f token) = Ok (es, nxt)"
    by (auto split: res.splits prod.splits)
  show ?case
  proof (cases "nxt = []")
    case True
    with Suc.prems p show ?thesis by (auto simp: Let_def intro!: exI [of _ "[es]"] last_page)
  next
    case False
    with Suc p obtain ps where "pages c f (Suc n) nxt ps" "r = foldl add_new (add_new execs es) ps" "n' = Suc n + length ps"
      using Suc.IH [of "Suc n" nxt "add_new execs es"] by (auto simp: Let_def)
    with p False show ?thesis by (intro exI [of _ "es # ps"]) (auto intro: more_pages)
  qed
qed simp

lemma fold_add_new:
  "seen_key ` set (foldl add_new execs ps) = seen_key ` set execs \<union> seen_key ` set (concat ps)"
  "set (foldl add_new execs ps) \<subseteq> set execs \<union> set (concat ps)"
  "distinct (map seen_key execs) \<Longrightarrow> distinct (map seen_key (foldl add_new execs ps))"
proof (induction ps arbitrary: execs)
  case (Cons p ps)
  { case 1 show ?case by (simp add: Cons add_new_keys Un_assoc image_Un) }
  { case 2 show ?case using Cons(2) [of "add_new execs p"] add_new_subset [of execs p] by auto }
  { case 3 then show ?case by (simp add: Cons add_new_distinct) }
qed simp_all

text \<open>
  A listing is complete and without repetition. Whenever \<open>GetExecutions\<close> succeeds, it has read the
  server's pages from the first to one without a next token, its executions have distinct workflow and
  run ids, every execution comes from a page, and every execution of every page is there under its
  ids; and it does succeed, with that result, as soon as the fuel is at least the number of pages.
\<close>

lemma executions_complete:
  "(\<forall>r n'. GetExecutions fuel c f n = Some (Ok r, n') \<longrightarrow>
     (\<exists>ps. pages c f n [] ps \<and> n' = n + length ps \<and> distinct (map seen_key r) \<and>
        set r \<subseteq> set (concat ps) \<and> seen_key ` set r = seen_key ` set (concat ps))) \<and>
   (\<forall>ps. pages c f n [] ps \<and> length ps \<le> fuel \<longrightarrow>
     (\<exists>r. GetExecutions fuel c f n = Some (Ok r, n + length ps)))"
proof (intro conjI allI impI)
  fix r n' assume "GetExecutions fuel c f n = Some (Ok r, n')"
  then obtain ps where "pages c f n [] ps" "r = foldl add_new [] ps" "n' = n + length ps"
    unfolding GetExecutions_def by (blast dest: list_pages_Ok)
  with fold_add_new [of "[]" ps]
  show "\<exists>ps. pages c f n [] ps \<and> n' = n + length ps \<and> distinct (map seen_key r) \<and>
        set r \<subseteq> set (concat ps) \<and> seen_key ` set r = seen_key ` set (concat ps)"
    by auto
next
  fix ps assume "pages c f n [] ps \<and> length ps \<le> fuel"
  then show "\<exists>r. GetExecutions fuel c f n = Some (Ok r, n + length ps)"
    using list_pages_enough [of c f n "[]" ps fuel "[]"] by (simp add: GetExecutions_def)
qed

text \<open>A server with two pages that share an execution, for concrete runs.\<close>

definition sample_execution :: "string \<Rightarrow> execution" where
  "sample_execution i = \<lparr>e_WorkflowId = i, e_RunId = ''r'', e_Type = ''wf'', e_Running = False\<rparr>"

definition sample_client :: fetch_client where
  "sample_client = \<lparr>
     k_list = (\<lambda>n r. if l_NextPageToken r = [] then Ok ([sample_execution ''a''], ''t'')
                     else Ok ([sample_execution ''a'', sample_execution ''b''], [])),
     k_since = (\<lambda>n. 1000 * int n),
     k_history = (\<lambda>i r. [Ok (hd (elements (getter ''Events'' (sample_history i ''me''))))])\<rparr>"

definition sample_fetcher :: Fetcher where
  "sample_fetcher = \<lparr>fe_Namespace = ''ns'', fe_TaskQueue = ''tq'', fe_Earliest = ''t0''\<rparr>"

subsection \<open>Waiting\<close>

lemma wait_closed_Ok:
  "wait_closed fuel pfuel c f i n execs = Some (Ok es) \<Longrightarrow>
     es = execs \<or> (\<exists>m m'. GetExecutions pfuel c f m = Some (Ok es, m'))"
proof (induction fuel arbitrary: i n execs)
  case (Suc fuel)
  show ?case
  proof (cases "k_since c i \<ge> maxOpenWait")
    case True
    with Suc.prems show ?thesis by simp
  next
    case False
    with Suc.prems obtain es' n' where g: "GetExecutions pfuel c f n = Some (Ok es', n')"
      by (auto split: option.splits prod.splits res.splits)
    show ?thesis
    proof (cases "still_running es' = [] \<and> es' \<noteq> []")
      case True
      with Suc.prems False g show ?thesis by auto
    next
      case nd: False
      with Suc.prems False g have "wait_closed fuel pfuel c f (Suc i) n' es' = Some (Ok es)" by simp
      from Suc.IH [OF this] g show ?thesis by blast
    qed
  qed
qed simp

lemma wait_closed_returns:
  assumes "\<forall>m. GetExecutions pfuel c f m \<noteq> None"
  shows "i \<le> k \<Longrightarrow> k_since c k \<ge> maxOpenWait \<Longrightarrow> k - i < fuel \<Longrightarrow> wait_closed fuel pfuel c f i n execs \<noteq> None"
proof (induction fuel arbitrary: i n execs)
  case (Suc fuel)
  show ?case
  proof (cases "k_since c i \<ge> maxOpenWait")
    case False
    with Suc.prems have "Suc i \<le> k" "k - Suc i < fuel" by (cases "i = k"; simp)+
    with Suc.IH Suc.prems(2) assms False show ?thesis
      by (auto split: option.splits prod.splits res.splits)
  qed simp
qed simp

subsection \<open>Collecting\<close>

lemma collect_histories_Ok:
  "collect_histories c es = Ok hs \<Longrightarrow>
     list_all2 (\<lambda>e h. \<not> e_Running e \<and> (\<exists>evs. k_history c (e_WorkflowId e) (e_RunId e) = map Ok evs \<and> h = new_history evs)) es hs"
proof (induction es arbitrary: hs)
  case (Cons e es)
  have events: "collect_events r = Ok evs \<Longrightarrow> r = map Ok evs" for r evs
    by (induction r arbitrary: evs rule: collect_events.induct) (auto split: res.splits)
  from Cons show ?case by (auto split: if_splits res.splits dest: events)
qed simp

lemma Sort_Ok: "Sort hs = Ok hs' \<Longrightarrow> hs' = sort_key name_or_empty hs"
  by (auto simp: Sort_def split: option.splits)

text \<open>
  C5: what \<open>Fetch\<close> returns is the complete histories of closed workflows. On success there is a listing
  of the server's pages, not empty, with distinct ids, in which no execution is running, such that the
  result consists of one history for each of its executions, with all the events the server has for
  it, ordered by workflow type. A workflow that still runs, an empty listing and an iterator error are
  errors, never a partial result.
\<close>

theorem fetch_histories:
  assumes "Fetch fuel pfuel c f = Some (Ok hs)"
  shows "\<exists>m ps execs hs0. pages c f m [] ps \<and> execs \<noteq> [] \<and> distinct (map seen_key execs) \<and>
    seen_key ` set execs = seen_key ` set (concat ps) \<and>
    list_all2 (\<lambda>e h. \<not> e_Running e \<and> (\<exists>evs. k_history c (e_WorkflowId e) (e_RunId e) = map Ok evs \<and> h = new_history evs)) execs hs0 \<and>
    hs = sort_key name_or_empty hs0"
proof -
  from assms obtain execs hs0 where e: "wait_closed fuel pfuel c f 0 0 [] = Some (Ok execs)" "execs \<noteq> []"
    "collect_histories c execs = Ok hs0" "Sort hs0 = Ok hs"
    by (auto simp: Fetch_def Let_def split: option.splits res.splits if_splits)
  from wait_closed_Ok [OF e(1)] e(2) obtain m m' where "GetExecutions pfuel c f m = Some (Ok execs, m')" by auto
  then obtain ps where "pages c f m [] ps" "execs = foldl add_new [] ps"
    unfolding GetExecutions_def by (blast dest: list_pages_Ok)
  with fold_add_new [of "[]" ps] e collect_histories_Ok [OF e(3)] Sort_Ok [OF e(4)] show ?thesis
    by (intro exI [of _ m] exI [of _ ps] exI [of _ execs] exI [of _ hs0]) auto
qed

theorem fetch_histories_witness:
  "\<exists>(execs :: execution list) hs0. execs \<noteq> [] \<and> list_all2 (\<lambda>e h. \<not> e_Running e) execs hs0 \<and>
     [sample_history ''a'' ''me'', sample_history ''b'' ''me''] = sort_key name_or_empty hs0"
proof -
  have "Fetch 1 2 sample_client sample_fetcher = Some (Ok [sample_history ''a'' ''me'', sample_history ''b'' ''me''])"
    by code_simp
  from fetch_histories [OF this] obtain execs :: "execution list" and hs0 where e: "execs \<noteq> []"
    "list_all2 (\<lambda>e h. \<not> e_Running e \<and> (\<exists>evs. k_history sample_client (e_WorkflowId e) (e_RunId e) = map Ok evs \<and> h = new_history evs)) execs hs0"
    "[sample_history ''a'' ''me'', sample_history ''b'' ''me''] = sort_key name_or_empty hs0"
    by (elim exE conjE) (rule that; assumption)
  have "list_all2 (\<lambda>e h. \<not> e_Running e) execs hs0"
    using e(2) by (rule list_all2_mono) (elim conjE)
  with e(1,3) show ?thesis by (intro exI conjI)
qed

text \<open>
  C6: \<open>Fetch\<close> returns. When every listing ends and the clock has passed the five seconds at its \<open>k\<close>-th
  reading, the waiting loop has ended after at most \<open>k + 1\<close> rounds, whatever the server answers.
\<close>

theorem fetch_returns:
  assumes "\<forall>m. GetExecutions pfuel c f m \<noteq> None" and "k_since c k \<ge> maxOpenWait"
  shows "Fetch (Suc k) pfuel c f \<noteq> None"
proof -
  have "wait_closed (Suc k) pfuel c f 0 0 [] \<noteq> None"
    by (rule wait_closed_returns [OF assms(1) _ assms(2)]) simp_all
  then obtain r where "wait_closed (Suc k) pfuel c f 0 0 [] = Some r" by blast
  then show ?thesis by (simp add: Fetch_def Let_def del: wait_closed.simps split: res.splits)
qed

theorem fetch_returns_witness:
  "Fetch (Suc 5) 2 sample_client sample_fetcher \<noteq> None"
proof (rule fetch_returns)
  have "pages sample_client sample_fetcher m [] [[sample_execution ''a''], [sample_execution ''a'', sample_execution ''b'']]" for m
    by (rule more_pages [where nxt = "''t''"] last_page; simp add: sample_client_def page_request_def)+
  then show "\<forall>m. GetExecutions 2 sample_client sample_fetcher m \<noteq> None"
    by (metis GetExecutions_def list_pages_enough option.distinct(1) length_Cons list.size(3) numeral_2_eq_2 order_refl)
qed (simp add: sample_client_def maxOpenWait_def)

end
