(* ===== verification/Harness_Runner.thy ===== *)
theory Harness_Runner
  imports Registry Fetcher
begin

text \<open>
  The runner of one feature in the Go harness (\<open>harness/go/harness/runner.go\<close>): creating it (client and
  worker), executing the feature, checking its result and its history, replaying histories, and
  closing. The runner's client, worker, registrations and last assertion error are fields of the state.
  The SDK's worker, replayer and data converter, the assertion library and \<open>semver\<close> are the record
  \<open>sdk_lib\<close> of parameters. What the code of a feature may do to its runner is the step relation \<open>lifecycle\<close>.
\<close>

section \<open>State\<close>

datatype registration =
    RegWorkflow rvalue
  | RegWorkflowWithOptions rvalue string
  | RegActivity rvalue
  | RegActivityWithOptions rvalue string
  | RegNexus string

text \<open>
  \<open>sl_register\<close> is the error a registration panics with, given the earlier ones; \<open>sl_decode\<close> converts
  the payload of a result, \<open>sl_zero\<close> is the zero value of the type of a value; \<open>sl_assert\<close> the text an
  assertion that failed leaves.
\<close>

record sdk_lib =
  sl_DefaultHostPort :: string
  sl_DefaultNamespace :: string
  sl_DefaultLogger :: string
  sl_now :: string
  sl_register :: "registration list \<Rightarrow> registration \<Rightarrow> go_error option"
  sl_decode :: "string \<Rightarrow> gval res"
  sl_zero :: "gval \<Rightarrow> gval"
  sl_equal :: "gval \<Rightarrow> gval \<Rightarrow> bool"
  sl_assert :: "string \<Rightarrow> string"
  sl_new_replayer :: "string \<Rightarrow> go_error option"
  sl_replay :: "registration list \<Rightarrow> gval \<Rightarrow> go_error option"
  sl_semver_Compare :: "string \<Rightarrow> string \<Rightarrow> int"
  sl_SDKVersion :: string

record harness_state = net_world +
  h_Client :: bool
  h_Worker :: bool
  h_Registered :: "registration list"
  h_LastAssertErr :: "go_error option"

record 'w Runner =
  rn_Config :: RunnerConfig
  rn_Feature :: "'w PreparedFeature"
  rn_CreateTime :: string

definition nil_func :: go_error where
  "nil_func = External OtherError ''runtime error: invalid memory address or nil pointer dereference''"

section \<open>Worker and client\<close>

definition StopWorker :: "'z harness_state_scheme \<Rightarrow> 'z harness_state_scheme" where
  "StopWorker s = (if h_Worker s then (act_ignore AStopWorker s)\<lparr>h_Worker := False\<rparr> else s)"

definition CloseRunner :: "'z harness_state_scheme \<Rightarrow> 'z harness_state_scheme" where
  "CloseRunner s = (let s' = StopWorker s in
     if h_Client s' then (act_ignore ACloseClient s')\<lparr>h_Client := False\<rparr> else s')"

definition workflow_registration :: "rvalue \<Rightarrow> registration" where
  "workflow_registration w = (case w of RWorkflowWithOptions f n \<Rightarrow> RegWorkflowWithOptions f n | _ \<Rightarrow> RegWorkflow w)"

definition activity_registration :: "rvalue \<Rightarrow> registration" where
  "activity_registration a = (case a of RActivityWithOptions f n \<Rightarrow> RegActivityWithOptions f n | _ \<Rightarrow> RegActivity a)"

definition registrations :: "'w PreparedFeature \<Rightarrow> registration list" where
  "registrations p = map workflow_registration (pf_Workflows p) @ map activity_registration (pf_Activities p) @
     map RegNexus (pf_NexusServices p)"

definition register :: "sdk_lib \<Rightarrow> registration \<Rightarrow> ('z harness_state_scheme, unit) io" where
  "register L g = (\<lambda>s. case sl_register L (h_Registered s) g of
       Some e \<Rightarrow> (Panic e, s) | None \<Rightarrow> (Ok (), s\<lparr>h_Registered := h_Registered s @ [g]\<rparr>))"

text \<open>A worker that fails to start is still the runner's worker.\<close>

definition StartWorker :: "sdk_lib \<Rightarrow> RunnerConfig \<Rightarrow> 'w PreparedFeature \<Rightarrow> ('z harness_state_scheme, unit) io" where
  "StartWorker L c p = (\<lambda>s.
     if h_Worker s then (Err (Errorf ''worker is currently running, cannot start a new one'' []), s)
     else thenE (upd (\<lambda>s. s\<lparr>h_Worker := True, h_Registered := []\<rparr>))
            (thenE (for_each (register L) (registrations p))
               (wrapE ''failed starting worker: %w'' [] (act_unit (AStartWorker (hc_TaskQueue c))))) s)"

definition ResetStickyQueue :: "RunnerConfig \<Rightarrow> workflow_run \<Rightarrow> ('z harness_state_scheme, unit) io" where
  "ResetStickyQueue c run = act_unit (AResetSticky (hc_Namespace c) (wr_ID run) (wr_RunID run))"

section \<open>Creating a runner\<close>

definition with_defaults :: "sdk_lib \<Rightarrow> RunnerConfig \<Rightarrow> RunnerConfig" where
  "with_defaults L c = c\<lparr>
     hc_ServerHostPort := (if hc_ServerHostPort c = [] then sl_DefaultHostPort L else hc_ServerHostPort c),
     hc_Namespace := (if hc_Namespace c = [] then sl_DefaultNamespace L else hc_Namespace c),
     hc_Log := (if hc_Log c = None then Some (sl_DefaultLogger L) else hc_Log c)\<rparr>"

definition runner_options :: "RunnerConfig \<Rightarrow> tls_config option \<Rightarrow> client_options \<Rightarrow> client_options" where
  "runner_options c tls co = co\<lparr>co_HostPort := hc_ServerHostPort c, co_Namespace := hc_Namespace c,
     co_Logger := (if co_Logger co = None then hc_Log c else co_Logger co), co_TLS := tls\<rparr>"

definition runner_feature :: "client_options \<Rightarrow> 'w PreparedFeature \<Rightarrow> 'w PreparedFeature" where
  "runner_feature co p = (let f = pf_Feature p in
     p\<lparr>pf_Feature := f\<lparr>fd_ClientOptions := co,
        fd_PanicPolicy := (if fd_DisableWorkflowPanicPolicyOverride f then fd_PanicPolicy f else FailWorkflow)\<rparr>\<rparr>)"

definition NewRunner ::
  "sdk_lib \<Rightarrow> RunnerConfig \<Rightarrow> 'w PreparedFeature \<Rightarrow> ('z harness_state_scheme, 'w Runner) io" where
  "NewRunner L config feature = (let c = with_defaults L config in
     thenE (upd (\<lambda>s. s\<lparr>h_Client := False, h_Worker := False, h_LastAssertErr := None\<rparr>))
     (defer_unless_ok CloseRunner
       (bindE (LoadTLSConfig (hc_ClientCertPath c) (hc_ClientKeyPath c) (hc_CACertPath c) (hc_TLSServerName c)) (\<lambda>tls.
          let co = runner_options c tls (fd_ClientOptions (pf_Feature feature)); p = runner_feature co feature in
          thenE (wrapE ''failed creating client: %w'' [] (act_unit (ADial (co_HostPort co) (co_Namespace co) tls)))
            (thenE (upd (\<lambda>s. s\<lparr>h_Client := True\<rparr>))
              (thenE (StartWorker L c p)
                (ret \<lparr>rn_Config = c, rn_Feature = p, rn_CreateTime = sl_now L\<rparr>)))))))"

section \<open>Assertions\<close>

definition assert_that :: "sdk_lib \<Rightarrow> string \<Rightarrow> bool \<Rightarrow> ('z harness_state_scheme, bool) io" where
  "assert_that L text b = (\<lambda>s.
     (Ok b, if b then s else s\<lparr>h_LastAssertErr := Some (Errorf ''%s'' [sl_assert L text])\<rparr>))"

definition CheckAssertion :: "bool \<Rightarrow> ('z harness_state_scheme, unit) io" where
  "CheckAssertion result = (\<lambda>s.
     if \<not> result then (case h_LastAssertErr s of None \<Rightarrow> (Ok (), s) | Some e \<Rightarrow> (Err e, s)) else (Ok (), s))"

text \<open>The assertions of \<open>Require\<close>: a failed one stores its error, \<open>FailNow\<close> panics with the stored error.\<close>

definition FailNow :: "go_error option \<Rightarrow> ('w, unit) io" where
  "FailNow lastErr = (case lastErr of Some e \<Rightarrow> panic e | None \<Rightarrow> ret ())"

section \<open>Executing\<close>

definition workflow_text :: "rvalue \<Rightarrow> string" where
  "workflow_text w = (case w of RFunc n f \<Rightarrow> n | _ \<Rightarrow> type_name w)"

definition start_workflow :: "start_options \<Rightarrow> string \<Rightarrow> ('z harness_state_scheme, workflow_run) io" where
  "start_workflow opts w = bindE (act (AStartWorkflow (so_ID opts) (so_TaskQueue opts) w)) (\<lambda>run.
     ret \<lparr>wr_ID = so_ID opts, wr_RunID = run\<rparr>)"

definition default_start_options :: "RunnerConfig \<Rightarrow> start_options" where
  "default_start_options c =
     \<lparr>so_ID = [], so_TaskQueue = hc_TaskQueue c, so_WorkflowExecutionTimeout = 60000\<rparr>"

definition ExecuteDefault :: "'w Runner \<Rightarrow> ('z harness_state_scheme, workflow_run) io" where
  "ExecuteDefault r =
     (case fd_StartWorkflowOptionsMutator (pf_Feature (rn_Feature r)) of
        None \<Rightarrow> panic nil_func
      | Some mutate \<Rightarrow> let opts = mutate (default_start_options (rn_Config r)) in
          (case GetPrimaryWorkflow (rn_Feature r) of
             Err e \<Rightarrow> fail e
           | Panic e \<Rightarrow> panic e
           | Ok (w, n) \<Rightarrow> start_workflow opts (if n = [] then workflow_text w else n)))"

definition ExecuteWithArgs :: "'w Runner \<Rightarrow> string \<Rightarrow> ('z harness_state_scheme, workflow_run) io" where
  "ExecuteWithArgs r w =
     (case fd_StartWorkflowOptionsMutator (pf_Feature (rn_Feature r)) of
        None \<Rightarrow> panic nil_func
      | Some mutate \<Rightarrow> start_workflow (mutate (default_start_options (rn_Config r))) w)"

section \<open>Checking the result\<close>

text \<open>\<open>run.Get\<close>: without a pointer the payload is not converted.\<close>

definition get_result :: "sdk_lib \<Rightarrow> bool \<Rightarrow> workflow_run \<Rightarrow> ('z harness_state_scheme, gval option) io" where
  "get_result L wanted run = bindE (act (AGetResult (wr_RunID run))) (\<lambda>t.
     if wanted then (case sl_decode L t of Ok v \<Rightarrow> ret (Some v) | Err e \<Rightarrow> fail e | Panic e \<Rightarrow> panic e) else ret None)"

definition activity_error :: "go_error \<Rightarrow> go_error option" where
  "activity_error e = errors_as (\<lambda>x. case x of ActivityError m i \<Rightarrow> True | _ \<Rightarrow> False) e"

definition unwrap_activity :: "go_error \<Rightarrow> go_error" where
  "unwrap_activity e = (case e of ActivityError m i \<Rightarrow> i | _ \<Rightarrow> e)"

definition check_error :: "sdk_lib \<Rightarrow> string \<Rightarrow> go_error option \<Rightarrow> ('z harness_state_scheme, unit) io" where
  "check_error L expected err =
     (if expected \<noteq> [] then
        (case err of
           None \<Rightarrow> fail (Errorf ''expected activity error, got: %!w(<nil>)'' [])
         | Some e \<Rightarrow>
             (case activity_error e of
                None \<Rightarrow> fail (Wrapf ''expected activity error, got: %w'' [] e)
              | Some a \<Rightarrow>
                  bindE (assert_that L ''error string'' (error_text (unwrap_activity a) = expected)) (\<lambda>b.
                    if b then ret () else fail (Wrapf ''activity error string mismatch, error: %w'' [] e))))
      else (case err of None \<Rightarrow> ret () | Some e \<Rightarrow> fail (Wrapf ''expected success, got: %w'' [] e)))"

definition CheckResultDefault :: "sdk_lib \<Rightarrow> 'w Runner \<Rightarrow> workflow_run \<Rightarrow> ('z harness_state_scheme, unit) io" where
  "CheckResultDefault L r run = (let f = pf_Feature (rn_Feature r) in
     bindE (attempt (get_result L (fd_ExpectRunResult f \<noteq> None) run)) (\<lambda>got.
       thenE (check_error L (fd_ExpectActivityError f) (case got of Inl e \<Rightarrow> Some e | Inr _ \<Rightarrow> None))
         (case fd_ExpectRunResult f of
            None \<Rightarrow> ret ()
          | Some expected \<Rightarrow>
              let actual = (case got of Inr (Some v) \<Rightarrow> v | _ \<Rightarrow> sl_zero L expected) in
              bindE (assert_that L ''result'' (sl_equal L expected actual)) CheckAssertion)))"

section \<open>Checking the history\<close>

text \<open>The workflows a replayer knows; the first history that does not replay gives the error.\<close>

fun replay_all :: "sdk_lib \<Rightarrow> registration list \<Rightarrow> Histories \<Rightarrow> unit res" where
  "replay_all L ws [] = Ok ()"
| "replay_all L ws (h # hs) = (case sl_replay L ws h of Some e \<Rightarrow> Err e | None \<Rightarrow> replay_all L ws hs)"

definition ReplayHistories :: "sdk_lib \<Rightarrow> 'w Runner \<Rightarrow> Histories \<Rightarrow> unit res" where
  "ReplayHistories L r hs =
     (case sl_new_replayer L (co_DataConverter (fd_ClientOptions (pf_Feature (rn_Feature r)))) of
        Some e \<Rightarrow> Err e
      | None \<Rightarrow> replay_all L (map workflow_registration (pf_Workflows (rn_Feature r))) hs)"

fun replay_versions :: "sdk_lib \<Rightarrow> 'w Runner \<Rightarrow> StoredSet \<Rightarrow> unit res" where
  "replay_versions L r [] = Ok ()"
| "replay_versions L r ((version, hs) # vs) =
     (if sl_semver_Compare L version (sl_SDKVersion L) > 0 then replay_versions L r vs
      else (case ReplayHistories L r hs of
          Ok _ \<Rightarrow> replay_versions L r vs
        | Err e \<Rightarrow> Err (Wrapf ''failed replaying history version %v: %w'' [version] e)
        | Panic e \<Rightarrow> Panic e))"

definition runner_fetcher :: "'w Runner \<Rightarrow> Fetcher" where
  "runner_fetcher r = \<lparr>fe_Namespace = hc_Namespace (rn_Config r), fe_TaskQueue = hc_TaskQueue (rn_Config r),
     fe_Earliest = rn_CreateTime r\<rparr>"

text \<open>
  \<open>fetch\<close> is what \<open>Fetch\<close> gives when it returns. The versions are gone through in the order of the list;
  the order of a map is not fixed in Go.
\<close>

definition CheckHistoryDefault ::
  "proto_api \<Rightarrow> sdk_lib \<Rightarrow> (Fetcher \<Rightarrow> Histories res) \<Rightarrow> 'w Runner \<Rightarrow> workflow_run \<Rightarrow> ('z harness_state_scheme, unit) io" where
  "CheckHistoryDefault P L fetch r run =
     bindE (asks (Getenv ''TEMPORAL_FEATURES_DISABLE_WORKFLOW_COMPLETION_CHECK'')) (\<lambda>off.
       if off \<noteq> [] then ret ()
       else bindE (wrapE ''failed fetching histories: %w'' [] (of_res (fetch (runner_fetcher r)))) (\<lambda>hs.
         thenE (wrapE ''failed replaying current execution: %w'' [] (of_res (ReplayHistories L r hs)))
           (bindE (wrapE ''failed loading histories: %w'' []
               (Load P \<lparr>st_Dir = PathJoin [pf_AbsDir (rn_Feature r), ''history''], st_Lang = ''go''\<rparr>)) (\<lambda>vs.
             of_res (replay_versions L r vs)))))"

section \<open>What the steps of a runner leave alone\<close>

lemma keeps_StartWorker:
  assumes "\<And>s b. f (s\<lparr>h_Worker := b\<rparr>) = f s" "\<And>s g. f (s\<lparr>h_Registered := g\<rparr>) = f s"
    "\<And>q. keeps f (act_unit (AStartWorker q))"
  shows "keeps f (StartWorker L c p)"
proof -
  have "keeps f (register L g)" for g
    by (auto simp: keeps_def register_def assms(2) split: option.splits)
  then have "keeps f (thenE (upd (\<lambda>s. s\<lparr>h_Worker := True, h_Registered := []\<rparr>))
      (thenE (for_each (register L) (registrations p))
        (wrapE ''failed starting worker: %w'' [] (act_unit (AStartWorker (hc_TaskQueue c))))))"
    by (intro keeps_intros assms(3)) (simp add: assms)
  then show ?thesis unfolding StartWorker_def keeps_def by simp
qed

lemma keeps_start_workflow:
  assumes "\<And>i q w. keeps f (act (AStartWorkflow i q w))"
  shows "keeps f (start_workflow opts w)"
  unfolding start_workflow_def by (intro keeps_intros assms)

lemma keeps_ExecuteDefault:
  assumes "\<And>i q w. keeps f (act (AStartWorkflow i q w))"
  shows "keeps f (ExecuteDefault r)"
  unfolding ExecuteDefault_def
  by (auto simp: Let_def intro!: keeps_intros keeps_start_workflow assms split: option.splits res.splits)

lemma keeps_CheckResultDefault:
  assumes "\<And>s e. f (s\<lparr>h_LastAssertErr := e\<rparr>) = f s" "\<And>r. keeps f (act (AGetResult r))"
  shows "keeps f (CheckResultDefault L r run)"
proof -
  have as: "keeps f (assert_that L t b)" "keeps f (CheckAssertion b)" for t b
    by (auto simp: keeps_def assert_that_def CheckAssertion_def assms(1) split: option.splits)
  have get: "keeps f (get_result L b run)" for b
    unfolding get_result_def by (intro keeps_intros assms(2)) (auto intro: keeps_intros split: res.splits)
  show ?thesis
    unfolding CheckResultDefault_def check_error_def
    by (auto simp: Let_def intro!: keeps_intros as get split: option.splits sum.splits)
qed

lemma keeps_CheckHistoryDefault: "keeps f (CheckHistoryDefault P L fetch r run)"
  unfolding CheckHistoryDefault_def by (intro keeps_intros keeps_Load)

section \<open>Running\<close>

definition or_default :: "'a option \<Rightarrow> 'a \<Rightarrow> 'a" where
  "or_default h d = (case h of Some x \<Rightarrow> x | None \<Rightarrow> d)"

definition run_steps ::
  "proto_api \<Rightarrow> sdk_lib \<Rightarrow> (Fetcher \<Rightarrow> Histories res) \<Rightarrow> 'z harness_state_scheme Runner \<Rightarrow> ('z harness_state_scheme, unit) io" where
  "run_steps P L fetch r = (let f = pf_Feature (rn_Feature r); c = rn_Config r in
     bindE (or_default (fd_Execute f) (\<lambda>_. bindE (ExecuteDefault r) (\<lambda>x. ret (Some x))) c) (\<lambda>run.
       case run of
         None \<Rightarrow> ret ()
       | Some x \<Rightarrow>
           thenE (or_default (fd_CheckResult f) (\<lambda>_. CheckResultDefault L r) c x)
             (or_default (fd_CheckHistory f) (\<lambda>_. CheckHistoryDefault P L fetch r) c x)))"

definition RunRunner ::
  "proto_api \<Rightarrow> sdk_lib \<Rightarrow> (Fetcher \<Rightarrow> Histories res) \<Rightarrow> 'z harness_state_scheme Runner \<Rightarrow> ('z harness_state_scheme, unit) io" where
  "RunRunner P L fetch r = deferE CloseRunner (run_steps P L fetch r)"

definition Skip :: "string \<Rightarrow> go_error" where
  "Skip reason = SkipFeature reason"

definition IsSkipError :: "go_error option \<Rightarrow> string option" where
  "IsSkipError err =
     (case err of
        None \<Rightarrow> None
      | Some e \<Rightarrow>
          (case errors_as (\<lambda>x. case x of SkipFeature r \<Rightarrow> True | _ \<Rightarrow> False) e of
             Some (SkipFeature r) \<Rightarrow> Some r | _ \<Rightarrow> None))"

section \<open>The life cycle\<close>

text \<open>One run of a feature, as \<open>harness/go/cmd/run.go\<close> does it: create, defer the closing, run.\<close>

definition runFeature ::
  "proto_api \<Rightarrow> sdk_lib \<Rightarrow> (Fetcher \<Rightarrow> Histories res) \<Rightarrow> RunnerConfig
     \<Rightarrow> 'z harness_state_scheme PreparedFeature \<Rightarrow> ('z harness_state_scheme, unit) io" where
  "runFeature P L fetch config feature =
     bindE (wrapE ''failed starting runner: %w'' [] (NewRunner L config feature)) (\<lambda>r.
       deferE CloseRunner (RunRunner P L fetch r))"

text \<open>
  What the code of a feature may do with its runner: start, stop and close it, call the services, and
  change anything that is neither the trace nor the runner's client and worker.
\<close>

inductive lifecycle ::
  "sdk_lib \<Rightarrow> RunnerConfig \<Rightarrow> 'w PreparedFeature \<Rightarrow> 'z harness_state_scheme \<Rightarrow> 'z harness_state_scheme \<Rightarrow> bool"
  for L c p where
  life_start: "lifecycle L c p s (snd (StartWorker L c p s))"
| life_stop: "lifecycle L c p s (StopWorker s)"
| life_close: "lifecycle L c p s (CloseRunner s)"
| life_call: "acquires a = None \<Longrightarrow> releases a = None \<Longrightarrow> lifecycle L c p s (snd (act a s))"
| life_quiet: "n_trace s' = n_trace s \<Longrightarrow> x_answer s' = x_answer s \<Longrightarrow> h_Worker s' = h_Worker s \<Longrightarrow>
    h_Client s' = h_Client s \<Longrightarrow> lifecycle L c p s s'"

abbreviation reaches where
  "reaches L c p \<equiv> (lifecycle L c p)\<^sup>*\<^sup>*"

text \<open>
  The runner holds at most its client and, on top of it, its worker, above what was held before. It holds
  a client exactly when it points to one, and a worker only when it points to one: a worker that failed
  to start has a pointer but is not held.
\<close>

definition own :: "bool \<Rightarrow> bool \<Rightarrow> resource list \<Rightarrow> resource list" where
  "own w c base = (if w then [RWorker] else []) @ (if c then [RClient] else []) @ base"

definition owns :: "resource list \<Rightarrow> 'z harness_state_scheme \<Rightarrow> bool" where
  "owns base s = (\<exists>w c. held s = Some (own w c base) \<and> (w \<longrightarrow> h_Worker s) \<and> c = h_Client s)"

definition outside :: "resource list \<Rightarrow> bool" where
  "outside base = (RWorker \<notin> set base)"

lemma held_h_fields [simp]:
  "held (s\<lparr>h_Worker := b\<rparr>) = held s" "held (s\<lparr>h_Client := b\<rparr>) = held s"
  "held (s\<lparr>h_Registered := g\<rparr>) = held s" "held (s\<lparr>h_LastAssertErr := e\<rparr>) = held s"
  by (simp_all add: held_def)

lemma act_h_fields [simp]:
  "h_Worker (snd (act a s)) = h_Worker s" "h_Client (snd (act a s)) = h_Client s"
  "h_Worker (act_ignore a s) = h_Worker s" "h_Client (act_ignore a s) = h_Client s"
  by (simp_all add: act_def act_ignore_def Let_def split: option.splits)

lemma release_top [simp]: "release r (r # st) = Some st"
  by (simp add: release_def)

lemma release_absent: "r \<notin> set st \<Longrightarrow> release r st = Some st"
  by (cases st) (auto simp: release_def)

lemma ownsI: "held s = Some (own w c base) \<Longrightarrow> (w \<longrightarrow> h_Worker s) \<Longrightarrow> c = h_Client s \<Longrightarrow> owns base s"
  by (auto simp: owns_def)

lemma ownsE:
  assumes "owns base s"
  obtains w c where "held s = Some (own w c base)" "w \<longrightarrow> h_Worker s" "c = h_Client s"
  using assms by (auto simp: owns_def)

lemma release_own:
  assumes "outside base"
  shows "release RWorker (own w c base) = Some (own False c base)"
    "c \<Longrightarrow> release RClient (own False c base) = Some base"
  using assms by (cases w; cases c; simp add: own_def outside_def release_absent)+

lemma owns_StopWorker:
  assumes "outside base" "owns base s"
  shows "\<exists>c. held (StopWorker s) = Some (own False c base) \<and> c = h_Client (StopWorker s) \<and> \<not> h_Worker (StopWorker s)"
proof -
  from assms(2) obtain w c where h: "held s = Some (own w c base)" "w \<longrightarrow> h_Worker s" "c = h_Client s"
    by (rule ownsE)
  have "held (act_ignore AStopWorker s) = release RWorker (own w c base)"
    by (rule held_act_ignore [OF h(1)]) simp_all
  then show ?thesis
    using h release_own(1) [OF assms(1)] by (cases "h_Worker s") (auto simp: StopWorker_def)
qed

lemma owns_CloseRunner:
  assumes "outside base" "owns base s"
  shows "held (CloseRunner s) = Some base \<and> \<not> h_Worker (CloseRunner s) \<and> \<not> h_Client (CloseRunner s)"
proof -
  let ?s = "StopWorker s"
  from owns_StopWorker [OF assms] obtain c where h: "held ?s = Some (own False c base)" "c = h_Client ?s" "\<not> h_Worker ?s"
    by blast
  have "held (act_ignore ACloseClient ?s) = release RClient (own False c base)"
    by (rule held_act_ignore [OF h(1)]) simp_all
  then have "h_Client ?s \<Longrightarrow> held (act_ignore ACloseClient ?s) = Some base" using h(2) release_own(2) [OF assms(1)] by simp
  moreover have "\<not> h_Client ?s \<Longrightarrow> held ?s = Some base" using h(1,2) by (simp add: own_def)
  ultimately show ?thesis using h(3) by (auto simp: CloseRunner_def Let_def)
qed

lemma owns_closed: "held s = Some base \<Longrightarrow> \<not> h_Client s \<Longrightarrow> owns base s"
  by (rule ownsI [of _ False False]) (simp_all add: own_def)

lemma preserves_owns_quiet:
  fixes m :: "('z harness_state_scheme, 'a) io"
  assumes "keeps (\<lambda>s. (held s, h_Worker s, h_Client s)) m"
  shows "preserves (owns base) m"
proof (rule preservesI)
  fix s :: "'z harness_state_scheme"
  assume "owns base s"
  moreover have "held (snd (m s)) = held s" "h_Worker (snd (m s)) = h_Worker s" "h_Client (snd (m s)) = h_Client s"
    using assms unfolding keeps_def by simp_all
  ultimately show "owns base (snd (m s))" by (simp add: owns_def)
qed

lemma preserves_owns_act:
  assumes "acquires a = None" "releases a = None"
  shows "preserves (owns base) (act a)" "preserves (owns base) (act_unit a)"
proof -
  show 1: "preserves (owns base) (act a)"
  proof (rule preservesI)
    fix s assume "owns base s"
    then obtain w c where h: "held s = Some (own w c base)" "w \<longrightarrow> h_Worker s" "c = h_Client s" by (rule ownsE)
    show "owns base (snd (act a s))"
      by (rule ownsI [OF held_neutral(1) [OF h(1) assms]]) (simp_all add: h)
  qed
  show "preserves (owns base) (act_unit a)"
    unfolding act_unit_def by (intro preserves_intros 1)
qed

lemma keeps_register: "keeps (\<lambda>s. (held s, h_Worker s, h_Client s)) (register L g)"
  by (auto simp: keeps_def register_def split: option.splits)

text \<open>The state in which a worker is started: the runner points to one that is not held yet.\<close>

definition unstarted :: "resource list \<Rightarrow> 'z harness_state_scheme \<Rightarrow> bool" where
  "unstarted base s = (\<exists>c. held s = Some (own False c base) \<and> c = h_Client s \<and> h_Worker s)"

lemma unstarted_owns: "unstarted base s \<Longrightarrow> owns base s"
  unfolding unstarted_def by (auto intro: ownsI)

lemma unstarted_register:
  "preserves (unstarted base) (for_each (register L) gs :: ('z harness_state_scheme, unit) io)"
proof (rule preservesI)
  fix s :: "'z harness_state_scheme"
  have "keeps (\<lambda>s :: 'z harness_state_scheme. (held s, h_Worker s, h_Client s)) (for_each (register L) gs)"
    by (intro keeps_for_each keeps_register)
  then show "unstarted base s \<Longrightarrow> unstarted base (snd (for_each (register L) gs s))"
    by (simp add: keeps_def unstarted_def)
qed

lemma unstarted_start:
  assumes "unstarted base s"
  shows "owns base (snd (act (AStartWorker q) s))"
proof -
  from assms obtain c where h: "held s = Some (own False c base)" "c = h_Client s" "h_Worker s"
    unfolding unstarted_def by blast
  let ?ok = "\<not> (\<exists>e. fst (act (AStartWorker q) s) = Err e)"
  have "held (snd (act (AStartWorker q) s)) = Some (if \<not> ?ok then own False c base else RWorker # own False c base)"
    using held_act [OF h(1), of "AStartWorker q" RWorker] by simp
  also have "\<dots> = Some (own ?ok c base)" by (simp add: own_def)
  finally show ?thesis by (rule ownsI) (use h in simp_all)
qed

lemma snd_wrap_act_unit: "snd (wrapE f as (act_unit a) s) = snd (act a s)"
  by (cases "act a s"; cases "fst (act a s)") (simp_all add: wrapE_def act_unit_def bindE_def ret_def)

lemma owns_StartWorker: "preserves (owns base) (StartWorker L c p)"
proof (rule preservesI)
  fix s assume o: "owns base s"
  show "owns base (snd (StartWorker L c p s))"
  proof (cases "h_Worker s")
    case True
    then show ?thesis using o by (simp add: StartWorker_def)
  next
    case False
    let ?t = "s\<lparr>h_Worker := True, h_Registered := []\<rparr>"
    from o False have "unstarted base ?t" by (auto simp: unstarted_def elim!: ownsE)
    moreover obtain x u where u: "for_each (register L) (registrations p) ?t = (x, u)" by force
    ultimately have "unstarted base u" by (rule preservesD [OF unstarted_register])
    then have "owns base u" "owns base (snd (wrapE f as (act_unit (AStartWorker q)) u))" for f as q
      by (simp_all add: unstarted_owns unstarted_start snd_wrap_act_unit)
    then show ?thesis using False u by (cases x) (simp_all add: StartWorker_def thenE_def bindE_def upd_def)
  qed
qed

lemma lifecycle_owns: "lifecycle L c p s s' \<Longrightarrow> outside base \<Longrightarrow> owns base s \<Longrightarrow> owns base s'"
proof (induction rule: lifecycle.induct)
  case (life_start s)
  then show ?case using owns_StartWorker unfolding preserves_def by blast
next
  case (life_stop s)
  then show ?case using owns_StopWorker ownsI by blast
next
  case (life_close s)
  then show ?case using owns_CloseRunner owns_closed by blast
next
  case (life_call a s)
  then show ?case using preserves_owns_act(1) unfolding preserves_def by blast
next
  case (life_quiet s' s)
  then have "held s' = held s" by (simp add: held_def)
  with life_quiet show ?case by (simp add: owns_def)
qed

lemma reaches_owns: "reaches L c p s s' \<Longrightarrow> outside base \<Longrightarrow> owns base s \<Longrightarrow> owns base s'"
  by (induction rule: rtranclp_induct) (auto intro: lifecycle_owns)

section \<open>What a run keeps\<close>

lemma preserves_owns_steps [preserves_intros]:
  fixes L :: sdk_lib and base :: "resource list"
  shows "preserves (owns base) (get_result L b run :: ('z harness_state_scheme, _) io)"
    "preserves (owns base) (start_workflow opts w :: ('z harness_state_scheme, _) io)"
    "preserves (owns base) (assert_that L t b :: ('z harness_state_scheme, _) io)"
    "preserves (owns base) (CheckAssertion b :: ('z harness_state_scheme, _) io)"
    "preserves (owns base) (Load P st :: ('z harness_state_scheme, _) io)"
proof -
  show "preserves (owns base) (assert_that L t b :: ('z harness_state_scheme, _) io)"
    by (rule preserves_owns_quiet) (simp add: keeps_def assert_that_def)
  show "preserves (owns base) (CheckAssertion b :: ('z harness_state_scheme, _) io)"
    by (rule preserves_owns_quiet) (auto simp: keeps_def CheckAssertion_def split: option.splits)
  show "preserves (owns base) (Load P st :: ('z harness_state_scheme, _) io)"
    by (rule preserves_owns_quiet) (rule keeps_Load)
  show "preserves (owns base) (get_result L b run :: ('z harness_state_scheme, _) io)"
    unfolding get_result_def
    by (intro preserves_intros preserves_owns_act) (auto intro: preserves_intros split: res.splits)
  show "preserves (owns base) (start_workflow opts w :: ('z harness_state_scheme, _) io)"
    unfolding start_workflow_def by (intro preserves_intros preserves_owns_act) simp_all
qed

lemma preserves_owns_defaults [preserves_intros]:
  fixes base :: "resource list"
  shows "preserves (owns base) (ExecuteDefault r :: ('z harness_state_scheme, _) io)"
    "preserves (owns base) (CheckResultDefault L r run :: ('z harness_state_scheme, _) io)"
    "preserves (owns base) (CheckHistoryDefault P L fetch r run :: ('z harness_state_scheme, _) io)"
proof -
  show "preserves (owns base) (ExecuteDefault r :: ('z harness_state_scheme, _) io)"
    unfolding ExecuteDefault_def by (auto simp: Let_def intro!: preserves_intros split: option.splits res.splits)
  show "preserves (owns base) (CheckResultDefault L r run :: ('z harness_state_scheme, _) io)"
    unfolding CheckResultDefault_def check_error_def
    by (auto simp: Let_def intro!: preserves_intros split: option.splits sum.splits)
  show "preserves (owns base) (CheckHistoryDefault P L fetch r run :: ('z harness_state_scheme, _) io)"
    by (rule preserves_owns_quiet) (rule keeps_CheckHistoryDefault)
qed

definition hooks_live :: "sdk_lib \<Rightarrow> RunnerConfig \<Rightarrow> 'z harness_state_scheme PreparedFeature \<Rightarrow> bool" where
  "hooks_live L c p = (let f = pf_Feature p in
     (\<forall>h s. fd_Execute f = Some h \<longrightarrow> reaches L c p s (snd (h c s))) \<and>
     (\<forall>h x s. fd_CheckResult f = Some h \<longrightarrow> reaches L c p s (snd (h c x s))) \<and>
     (\<forall>h x s. fd_CheckHistory f = Some h \<longrightarrow> reaches L c p s (snd (h c x s))))"

lemma preserves_hook:
  "(\<And>h. hook = Some h \<Longrightarrow> preserves I (h c)) \<Longrightarrow> preserves I (d c) \<Longrightarrow> preserves I (or_default hook d c)"
  "(\<And>k. hook2 = Some k \<Longrightarrow> preserves I (k c x)) \<Longrightarrow> preserves I (d2 c x) \<Longrightarrow> preserves I (or_default hook2 d2 c x)"
  by (simp_all add: or_default_def split: option.splits)

lemma preserves_case_option:
  "preserves I a \<Longrightarrow> (\<And>x. preserves I (f x)) \<Longrightarrow> preserves I (case_option a f opt)"
  by (simp split: option.splits)

lemma preserves_run_steps:
  assumes "hooks_live L (rn_Config r) p" "outside base"
    and "fd_Execute (pf_Feature (rn_Feature r)) = fd_Execute (pf_Feature p)"
    and "fd_CheckResult (pf_Feature (rn_Feature r)) = fd_CheckResult (pf_Feature p)"
    and "fd_CheckHistory (pf_Feature (rn_Feature r)) = fd_CheckHistory (pf_Feature p)"
  shows "preserves (owns base) (run_steps P L fetch r)"
proof -
  have live: "preserves (owns base) m" if "\<And>s. reaches L (rn_Config r) p s (snd (m s))" for m :: "('a harness_state_scheme, 'b) io"
    by (rule preservesI) (rule reaches_owns [OF that assms(2)])
  have ex: "preserves (owns base) (h (rn_Config r))" if "fd_Execute (pf_Feature p) = Some h" for h
    using live [of "h (rn_Config r)"] assms(1) that by (simp add: hooks_live_def Let_def)
  have cr: "preserves (owns base) (h (rn_Config r) x)" if "fd_CheckResult (pf_Feature p) = Some h" for h x
    by (rule preservesI, rule reaches_owns [OF _ assms(2)]) (use assms(1) that in \<open>auto simp: hooks_live_def Let_def\<close>)
  have ch: "preserves (owns base) (h (rn_Config r) x)" if "fd_CheckHistory (pf_Feature p) = Some h" for h x
    by (rule preservesI, rule reaches_owns [OF _ assms(2)]) (use assms(1) that in \<open>auto simp: hooks_live_def Let_def\<close>)
  show ?thesis
    unfolding run_steps_def Let_def assms(3-5)
    by (intro preserves_bindE preserves_hook preserves_case_option preserves_thenE)
      (auto intro: ex cr ch intro!: preserves_intros)
qed

lemma owns_dial:
  fixes s :: "'z harness_state_scheme"
  assumes "held s = Some base" "\<not> h_Worker s" "\<not> h_Client s"
  shows "owns base (snd (thenE (wrapE f as (act_unit (ADial hp ns tls)))
      (thenE (upd (\<lambda>s. s\<lparr>h_Client := True\<rparr>)) (thenE (StartWorker L c p) (ret r))) s))"
proof -
  let ?a = "act (ADial hp ns tls) s"
  have h: "held (snd ?a) = Some (if \<exists>e. fst ?a = Err e then base else RClient # base)"
    by (rule held_act [OF assms(1)]) simp
  have w: "snd (wrapE f as (act_unit (ADial hp ns tls)) s) = snd ?a" by (rule snd_wrap_act_unit)
  show ?thesis
  proof (cases "fst ?a")
    case (Ok x)
    let ?t = "(snd ?a)\<lparr>h_Client := True\<rparr>"
    have "owns base ?t"
      by (rule ownsI [of _ False True]) (use h Ok in \<open>simp_all add: own_def\<close>)
    moreover have "preserves (owns base) (thenE (StartWorker L c p) (ret r) :: ('z harness_state_scheme, _) io)"
      by (intro preserves_thenE owns_StartWorker preserves_pure)
    ultimately have "owns base (snd (thenE (StartWorker L c p) (ret r) ?t))" by (simp add: preserves_def)
    then show ?thesis using Ok
      by (cases ?a) (simp add: thenE_def bindE_def wrapE_def act_unit_def ret_def upd_def)
  next
    case (Err e)
    then have "held (snd ?a) = Some base" "\<not> h_Client (snd ?a)" using h assms(3) by simp_all
    then show ?thesis using Err
      by (cases ?a) (simp add: thenE_def bindE_def wrapE_def act_unit_def owns_closed)
  next
    case (Panic e)
    then show ?thesis by (simp add: act_def Let_def split: option.splits)
  qed
qed

lemma NewRunner_owns:
  fixes s :: "'z harness_state_scheme" and p :: "'w PreparedFeature"
  assumes "outside base" "held s = Some base" "NewRunner L config p s = (x, s')"
  shows "owns base s' \<and> ((\<forall>r. x \<noteq> Ok r) \<longrightarrow> held s' = Some base \<and> \<not> h_Worker s' \<and> \<not> h_Client s') \<and>
    (\<forall>r. x = Ok r \<longrightarrow> rn_Config r = with_defaults L config \<and> (\<exists>co. rn_Feature r = runner_feature co p))"
proof -
  let ?c = "with_defaults L config" and ?s = "s\<lparr>h_Client := False, h_Worker := False, h_LastAssertErr := None\<rparr>"
  define tls where "tls = LoadTLSConfig (hc_ClientCertPath ?c) (hc_ClientKeyPath ?c) (hc_CACertPath ?c) (hc_TLSServerName ?c) ?s"
  define body where "body = (\<lambda>t. let co = runner_options ?c t (fd_ClientOptions (pf_Feature p)); q = runner_feature co p in
      thenE (wrapE ''failed creating client: %w'' [] (act_unit (ADial (co_HostPort co) (co_Namespace co) t)))
        (thenE (upd (\<lambda>s. s\<lparr>h_Client := True\<rparr>)) (thenE (StartWorker L ?c q)
           (ret \<lparr>rn_Config = ?c, rn_Feature = q, rn_CreateTime = sl_now L\<rparr>))) :: ('z harness_state_scheme, 'w Runner) io)"
  have h: "held ?s = Some base" using assms(2) by simp
  have st: "snd tls = ?s" unfolding tls_def by (rule LoadTLSConfig_state)
  have run: "(x, s') = defer_unless_ok CloseRunner (\<lambda>_. case tls of
       (Ok t, u) \<Rightarrow> body t u | (Err e, u) \<Rightarrow> (Err e, u) | (Panic e, u) \<Rightarrow> (Panic e, u)) ?s"
    using assms(3) unfolding tls_def body_def Let_def
    by (simp add: NewRunner_def Let_def bindE_def defer_unless_ok_def)
  define out where "out = (case tls of
       (Ok t, u) \<Rightarrow> body t u | (Err e, u) \<Rightarrow> (Err e, u) | (Panic e, u) \<Rightarrow> (Panic e, u))"
  have "owns base (snd out)"
  proof (cases "fst tls")
    case (Ok t)
    then have "out = body t ?s" using st unfolding out_def by (cases tls) simp
    then show ?thesis using owns_dial [OF h] by (simp add: body_def Let_def)
  qed (use st h in \<open>cases tls; simp add: out_def owns_closed\<close>)+
  moreover have "fst out = Ok r \<Longrightarrow> rn_Config r = ?c \<and> (\<exists>co. rn_Feature r = runner_feature co p)" for r
  proof -
    assume "fst out = Ok r"
    then have "out = (Ok r, snd out)" by (rule fst_res)
    then obtain t u v where "body t u = (Ok r, v)"
      unfolding out_def by (auto split: prod.splits res.splits)
    then show ?thesis
      by (auto simp: body_def Let_def thenE_Ok_iff ret_def)
  qed
  ultimately show ?thesis
    using run owns_CloseRunner [OF assms(1), of "snd out"] owns_closed
    unfolding defer_unless_ok_def out_def [symmetric]
    by (cases out; cases "fst out") auto
qed

section \<open>Concrete instances\<close>

definition sample_sdk :: sdk_lib where
  "sample_sdk = \<lparr>sl_DefaultHostPort = ''localhost:7233'', sl_DefaultNamespace = ''default'', sl_DefaultLogger = ''log'',
     sl_now = ''now'', sl_register = (\<lambda>_ _. None), sl_decode = (\<lambda>s. Ok (VStr s)), sl_zero = (\<lambda>_. VStr []),
     sl_equal = (=), sl_assert = (\<lambda>t. t), sl_new_replayer = (\<lambda>_. None), sl_replay = (\<lambda>_ _. None),
     sl_semver_Compare = (\<lambda>a b. if a = b then 0 else if a < b then - 1 else 1), sl_SDKVersion = ''v1''\<rparr>"

definition calm_harness :: "fs \<Rightarrow> harness_state" where
  "calm_harness m = net_world.extend (calm_net m)
     \<lparr>h_Client = False, h_Worker = False, h_Registered = [], h_LastAssertErr = None\<rparr>"

definition sample_feature :: "harness_state PreparedFeature" where
  "sample_feature = \<lparr>pf_Feature = zero_feature, pf_Dir = ''a/b'', pf_AbsDir = ''/r/features/a/b'',
     pf_Workflows = [RFunc ''W'' ''/r/features/a/b/feature.go''], pf_Activities = [], pf_NexusServices = []\<rparr>"

definition sample_config :: RunnerConfig where
  "sample_config = \<lparr>hc_ServerHostPort = [], hc_Namespace = [], hc_TaskQueue = ''q'', hc_NexusEndpoint = [],
     hc_ClientCertPath = [], hc_ClientKeyPath = [], hc_CACertPath = [], hc_Log = None, hc_HTTPProxyURL = [],
     hc_TLSServerName = []\<rparr>"

definition sample_runner :: "harness_state Runner" where
  "sample_runner = \<lparr>rn_Config = sample_config, rn_Feature = sample_feature, rn_CreateTime = ''now''\<rparr>"

section \<open>Properties\<close>


lemma runFeature_releases:
  assumes "hooks_live L (with_defaults L config) feature" "outside base" "held s = Some base"
  shows "held (snd (runFeature P L fetch config feature s)) = Some base \<and>
    \<not> h_Worker (snd (runFeature P L fetch config feature s)) \<and>
    \<not> h_Client (snd (runFeature P L fetch config feature s))"
proof -
  obtain x s1 where n: "NewRunner L config feature s = (x, s1)" by force
  note nr = NewRunner_owns [OF assms(2,3) n]
  show ?thesis
  proof (cases x)
    case (Ok r)
    with nr obtain co where r: "rn_Config r = with_defaults L config" "rn_Feature r = runner_feature co feature" by blast
    have p: "preserves (owns base) (run_steps P L fetch r)"
      by (rule preserves_run_steps [of L r feature])
        (use assms(1,2) in \<open>simp_all add: r runner_feature_def Let_def\<close>)
    obtain y s2 where s2: "run_steps P L fetch r s1 = (y, s2)" by force
    then have "owns base s2" using preservesD [OF p] nr by blast
    note c1 = owns_CloseRunner [OF assms(2) this]
    have c2: "owns base (CloseRunner s2)" using c1 by (intro owns_closed) simp_all
    note c2 = owns_CloseRunner [OF assms(2) c2]
    show ?thesis using c2 s2
      by (simp add: runFeature_def bindE_def wrapE_def n Ok deferE_def RunRunner_def)
  next
    case (Err e)
    then show ?thesis using nr by (simp add: runFeature_def bindE_def wrapE_def n)
  next
    case (Panic e)
    then show ?thesis using nr by (simp add: runFeature_def bindE_def wrapE_def n)
  qed
qed

text \<open>
  C13: a run gives back what it takes, whatever the feature does. If the code of the feature only does
  with its runner what \<open>lifecycle\<close> allows (starting, stopping, restarting the worker, closing the runner,
  calling services), then after \<open>runFeature\<close>, on every way out, panics included, the client and the
  worker are released, in the order opposite to their creation, nothing that was held before is
  touched, and the runner has neither.
\<close>

theorem runner_releases:
  assumes "hooks_live L (with_defaults L config) feature" "outside base" "held s = Some base"
  shows "held (snd (runFeature P L fetch config feature s)) = Some base \<and>
    \<not> h_Worker (snd (runFeature P L fetch config feature s)) \<and>
    \<not> h_Client (snd (runFeature P L fetch config feature s))"
  using assms by (rule runFeature_releases)

theorem runner_releases_witness:
  "held (snd (runFeature sample_proto sample_sdk (\<lambda>_. Ok []) sample_config sample_feature (calm_harness []))) = Some []"
proof -
  have "hooks_live sample_sdk (with_defaults sample_sdk sample_config) sample_feature"
    by (simp add: hooks_live_def sample_feature_def zero_feature_def)
  moreover have "outside []" "held (calm_harness []) = Some []"
    by (simp_all add: outside_def held_def calm_harness_def calm_net_def net_world.defs world.defs)
  ultimately show ?thesis
    using runner_releases [of sample_sdk sample_config sample_feature "[]" "calm_harness []"] by blast
qed

lemma errors_as_holds: "errors_as Q e = Some a \<Longrightarrow> Q a"
  unfolding errors_as_def by (induction "error_chain e") (auto split: if_splits simp: find_Some_iff)

lemma activity_error_cases: "activity_error e = Some a \<Longrightarrow> \<exists>m i. a = ActivityError m i"
  unfolding activity_error_def by (drule errors_as_holds) (cases a, simp_all)

lemma check_error_Ok:
  "fst (check_error L expected err s) = Ok () \<longleftrightarrow>
     (if expected \<noteq> []
      then \<exists>e m i. err = Some e \<and> activity_error e = Some (ActivityError m i) \<and> error_text i = expected
      else err = None)"
proof (cases "expected = [] \<or> err = None")
  case True
  then show ?thesis by (auto simp: check_error_def ret_def fail_def split: option.splits)
next
  case False
  then obtain e where e: "err = Some e" "expected \<noteq> []" by auto
  show ?thesis
  proof (cases "activity_error e")
    case None
    then show ?thesis using e by (simp add: check_error_def fail_def)
  next
    case (Some a)
    with activity_error_cases obtain m i where "a = ActivityError m i" by blast
    then show ?thesis using e Some
      by (simp add: check_error_def bindE_def assert_that_def unwrap_activity_def ret_def fail_def)
  qed
qed

lemma check_error_unit: "\<exists>x t. check_error L expected err s = (x, t) \<and> (x = Ok () \<or> (\<exists>e. x = Err e))"
  by (auto simp: check_error_def bindE_def assert_that_def ret_def fail_def split: option.splits)

lemma check_equal: "fst (bindE (assert_that L t b) CheckAssertion s) = (if b then Ok () else Err (Errorf ''%s'' [sl_assert L t]))"
  by (simp add: bindE_def assert_that_def CheckAssertion_def)

text \<open>
  C14: what the default check of a result accepts. It succeeds exactly when the run ends as the feature
  expects: with an activity error anywhere in the chain whose cause has the expected text, or, without
  such an expectation, with no error; and, when a result is expected, the converted one (the zero value
  of its type when there was an error) equals it. When only the result differs, the error is the text
  of the assertion that failed.
\<close>

theorem check_result_accepts:
  assumes "f = pf_Feature (rn_Feature r)" "got = fst (get_result L (fd_ExpectRunResult f \<noteq> None) run s)"
  shows "(fst (CheckResultDefault L r run s) = Ok () \<longleftrightarrow>
      (if fd_ExpectActivityError f \<noteq> []
       then \<exists>e m i. got = Err e \<and> activity_error e = Some (ActivityError m i) \<and> error_text i = fd_ExpectActivityError f
       else \<exists>v. got = Ok v) \<and>
      (\<forall>x. fd_ExpectRunResult f = Some x \<longrightarrow>
         sl_equal L x (case got of Ok (Some v) \<Rightarrow> v | _ \<Rightarrow> sl_zero L x))) \<and>
    (\<forall>v x. fd_ExpectActivityError f = [] \<and> got = Ok (Some v) \<and> fd_ExpectRunResult f = Some x \<and> \<not> sl_equal L x v \<longrightarrow>
      fst (CheckResultDefault L r run s) = Err (Errorf ''%s'' [sl_assert L ''result'']))"
proof -
  obtain s1 where g: "get_result L (fd_ExpectRunResult f \<noteq> None) run s = (got, s1)"
    using assms(2) by (metis prod.collapse)
  let ?err = "case got of Err e \<Rightarrow> Some e | _ \<Rightarrow> None"
  let ?actual = "\<lambda>x. case got of Ok (Some v) \<Rightarrow> v | _ \<Rightarrow> sl_zero L x"
  let ?then = "case fd_ExpectRunResult f of None \<Rightarrow> ret ()
     | Some x \<Rightarrow> bindE (assert_that L ''result'' (sl_equal L x (?actual x))) CheckAssertion"
  show ?thesis
  proof (cases "\<exists>e. got = Panic e")
    case True
    then show ?thesis using g assms(1) by (auto simp: CheckResultDefault_def Let_def bindE_def attempt_def)
  next
    case False
    obtain x t where ce: "check_error L (fd_ExpectActivityError f) ?err s1 = (x, t)" "x = Ok () \<or> (\<exists>e. x = Err e)"
      using check_error_unit by blast
    have run: "CheckResultDefault L r run s = thenE (check_error L (fd_ExpectActivityError f) ?err) ?then s1"
      using False g assms(1)
      by (cases got) (auto simp: CheckResultDefault_def Let_def bindE_def attempt_def split: option.splits)
    have fin: "fst (?then t) = (case fd_ExpectRunResult f of None \<Rightarrow> Ok ()
       | Some x \<Rightarrow> if sl_equal L x (?actual x) then Ok () else Err (Errorf ''%s'' [sl_assert L ''result'']))"
      by (simp add: check_equal ret_def split: option.splits)
    have res: "fst (CheckResultDefault L r run s) = (if x = Ok () then fst (?then t) else x)"
      unfolding run using ce by (auto simp: thenE_def bindE_def)
    have ok: "x = Ok () \<longleftrightarrow> (if fd_ExpectActivityError f \<noteq> []
       then \<exists>e m i. got = Err e \<and> activity_error e = Some (ActivityError m i) \<and> error_text i = fd_ExpectActivityError f
       else \<exists>v. got = Ok v)"
      using check_error_Ok [of L "fd_ExpectActivityError f" ?err s1] ce(1) False by (cases got) auto
    show ?thesis unfolding res fin ok [symmetric] using ok by (auto split: option.splits)
  qed
qed

theorem check_result_accepts_witness:
  "fst (CheckResultDefault sample_sdk sample_runner \<lparr>wr_ID = [], wr_RunID = ''r''\<rparr> (calm_harness [])) = Ok ()"
  using check_result_accepts [OF refl refl, of sample_sdk sample_runner "\<lparr>wr_ID = [], wr_RunID = ''r''\<rparr>" "calm_harness []"]
  by (simp add: sample_runner_def sample_feature_def zero_feature_def get_result_def bindE_def act_def Let_def
      calm_harness_def calm_net_def net_world.defs world.defs ret_def)

lemma replay_versions_Ok:
  "replay_versions L r vs = Ok () \<longleftrightarrow>
     (\<forall>(v, hs) \<in> set vs. sl_semver_Compare L v (sl_SDKVersion L) \<le> 0 \<longrightarrow> ReplayHistories L r hs = Ok ())"
  by (induction L r vs rule: replay_versions.induct) (auto split: res.splits)

lemma replay_all_Ok: "replay_all L ws hs = Ok () \<longleftrightarrow> (\<forall>h \<in> set hs. sl_replay L ws h = None)"
  by (induction L ws hs rule: replay_all.induct) (auto split: option.splits)

text \<open>
  C15: what the default check of the history accepts. Unless the environment turns it off, it succeeds
  exactly when the histories of this run can be fetched, the stored ones loaded, and every history of
  this run and of each stored version that is not later than the SDK's replays without an error, with a
  replayer that knows the workflows of the feature. Stored histories of later versions do not matter.
\<close>

theorem check_history_accepts:
  assumes "Getenv ''TEMPORAL_FEATURES_DISABLE_WORKFLOW_COMPLETION_CHECK'' s = []"
    "sl_new_replayer L (co_DataConverter (fd_ClientOptions (pf_Feature (rn_Feature r)))) = None"
    "st = \<lparr>st_Dir = PathJoin [pf_AbsDir (rn_Feature r), ''history''], st_Lang = ''go''\<rparr>"
    "ws = map workflow_registration (pf_Workflows (rn_Feature r))"
  shows "fst (CheckHistoryDefault P L fetch r run s) = Ok () \<longleftrightarrow>
    (\<exists>hs vs. fetch (runner_fetcher r) = Ok hs \<and> fst (Load P st s) = Ok vs \<and> (\<forall>h \<in> set hs. sl_replay L ws h = None) \<and>
       (\<forall>(v, hs') \<in> set vs. sl_semver_Compare L v (sl_SDKVersion L) \<le> 0 \<longrightarrow> (\<forall>h \<in> set hs'. sl_replay L ws h = None)))"
proof -
  have rh: "ReplayHistories L r hs = Ok () \<longleftrightarrow> (\<forall>h \<in> set hs. sl_replay L ws h = None)" for hs
    using assms(2,4) by (simp add: ReplayHistories_def replay_all_Ok)
  have "fst (CheckHistoryDefault P L fetch r run s) = Ok () \<longleftrightarrow>
    (\<exists>hs vs. fetch (runner_fetcher r) = Ok hs \<and> fst (Load P st s) = Ok vs \<and> ReplayHistories L r hs = Ok () \<and>
       replay_versions L r vs = Ok ())"
    using assms(1)
    by (cases "Load P st s"; cases "fst (Load P st s)"; cases "fetch (runner_fetcher r)")
      (auto simp: CheckHistoryDefault_def bindE_def thenE_def wrapE_def of_res_def asks_def assms(3) [symmetric]
        split: res.splits)
  then show ?thesis by (simp add: rh replay_versions_Ok)
qed

theorem check_history_accepts_witness:
  "fst (CheckHistoryDefault sample_proto sample_sdk (\<lambda>_. Ok [VNil]) sample_runner \<lparr>wr_ID = [], wr_RunID = ''r''\<rparr>
     (calm_harness [])) = Ok ()"
proof -
  have "Load sample_proto \<lparr>st_Dir = ''/r/features/a/b/history'', st_Lang = ''go''\<rparr> (calm_harness []) =
      (Ok [], calm_harness [])"
    by (simp add: Load_def attempt_def bindE_def os_ReadDir_def thenE_def faulty_def is_dir_def calm_harness_def
        calm_net_def calm_world_def net_world.defs world.defs abs_path_def Let_def not_exist_def has_kind_def ret_def)
  moreover have "PathJoin [''/r/features/a/b'', ''history''] = ''/r/features/a/b/history''" by code_simp
  ultimately show ?thesis
    by (subst check_history_accepts [OF _ _ refl refl])
      (auto simp: sample_sdk_def sample_runner_def sample_feature_def Getenv_def LookupEnv_def calm_harness_def
        calm_net_def calm_world_def net_world.defs world.defs)
qed

end
