(* ===== verification/Summary.thy ===== *)
theory Summary
  imports Batching
begin

text \<open>
  The summary stream between a language harness and the runner: the line a harness writes for a feature
  (the deferred function of \<open>Run\<close> in \<open>harness/go/cmd/run.go\<close>) and the server that reads the lines
  (\<open>summaryServer\<close> of \<open>cmd/run.go\<close>). The locale \<open>line_channel\<close> is the contract between the two: an
  encoding without newlines that decodes from a whole line.
\<close>

section \<open>Writing\<close>

definition FeaturePassed :: string where "FeaturePassed = ''PASSED''"
definition FeatureFailed :: string where "FeatureFailed = ''FAILED''"
definition FeatureSkipped :: string where "FeatureSkipped = ''SKIPPED''"

definition entry_json :: "SummaryEntry \<Rightarrow> json" where
  "entry_json e = JObj [(''name'', JStr (s_Name e)), (''outcome'', JStr (s_Outcome e)), (''message'', JStr (s_Message e))]"

definition entry_text :: "SummaryEntry \<Rightarrow> string" where
  "entry_text e = Marshal (entry_json e)"

definition entry_line :: "SummaryEntry \<Rightarrow> string" where
  "entry_line e = entry_text e @ [newline]"

section \<open>Reading\<close>

text \<open>The complete lines of what was read; what follows the last newline is dropped at the end of the stream.\<close>

definition complete_lines :: "string \<Rightarrow> string list" where
  "complete_lines data = map (\<lambda>l. l @ [newline]) (butlast (Split newline data))"

definition decode_entry :: "json \<Rightarrow> SummaryEntry res" where
  "decode_entry j = decode_struct (\<lambda>k v r.
      if fold_eq k ''name'' then set_string (\<lambda>s r. r\<lparr>s_Name := s\<rparr>) v r
      else if fold_eq k ''outcome'' then set_string (\<lambda>s r. r\<lparr>s_Outcome := s\<rparr>) v r
      else if fold_eq k ''message'' then set_string (\<lambda>s r. r\<lparr>s_Message := s\<rparr>) v r
      else Ok r) j \<lparr>s_Name = [], s_Outcome = [], s_Message = []\<rparr>"

text \<open>A line that does not decode is logged and skipped.\<close>

definition read_entry :: "string \<Rightarrow> SummaryEntry option" where
  "read_entry line =
     (case parse_res line of Ok j \<Rightarrow> (case decode_entry j of Ok e \<Rightarrow> Some e | _ \<Rightarrow> None) | _ \<Rightarrow> None)"

text \<open>
  What the connection gives: \<open>None\<close> when the listener is closed first, otherwise the bytes read and the
  error that ended the reading, if it was not the end of the stream. The result \<open>None\<close> is a closed
  channel.
\<close>

definition summaryServer :: "(string \<times> go_error option) option \<Rightarrow> Summary option" where
  "summaryServer conn =
     (case conn of
        None \<Rightarrow> None
      | Some (data, Some e) \<Rightarrow> None
      | Some (data, None) \<Rightarrow> Some (List.map_filter read_entry (complete_lines data)))"

section \<open>Lines\<close>

lemma butlast_Split_line: "newline \<notin> set l \<Longrightarrow> butlast (Split newline (l @ newline # s)) = l # butlast (Split newline s)"
  by (simp add: Split_append)

lemma complete_lines_line: "newline \<notin> set l \<Longrightarrow> complete_lines ((l @ [newline]) @ s) = (l @ [newline]) # complete_lines s"
  by (simp add: complete_lines_def butlast_Split_line)

lemma complete_lines_rest: "newline \<notin> set l \<Longrightarrow> complete_lines l = []"
  by (simp add: complete_lines_def Split_free)

locale line_channel =
  fixes encode :: "'e \<Rightarrow> string" and decode :: "string \<Rightarrow> 'e option"
  assumes encode_line: "newline \<notin> set (encode e)"
    and decode_encode: "decode (encode e @ [newline]) = Some e"
begin

lemma received:
  "newline \<notin> set rest \<Longrightarrow>
     List.map_filter decode (complete_lines (concat (map (\<lambda>e. encode e @ [newline]) es) @ rest)) = es"
proof (induction es)
  case Nil
  then show ?case by (simp add: complete_lines_rest List.map_filter_def)
next
  case (Cons e es)
  have "complete_lines (concat (map (\<lambda>e. encode e @ [newline]) (e # es)) @ rest) =
      (encode e @ [newline]) # complete_lines (concat (map (\<lambda>e. encode e @ [newline]) es) @ rest)"
    using complete_lines_line [OF encode_line, of e "concat (map (\<lambda>e. encode e @ [newline]) es) @ rest"] by simp
  then show ?case using Cons by (simp add: decode_encode List.map_filter_def)
qed

end

section \<open>JSON on a line\<close>

context json_layout begin

lemma json_parse_print_ws:
  assumes "wf_json j" "list_all is_ws t" "num_stop t"
  shows "json_parse (print_json nl sp 0 j @ t) = Some j"
proof -
  have "need j \<le> 2 * length (print_json nl sp 0 j @ t) + 2"
    using need_bound(1) [OF assms(1), of 0] by simp
  then have "parse_value (2 * length (print_json nl sp 0 j @ t) + 2) (print_json nl sp 0 j @ t) = Some (j, t)"
    by (rule parse_print(1) [OF assms(1) _ assms(3)])
  moreover have "skip_ws t = []" using assms(2) by (simp add: skip_ws_def list_all_iff)
  ultimately show ?thesis by (simp add: json_parse_def)
qed

end

lemma hex_char_line: "n < 16 \<Longrightarrow> hex_char n \<noteq> newline"
proof -
  assume "n < 16"
  then have "(of_char (hex_char n) :: nat) \<noteq> of_char newline" by (simp add: hex_char_def)
  then show ?thesis by metis
qed

lemma esc_char_line: "newline \<notin> set (esc_char c)"
proof -
  have "(of_char c :: nat) div 16 < 16" using nat_of_char_less_256 [of c]
    by (simp add: div_less_iff_less_mult)
  then show ?thesis
    using hex_char_line [of "of_char c div 16"] hex_char_line [of "of_char c mod 16"]
    by (auto simp: esc_char_def Let_def)
qed

lemma json_string_line: "newline \<notin> set (json_string s)"
  using esc_char_line by (auto simp: json_string_def)

lemma compact_line:
  "wf_json j \<Longrightarrow> newline \<notin> set (print_json (\<lambda>_. []) [] d j)"
  "list_all wf_json xs \<Longrightarrow> newline \<notin> set (print_items (\<lambda>_. []) [] d xs)"
  "list_all (\<lambda>m. wf_json (snd m)) ms \<Longrightarrow> newline \<notin> set (print_members (\<lambda>_. []) [] d ms)"
proof (induction j and xs and ms arbitrary: d and d and d rule: json_induct)
  case (ConsItems x xs)
  then show ?case by simp
next
  case (ConsMembers k v ms)
  then show ?case by (simp add: json_string_line)
next
  case (NumV s)
  have "\<not> num_char newline" by (simp add: num_char_def)
  moreover have "list_all num_char s" using NumV by simp
  ultimately have "newline \<notin> set s" unfolding list_all_iff by metis
  then show ?case by simp
qed (simp_all add: json_string_line show_bool_def)

lemma Marshal_line: "wf_json j \<Longrightarrow> newline \<notin> set (Marshal j)"
  unfolding Marshal_def by (rule compact_line)

lemma read_entry_line: "read_entry (entry_text e @ [newline]) = Some e"
proof -
  have "json_parse (Marshal (entry_json e) @ [newline]) = Some (entry_json e)"
    unfolding Marshal_def
    by (rule compact.json_parse_print_ws) (simp_all add: entry_json_def is_ws_def num_stop_def num_char_def)
  moreover have "decode_entry (entry_json e) = Ok e"
    by (simp add: decode_entry_def entry_json_def fold_eq_def ToLower_def lower_char_def set_string_def)
  ultimately show ?thesis by (simp add: read_entry_def entry_text_def parse_res_def)
qed

interpretation entries: line_channel entry_text read_entry
  by unfold_locales (simp_all add: entry_text_def Marshal_line entry_json_def read_entry_line [unfolded entry_text_def entry_json_def])

lemma summaryServer_lines:
  "newline \<notin> set rest \<Longrightarrow> summaryServer (Some (concat (map entry_line es) @ rest, None)) = Some es"
  using entries.received [of rest es] by (simp add: summaryServer_def entry_line_def [abs_def])

section \<open>Properties\<close>



end
