(* ===== verification/Harness_Run.thy ===== *)
theory Harness_Run
  imports Harness_Runner Summary
begin

text \<open>
  The Go harness's command (\<open>harness/go/cmd/run.go\<close>): opening the summary, looking each feature up in
  the registry, running it, and writing one summary line for it by a deferred function, on every way
  out. \<open>url.Parse\<close> is a parameter that gives the scheme, the host and the path.
\<close>

section \<open>Running features\<close>

record harness_config =
  hr_Server :: string
  hr_Namespace :: string
  hr_ClientCertPath :: string
  hr_ClientKeyPath :: string
  hr_CACertPath :: string
  hr_SummaryURI :: string
  hr_HTTPProxyURL :: string
  hr_TLSServerName :: string

definition openSummary :: "(string \<Rightarrow> (string \<times> string \<times> string) res) \<Rightarrow> string \<Rightarrow> ('z net_world_scheme, unit) io" where
  "openSummary url_Parse uri = bindE (of_res (url_Parse uri)) (\<lambda>(scheme, host, path).
     if scheme = ''tcp'' then act_unit (AOpenSummary ''tcp'' host)
     else if scheme = ''file'' then act_unit (AOpenSummary ''file'' path)
     else fail (Errorf ''unsupported summary scheme: %q'' [scheme]))"

definition find_feature :: "'w PreparedFeature list \<Rightarrow> string \<Rightarrow> 'w PreparedFeature option" where
  "find_feature allFeatures dir = find (\<lambda>p. pf_Dir p = dir) allFeatures"

definition with_mutator :: "'w PreparedFeature \<Rightarrow> 'w PreparedFeature" where
  "with_mutator p = (let f = pf_Feature p in
     if fd_StartWorkflowOptionsMutator f = None
     then p\<lparr>pf_Feature := f\<lparr>fd_StartWorkflowOptionsMutator := Some (\<lambda>opts. opts)\<rparr>\<rparr> else p)"

definition runner_config :: "harness_config \<Rightarrow> RunFeature \<Rightarrow> RunnerConfig" where
  "runner_config c f = \<lparr>hc_ServerHostPort = hr_Server c, hc_Namespace = hr_Namespace c, hc_TaskQueue = f_TaskQueue f,
     hc_NexusEndpoint = f_NexusEndpoint f, hc_ClientCertPath = hr_ClientCertPath c,
     hc_ClientKeyPath = hr_ClientKeyPath c, hc_CACertPath = hr_CACertPath c, hc_Log = Some ''zap'',
     hc_HTTPProxyURL = hr_HTTPProxyURL c, hc_TLSServerName = hr_TLSServerName c\<rparr>"

definition write_entry :: "SummaryEntry \<Rightarrow> 'z net_world_scheme \<Rightarrow> 'z net_world_scheme" where
  "write_entry e = act_ignore (AWriteSummary (entry_line e))"

text \<open>
  One feature: the entry is as it was last set when the function is left, so a panic leaves the initial
  outcome. The counter and the text of failures are threaded through.
\<close>

definition run_one ::
  "proto_api \<Rightarrow> sdk_lib \<Rightarrow> (Fetcher \<Rightarrow> Histories res) \<Rightarrow> harness_config \<Rightarrow> 'z harness_state_scheme PreparedFeature list
     \<Rightarrow> RunFeature \<Rightarrow> nat \<times> string \<Rightarrow> ('z harness_state_scheme, nat \<times> string) io" where
  "run_one P L fetch c allFeatures rf acc =
     (case find_feature allFeatures (f_Dir rf) of
        None \<Rightarrow> fail (Errorf ''feature %v not found, did you add it to features.go?'' [f_Dir rf])
      | Some feature \<Rightarrow>
          let entry = \<lparr>s_Name = SummaryName rf, s_Outcome = FeaturePassed, s_Message = []\<rparr> in
          if fd_SkipReason (pf_Feature feature) \<noteq> [] then
            thenE (upd (write_entry (entry\<lparr>s_Outcome := FeatureSkipped, s_Message := fd_SkipReason (pf_Feature feature)\<rparr>)))
              (ret acc)
          else (\<lambda>s.
            case runFeature P L fetch (runner_config c rf) (with_mutator feature) s of
              (Ok _, s') \<Rightarrow> (Ok acc, write_entry entry s')
            | (Panic e, s') \<Rightarrow> (Panic e, write_entry entry s')
            | (Err e, s') \<Rightarrow>
                (case IsSkipError (Some e) of
                   Some reason \<Rightarrow> (Ok acc, write_entry (entry\<lparr>s_Outcome := FeatureSkipped, s_Message := reason\<rparr>) s')
                 | None \<Rightarrow>
                     (Ok (fst acc + 1, snd acc @ Sprintf (''Feature %v failed: %v'' @ [newline]) [pf_Dir feature, error_text e]),
                      write_entry (entry\<lparr>s_Outcome := FeatureFailed, s_Message := error_text e\<rparr>) s'))))"

definition RunHarness ::
  "(string \<Rightarrow> (string \<times> string \<times> string) res) \<Rightarrow> proto_api \<Rightarrow> sdk_lib \<Rightarrow> (Fetcher \<Rightarrow> Histories res) \<Rightarrow> harness_config
     \<Rightarrow> 'z harness_state_scheme registry \<Rightarrow> RunFeature list \<Rightarrow> ('z harness_state_scheme, unit) io" where
  "RunHarness url_Parse P L fetch c g features =
     (if features = [] then fail (Errorf ''no features to run'' [])
      else bindE (openSummary url_Parse (hr_SummaryURI c)) (\<lambda>_.
        deferE (act_ignore ACloseSummary)
          (bindE (fold_io (run_one P L fetch c (RegisteredFeatures g)) features (0, [])) (\<lambda>(n, txt).
             if n > 0 then fail (Errorf (''%v failure(s) reported:'' @ [newline] @ ''%s'') [show_nat n, txt]) else ret ()))))"

text \<open>The action of the command \<open>run\<close>: the arguments are decoded first.\<close>

definition run_action ::
  "(string \<Rightarrow> (string \<times> string \<times> string) res) \<Rightarrow> proto_api \<Rightarrow> sdk_lib \<Rightarrow> (Fetcher \<Rightarrow> Histories res) \<Rightarrow> harness_config
     \<Rightarrow> 'z harness_state_scheme registry \<Rightarrow> string list \<Rightarrow> ('z harness_state_scheme, unit) io" where
  "run_action url_Parse P L fetch c g args =
     bindE (of_res (FromArgs [] args)) (RunHarness url_Parse P L fetch c g)"

section \<open>What is written\<close>

definition written :: "'z net_world_scheme \<Rightarrow> string list" where
  "written w = List.map_filter (\<lambda>a. case a of AWriteSummary l \<Rightarrow> Some l | _ \<Rightarrow> None) (n_trace w)"

definition not_write :: "action \<Rightarrow> bool" where
  "not_write a = (case a of AWriteSummary l \<Rightarrow> False | _ \<Rightarrow> True)"

lemma written_act [simp]: "not_write a \<Longrightarrow> written (snd (act a w)) = written w"
  "not_write a \<Longrightarrow> written (act_ignore a w) = written w"
  by (simp_all add: written_def act_trace List.map_filter_def not_write_def split: action.splits)

lemma written_entry: "written (write_entry e w) = written w @ [entry_line e]"
  by (simp add: written_def write_entry_def List.map_filter_def)

lemma written_fields [simp]:
  "written (s\<lparr>h_Worker := b\<rparr>) = written s" "written (s\<lparr>h_Client := b\<rparr>) = written s"
  "written (s\<lparr>h_Registered := r\<rparr>) = written s" "written (s\<lparr>h_LastAssertErr := e\<rparr>) = written s"
  by (simp_all add: written_def)

lemma keeps_written_act [keeps_intros]:
  "not_write a \<Longrightarrow> keeps written (act a)" "not_write a \<Longrightarrow> keeps written (act_unit a)"
  unfolding act_unit_def by (auto intro!: keeps_intros simp: keeps_def [of written "act a"])

lemma not_write_simps [simp]:
  "not_write (ADial h n t)" "not_write (AStartWorker q)" "not_write (AStartWorkflow i q f)" "not_write (AGetResult r)"
  "not_write AStopWorker" "not_write ACloseClient" "not_write ACloseSummary" "not_write (AOpenSummary x y)"
  by (simp_all add: not_write_def)

lemma written_CloseRunner [simp]: "written (CloseRunner s) = written s"
  by (simp add: CloseRunner_def StopWorker_def Let_def)

lemma keeps_written_steps [keeps_intros]:
  fixes L :: sdk_lib
  shows "keeps written (StartWorker L c p :: ('z harness_state_scheme, _) io)"
    "keeps written (NewRunner L config p :: ('z harness_state_scheme, _) io)"
    "keeps written (ExecuteDefault r :: ('z harness_state_scheme, _) io)"
    "keeps written (CheckResultDefault L r run :: ('z harness_state_scheme, _) io)"
    "keeps written (CheckHistoryDefault P L fetch r run :: ('z harness_state_scheme, _) io)"
proof -
  show start: "keeps written (StartWorker L c p :: ('z harness_state_scheme, _) io)" for c and p :: "'w PreparedFeature"
    by (rule keeps_StartWorker) (simp_all add: keeps_written_act)
  show "keeps written (NewRunner L config p :: ('z harness_state_scheme, _) io)"
    unfolding NewRunner_def Let_def by (intro keeps_intros start) simp_all
  show "keeps written (ExecuteDefault r :: ('z harness_state_scheme, _) io)"
    by (rule keeps_ExecuteDefault) (simp add: keeps_written_act)
  show "keeps written (CheckResultDefault L r run :: ('z harness_state_scheme, _) io)"
    by (rule keeps_CheckResultDefault) (simp_all add: keeps_written_act)
  show "keeps written (CheckHistoryDefault P L fetch r run :: ('z harness_state_scheme, _) io)"
    by (rule keeps_CheckHistoryDefault)
qed

text \<open>The code of a feature does not write to the summary.\<close>

definition quiet_feature :: "'z harness_state_scheme PreparedFeature \<Rightarrow> bool" where
  "quiet_feature p = (let f = pf_Feature p in
     (\<forall>h c. fd_Execute f = Some h \<longrightarrow> keeps written (h c)) \<and>
     (\<forall>h c x. fd_CheckResult f = Some h \<longrightarrow> keeps written (h c x)) \<and>
     (\<forall>h c x. fd_CheckHistory f = Some h \<longrightarrow> keeps written (h c x)))"

lemma keeps_hook:
  "(\<And>h. hook = Some h \<Longrightarrow> keeps f (h c)) \<Longrightarrow> keeps f (d c) \<Longrightarrow> keeps f (or_default hook d c)"
  "(\<And>k. hook2 = Some k \<Longrightarrow> keeps f (k c x)) \<Longrightarrow> keeps f (d2 c x) \<Longrightarrow> keeps f (or_default hook2 d2 c x)"
  by (simp_all add: or_default_def split: option.splits)

lemma keeps_case_option:
  "keeps f a \<Longrightarrow> (\<And>x. keeps f (g x)) \<Longrightarrow> keeps f (case_option a g opt)"
  by (simp split: option.splits)

lemma written_run_steps: "quiet_feature (rn_Feature r) \<Longrightarrow> keeps written (run_steps P L fetch r)"
  unfolding run_steps_def Let_def
  by (intro keeps_bindE keeps_hook keeps_case_option keeps_thenE)
    (auto simp: quiet_feature_def Let_def intro!: keeps_intros)

lemma quiet_with_mutator: "quiet_feature p \<Longrightarrow> quiet_feature (with_mutator p)"
  by (simp add: quiet_feature_def with_mutator_def Let_def)

lemma quiet_runner_feature: "quiet_feature p \<Longrightarrow> quiet_feature (runner_feature co p)"
  by (simp add: quiet_feature_def runner_feature_def Let_def)

lemma NewRunner_feature:
  "NewRunner L config p s = (Ok r, s') \<Longrightarrow> \<exists>co. rn_Feature r = runner_feature co p"
  by (auto simp: NewRunner_def Let_def defer_unless_ok_def thenE_def bindE_def upd_def ret_def
      split: prod.splits res.splits)

lemma written_runFeature: "quiet_feature p \<Longrightarrow> written (snd (runFeature P L fetch c p s)) = written s"
proof -
  assume q: "quiet_feature p"
  obtain x s1 where n: "NewRunner L c p s = (x, s1)" by force
  have w: "written s1 = written s" by (rule keepsD [OF keeps_written_steps(2) n])
  show ?thesis
  proof (cases x)
    case (Ok r)
    with n obtain co where "rn_Feature r = runner_feature co p" using NewRunner_feature by blast
    then have k: "keeps written (run_steps P L fetch r)" using q by (simp add: written_run_steps quiet_runner_feature)
    show ?thesis
      using k w by (cases "run_steps P L fetch r s1")
        (auto simp: runFeature_def bindE_def wrapE_def n Ok deferE_def RunRunner_def dest: keepsD)
  qed (use n w in \<open>simp_all add: runFeature_def bindE_def wrapE_def\<close>)
qed

text \<open>What one feature adds to the summary, by the way its run ends.\<close>

definition outcomes :: "string set" where
  "outcomes = {FeaturePassed, FeatureFailed, FeatureSkipped}"

definition failures :: "SummaryEntry list \<Rightarrow> nat" where
  "failures es = length (filter (\<lambda>e. s_Outcome e = FeatureFailed) es)"

lemmas outcome_defs = outcomes_def FeaturePassed_def FeatureFailed_def FeatureSkipped_def

lemma run_one_entry:
  assumes "find_feature all (f_Dir rf) = Some p" "quiet_feature p" "run_one P L fetch c all rf acc s = (x, s')"
  shows "\<exists>e. written s' = written s @ [entry_line e] \<and> s_Name e = SummaryName rf \<and> s_Outcome e \<in> outcomes \<and>
    (case x of Ok acc' \<Rightarrow> fst acc' = fst acc + failures [e] | Err _ \<Rightarrow> False | Panic _ \<Rightarrow> s_Outcome e = FeaturePassed)"
proof -
  obtain y t where r: "runFeature P L fetch (runner_config c rf) (with_mutator p) s = (y, t)" by force
  have w: "written t = written s"
    using written_runFeature [OF quiet_with_mutator [OF assms(2)], of P L fetch "runner_config c rf" s] r by simp
  let ?entry = "\<lparr>s_Name = SummaryName rf, s_Outcome = FeaturePassed, s_Message = []\<rparr>"
  show ?thesis
  proof (cases "fd_SkipReason (pf_Feature p) = []")
    case False
    then show ?thesis using assms(1,3)
      by (intro exI [of _ "?entry\<lparr>s_Outcome := FeatureSkipped, s_Message := fd_SkipReason (pf_Feature p)\<rparr>"])
        (auto simp: run_one_def Let_def thenE_def bindE_def upd_def ret_def written_entry failures_def outcome_defs)
  next
    case True
    show ?thesis
    proof (cases y)
      case (Err e)
      show ?thesis
      proof (cases "IsSkipError (Some e)")
        case None
        with Err True show ?thesis using assms(1,3) r w
          by (intro exI [of _ "?entry\<lparr>s_Outcome := FeatureFailed, s_Message := error_text e\<rparr>"])
            (auto simp: run_one_def Let_def written_entry failures_def outcome_defs)
      next
        case (Some reason)
        with Err True show ?thesis using assms(1,3) r w
          by (intro exI [of _ "?entry\<lparr>s_Outcome := FeatureSkipped, s_Message := reason\<rparr>"])
            (auto simp: run_one_def Let_def written_entry failures_def outcome_defs)
      qed
    qed (use True assms(1,3) r w in
        \<open>intro exI [of _ ?entry]; auto simp: run_one_def Let_def written_entry failures_def outcome_defs\<close>)+
  qed
qed

lemma fold_run_entries:
  assumes "fold_io (run_one P L fetch c all) fs acc s = (x, s')"
    "\<forall>f \<in> set fs. find_feature all (f_Dir f) \<noteq> None" "\<forall>p \<in> set all. quiet_feature p"
  shows "\<exists>es. written s' = written s @ map entry_line es \<and> (\<forall>e \<in> set es. s_Outcome e \<in> outcomes) \<and>
    map s_Name es = take (length es) (map SummaryName fs) \<and>
    (case x of Ok acc' \<Rightarrow> length es = length fs \<and> fst acc' = fst acc + failures es
     | Err _ \<Rightarrow> False | Panic _ \<Rightarrow> es \<noteq> [] \<and> s_Outcome (last es) = FeaturePassed)"
  using assms
proof (induction fs arbitrary: acc s)
  case Nil
  then show ?case by (intro exI [of _ "[]"]) (auto simp: ret_def failures_def)
next
  case (Cons f fs)
  obtain y t where r: "run_one P L fetch c all f acc s = (y, t)" by force
  from Cons.prems(2) obtain p where p: "find_feature all (f_Dir f) = Some p" by auto
  then have "p \<in> set all" unfolding find_feature_def by (auto simp: find_Some_iff)
  with Cons.prems(3) have "quiet_feature p" by blast
  from run_one_entry [OF p this r] obtain e where e: "written t = written s @ [entry_line e]" "s_Name e = SummaryName f"
    "s_Outcome e \<in> outcomes"
    "case y of Ok acc' \<Rightarrow> fst acc' = fst acc + failures [e] | Err _ \<Rightarrow> False | Panic _ \<Rightarrow> s_Outcome e = FeaturePassed"
    by blast
  show ?case
  proof (cases y)
    case (Ok acc')
    with r Cons.prems(1) have "fold_io (run_one P L fetch c all) fs acc' t = (x, s')" by (simp add: bindE_def)
    from Cons.IH [OF this] Cons.prems(2,3) obtain es where es: "written s' = written t @ map entry_line es"
      "\<forall>e \<in> set es. s_Outcome e \<in> outcomes" "map s_Name es = take (length es) (map SummaryName fs)"
      "case x of Ok a \<Rightarrow> length es = length fs \<and> fst a = fst acc' + failures es
       | Err _ \<Rightarrow> False | Panic _ \<Rightarrow> es \<noteq> [] \<and> s_Outcome (last es) = FeaturePassed" by auto
    show ?thesis using e es Ok
      by (intro exI [of _ "e # es"]) (auto simp: failures_def split: res.splits)
  next
    case (Err z)
    with e show ?thesis by simp
  next
    case (Panic z)
    with r Cons.prems(1) have "x = Panic z" "s' = t" by (simp_all add: bindE_def)
    then show ?thesis using e Panic by (intro exI [of _ "[e]"]) auto
  qed
qed

definition sample_harness_config :: harness_config where
  "sample_harness_config = \<lparr>hr_Server = [], hr_Namespace = [], hr_ClientCertPath = [], hr_ClientKeyPath = [],
     hr_CACertPath = [], hr_SummaryURI = ''tcp://h'', hr_HTTPProxyURL = [], hr_TLSServerName = []\<rparr>"

definition sample_run_feature :: RunFeature where
  "sample_run_feature =
     \<lparr>f_Dir = ''a/b'', f_TaskQueue = ''q'', f_NexusEndpoint = [], f_Config = zero_config, f_VariantName = []\<rparr>"

definition passing_feature :: "harness_state PreparedFeature" where
  "passing_feature = sample_feature\<lparr>pf_Feature := zero_feature\<lparr>fd_Execute := Some (\<lambda>_. ret None)\<rparr>\<rparr>"

lemma passing_run:
  assumes "x_answer s = (\<lambda>_ _. None)"
  shows "fst (runFeature P sample_sdk fetch (runner_config sample_harness_config sample_run_feature)
    (with_mutator passing_feature) s) = Ok ()"
  using assms
  by (simp add: runFeature_def NewRunner_def LoadTLSConfig_def StartWorker_def registrations_def register_def
    runner_config_def with_mutator_def passing_feature_def sample_feature_def sample_harness_config_def
    sample_run_feature_def zero_feature_def runner_feature_def runner_options_def with_defaults_def sample_sdk_def
    io_defs act_unit_def act_def Let_def workflow_registration_def RunRunner_def run_steps_def or_default_def)

section \<open>Properties\<close>

text \<open>
  C17: what a harness run reports. When every feature of the run is registered and the code of the features
  leaves the summary alone, the run writes one line for each feature, in order, with its summary name
  and one of the three outcomes, and the runner's server reads exactly these entries. The run succeeds
  exactly when all lines are written and none says FAILED. A feature that panics stops the run, and its
  line, the last one, says PASSED.
\<close>

theorem harness_reports:
  assumes "features \<noteq> []" "openSummary url_Parse (hr_SummaryURI c) s = (Ok (), s0)"
    "\<forall>f \<in> set features. find_feature (RegisteredFeatures g) (f_Dir f) \<noteq> None"
    "\<forall>p \<in> set (RegisteredFeatures g). quiet_feature p"
    "RunHarness url_Parse P L fetch c g features s = (x, s')"
  shows "\<exists>es. written s' = written s0 @ map entry_line es \<and>
    summaryServer (Some (concat (drop (length (written s0)) (written s')), None)) = Some es \<and>
    (\<forall>e \<in> set es. s_Outcome e \<in> {FeaturePassed, FeatureFailed, FeatureSkipped}) \<and>
    map s_Name es = take (length es) (featureSummaryNames features) \<and>
    (case x of
       Ok _ \<Rightarrow> length es = length features \<and> FeatureFailed \<notin> s_Outcome ` set es
     | Err _ \<Rightarrow> length es = length features \<and> FeatureFailed \<in> s_Outcome ` set es
     | Panic _ \<Rightarrow> es \<noteq> [] \<and> s_Outcome (last es) = FeaturePassed)"
proof -
  obtain y t where f: "fold_io (run_one P L fetch c (RegisteredFeatures g)) features (0, []) s0 = (y, t)" by force
  from fold_run_entries [OF f assms(3,4)] obtain es where es: "written t = written s0 @ map entry_line es"
    "\<forall>e \<in> set es. s_Outcome e \<in> outcomes" "map s_Name es = take (length es) (map SummaryName features)"
    "case y of Ok a \<Rightarrow> length es = length features \<and> fst a = failures es
     | Err _ \<Rightarrow> False | Panic _ \<Rightarrow> es \<noteq> [] \<and> s_Outcome (last es) = FeaturePassed"
    unfolding fst_conv add_0 by blast
  have fail: "0 < failures es \<longleftrightarrow> FeatureFailed \<in> s_Outcome ` set es"
    by (simp add: failures_def filter_empty_conv image_iff) metis
  have run: "x = (case y of Ok (n, txt) \<Rightarrow>
        if n > 0 then Err (Errorf (''%v failure(s) reported:'' @ [newline] @ ''%s'') [show_nat n, txt]) else Ok ()
      | Err e \<Rightarrow> Err e | Panic e \<Rightarrow> Panic e)" "s' = act_ignore ACloseSummary t"
    using assms(1,2,5) f
    by (auto simp: RunHarness_def bindE_def deferE_def fail_def ret_def split: res.splits prod.splits if_splits)
  have "written s' = written s0 @ map entry_line es" using es(1) run(2) by simp
  moreover have "summaryServer (Some (concat (map entry_line es), None)) = Some es"
    using summaryServer_lines [of "[]" es] by simp
  ultimately show ?thesis
    using es(2-4) run(1) fail
    by (intro exI [of _ es]) (cases y; auto simp: outcomes_def featureSummaryNames_def split: if_splits)
qed

theorem harness_reports_witness:
  "\<exists>s' e. RunHarness (\<lambda>_. Ok (''tcp'', ''h'', [])) sample_proto sample_sdk (\<lambda>_. Ok []) sample_harness_config
       \<lparr>g_Features = [passing_feature], g_Commands = []\<rparr>
       [sample_run_feature] (calm_harness []) = (Ok (), s') \<and>
     written s' = [entry_line e] \<and> s_Name e = ''a/b'' \<and> s_Outcome e \<noteq> FeatureFailed"
proof -
  let ?u = "\<lambda>_. Ok (''tcp'', ''h'', [])"
  let ?f = sample_run_feature
  let ?p = passing_feature
  let ?g = "\<lparr>g_Features = [?p], g_Commands = []\<rparr>"
  let ?c = sample_harness_config
  note open_defs = openSummary_def of_res_def bindE_def act_unit_def act_def Let_def calm_harness_def calm_net_def
    net_world.defs world.defs calm_world_def ret_def
  obtain x s' where r: "RunHarness ?u sample_proto sample_sdk (\<lambda>_. Ok []) ?c ?g [?f] (calm_harness []) = (x, s')" by force
  obtain s0 where o: "openSummary ?u (hr_SummaryURI ?c) (calm_harness []) = (Ok (), s0)"
    and w: "written s0 = []" and ans: "x_answer s0 = (\<lambda>_ _. None)"
    by (simp add: open_defs written_def)
  have found: "find_feature (RegisteredFeatures ?g) (f_Dir ?f) = Some ?p"
    by (simp add: find_feature_def RegisteredFeatures_def passing_feature_def sample_feature_def sample_run_feature_def)
  then have f: "\<forall>f \<in> set [?f]. find_feature (RegisteredFeatures ?g) (f_Dir f) \<noteq> None" by simp
  have q: "\<forall>p \<in> set (RegisteredFeatures ?g). quiet_feature p"
    by (simp add: quiet_feature_def passing_feature_def zero_feature_def RegisteredFeatures_def keeps_pure)
  have n: "featureSummaryNames [?f] = [''a/b'']"
    by (simp add: featureSummaryNames_def SummaryName_def sample_run_feature_def)
  have skip: "fd_SkipReason (pf_Feature ?p) = []" by (simp add: passing_feature_def zero_feature_def)
  from fst_res [OF passing_run [OF ans]] obtain s1 where
    "runFeature sample_proto sample_sdk (\<lambda>_. Ok []) (runner_config ?c ?f) (with_mutator ?p) s0 = (Ok (), s1)"
    by (rule that)
  then obtain s2 where one: "run_one sample_proto sample_sdk (\<lambda>_. Ok []) ?c (RegisteredFeatures ?g) ?f (0, []) s0 = (Ok (0, []), s2)"
    using skip by (simp add: run_one_def found Let_def)
  have ok: "x = Ok ()"
    using r unfolding RunHarness_def fold_io.simps by (simp add: bindE_def deferE_def o one ret_def)
  have ne: "[?f] \<noteq> []" by simp
  from harness_reports [OF ne o f q r] obtain es where es: "written s' = map entry_line es" "length es = 1"
      "map s_Name es = take (length es) [''a/b'']" "FeatureFailed \<notin> s_Outcome ` set es"
    unfolding n w ok by auto
  then obtain e where "es = [e]" by (cases es) auto
  with es r ok show ?thesis by (intro exI [of _ s'] exI [of _ e]) auto
qed

text \<open>
  C18: a skip reason declared by a feature never gives the outcome SKIPPED. Of the features registered from
  declarations, none that has a skip reason is found by a directory the runner could ask for (a
  non-empty one): preparing it returns before its directory is derived. The branch of \<open>Run\<close> that
  reports it as skipped is not reached; the run ends with the error that the feature is not found.
\<close>

theorem skip_reason_not_found:
  assumes "MustRegisterFeatures declared \<lparr>g_Features = [], g_Commands = []\<rparr> = (Ok (), g)" "f_Dir rf \<noteq> []"
  shows "(case find_feature (RegisteredFeatures g) (f_Dir rf) of
      None \<Rightarrow> run_one P L fetch c (RegisteredFeatures g) rf acc s =
        (Err (Errorf ''feature %v not found, did you add it to features.go?'' [f_Dir rf]), s)
    | Some p \<Rightarrow> fd_SkipReason (pf_Feature p) = [])"
proof -
  have prep: "PrepareFeature f = Ok p \<Longrightarrow> fd_SkipReason (pf_Feature p) \<noteq> [] \<Longrightarrow> pf_Dir p = []" for f p
    by (auto simp: PrepareFeature_def Let_def split: res.splits if_splits prod.splits)
  have reg: "MustRegisterFeatures ds g0 = (Ok (), g1) \<Longrightarrow>
      \<forall>p \<in> set (g_Features g0). fd_SkipReason (pf_Feature p) \<noteq> [] \<longrightarrow> pf_Dir p = [] \<Longrightarrow>
      \<forall>p \<in> set (g_Features g1). fd_SkipReason (pf_Feature p) \<noteq> [] \<longrightarrow> pf_Dir p = []" for ds g0 g1
  proof (induction ds arbitrary: g0)
    case Nil
    then show ?case by (simp add: MustRegisterFeatures_def ret_def)
  next
    case (Cons d ds)
    show ?case
    proof (cases "PrepareFeature d")
      case (Ok p)
      with Cons.prems(1) have "MustRegisterFeatures ds (g0\<lparr>g_Features := g_Features g0 @ [p]\<rparr>) = (Ok (), g1)"
        by (simp add: MustRegisterFeatures_def)
      then show ?thesis by (rule Cons.IH) (use Cons.prems(2) prep [OF Ok] in auto)
    qed (use Cons.prems(1) in \<open>simp_all add: MustRegisterFeatures_def thenE_def bindE_def panic_def\<close>)
  qed
  show ?thesis
  proof (cases "find_feature (RegisteredFeatures g) (f_Dir rf)")
    case None
    then show ?thesis by (simp add: run_one_def fail_def)
  next
    case (Some p)
    then have "p \<in> set (g_Features g)" "pf_Dir p = f_Dir rf"
      unfolding find_feature_def RegisteredFeatures_def by (auto simp: find_Some_iff)
    with reg [OF assms(1)] assms(2) Some show ?thesis by auto
  qed
qed

theorem skip_reason_not_found_witness:
  "\<exists>g. MustRegisterFeatures [zero_feature\<lparr>fd_SkipReason := ''no''\<rparr>] \<lparr>g_Features = [], g_Commands = []\<rparr> = (Ok (), g) \<and>
     fst (run_one sample_proto sample_sdk (\<lambda>_. Ok []) sample_harness_config (RegisteredFeatures g) sample_run_feature
       (0, []) (calm_harness [])) = Err (Errorf ''feature %v not found, did you add it to features.go?'' [''a/b''])"
proof -
  let ?d = "[zero_feature\<lparr>fd_SkipReason := ''no''\<rparr>] :: harness_state Feature list" and ?empty = "\<lparr>g_Features = [], g_Commands = []\<rparr>"
  obtain p where p: "PrepareFeature (hd ?d) = Ok p" "pf_Dir p = []"
    by (simp add: PrepareFeature_def zero_feature_def rawToSlice_def Let_def)
  let ?g = "?empty\<lparr>g_Features := [p]\<rparr>"
  have m: "MustRegisterFeatures ?d ?empty = (Ok (), ?g)"
    using p(1) by (simp add: MustRegisterFeatures_def ret_def)
  have "find_feature (RegisteredFeatures ?g) (f_Dir sample_run_feature) = None"
    using p(2) by (simp add: find_feature_def RegisteredFeatures_def sample_run_feature_def)
  then show ?thesis
    using m skip_reason_not_found [OF m, of sample_run_feature sample_proto sample_sdk "\<lambda>_. Ok []" sample_harness_config "(0, [])" "calm_harness []"]
    by (auto simp: sample_run_feature_def)
qed

end
