(* ===== verification/Run_External.thy ===== *)
theory Run_External
  imports Languages Sdk_Programs Harness_Run
begin

text \<open>
  Preparing programs (\<open>Preparer\<close> of \<open>cmd/prepare.go\<close> and \<open>cmd/run_*.go\<close>) and running features in them as
  separate processes (\<open>Run*External\<close> of \<open>cmd/run_*.go\<close>): the options a language's builder is given, the
  arguments its harness gets, and the command that is run.
\<close>

section \<open>State\<close>

text \<open>The state of the top-level \<open>Runner\<close>: its current program and its configuration, beside the services.\<close>

record runner_state = harness_state +
  u_Program :: "Program option"
  u_Config :: RunConfig

record PrepareConfig =
  p_DirName :: string
  p_Lang :: string
  p_Version :: string

definition prepare_config :: "RunConfig \<Rightarrow> PrepareConfig" where
  "prepare_config c = \<lparr>p_DirName = r_DirName c, p_Lang = r_Lang c, p_Version = r_Version c\<rparr>"

text \<open>\<open>semver.IsValid\<close> and \<open>semver.Compare\<close>.\<close>

record semver_lib =
  sv_IsValid :: "string \<Rightarrow> bool"
  sv_Compare :: "string \<Rightarrow> string \<Rightarrow> int"

definition rootDir_of :: "string \<Rightarrow> string" where
  "rootDir_of currFile = DirOf (DirOf currFile)"

section \<open>Preparing\<close>

definition prepared :: "('p \<Rightarrow> Program) \<Rightarrow> ('w, 'p) io \<Rightarrow> ('w, Program) io" where
  "prepared f m = bindE (wrapE ''failed preparing: %w'' [] m) (\<lambda>p. ret (f p))"

definition go_mod_contents :: string where
  "go_mod_contents = Join [''module go.temporal.io/features-test'', [], ''go 1.20'', [],
     ''require github.com/temporalio/features/features v1.0.0'', ''require github.com/temporalio/features/harness/go v1.0.0'', [],
     ''replace github.com/temporalio/features/features => ../features'',
     ''replace github.com/temporalio/features/harness/go => ../harness/go'', [],
     ''replace github.com/cactus/go-statsd-client => github.com/cactus/go-statsd-client v3.2.1+incompatible''] [newline]"

definition go_main_contents :: string where
  \<open>go_main_contents = Join [''package main'', [], ''import ('', tab # ''"github.com/temporalio/features/harness/go/cmd"'',
     tab # ''_ "github.com/temporalio/features/features"'', '')'', [], ''func main() {'', tab # ''cmd.Execute()'', ''}''] [newline]\<close>

definition prepare_go :: "semver_lib \<Rightarrow> string \<Rightarrow> PrepareConfig \<Rightarrow> ('z world_scheme, Program) io" where
  "prepare_go V rootDir p = prepared GoProgram (BuildGoProgram
     \<lparr>o_Version = p_Version p, o_DirName = p_DirName p, o_Stdout = None, o_Stderr = None, o_BaseDir = rootDir,
      o_ApplyToCommand = None, og_SDKRepository = [], og_GoModContents = go_mod_contents,
      og_GoMainContents = go_main_contents, og_GoBuildTags = GoBuildTags (sv_IsValid V) (sv_Compare V) (p_Version p)\<rparr>)"

definition prepare_java :: "bool \<Rightarrow> string \<Rightarrow> PrepareConfig \<Rightarrow> ('z world_scheme, Program) io" where
  "prepare_java build rootDir p = prepared JavaProgram (BuildJavaProgram
     \<lparr>o_Version = p_Version p, o_DirName = p_DirName p, o_Stdout = None, o_Stderr = None, o_BaseDir = rootDir,
      o_ApplyToCommand = None, oj_HarnessDependency = ''io.temporal:features:0.1.0'',
      oj_MainClass = ''io.temporal.sdkfeatures.Main'', oj_Build = build\<rparr>)"

text \<open>The version the repository's \<open>package.json\<close> asks for.\<close>

definition package_version :: "string \<Rightarrow> ('z world_scheme, string) io" where
  "package_version rootDir =
     bindE (wrapE ''failed reading package.json: %w'' [] (os_ReadFile (PathJoin [rootDir, ''package.json'']))) (\<lambda>b.
     bindE (wrapE ''failed read top level package.json: %w'' [] (of_res
         (case parse_res b of
            Ok j \<Rightarrow> one_field ''dependencies'' (decode_map decode_string) j []
          | Err e \<Rightarrow> Err e
          | Panic e \<Rightarrow> Panic e))) (\<lambda>deps.
       (case map_of deps ''@temporalio/client'' of
          Some v \<Rightarrow> if v = [] then fail (Errorf ''version not found in package.json'' []) else ret v
        | None \<Rightarrow> fail (Errorf ''version not found in package.json'' []))))"

definition prepare_ts :: "string \<Rightarrow> PrepareConfig \<Rightarrow> ('z world_scheme, Program) io" where
  "prepare_ts rootDir p =
     bindE (if p_Version p = [] then package_version rootDir else ret (p_Version p)) (\<lambda>version.
       prepared TypeScriptProgram (BuildTypeScriptProgram
         \<lparr>o_Version = version, o_DirName = p_DirName p, o_Stdout = None, o_Stderr = None, o_BaseDir = rootDir,
          o_ApplyToCommand = None,
          ot_TSConfigPaths = [(''@temporalio/harness'', [''./tslib/harness/ts/harness.js'', ''../harness/ts/harness.ts''])],
          ot_Includes = [], ot_Excludes = [], ot_MoreDependencies = []\<rparr>))"

definition prepare_php :: "string \<Rightarrow> PrepareConfig \<Rightarrow> ('z world_scheme, Program) io" where
  "prepare_php rootDir p = prepared PhpProgram (BuildPhpProgram
     \<lparr>o_Version = p_Version p, o_DirName = p_DirName p, o_Stdout = None, o_Stderr = None, op_RootDir = rootDir\<rparr>)"

text \<open>
  The first line of \<open>pyproject.toml\<close> that mentions the SDK: what is between its first and its last double
  quote, nothing for the bare name. Without two quotes the slice expression panics.
\<close>

definition slice_out_of_range :: go_error where
  "slice_out_of_range = External OtherError ''runtime error: slice bounds out of range''"

fun pyproject_version :: "string list \<Rightarrow> string res" where
  "pyproject_version [] = Ok []"
| "pyproject_version (l # ls) = (let line = TrimSpace l in
     if Contains line ''temporalio'' then
       (case (IndexByte dquote line, LastIndexByte dquote line) of
          (Some i, Some j) \<Rightarrow>
            if i < j then let extracted = take (j - Suc i) (drop (Suc i) line) in
              Ok (if extracted \<noteq> ''temporalio'' then extracted else [])
            else Panic slice_out_of_range
        | _ \<Rightarrow> Panic slice_out_of_range)
     else pyproject_version ls)"

definition prepare_py :: "string \<Rightarrow> PrepareConfig \<Rightarrow> ('z world_scheme, Program) io" where
  "prepare_py rootDir p =
     bindE (if p_Version p \<noteq> [] then ret []
            else bindE (wrapE ''failed reading pyproject.toml: %w'' [] (os_ReadFile (PathJoin [rootDir, ''pyproject.toml'']))) (\<lambda>b.
              of_res (pyproject_version (Split newline b)))) (\<lambda>fromPyProj.
       prepared PythonProgram (BuildPythonProgram
         \<lparr>o_Version = (if p_Version p \<noteq> [] then p_Version p else fromPyProj), o_DirName = p_DirName p, o_Stdout = None,
          o_Stderr = None, o_BaseDir = rootDir, o_ApplyToCommand = None, oy_VersionFromPyProj = fromPyProj\<rparr>))"

definition dotnet_csproj :: string where
  \<open>dotnet_csproj = Join [''<Project Sdk="Microsoft.NET.Sdk">'', [tab, tab, tab] @ ''<PropertyGroup>'',
     [tab, tab, tab, tab] @ ''<OutputType>Exe</OutputType>'', [tab, tab, tab, tab] @ ''<TargetFramework>net8.0</TargetFramework>'',
     [tab, tab, tab] @ ''</PropertyGroup>'', [tab, tab, tab] @ ''<ItemGroup>'',
     [tab, tab, tab, tab] @ ''<ProjectReference Include="..'' @ [bslash] @ ''dotnet.csproj" />'',
     [tab, tab, tab] @ ''</ItemGroup>'', [tab, tab] @ ''</Project>''] [newline]\<close>

definition prepare_dotnet :: "string \<Rightarrow> PrepareConfig \<Rightarrow> ('z world_scheme, Program) io" where
  "prepare_dotnet rootDir p = prepared DotNetProgram (BuildDotNetProgram
     \<lparr>o_Version = p_Version p, o_DirName = p_DirName p, o_Stdout = None, o_Stderr = None, od_BaseDir = rootDir,
      od_ProgramContents = ''await Temporalio.Features.Harness.App.RunAsync(args);'', od_CsprojContents = dotnet_csproj,
      od_Configuration = []\<rparr>)"

text \<open>The second part of the first line of the \<open>Gemfile\<close> that names the SDK in quotes.\<close>

fun gemfile_version :: "string list \<Rightarrow> string" where
  "gemfile_version [] = []"
| "gemfile_version (l # ls) = (let line = TrimSpace l in
     if Contains line (dquote # ''temporalio'' @ [dquote]) \<or> Contains line (squote # ''temporalio'' @ [squote]) then
       (case Split (CHR '','') line of
          a # b # _ \<Rightarrow> Trim (TrimSpace b) [dquote, squote]
        | _ \<Rightarrow> [])
     else gemfile_version ls)"

definition prepare_ruby :: "string \<Rightarrow> PrepareConfig \<Rightarrow> ('z world_scheme, Program) io" where
  "prepare_ruby rootDir p = (let rubyDir = PathJoin [rootDir, ''harness'', ''ruby''] in
     bindE (if p_Version p \<noteq> [] then ret (p_Version p)
            else bindE (wrapE ''failed reading harness/ruby/Gemfile: %w'' [] (os_ReadFile (PathJoin [rubyDir, ''Gemfile'']))) (\<lambda>b.
              ret (gemfile_version (Split newline b)))) (\<lambda>version.
       prepared RubyProgram (BuildRubyProgram
         \<lparr>o_Version = version, o_DirName = p_DirName p, o_Stdout = None, o_Stderr = None, ob_BaseDir = rootDir,
          ob_SourceDir = rubyDir, ob_MoreDependencies = []\<rparr>)))"

definition build_language :: "semver_lib \<Rightarrow> string \<Rightarrow> PrepareConfig \<Rightarrow> ('z world_scheme, Program) io" where
  "build_language V rootDir p =
     (if p_Lang p = ''go'' then prepare_go V rootDir p
      else if p_Lang p = ''java'' then prepare_java True rootDir p
      else if p_Lang p = ''ts'' then prepare_ts rootDir p
      else if p_Lang p = ''php'' then prepare_php rootDir p
      else if p_Lang p = ''py'' then prepare_py rootDir p
      else if p_Lang p = ''cs'' then prepare_dotnet rootDir p
      else if p_Lang p = ''rb'' then prepare_ruby rootDir p
      else fail (Errorf ''unrecognized language'' []))"

definition Prepare :: "semver_lib \<Rightarrow> string \<Rightarrow> PrepareConfig \<Rightarrow> ('z world_scheme, unit) io" where
  "Prepare V rootDir config =
     bindE (of_res (normalizeLangName (p_Lang config))) (\<lambda>lang.
       if p_DirName config = [] then fail (Errorf ''directory required'' [])
       else if ContainsAny (p_DirName config) (bslash # ''/'')
       then fail (Errorf ''directory must not have path separators, it is always relative to the SDK features root'' [])
       else thenE (wrapE ''failed creating directory: %w'' [] (os_Mkdir (PathJoin [rootDir, p_DirName config])))
         (bindE (build_language V rootDir (config\<lparr>p_Lang := lang\<rparr>)) (\<lambda>_. ret ())))"

section \<open>Arguments\<close>

definition opt_flag :: "string \<Rightarrow> string \<Rightarrow> string list" where
  "opt_flag name v = (if v \<noteq> [] then [name, v] else [])"

definition abs_path_of :: "string \<Rightarrow> (string \<Rightarrow> string list) \<Rightarrow> ('z world_scheme, string list) io" where
  "abs_path_of p f = (if p \<noteq> [] then bindE (filepath_Abs p) (\<lambda>a. ret (f a)) else ret [])"

text \<open>The three certificate flags of the harnesses that get absolute paths.\<close>

definition cert_flags :: "RunConfig \<Rightarrow> ('z world_scheme, string list) io" where
  "cert_flags c =
     bindE (abs_path_of (r_ClientCertPath c) (\<lambda>p. [''--client-cert-path'', p])) (\<lambda>a.
     bindE (abs_path_of (r_ClientKeyPath c) (\<lambda>p. [''--client-key-path'', p])) (\<lambda>b.
     bindE (abs_path_of (r_CACertPath c) (\<lambda>p. [''--ca-cert-path'', p])) (\<lambda>d. ret (a @ b @ d))))"

definition server_flags :: "RunConfig \<Rightarrow> string list" where
  "server_flags c = [''--server'', r_Server c, ''--namespace'', r_Namespace c]"

definition go_run_args :: "RunConfig \<Rightarrow> RunFeature list \<Rightarrow> string list" where
  "go_run_args c fs = [''run''] @ server_flags c @
     [''--client-cert-path'', r_ClientCertPath c, ''--client-key-path'', r_ClientKeyPath c, ''--summary-uri'', r_SummaryURI c] @
     opt_flag ''--ca-cert-path'' (r_CACertPath c) @ opt_flag ''--http-proxy-url'' (r_HTTPProxyURL c) @
     opt_flag ''--tls-server-name'' (r_TLSServerName c) @ ToArgs fs"

definition java_run_args :: "RunConfig \<Rightarrow> RunFeature list \<Rightarrow> ('z world_scheme, string list) io" where
  "java_run_args c fs = bindE (cert_flags c) (\<lambda>certs.
     ret (server_flags c @ certs @ opt_flag ''--summary-uri'' (r_SummaryURI c) @ opt_flag ''--http-proxy-url'' (r_HTTPProxyURL c) @
       opt_flag ''--tls-server-name'' (r_TLSServerName c) @ ToArgs fs))"

definition ts_run_args :: "RunConfig \<Rightarrow> RunFeature list \<Rightarrow> ('z world_scheme, string list) io" where
  "ts_run_args c fs = bindE (cert_flags c) (\<lambda>certs.
     ret ([''./tslib/harness/ts/main.js''] @ server_flags c @ certs @ opt_flag ''--http-proxy-url'' (r_HTTPProxyURL c) @
       opt_flag ''--tls-server-name'' (r_TLSServerName c) @ ToArgs fs))"

definition php_run_args :: "RunConfig \<Rightarrow> RunFeature list \<Rightarrow> ('z world_scheme, string list) io" where
  "php_run_args c fs =
     bindE (abs_path_of (r_ClientCertPath c) (\<lambda>p. [''tls.cert='' @ p])) (\<lambda>a.
     bindE (abs_path_of (r_ClientKeyPath c) (\<lambda>p. [''tls.key='' @ p])) (\<lambda>b.
     bindE (abs_path_of (r_CACertPath c) (\<lambda>p. [''tls.ca-cert='' @ p])) (\<lambda>d.
       ret ([''namespace='' @ r_Namespace c, ''address='' @ r_Server c] @ ToArgs fs @ a @ b @ d @
         (if r_TLSServerName c \<noteq> [] then [''tls.server-name='' @ r_TLSServerName c] else [])))))"

definition py_run_args :: "RunConfig \<Rightarrow> RunFeature list \<Rightarrow> ('z world_scheme, string list) io" where
  "py_run_args c fs = bindE (cert_flags c) (\<lambda>certs.
     ret ([''harness.python.main''] @ server_flags c @ certs @ opt_flag ''--http-proxy-url'' (r_HTTPProxyURL c) @
       opt_flag ''--tls-server-name'' (r_TLSServerName c) @ ToArgs fs))"

definition dotnet_run_args :: "RunConfig \<Rightarrow> RunFeature list \<Rightarrow> string list" where
  "dotnet_run_args c fs = server_flags c @
     (if r_ClientCertPath c \<noteq> [] then [''--client-cert-path'', r_ClientCertPath c, ''--client-key-path'', r_ClientKeyPath c] else []) @
     opt_flag ''--ca-cert-path'' (r_CACertPath c) @ opt_flag ''--http-proxy-url'' (r_HTTPProxyURL c) @
     opt_flag ''--tls-server-name'' (r_TLSServerName c) @ ToArgs fs"

definition ruby_run_args :: "RunConfig \<Rightarrow> RunFeature list \<Rightarrow> ('z world_scheme, string list) io" where
  "ruby_run_args c fs = bindE (cert_flags c) (\<lambda>certs.
     ret (server_flags c @ certs @ opt_flag ''--tls-server-name'' (r_TLSServerName c) @
       opt_flag ''--http-proxy-url'' (r_HTTPProxyURL c) @ opt_flag ''--summary-uri'' (r_SummaryURI c) @ ToArgs fs))"

section \<open>Running\<close>

text \<open>The program is built when there is none yet, from the configuration of the run.\<close>

definition ensure_program :: "('z runner_state_scheme, Program) io \<Rightarrow> ('z runner_state_scheme, unit) io" where
  "ensure_program build = (\<lambda>s. case u_Program s of
     Some p \<Rightarrow> (Ok (), s)
   | None \<Rightarrow> bindE build (\<lambda>p. upd (\<lambda>s. s\<lparr>u_Program := Some p\<rparr>)) s)"

definition invoke :: "string list \<Rightarrow> ('z runner_state_scheme, unit) io" where
  "invoke args = (\<lambda>s. case u_Program s of
     None \<Rightarrow> (Panic nil_func, s)
   | Some p \<Rightarrow> wrapE ''failed running: %w'' []
       (bindE (of_res (NewCommand p args)) (\<lambda>cmd.
          run_command (applyNamespaceCapabilitiesEnv s cmd (r_NamespaceCapabilitiesJSON (u_Config s))))) s)"

definition run_external ::
  "('z runner_state_scheme, Program) io \<Rightarrow> ('z runner_state_scheme, string list) io \<Rightarrow> ('z runner_state_scheme, unit) io" where
  "run_external build args = thenE (ensure_program build) (bindE args invoke)"

definition RunGoExternal :: "semver_lib \<Rightarrow> string \<Rightarrow> RunConfig \<Rightarrow> RunFeature list \<Rightarrow> ('z runner_state_scheme, unit) io" where
  "RunGoExternal V rootDir c fs = run_external (prepare_go V rootDir (prepare_config c)) (ret (go_run_args c fs))"

definition RunJavaExternal :: "string \<Rightarrow> RunConfig \<Rightarrow> RunFeature list \<Rightarrow> ('z runner_state_scheme, unit) io" where
  "RunJavaExternal rootDir c fs = run_external (prepare_java False rootDir (prepare_config c)) (java_run_args c fs)"

definition RunTypeScriptExternal :: "string \<Rightarrow> RunConfig \<Rightarrow> RunFeature list \<Rightarrow> ('z runner_state_scheme, unit) io" where
  "RunTypeScriptExternal rootDir c fs = run_external (prepare_ts rootDir (prepare_config c)) (ts_run_args c fs)"

definition RunPhpExternal :: "string \<Rightarrow> RunConfig \<Rightarrow> RunFeature list \<Rightarrow> ('z runner_state_scheme, unit) io" where
  "RunPhpExternal rootDir c fs = run_external (prepare_php rootDir (prepare_config c)) (php_run_args c fs)"

definition RunPythonExternal :: "string \<Rightarrow> RunConfig \<Rightarrow> RunFeature list \<Rightarrow> ('z runner_state_scheme, unit) io" where
  "RunPythonExternal rootDir c fs = run_external (prepare_py rootDir (prepare_config c)) (py_run_args c fs)"

definition RunDotNetExternal :: "string \<Rightarrow> RunConfig \<Rightarrow> RunFeature list \<Rightarrow> ('z runner_state_scheme, unit) io" where
  "RunDotNetExternal rootDir c fs = run_external (prepare_dotnet rootDir (prepare_config c)) (ret (dotnet_run_args c fs))"

definition RunRubyExternal :: "string \<Rightarrow> RunConfig \<Rightarrow> RunFeature list \<Rightarrow> ('z runner_state_scheme, unit) io" where
  "RunRubyExternal rootDir c fs = run_external (prepare_ruby rootDir (prepare_config c)) (ruby_run_args c fs)"

text \<open>The part of \<open>runBatch\<close> that chooses by language: taking up a prepared directory, and running.\<close>

definition program_from_dir :: "string \<Rightarrow> string \<Rightarrow> string \<Rightarrow> ('z world_scheme, Program) io" where
  "program_from_dir lang rootDir dirName = (let dir = PathJoin [rootDir, dirName] in
     if lang = ''go'' then bindE (GoProgramFromDir dir) (\<lambda>p. ret (GoProgram p))
     else if lang = ''java'' then bindE (JavaProgramFromDir dir) (\<lambda>p. ret (JavaProgram p))
     else if lang = ''ts'' then bindE (TypeScriptProgramFromDir dir) (\<lambda>p. ret (TypeScriptProgram p))
     else if lang = ''php'' then bindE (PhpProgramFromDir dir rootDir) (\<lambda>p. ret (PhpProgram p))
     else if lang = ''py'' then bindE (PythonProgramFromDir dir) (\<lambda>p. ret (PythonProgram p))
     else if lang = ''cs'' then bindE (DotNetProgramFromDir dir) (\<lambda>p. ret (DotNetProgram p))
     else if lang = ''rb'' then bindE (RubyProgramFromDir dir (PathJoin [rootDir, ''harness'', ''ruby''])) (\<lambda>p. ret (RubyProgram p))
     else fail (Errorf ''unrecognized language'' []))"

definition run_language :: "semver_lib \<Rightarrow> string \<Rightarrow> RunConfig \<Rightarrow> RunFeature list \<Rightarrow> ('z runner_state_scheme, unit) io" where
  "run_language V rootDir c fs =
     (if r_Lang c = ''go'' then RunGoExternal V rootDir c fs
      else if r_Lang c = ''java'' then RunJavaExternal rootDir c fs
      else if r_Lang c = ''ts'' then RunTypeScriptExternal rootDir c fs
      else if r_Lang c = ''php'' then RunPhpExternal rootDir c fs
      else if r_Lang c = ''py'' then RunPythonExternal rootDir c fs
      else if r_Lang c = ''cs'' then RunDotNetExternal rootDir c fs
      else if r_Lang c = ''rb'' then RunRubyExternal rootDir c fs
      else fail (Errorf ''unrecognized language'' []))"

definition external_batch :: "semver_lib \<Rightarrow> string \<Rightarrow> RunConfig \<Rightarrow> RunFeature list \<Rightarrow> ('z runner_state_scheme, unit) io" where
  "external_batch V rootDir c fs =
     thenE (whenE (r_DirName c \<noteq> []) (bindE (program_from_dir (r_Lang c) rootDir (r_DirName c)) (\<lambda>p.
              upd (\<lambda>s. s\<lparr>u_Program := Some p\<rparr>))))
       (run_language V rootDir c fs)"

section \<open>Lemmas\<close>

lemma keeps_abs_path_of [keeps_intros]: "keeps f (abs_path_of p g)"
  unfolding abs_path_of_def by (intro keeps_intros)

lemma keeps_cert_flags [keeps_intros]: "keeps f (cert_flags c)"
  unfolding cert_flags_def by (intro keeps_intros)

lemma keeps_run_args [keeps_intros]:
  "keeps f (java_run_args c fs)" "keeps f (ts_run_args c fs)" "keeps f (php_run_args c fs)" "keeps f (py_run_args c fs)"
  "keeps f (ruby_run_args c fs)"
  unfolding java_run_args_def ts_run_args_def php_run_args_def py_run_args_def ruby_run_args_def by (intro keeps_intros)+

lemma keeps_prepared [keeps_intros]: "keeps f m \<Longrightarrow> keeps f (prepared g m)"
  unfolding prepared_def by (intro keeps_intros)

text \<open>What every harness is told: the features, and the server and the namespace.\<close>

definition tells :: "RunConfig \<Rightarrow> RunFeature list \<Rightarrow> string list \<Rightarrow> bool" where
  "tells c fs args = (sublist (ToArgs fs) args \<and>
     (sublist (server_flags c) args \<or> sublist [''namespace='' @ r_Namespace c, ''address='' @ r_Server c] args))"

lemma sublist_middle [simp]: "sublist xs (as @ xs @ bs)" "sublist xs (xs @ bs)" "sublist xs (as @ xs)"
  by (auto simp: sublist_def) (metis append_Nil append_Nil2)+

lemma sublist_after: "sublist xs ys \<Longrightarrow> sublist xs (as @ ys)" "sublist xs ys \<Longrightarrow> sublist xs (a # ys)"
  by (auto simp: sublist_def) (metis append_assoc append_Cons)+

lemma sublist_two: "sublist [x, y] (x # y # zs)"
  using sublist_middle(2) [of "[x, y]" zs] by simp

lemmas run_args_defs = go_run_args_def dotnet_run_args_def java_run_args_def ts_run_args_def php_run_args_def
  py_run_args_def ruby_run_args_def

lemma args_features:
  "suffix (ToArgs fs) (go_run_args c fs)" "suffix (ToArgs fs) (dotnet_run_args c fs)"
  "java_run_args c fs s = (Ok args, s') \<Longrightarrow> suffix (ToArgs fs) args"
  "ts_run_args c fs s = (Ok args, s') \<Longrightarrow> suffix (ToArgs fs) args"
  "py_run_args c fs s = (Ok args, s') \<Longrightarrow> suffix (ToArgs fs) args"
  "ruby_run_args c fs s = (Ok args, s') \<Longrightarrow> suffix (ToArgs fs) args"
  unfolding run_args_defs by (auto simp: bindE_Ok_iff ret_def intro!: suffix_appendI suffix_ConsI)

lemma args_tell:
  "tells c fs (go_run_args c fs)" "tells c fs (dotnet_run_args c fs)"
  "java_run_args c fs s = (Ok args, s') \<Longrightarrow> tells c fs args" "ts_run_args c fs s = (Ok args, s') \<Longrightarrow> tells c fs args"
  "php_run_args c fs s = (Ok args, s') \<Longrightarrow> tells c fs args" "py_run_args c fs s = (Ok args, s') \<Longrightarrow> tells c fs args"
  "ruby_run_args c fs s = (Ok args, s') \<Longrightarrow> tells c fs args"
proof -
  note f = args_features [THEN suffix_imp_sublist]
  note d = tells_def run_args_defs bindE_Ok_iff ret_def
  show "tells c fs (go_run_args c fs)" "tells c fs (dotnet_run_args c fs)"
    using f(1,2) [of fs c] by (simp_all add: tells_def) (auto simp: run_args_defs intro: sublist_after)
  show "java_run_args c fs s = (Ok args, s') \<Longrightarrow> tells c fs args" "ts_run_args c fs s = (Ok args, s') \<Longrightarrow> tells c fs args"
    "py_run_args c fs s = (Ok args, s') \<Longrightarrow> tells c fs args" "ruby_run_args c fs s = (Ok args, s') \<Longrightarrow> tells c fs args"
    using f(3,4,5,6) [of c fs s args s'] by (auto simp: d intro: sublist_after)
  show "php_run_args c fs s = (Ok args, s') \<Longrightarrow> tells c fs args"
    by (auto simp: d sublist_two intro: sublist_after)
qed

lemma new_command_facts: "NewCommand p args = Ok cmd \<Longrightarrow> c_dir cmd = Dir p \<and> inherits_io cmd"
  by (cases p) (auto dest: go_program.command_there java_program.command_there ts_program.command_there
    php_program.command_there py_program.command_there dotnet_program.command_there ruby_program.command_there)

lemma invoke_Ok:
  assumes "invoke args s = (Ok (), s')" "u_Program s = Some p"
  shows "\<exists>cmd. NewCommand p args = Ok cmd \<and> u_Program s' = Some p \<and>
    w_cmds s' = w_cmds s @ [applyNamespaceCapabilitiesEnv s cmd (r_NamespaceCapabilitiesJSON (u_Config s))]"
  using assms by (cases "NewCommand p args")
    (auto simp: invoke_def wrapE_def bindE_def of_res_def run_command_def Let_def split: option.splits)

lemma run_external_Ok:
  assumes "run_external build gen s = (Ok (), s')" "u_Program s = Some p" "keeps (\<lambda>x. x) gen"
  obtains args cmd where "gen s = (Ok args, s)" "NewCommand p args = Ok cmd" "u_Program s' = Some p"
    "w_cmds s' = w_cmds s @ [applyNamespaceCapabilitiesEnv s cmd (r_NamespaceCapabilitiesJSON (u_Config s))]"
proof -
  from assms(1,2) obtain args t where g: "gen s = (Ok args, t)" "invoke args t = (Ok (), s')"
    by (auto simp: run_external_def ensure_program_def thenE_def bindE_Ok_iff)
  with keepsD [OF assms(3)] have "t = s" by blast
  with g invoke_Ok assms(2) that show thesis by blast
qed

text \<open>Making the directory keeps what a build relies on.\<close>

lemma os_Mkdir_fresh:
  assumes "os_Mkdir p w = (Ok (), w')" "tame w" "fs_at w (PathJoin [p, ''vendor'']) = None" "abs_path w p \<noteq> abs_path w (PathJoin [p, ''vendor''])"
  shows "fresh p w'"
proof -
  have "w' = w\<lparr>w_fs := fs_put (abs_path w p) DirN (w_fs w)\<rparr>"
    using assms(1) faulty_cases [of "''mkdir''" p w]
    by (auto simp: os_Mkdir_def thenE_def bindE_def Let_def split: if_splits)
  with assms(2-4) show ?thesis by (auto simp: fresh_def tame_def fs_at_def map_of_fs_put)
qed

lemma prepared_Ok: "prepared f m w = (Ok p, w') \<longleftrightarrow> (\<exists>x. m w = (Ok x, w') \<and> p = f x)"
  by (auto simp: prepared_def bindE_def wrapE_def ret_def split: prod.splits res.splits)

lemma quiet_bind: "bindE m k w = (Ok b, w') \<Longrightarrow> keeps (\<lambda>w. w) m \<Longrightarrow> \<exists>a. k a w = (Ok b, w')"
  by (auto simp: bindE_Ok_iff dest: keepsD)

lemma keeps_package_version [keeps_intros]: "keeps f (package_version root)"
  unfolding package_version_def by (intro keeps_intros) (auto split: option.splits intro!: keeps_intros)

lemma keeps_versions:
  "keeps f (if b then package_version root else ret v)"
  "keeps f (if b then ret v else bindE (wrapE t as (os_ReadFile q)) (\<lambda>b. of_res (g b)))"
  "keeps f (if b then ret v else bindE (wrapE t as (os_ReadFile q)) (\<lambda>b. ret (h b)))"
  by (intro keeps_intros)+

lemma build_language_reopens:
  assumes "build_language V root p w = (Ok prog, w')" "fresh (PathJoin [root, p_DirName p]) w" "clean_abs root" "ordinary (p_DirName p)"
  shows "\<exists>q. program_from_dir (p_Lang p) root (p_DirName p) w' = (Ok q, w') \<and> Dir q = PathJoin [root, p_DirName p]"
proof -
  let ?d = "PathJoin [root, p_DirName p]"
  have t: "tame w" and n: "p_DirName p \<noteq> []" using assms(2,4) by (simp_all add: fresh_def ordinary_def)
  consider (go) "p_Lang p = ''go''" | (java) "p_Lang p = ''java''" | (ts) "p_Lang p = ''ts''" | (php) "p_Lang p = ''php''"
    | (py) "p_Lang p = ''py''" | (cs) "p_Lang p = ''cs''" | (rb) "p_Lang p = ''rb''"
    using assms(1) by (auto simp: build_language_def fail_def split: if_splits)
  then show ?thesis
  proof cases
    case go
    with assms(1) obtain og d where b: "BuildGoProgram og w = (Ok d, w')" "o_BaseDir og = root" "o_DirName og = p_DirName p"
      by (auto simp: build_language_def prepare_go_def prepared_Ok)
    with endsD [OF named_dirs(1), of og w d w'] n have "d = ?d" by simp
    with builds_reopen(1) [OF t b(1)] show ?thesis using go by (simp add: program_from_dir_def Let_def bindE_def ret_def)
  next
    case java
    with assms(1) obtain oj d where b: "BuildJavaProgram oj w = (Ok d, w')" "o_BaseDir oj = root" "o_DirName oj = p_DirName p"
      by (auto simp: build_language_def prepare_java_def prepared_Ok)
    with endsD [OF java_dir, of oj w d w'] n have "d = ?d" by simp
    with java_reopens [OF t b(1)] b(2,3) assms(3,4) show ?thesis using java by (simp add: program_from_dir_def Let_def bindE_def ret_def)
  next
    case ts
    with assms(1) have "prepare_ts root p w = (Ok prog, w')" by (simp add: build_language_def)
    from quiet_bind [OF this [unfolded prepare_ts_def]]
    obtain ot d where b: "BuildTypeScriptProgram ot w = (Ok d, w')" "o_BaseDir ot = root" "o_DirName ot = p_DirName p"
      by (auto simp: prepared_Ok keeps_versions)
    with endsD [OF named_dirs(2), of ot w d w'] n have "d = ?d" by simp
    with builds_reopen(2) [OF t b(1)] show ?thesis using ts by (simp add: program_from_dir_def Let_def bindE_def ret_def)
  next
    case php
    with assms(1) obtain op q where b: "BuildPhpProgram op w = (Ok q, w')" "op_RootDir op = root" "o_DirName op = p_DirName p"
      by (auto simp: build_language_def prepare_php_def prepared_Ok)
    with endsD [OF php_settles, of op w q w'] n assms(2)
    have q: "q = (?d, GetSourceDir root)" "settled (PathJoin [?d, ''composer.json'']) w'" by auto
    then have "PhpProgramFromDir ?d root w' = (Ok (?d, GetSourceDir root), w')"
      by (simp add: PhpProgramFromDir_def thenE_settled ret_def)
    then show ?thesis using php by (simp add: program_from_dir_def Let_def bindE_def ret_def)
  next
    case py
    with assms(1) have "prepare_py root p w = (Ok prog, w')" by (simp add: build_language_def)
    from quiet_bind [OF this [unfolded prepare_py_def]]
    obtain oy d where b: "BuildPythonProgram oy w = (Ok d, w')" "o_BaseDir oy = root" "o_DirName oy = p_DirName p"
      by (auto simp: prepared_Ok keeps_versions)
    with endsD [OF py_dir, of oy w d w'] n have "d = ?d" by simp
    with py_reopens [OF t b(1)] b(2,3) assms(3,4) show ?thesis using py by (simp add: program_from_dir_def Let_def bindE_def ret_def)
  next
    case cs
    with assms(1) obtain od d where b: "BuildDotNetProgram od w = (Ok d, w')" "od_BaseDir od = root" "o_DirName od = p_DirName p"
      by (auto simp: build_language_def prepare_dotnet_def prepared_Ok)
    with endsD [OF named_dirs(3), of od w d w'] n have "d = ?d" by simp
    with builds_reopen(3) [OF t b(1)] show ?thesis using cs by (simp add: program_from_dir_def Let_def bindE_def ret_def)
  next
    case rb
    let ?src = "PathJoin [root, ''harness'', ''ruby'']"
    from rb assms(1) have "prepare_ruby root p w = (Ok prog, w')" by (simp add: build_language_def)
    from quiet_bind [OF this [unfolded prepare_ruby_def Let_def]]
    obtain ob q where b: "BuildRubyProgram ob w = (Ok q, w')" "ob_BaseDir ob = root" "o_DirName ob = p_DirName p"
        "ob_SourceDir ob = ?src"
      by (auto simp: prepared_Ok keeps_versions)
    with endsD [OF ruby_settles, of ob w q w'] n assms(2)
    have "settled (PathJoin [?d, ''Gemfile'']) w'" by auto
    then have "RubyProgramFromDir ?d ?src w' = (Ok (?d, ?src), w')"
      by (simp add: RubyProgramFromDir_def thenE_settled ret_def)
    then show ?thesis using rb by (simp add: program_from_dir_def Let_def bindE_def ret_def)
  qed
qed

definition calm_runner :: "fs \<Rightarrow> Program option \<Rightarrow> RunConfig \<Rightarrow> runner_state" where
  "calm_runner m p c = harness_state.extend (calm_harness m) \<lparr>u_Program = p, u_Config = c\<rparr>"

section \<open>Properties\<close>

text \<open>
  C21: what a harness in a process of its own is told. When a run in the current program succeeds, it has
  run one more command, the program's own, in the program's directory and on the runner's own input
  and output, with the capabilities variable of the run; its arguments hold the server, the namespace
  and the features of the run in their order, and for every language but PHP they end with the features.
\<close>

theorem external_run_command:
  assumes "run_language V rootDir c fs s = (Ok (), s')" "u_Program s = Some p"
  shows "\<exists>args cmd. tells c fs args \<and> (r_Lang c = ''php'' \<or> suffix (ToArgs fs) args) \<and> NewCommand p args = Ok cmd \<and>
    c_dir cmd = Dir p \<and> inherits_io cmd \<and> u_Program s' = Some p \<and>
    w_cmds s' = w_cmds s @ [applyNamespaceCapabilitiesEnv s cmd (r_NamespaceCapabilitiesJSON (u_Config s))]"
proof -
  have *: ?thesis if "run_external b gen s = (Ok (), s')" "keeps (\<lambda>x. x) gen"
      "\<And>args. gen s = (Ok args, s) \<Longrightarrow> tells c fs args \<and> (r_Lang c = ''php'' \<or> suffix (ToArgs fs) args)" for b gen
    by (rule run_external_Ok [OF that(1) assms(2) that(2)]) (use that(3) new_command_facts in blast)
  consider "r_Lang c = ''go''" | "r_Lang c = ''java''" | "r_Lang c = ''ts''" | "r_Lang c = ''php''" | "r_Lang c = ''py''"
    | "r_Lang c = ''cs''" | "r_Lang c = ''rb''"
    using assms(1) by (auto simp: run_language_def fail_def split: if_splits)
  then show ?thesis
  proof cases
    case 1
    with assms(1) have "RunGoExternal V rootDir c fs s = (Ok (), s')" by (simp add: run_language_def)
    then show ?thesis unfolding RunGoExternal_def
      by (rule *) (rule keeps_pure, auto simp: ret_def args_tell args_features)
  next
    case 2
    with assms(1) have "RunJavaExternal rootDir c fs s = (Ok (), s')" by (simp add: run_language_def)
    then show ?thesis unfolding RunJavaExternal_def
      by (rule *) (auto simp: keeps_run_args dest: args_tell(3-) args_features(3-))
  next
    case 3
    with assms(1) have "RunTypeScriptExternal rootDir c fs s = (Ok (), s')" by (simp add: run_language_def)
    then show ?thesis unfolding RunTypeScriptExternal_def
      by (rule *) (auto simp: keeps_run_args dest: args_tell(3-) args_features(3-))
  next
    case 4
    with assms(1) have "RunPhpExternal rootDir c fs s = (Ok (), s')" by (simp add: run_language_def)
    then show ?thesis unfolding RunPhpExternal_def
      by (rule *) (auto simp: keeps_run_args 4 dest: args_tell(5))
  next
    case 5
    with assms(1) have "RunPythonExternal rootDir c fs s = (Ok (), s')" by (simp add: run_language_def)
    then show ?thesis unfolding RunPythonExternal_def
      by (rule *) (auto simp: keeps_run_args dest: args_tell(3-) args_features(3-))
  next
    case 6
    with assms(1) have "RunDotNetExternal rootDir c fs s = (Ok (), s')" by (simp add: run_language_def)
    then show ?thesis unfolding RunDotNetExternal_def
      by (rule *) (rule keeps_pure, auto simp: ret_def args_tell args_features)
  next
    case 7
    with assms(1) have "RunRubyExternal rootDir c fs s = (Ok (), s')" by (simp add: run_language_def)
    then show ?thesis unfolding RunRubyExternal_def
      by (rule *) (auto simp: keeps_run_args dest: args_tell(3-) args_features(3-))
  qed
qed

theorem external_run_command_witness:
  "\<exists>s' cmd. run_language \<lparr>sv_IsValid = (\<lambda>_. True), sv_Compare = (\<lambda>_ _. 0)\<rparr> ''/r'' (zero_run_config\<lparr>r_Lang := ''ts''\<rparr>)
       [sample_run_feature] (calm_runner [] (Some (TypeScriptProgram ''/r/p'')) zero_run_config) = (Ok (), s') \<and>
     w_cmds s' = [cmd] \<and> c_dir cmd = ''/r/p'' \<and> suffix [''a/b:q''] (c_args cmd)"
proof -
  let ?V = "\<lparr>sv_IsValid = (\<lambda>_. True), sv_Compare = (\<lambda>_ _. 0)\<rparr>"
  let ?c = "zero_run_config\<lparr>r_Lang := ''ts''\<rparr>"
  let ?s = "calm_runner [] (Some (TypeScriptProgram ''/r/p'')) zero_run_config"
  have "fst (run_language ?V ''/r'' ?c [sample_run_feature] ?s) = Ok ()" by code_simp
  from fst_res [OF this] obtain s' where r: "run_language ?V ''/r'' ?c [sample_run_feature] ?s = (Ok (), s')" by (rule that)
  have s: "u_Program ?s = Some (TypeScriptProgram ''/r/p'')" "w_cmds ?s = []" "u_Config ?s = zero_run_config"
    by (simp_all add: calm_runner_def calm_harness_def calm_net_def calm_world_def harness_state.defs net_world.defs world.defs)
  from external_run_command [OF r s(1)] obtain args cmd where
    "suffix [''a/b:q''] args" "NewCommand (TypeScriptProgram ''/r/p'') args = Ok cmd" "c_dir cmd = ''/r/p''" "w_cmds s' = [cmd]"
    unfolding s(2,3)
    by (auto simp: zero_run_config_def ToArgs_def feature_arg_def sample_run_feature_def applyNamespaceCapabilitiesEnv_def)
  then show ?thesis using r
    by (intro exI [of _ s'] exI [of _ cmd])
      (auto simp: ts_NewCommand_def program_command_def setupCommandIO_def Command_def intro!: suffix_ConsI)
qed

lemma vendor_path:
  assumes "clean_abs root" "ordinary n"
  shows "abs_path w (PathJoin [root, n]) = root @ slash # n" "abs_path w (PathJoin [PathJoin [root, n], ''vendor'']) = root @ slash # n @ ''/vendor''"
proof -
  have c: "clean_abs (root @ slash # n)" using clean_abs_sub [OF assms] by blast
  have v: "ordinary ''vendor''" by (simp add: ordinary_def)
  show "abs_path w (PathJoin [root, n]) = root @ slash # n" using c by (simp add: PathJoin_sub [OF assms] abs_path_clean)
  show "abs_path w (PathJoin [PathJoin [root, n], ''vendor'']) = root @ slash # n @ ''/vendor''"
    using clean_abs_sub(1) [OF c v] by (simp add: PathJoin_sub [OF assms] PathJoin_sub [OF c v] abs_path_clean)
qed

text \<open>
  C20: what \<open>prepare\<close> makes, \<open>run --prepared-dir\<close> takes. When the commands of the builders take no files
  away, files can be looked up and no installed packages are there already, a preparation that
  succeeds, in any of the seven languages and under any of its accepted names, leaves a directory
  that the run of that language takes up as its program, and the program is in that directory.
\<close>

theorem prepared_program_found:
  assumes "Prepare V root config w = (Ok (), w')" "tame w" "clean_abs root" "ordinary (p_DirName config)"
    "fs_at w (PathJoin [PathJoin [root, p_DirName config], ''vendor'']) = None"
  shows "\<exists>lang p. normalizeLangName (p_Lang config) = Ok lang \<and>
    program_from_dir lang root (p_DirName config) w' = (Ok p, w') \<and> Dir p = PathJoin [root, p_DirName config]"
proof -
  let ?d = "PathJoin [root, p_DirName config]"
  from assms(1) obtain lang w1 prog where l: "normalizeLangName (p_Lang config) = Ok lang"
    and m: "os_Mkdir ?d w = (Ok (), w1)" and b: "build_language V root (config\<lparr>p_Lang := lang\<rparr>) w1 = (Ok prog, w')"
    by (auto simp: Prepare_def bindE_Ok_iff thenE_Ok_iff of_res_def wrapE_def fail_def ret_def split: if_splits prod.splits res.splits)
  have "fresh ?d w1"
    using os_Mkdir_fresh [OF m assms(2,5)] vendor_path [OF assms(3,4), of w] by simp
  with build_language_reopens [OF b] assms(3,4) l show ?thesis by auto
qed

theorem prepared_program_found_witness:
  "\<exists>w' p. Prepare \<lparr>sv_IsValid = (\<lambda>_. True), sv_Compare = (\<lambda>_ _. 0)\<rparr> ''/r'' \<lparr>p_DirName = ''p'', p_Lang = ''go'', p_Version = ''v1.2.3''\<rparr>
       (calm_world [(''/r'', DirN)]) = (Ok (), w') \<and>
     program_from_dir ''go'' ''/r'' ''p'' w' = (Ok p, w') \<and> Dir p = ''/r/p''"
proof -
  let ?V = "\<lparr>sv_IsValid = (\<lambda>_. True), sv_Compare = (\<lambda>_ _. 0)\<rparr>"
  let ?c = "\<lparr>p_DirName = ''p'', p_Lang = ''go'', p_Version = ''v1.2.3''\<rparr>"
  let ?w = "calm_world [(''/r'', DirN)]"
  have "fst (Prepare ?V ''/r'' ?c ?w) = Ok ()" by code_simp
  from fst_res [OF this] obtain w' where p: "Prepare ?V ''/r'' ?c ?w = (Ok (), w')" by (rule that)
  have t: "tame ?w" by (simp add: tame_def calm_world_def)
  have c: "clean_abs ''/r''" by code_simp
  have o: "ordinary (p_DirName ?c)" by (simp add: ordinary_def)
  have "PathJoin [''/r'', ''p''] = ''/r/p''" by code_simp
  moreover have "fs_at ?w (PathJoin [PathJoin [''/r'', p_DirName ?c], ''vendor'']) = None" by code_simp
  moreover have "normalizeLangName ''go'' = Ok ''go''" by code_simp
  ultimately show ?thesis using prepared_program_found [OF p t c o] p by auto
qed

end
