(* ===== verification/Namespace_Setup.thy ===== *)
theory Namespace_Setup
  imports Net Batching
begin

text \<open>
  What a batch sets up in its namespace before it runs (\<open>cmd/run.go\<close>): the check of the namespace's
  capabilities (\<open>assertNamespaceCapabilities\<close>) and the Nexus endpoints of its Nexus features
  (\<open>createNexusEndpoints\<close>), with the function that deletes them again. How a response names a
  capability or an endpoint is generated code: two parameters read it from the response.
\<close>

section \<open>Capabilities\<close>

text \<open>A field of the capabilities message: a boolean with its value, or another kind with its name.\<close>

datatype capability = CapBool bool | CapOther string

fun check_capabilities :: "(string \<Rightarrow> capability option) \<Rightarrow> (string \<times> bool) list \<Rightarrow> unit res" where
  "check_capabilities field [] = Ok ()"
| "check_capabilities field ((name, expectedValue) # expected) =
     (case field name of
        None \<Rightarrow> Err (Errorf ''unknown namespace capability %q'' [name])
      | Some (CapOther kind) \<Rightarrow> Err (Errorf ''namespace capability %q is %s, expected bool'' [name, kind])
      | Some (CapBool actualValue) \<Rightarrow>
          if actualValue \<noteq> expectedValue
          then Err (Errorf ''namespace capability %q = %t, expected %t'' [name, show_bool actualValue, show_bool expectedValue])
          else check_capabilities field expected)"

definition load_tls :: "RunConfig \<Rightarrow> ('z net_world_scheme, tls_config option) io" where
  "load_tls c = LoadTLSConfig (r_ClientCertPath c) (r_ClientKeyPath c) (r_CACertPath c) (r_TLSServerName c)"

definition dial :: "RunConfig \<Rightarrow> tls_config option \<Rightarrow> action" where
  "dial c tls = ADial (r_Server c) (r_Namespace c) tls"

definition assertNamespaceCapabilities ::
  "(string \<Rightarrow> string \<Rightarrow> capability option) \<Rightarrow> RunConfig \<Rightarrow> (string \<times> bool) list \<Rightarrow> ('z net_world_scheme, unit) io" where
  "assertNamespaceCapabilities field c expected =
     (if expected = [] then ret ()
      else bindE (load_tls c) (\<lambda>tls.
        bindE (wrapE ''failed creating capability check client: %w'' [] (act (dial c tls))) (\<lambda>_.
          deferE (act_ignore ACloseClient)
            (bindE (wrapE ''failed describing namespace for capability check: %w'' [] (act (ADescribeNamespace (r_Namespace c)))) (\<lambda>resp.
               of_res (check_capabilities (field resp) expected))))))"

section \<open>Nexus endpoints\<close>

definition nexusFeatureDirPrefix :: string where
  "nexusFeatureDirPrefix = ''nexus/''"

definition is_nexus :: "RunFeature \<Rightarrow> bool" where
  "is_nexus f = HasPrefix (f_Dir f) nexusFeatureDirPrefix"

definition sanitize :: "string \<Rightarrow> string" where
  "sanitize s = map (\<lambda>c. if c = CHR ''/'' \<or> c = CHR ''_'' then CHR ''-'' else c) s"

definition endpoint_name :: "RunFeature \<Rightarrow> string \<Rightarrow> string" where
  "endpoint_name f u = ''features-nexus-'' @ sanitize (f_Dir f) @ ''-'' @ u"

text \<open>An endpoint that was created: its id and its version.\<close>

type_synonym endpoint = "string \<times> string"

definition cleanup :: "endpoint list \<Rightarrow> 'z net_world_scheme \<Rightarrow> 'z net_world_scheme" where
  "cleanup created w = act_ignore ACloseClient (fold (\<lambda>(i, v). act_ignore (ADeleteEndpoint i v)) created w)"

text \<open>
  The loop over the Nexus features, which are pointers into the features of the run: the features done so
  far come with the endpoints created. It stops at the first feature whose endpoint is refused.
\<close>

fun create_endpoints ::
  "(string \<Rightarrow> endpoint) \<Rightarrow> string \<Rightarrow> RunFeature list \<Rightarrow> endpoint list \<Rightarrow> RunFeature list
     \<Rightarrow> ('z net_world_scheme, (RunFeature \<times> go_error) option \<times> endpoint list \<times> RunFeature list) io" where
  "create_endpoints endpoint_of ns [] created ready = ret (None, created, ready)"
| "create_endpoints endpoint_of ns (f # fs) created ready =
     (if \<not> is_nexus f then create_endpoints endpoint_of ns fs created (ready @ [f])
      else bindE new_uuid (\<lambda>u. let name = endpoint_name f u in
        bindE (attempt (act (ACreateEndpoint name ns (f_TaskQueue f)))) (\<lambda>r.
          case r of
            Inl e \<Rightarrow> ret (Some (f, e), created, ready @ f # fs)
          | Inr res \<Rightarrow> create_endpoints endpoint_of ns fs (created @ [endpoint_of res]) (ready @ [f\<lparr>f_NexusEndpoint := name\<rparr>]))))"

text \<open>The cleanup function, and the features that are left to run.\<close>

definition createNexusEndpoints ::
  "(string \<Rightarrow> endpoint) \<Rightarrow> RunConfig \<Rightarrow> RunFeature list
     \<Rightarrow> ('z net_world_scheme, ('z net_world_scheme \<Rightarrow> 'z net_world_scheme) \<times> RunFeature list) io" where
  "createNexusEndpoints endpoint_of c features =
     (if list_all (\<lambda>f. \<not> is_nexus f) features then ret (id, features)
      else bindE (wrapE ''failed to load TLS config: %w'' [] (load_tls c)) (\<lambda>tls.
        bindE (wrapE ''failed creating client for nexus endpoint setup: %w'' [] (act (dial c tls))) (\<lambda>_.
        bindE (create_endpoints endpoint_of (r_Namespace c) features [] []) (\<lambda>(refused, created, features').
          case refused of
            None \<Rightarrow> ret (cleanup created, features')
          | Some (f, e) \<Rightarrow>
              thenE (upd (cleanup created))
                (if \<not> has_kind PermissionDenied e
                 then fail (Wrapf ''failed creating nexus endpoint for %v: %w'' [f_Dir f] e)
                 else ret (id, filter (\<lambda>f. \<not> is_nexus f) features'))))))"

section \<open>Lemmas\<close>

lemma balanced_load_tls [balanced_intros]: "balanced (load_tls c)"
  unfolding load_tls_def by (rule balanced_os)

lemma acquires_dial [simp]: "acquires (dial c tls) = Some RClient"
  by (simp add: dial_def)

lemma check_capabilities_Ok:
  "check_capabilities field expected = Ok () \<longleftrightarrow> (\<forall>(name, v) \<in> set expected. field name = Some (CapBool v))"
  by (induction field expected rule: check_capabilities.induct) (auto split: option.splits capability.splits)

lemma balanced_assertNamespaceCapabilities [balanced_intros]: "balanced (assertNamespaceCapabilities field c expected)"
  unfolding assertNamespaceCapabilities_def
  by (intro balanced_intros balanced_bracket) simp_all

text \<open>The stack while the endpoints are held.\<close>

definition endpoint_stack :: "nat \<Rightarrow> resource list \<Rightarrow> resource list" where
  "endpoint_stack n st = replicate n REndpoint @ RClient # st"

lemma held_cleanup: "held w = Some (endpoint_stack (length created) st) \<Longrightarrow> held (cleanup created w) = Some st"
proof (induction created arbitrary: w)
  case Nil
  then show ?case by (simp add: cleanup_def endpoint_stack_def held_act_ignore release_def)
next
  case (Cons ep eps)
  obtain i v where ep: "ep = (i, v)" by force
  have "held (act_ignore (ADeleteEndpoint i v) w) = Some (endpoint_stack (length eps) st)"
    using held_act_ignore [OF Cons.prems, of "ADeleteEndpoint i v" REndpoint] by (simp add: endpoint_stack_def release_def)
  from Cons.IH [OF this] show ?case by (simp add: cleanup_def ep)
qed

lemma new_uuid_run: "new_uuid w = (Ok (x_uuid w (w_uuids w)), w\<lparr>w_uuids := Suc (w_uuids w)\<rparr>)"
  by (simp add: new_uuid_def)

lemma act_no_panic: "act a w \<noteq> (Panic e, w')"
  by (simp add: act_def Let_def split: option.splits)

text \<open>What the loop does: it always returns, holding one endpoint for each it created.\<close>

lemma create_endpoints_held:
  assumes "held w = Some (endpoint_stack (length created) st)" "create_endpoints eo ns fs created ready w = (r, w')"
  shows "\<exists>refused created' fs'. r = Ok (refused, created', fs') \<and> held w' = Some (endpoint_stack (length created') st)"
  using assms
proof (induction eo ns fs created ready arbitrary: w rule: create_endpoints.induct)
  case (1 eo ns created ready)
  then show ?case by (auto simp: ret_def)
next
  case (2 eo ns f fs created ready)
  show ?case
  proof (cases "is_nexus f")
    case False
    with 2 show ?thesis by simp
  next
    case True
    let ?u = "x_uuid w (w_uuids w)" and ?w = "w\<lparr>w_uuids := Suc (w_uuids w)\<rparr>"
    let ?a = "ACreateEndpoint (endpoint_name f ?u) ns (f_TaskQueue f)"
    obtain x w1 where a: "act ?a ?w = (x, w1)" by force
    have h: "held w1 = Some (if \<exists>e. x = Err e then endpoint_stack (length created) st
        else endpoint_stack (Suc (length created)) st)"
      using held_act [of ?w "endpoint_stack (length created) st" ?a REndpoint] 2(3) a
      by (simp add: endpoint_stack_def)
    show ?thesis
    proof (cases x)
      case (Ok resp)
      with True a 2(4) have "create_endpoints eo ns fs (created @ [eo resp]) (ready @ [f\<lparr>f_NexusEndpoint := endpoint_name f ?u\<rparr>]) w1 = (r, w')"
        by (simp add: bindE_def new_uuid_run attempt_def Let_def)
      moreover have "held w1 = Some (endpoint_stack (length (created @ [eo resp])) st)" using h Ok by simp
      ultimately show ?thesis using 2(2) [OF _ refl] True by blast
    next
      case (Err e)
      with True a 2(4) h show ?thesis by (auto simp: bindE_def new_uuid_run attempt_def Let_def ret_def)
    next
      case (Panic e)
      with a act_no_panic show ?thesis by blast
    qed
  qed
qed

end
