(* ===== verification/Run_History.thy ===== *)
theory Run_History
  imports Harness_Util Fetcher Namespace_Setup
begin

text \<open>
  Checking and generating histories after a batch (\<open>handleHistory\<close> and \<open>handleSingleHistory\<close> of
  \<open>cmd/run.go\<close>). The client is dialled for the first feature that needs it and closed at the end. \<open>fetch\<close>
  is what \<open>Fetch\<close> of the theory Fetcher gives when it returns. The stored versions are gone through in
  the order of the list; the order of a map is not fixed in Go. The unified diff is only logged.
\<close>

section \<open>One feature\<close>

definition marshal_indent :: "proto_api \<Rightarrow> Histories \<Rightarrow> string res" where
  "marshal_indent P hs =
     (case MarshalJSON P hs of
        Ok j \<Rightarrow> if wf_json j then Ok (MarshalIndent j) else Err syntax_error
      | Err e \<Rightarrow> Err e
      | Panic e \<Rightarrow> Panic e)"

definition curr_version :: "RunConfig \<Rightarrow> string" where
  "curr_version c = (if r_Version c = [] then ''<current>'' else r_Version c)"

fun check_versions :: "proto_api \<Rightarrow> RunConfig \<Rightarrow> RunFeature \<Rightarrow> Histories \<Rightarrow> StoredSet \<Rightarrow> unit res" where
  "check_versions P c f currHistScrubbed [] = Ok ()"
| "check_versions P c f currHistScrubbed ((version, hist) # vs) =
     (let existingHist = ScrubRunSpecificFields hist in
      if Equals P currHistScrubbed existingHist then check_versions P c f currHistScrubbed vs
      else (case marshal_indent P currHistScrubbed of
          Err e \<Rightarrow> Err e
        | Panic e \<Rightarrow> Panic e
        | Ok actualJSON \<Rightarrow>
            (case marshal_indent P existingHist of
               Err e \<Rightarrow> Err e
             | Panic e \<Rightarrow> Panic e
             | Ok expectedJSON \<Rightarrow>
                 Err (Errorf ''on feature %v, history with current version %v didn't match version %v''
                        [f_Dir f, curr_version c, version]))))"

definition history_storage :: "string \<Rightarrow> RunConfig \<Rightarrow> RunFeature \<Rightarrow> Storage" where
  "history_storage rootDir c f =
     \<lparr>st_Dir = PathJoin [rootDir, ''features'', f_Dir f, ''history''], st_Lang = r_Lang c\<rparr>"

definition history_fetcher :: "string \<Rightarrow> RunConfig \<Rightarrow> RunFeature \<Rightarrow> Fetcher" where
  "history_fetcher createTime c f = \<lparr>fe_Namespace = r_Namespace c, fe_TaskQueue = f_TaskQueue f, fe_Earliest = createTime\<rparr>"

definition handleSingleHistory ::
  "proto_api \<Rightarrow> (Fetcher \<Rightarrow> Histories res) \<Rightarrow> string \<Rightarrow> string \<Rightarrow> RunConfig \<Rightarrow> RunFeature \<Rightarrow> ('z world_scheme, unit) io" where
  "handleSingleHistory P fetch rootDir createTime c f = (let storage = history_storage rootDir c f in
     bindE (Load P storage) (\<lambda>existingSet.
       if \<not> r_GenerateHistory c \<and> (r_DisableHistoryCheck c \<or> existingSet = []) then ret ()
       else bindE (wrapE ''failed getting history: %w'' [] (of_res (fetch (history_fetcher createTime c f)))) (\<lambda>currHist.
         thenE (whenE (\<not> r_DisableHistoryCheck c)
             (of_res (check_versions P c f (ScrubRunSpecificFields (Clone P currHist)) existingSet)))
           (whenE (r_GenerateHistory c)
             (wrapE ''failed storing history for %v: %w'' [f_Dir f] (Store P storage [(r_Version c, currHist)]))))))"

section \<open>All features of a batch\<close>

text \<open>The state of the loop: the outer state, and whether there is a client yet.\<close>

definition ensure_client :: "RunConfig \<Rightarrow> ('z net_world_scheme \<times> bool, unit) io" where
  "ensure_client c = (\<lambda>(w, has).
     if has then (Ok (), (w, has))
     else (case bindE (wrapE ''failed to load TLS config: %w'' [] (load_tls c)) (\<lambda>tls.
              wrapE ''failed creating client: %w'' [] (act (dial c tls))) w of
         (Ok _, w') \<Rightarrow> (Ok (), (w', True))
       | (Err e, w') \<Rightarrow> (Err e, (w', False))
       | (Panic e, w') \<Rightarrow> (Panic e, (w', False))))"

definition wants_history :: "Summary \<Rightarrow> RunFeature \<Rightarrow> bool" where
  "wants_history summary f =
     (\<not> c_NoWorkflow (f_Config f) \<and>
      (case Find summary (SummaryName f) of None \<Rightarrow> False | Some entry \<Rightarrow> s_Outcome entry \<noteq> ''SKIPPED''))"

definition history_step ::
  "(RunFeature \<Rightarrow> ('z net_world_scheme, unit) io) \<Rightarrow> RunConfig \<Rightarrow> Summary \<Rightarrow> RunFeature \<Rightarrow> nat
     \<Rightarrow> ('z net_world_scheme \<times> bool, nat) io" where
  "history_step single c summary f failureCount =
     (if \<not> wants_history summary f then ret failureCount
      else thenE (ensure_client c)
        (bindE (attempt (on_fst (single f))) (\<lambda>r.
           ret (case r of Inl e \<Rightarrow> failureCount + 1 | Inr _ \<Rightarrow> failureCount))))"

definition handleHistory ::
  "(RunFeature \<Rightarrow> ('z net_world_scheme, unit) io) \<Rightarrow> RunConfig \<Rightarrow> RunFeature list \<Rightarrow> Summary \<Rightarrow> ('z net_world_scheme, unit) io" where
  "handleHistory single c features summary = (\<lambda>w.
     case deferE (\<lambda>(w, has). (if has then act_ignore ACloseClient w else w, has))
         (bindE (fold_io (history_step single c summary) features 0) (\<lambda>failureCount.
            if failureCount > 0 then fail (Errorf ''%v failure(s) reported'' [show_nat failureCount]) else ret ()))
         (w, False) of
       (r, (w', has)) \<Rightarrow> (r, w'))"

section \<open>Lemmas\<close>

lemma check_versions_Ok:
  "check_versions P c f cur vs = Ok () \<longleftrightarrow> (\<forall>(v, hs) \<in> set vs. Equals P cur (ScrubRunSpecificFields hs))"
  by (induction P c f cur vs rule: check_versions.induct) (auto simp: Let_def split: res.splits)

lemma distinct_put_entry: "distinct (map fst acc) \<Longrightarrow> distinct (map fst (foldl (put_entry P s w) acc ns))"
  by (induction ns arbitrary: acc) (simp_all add: put_entry_def distinct_map_put)

lemma Load_distinct:
  assumes "no_faults w" "clean_abs (st_Dir s)" "Load P s w = (Ok vs, w')"
  shows "distinct (map fst vs)"
  using Load_Ok [OF assms(1,2), of P vs w'] assms(3) by (auto simp: distinct_put_entry split: if_splits)

lemma history_storage_any: "history_storage root (c\<lparr>r_GenerateHistory := b\<rparr>) f = history_storage root c f"
  by (simp add: history_storage_def)

lemma store_Ok_no_faults:
  assumes "Store P s vs w = (r, w1)"
  shows "x_fault w1 = x_fault w"
proof -
  have 1: "keeps x_fault (store_one P s vh)" for vh
    by (auto simp: store_one_def Let_def intro!: keeps_intros keeps_os_write split: res.splits)
  have "keeps x_fault (Store P s vs)"
    unfolding Store_def by (intro keeps_intros 1 keeps_os_write) simp_all
  with assms show ?thesis by (auto dest: keepsD)
qed

text \<open>What a generating run that succeeds went through.\<close>

lemma generate_steps:
  assumes "handleSingleHistory P fetch root t c f w = (Ok (), w1)" "r_GenerateHistory c"
  obtains old cur where "Load P (history_storage root c f) w = (Ok old, w)"
    "fetch (history_fetcher t c f) = Ok cur"
    "r_DisableHistoryCheck c \<or> (\<forall>(v, hs) \<in> set old. Equals P (ScrubRunSpecificFields (Clone P cur)) (ScrubRunSpecificFields hs))"
    "Store P (history_storage root c f) [(r_Version c, cur)] w = (Ok (), w1)"
proof -
  let ?s = "history_storage root c f"
  from assms obtain old v where l: "Load P ?s w = (Ok old, v)"
    by (auto simp: handleSingleHistory_def Let_def bindE_Ok_iff)
  with keepsD [OF keeps_Load [of "\<lambda>w. w"] l] have l: "Load P ?s w = (Ok old, w)" by simp
  obtain cur where f: "fetch (history_fetcher t c f) = Ok cur"
    using assms l by (cases "fetch (history_fetcher t c f)") (auto simp: handleSingleHistory_def Let_def bindE_def wrapE_def of_res_def)
  let ?cv = "check_versions P c f (ScrubRunSpecificFields (Clone P cur)) old"
  have "thenE (whenE (\<not> r_DisableHistoryCheck c) (of_res ?cv))
      (wrapE ''failed storing history for %v: %w'' [f_Dir f] (Store P ?s [(r_Version c, cur)])) w = (Ok (), w1)"
    using assms l f by (simp add: handleSingleHistory_def Let_def bindE_def wrapE_def of_res_def whenE_def [of True])
  then have "r_DisableHistoryCheck c \<or> ?cv = Ok ()" "Store P ?s [(r_Version c, cur)] w = (Ok (), w1)"
    by (auto simp: thenE_Ok_iff whenE_def of_res_def ret_def wrapE_def split: if_splits prod.splits res.splits)
  then show thesis using that l f by (simp add: check_versions_Ok)
qed

subsection \<open>The client\<close>

lemma balanced_Load [balanced_intros]: "balanced (Load P st)"
  by (rule balanced_keeps) (rule keeps_Load)

lemma balanced_store_one [balanced_intros]: "balanced (store_one P s vh)"
  by (auto simp: store_one_def Let_def intro!: balanced_intros split: res.splits)

lemma balanced_Store [balanced_intros]: "balanced (Store P s vs)"
  unfolding Store_def by (intro balanced_intros)

lemma balanced_handleSingleHistory: "balanced (handleSingleHistory P fetch root t c f)"
  unfolding handleSingleHistory_def Let_def by (intro balanced_intros)

lemma holds_ensure_client:
  assumes "holds_client st s"
  shows "holds_client st (snd (ensure_client c s))"
proof -
  obtain w has where s: "s = (w, has)" by force
  show ?thesis
  proof (cases has)
    case True
    then show ?thesis using assms s by (simp add: ensure_client_def)
  next
    case False
    then have h: "held w = Some st" using assms s by (simp add: holds_client_def)
    obtain x w1 where l: "load_tls c w = (x, w1)" by force
    have h1: "held w1 = Some st" by (rule balancedD [OF balanced_load_tls h l])
    show ?thesis
    proof (cases x)
      case (Ok tls)
      obtain y w2 where d: "act (dial c tls) w1 = (y, w2)" by force
      have "held w2 = Some (if \<exists>e. y = Err e then st else RClient # st)"
        using held_act [OF h1, of "dial c tls" RClient] d by simp
      then show ?thesis using False s l Ok d
        by (cases y) (auto simp: ensure_client_def bindE_def wrapE_def holds_client_def act_no_panic)
    qed (use False s l h1 in \<open>simp_all add: ensure_client_def bindE_def wrapE_def holds_client_def\<close>)
  qed
qed

lemma holds_history_step:
  assumes "\<And>f. balanced (single f)" "holds_client st s"
  shows "holds_client st (snd (history_step single c summary f n s))"
proof (cases "wants_history summary f")
  case False
  then show ?thesis using assms(2) by (simp add: history_step_def ret_def)
next
  case True
  obtain x s1 where e: "ensure_client c s = (x, s1)" by (rule prod.exhaust)
  then have h1: "holds_client st s1" using holds_ensure_client [OF assms(2), of c] by simp
  have "holds_client st (snd (on_fst (single f) s1))" by (rule holds_on_fst [OF assms(1) h1])
  then show ?thesis using True e h1
    by (cases x; cases "on_fst (single f) s1"; cases "fst (on_fst (single f) s1)")
      (auto simp: history_step_def thenE_def bindE_def attempt_def ret_def)
qed

lemma holds_fold_io:
  assumes "\<And>x a s. I s \<Longrightarrow> I (snd (g x a s))" "I s"
  shows "I (snd (fold_io g xs a s))"
  using assms(2)
proof (induction xs arbitrary: a s)
  case Nil
  then show ?case by (simp add: ret_def)
next
  case (Cons x xs)
  obtain r s1 where g: "g x a s = (r, s1)" by (rule prod.exhaust)
  then have "I s1" using assms(1) [OF Cons.prems, of x a] by simp
  with Cons.IH g show ?case by (cases r) (simp_all add: bindE_def)
qed

lemma balanced_handleHistory [balanced_intros]:
  assumes "\<And>f. balanced (single f)"
  shows "balanced (handleHistory single c features summary)"
proof (rule balancedI)
  fix w :: "'a net_world_scheme" and st
  assume h: "held w = Some st"
  obtain x p where "fold_io (history_step single c summary) features 0 (w, False) = (x, p)" by (rule prod.exhaust)
  then obtain w1 has where f: "fold_io (history_step single c summary) features 0 (w, False) = (x, (w1, has))"
    by (cases p) blast
  have "holds_client st (w, False)" using h by (simp add: holds_client_def)
  then have "holds_client st (snd (fold_io (history_step single c summary) features 0 (w, False)))"
    by (rule holds_fold_io [where I = "holds_client st", rotated]) (rule holds_history_step [OF assms])
  then have "held w1 = Some (if has then RClient # st else st)" using f by (simp add: holds_client_def)
  then have "held (if has then act_ignore ACloseClient w1 else w1) = Some st"
    using held_act_ignore [of w1 "RClient # st" ACloseClient RClient] by (auto simp: release_def)
  then show "held (snd (handleHistory single c features summary w)) = Some st"
    using f by (cases x) (auto simp: handleHistory_def deferE_def bindE_def fail_def ret_def)
qed

section \<open>Properties\<close>

text \<open>
  C22: what a run generates, the next run accepts. After a generating run of a feature with the check on has
  succeeded, a run that only checks succeeds in the state it left and changes nothing, whatever run-specific
  fields its history has: it must scrub to the same histories as the generated one. The protobuf library
  reads back what it writes, a clone equals its original, and the fetched histories come sorted, as \<open>Fetch\<close>
  returns them.
\<close>

theorem generated_history_accepted:
  assumes "handleSingleHistory P fetch root t c f w = (Ok (), w1)" "r_GenerateHistory c" "\<not> r_DisableHistoryCheck c"
    and "no_faults w" "s = history_storage root c f" "clean_abs (st_Dir s)"
    and "is_dir w (st_Dir s) \<or> (\<forall>n. map_of (w_fs w) (st_Dir s @ slash # n) = None)"
    and "storable s (r_Version c)" "\<not> HasPrefix (hist_prefix s) (r_Version c)"
    and "fetch (history_fetcher t c f) = Ok cur" "sort_key name_or_empty cur = cur"
    and "\<forall>h j. h \<in> set cur \<and> p_Marshal P h = Ok j \<longrightarrow> p_Unmarshal P j = Ok h"
    and "Equals P (ScrubRunSpecificFields (Clone P cur)) (ScrubRunSpecificFields cur)"
    and "fetch' (history_fetcher t' c f) = Ok cur'"
    and "ScrubRunSpecificFields (Clone P cur') = ScrubRunSpecificFields (Clone P cur)"
  shows "handleSingleHistory P fetch' root t' (c\<lparr>r_GenerateHistory := False\<rparr>) f w1 = (Ok (), w1)"
proof -
  let ?c = "c\<lparr>r_GenerateHistory := False\<rparr>" and ?scr = "ScrubRunSpecificFields (Clone P cur)"
  from generate_steps [OF assms(1,2)] assms(3,5,10) obtain old where old: "Load P s w = (Ok old, w)"
    and match: "\<forall>(v, hs) \<in> set old. Equals P ?scr (ScrubRunSpecificFields hs)"
    and store: "Store P s [(r_Version c, cur)] w = (Ok (), w1)" by (metis res.inject(1))
  have "\<exists>new. Load P s w1 = (Ok new, w1) \<and> (\<forall>v. map_of new v =
      (case map_of [(r_Version c, cur)] v of Some hs \<Rightarrow> Some (sort_key name_or_empty hs) | None \<Rightarrow> map_of old v))"
    by (rule Load_after_Store [OF assms(4,6,7) _ _ _ old store]) (use assms(8,9,12) in \<open>auto split: if_splits\<close>)
  then obtain new where new: "Load P s w1 = (Ok new, w1)"
    "\<And>v. map_of new v = (if v = r_Version c then Some cur else map_of old v)" using assms(11) by auto
  have nf: "no_faults w1" using store_Ok_no_faults [OF store] assms(4) by (simp add: no_faults_def)
  have "Equals P ?scr (ScrubRunSpecificFields hs)" if "(v, hs) \<in> set new" for v hs
  proof -
    have "map_of new v = Some hs" using Load_distinct [OF nf assms(6) new(1)] that by simp
    then show ?thesis using new(2) [of v] match assms(13) by (auto split: if_splits dest: map_of_SomeD)
  qed
  then have "check_versions P ?c f (ScrubRunSpecificFields (Clone P cur')) new = Ok ()"
    using assms(15) by (auto simp: check_versions_Ok)
  moreover have "history_fetcher t' ?c f = history_fetcher t' c f" by (simp add: history_fetcher_def)
  ultimately show ?thesis using new(1) assms(3,5,14)
    by (simp add: handleSingleHistory_def Let_def history_storage_any bindE_def wrapE_def of_res_def thenE_def whenE_def ret_def)
qed

definition plain_feature :: RunFeature where
  "plain_feature = \<lparr>f_Dir = ''d'', f_TaskQueue = ''q'', f_NexusEndpoint = [], f_Config = zero_config, f_VariantName = []\<rparr>"

theorem generated_history_accepted_witness:
  "\<exists>w1. handleSingleHistory sample_proto (\<lambda>_. Ok [sample_history ''a'' ''me'']) ''/r'' []
       (zero_run_config\<lparr>r_Version := ''v1'', r_GenerateHistory := True\<rparr>) plain_feature (calm_world []) = (Ok (), w1) \<and>
     handleSingleHistory sample_proto (\<lambda>_. Ok [sample_history ''a'' ''you'']) ''/r'' []
       (zero_run_config\<lparr>r_Version := ''v1''\<rparr>) plain_feature w1 = (Ok (), w1)"
proof -
  let ?c = "zero_run_config\<lparr>r_Version := ''v1'', r_GenerateHistory := True\<rparr>"
  let ?fetch = "\<lambda>_. Ok [sample_history ''a'' ''me''] :: Histories res" and ?s = "history_storage ''/r'' ?c plain_feature"
  let ?fetch' = "\<lambda>_. Ok [sample_history ''a'' ''you''] :: Histories res"
  have "fst (handleSingleHistory sample_proto ?fetch ''/r'' [] ?c plain_feature (calm_world [])) = Ok ()" by code_simp
  from fst_res [OF this] obtain w1 where
    run: "handleSingleHistory sample_proto ?fetch ''/r'' [] ?c plain_feature (calm_world []) = (Ok (), w1)" by (rule that)
  have g: "r_GenerateHistory ?c" "\<not> r_DisableHistoryCheck ?c" by (simp_all add: zero_run_config_def)
  have nf: "no_faults (calm_world [])" by (simp add: no_faults_def calm_world_def)
  have d: "clean_abs (st_Dir ?s)" by code_simp
  have e: "is_dir (calm_world []) (st_Dir ?s) \<or> (\<forall>n. map_of (w_fs (calm_world [])) (st_Dir ?s @ slash # n) = None)"
    by (simp add: calm_world_def)
  have v: "storable ?s (r_Version ?c)" "\<not> HasPrefix (hist_prefix ?s) (r_Version ?c)" by code_simp+
  have so: "sort_key name_or_empty [sample_history ''a'' ''me''] = [sample_history ''a'' ''me'']" by simp
  have p: "\<forall>h j. h \<in> set [sample_history ''a'' ''me''] \<and> p_Marshal sample_proto h = Ok j \<longrightarrow> p_Unmarshal sample_proto j = Ok h"
    by (auto simp: sample_proto_def name_or_empty_def historyFirstEventName_def sample_history_def getter_def get_field_def
        elements_def started_attributes_def text_of_def)
  have eq: "Equals sample_proto (ScrubRunSpecificFields (Clone sample_proto [sample_history ''a'' ''me'']))
      (ScrubRunSpecificFields [sample_history ''a'' ''me''])" by code_simp
  have sc: "ScrubRunSpecificFields (Clone sample_proto [sample_history ''a'' ''you'']) =
      ScrubRunSpecificFields (Clone sample_proto [sample_history ''a'' ''me''])" by code_simp
  have "?c\<lparr>r_GenerateHistory := False\<rparr> = zero_run_config\<lparr>r_Version := ''v1''\<rparr>" by (simp add: zero_run_config_def)
  with generated_history_accepted [OF run g nf refl d e v refl so p eq, of ?fetch' "[]" "[sample_history ''a'' ''you'']", OF refl sc] run
  show ?thesis by auto
qed

text \<open>
  C25: a history that differs stops there. With the check on, when a stored version does not scrub to the same
  histories as the current one, the feature fails, also in a generating run: nothing is stored and no
  file is changed. The error names the first stored version that differs, unless one of the two cannot be
  written as JSON for the log.
\<close>

theorem history_mismatch_stores_nothing:
  assumes "Load P (history_storage root c f) w = (Ok old, w)" "fetch (history_fetcher t c f) = Ok cur"
    and "\<not> r_DisableHistoryCheck c" "scr = ScrubRunSpecificFields (Clone P cur)"
    and "old = vs @ (v, hs) # vs'" "\<not> Equals P scr (ScrubRunSpecificFields hs)"
    and "list_all (\<lambda>(v, hs). Equals P scr (ScrubRunSpecificFields hs)) vs"
  shows "snd (handleSingleHistory P fetch root t c f w) = w \<and> fst (handleSingleHistory P fetch root t c f w) \<noteq> Ok () \<and>
    (\<forall>a b. marshal_indent P scr = Ok a \<and> marshal_indent P (ScrubRunSpecificFields hs) = Ok b \<longrightarrow>
      fst (handleSingleHistory P fetch root t c f w) =
        Err (Errorf ''on feature %v, history with current version %v didn't match version %v'' [f_Dir f, curr_version c, v]))"
proof -
  have "check_versions P c f scr (vs @ (v, hs) # vs') = check_versions P c f scr ((v, hs) # vs')"
    using assms(7) by (induction vs) auto
  then have cv: "check_versions P c f scr old = check_versions P c f scr ((v, hs) # vs')" using assms(5) by simp
  have "handleSingleHistory P fetch root t c f w =
      thenE (of_res (check_versions P c f scr old))
        (whenE (r_GenerateHistory c) (wrapE ''failed storing history for %v: %w'' [f_Dir f]
           (Store P (history_storage root c f) [(r_Version c, cur)]))) w"
    using assms(1-5) by (simp add: handleSingleHistory_def Let_def bindE_def wrapE_def of_res_def whenE_def)
  then show ?thesis using assms(6) unfolding cv
    by (auto simp: thenE_def bindE_def of_res_def split: res.splits)
qed

theorem history_mismatch_stores_nothing_witness:
  "\<exists>w1. handleSingleHistory sample_proto (\<lambda>_. Ok [sample_history ''a'' ''me'']) ''/r'' []
       (zero_run_config\<lparr>r_Version := ''v1'', r_GenerateHistory := True\<rparr>) plain_feature (calm_world []) = (Ok (), w1) \<and>
     snd (handleSingleHistory sample_proto (\<lambda>_. Ok [sample_history ''b'' ''me'']) ''/r'' []
       (zero_run_config\<lparr>r_Version := ''v2'', r_GenerateHistory := True\<rparr>) plain_feature w1) = w1"
proof -
  let ?c = "zero_run_config\<lparr>r_Version := ''v1'', r_GenerateHistory := True\<rparr>"
  let ?c2 = "zero_run_config\<lparr>r_Version := ''v2'', r_GenerateHistory := True\<rparr>"
  let ?fetch = "\<lambda>_. Ok [sample_history ''a'' ''me''] :: Histories res"
  let ?fetch2 = "\<lambda>_. Ok [sample_history ''b'' ''me''] :: Histories res"
  have "fst (handleSingleHistory sample_proto ?fetch ''/r'' [] ?c plain_feature (calm_world [])) = Ok ()" by code_simp
  from fst_res [OF this] obtain w1 where
    run: "handleSingleHistory sample_proto ?fetch ''/r'' [] ?c plain_feature (calm_world []) = (Ok (), w1)" by (rule that)
  have "fst (Load sample_proto (history_storage ''/r'' ?c2 plain_feature)
      (snd (handleSingleHistory sample_proto ?fetch ''/r'' [] ?c plain_feature (calm_world [])))) =
      Ok [(''v1'', [sample_history ''a'' ''me''])]" by code_simp
  then have "fst (Load sample_proto (history_storage ''/r'' ?c2 plain_feature) w1) = Ok [(''v1'', [sample_history ''a'' ''me''])]"
    using run by simp
  from fst_res [OF this] obtain w2 where
    l2: "Load sample_proto (history_storage ''/r'' ?c2 plain_feature) w1 = (Ok [(''v1'', [sample_history ''a'' ''me''])], w2)"
    by (rule that)
  then have "w2 = w1" using keepsD [OF keeps_Load [of "\<lambda>w. w"] l2] by simp
  with l2 have l: "Load sample_proto (history_storage ''/r'' ?c2 plain_feature) w1 = (Ok [(''v1'', [sample_history ''a'' ''me''])], w1)"
    by simp
  have d: "\<not> r_DisableHistoryCheck ?c2" by (simp add: zero_run_config_def)
  have ne: "\<not> Equals sample_proto (ScrubRunSpecificFields (Clone sample_proto [sample_history ''b'' ''me'']))
      (ScrubRunSpecificFields [sample_history ''a'' ''me''])" by code_simp
  have o: "[(''v1'', [sample_history ''a'' ''me''])] = [] @ (''v1'', [sample_history ''a'' ''me'']) # []" by simp
  have e: "list_all (\<lambda>(v, hs). Equals sample_proto (ScrubRunSpecificFields (Clone sample_proto [sample_history ''b'' ''me'']))
      (ScrubRunSpecificFields hs)) []" by simp
  from history_mismatch_stores_nothing [OF l _ d refl o ne e, of ?fetch2 "[]"] run show ?thesis by blast
qed

end
