(* ===== verification/Http_Proxy.thy ===== *)
theory Http_Proxy
  imports Go_Base "HOL-Library.Word"
begin

text \<open>
  The HTTP CONNECT proxy that counts tunnelled connections (\<open>harness/go/harness/httpproxy.go\<close>): the
  handler of one request, the two 32-bit counters, and the decoding of base64 it uses
  (\<open>base64.StdEncoding\<close>, which returns what it could decode together with the error).
\<close>

section \<open>Base64\<close>

definition b64_alphabet :: string where
  "b64_alphabet = ''ABCDEFGHIJKLMNOPQRSTUVWXYZabcdefghijklmnopqrstuvwxyz0123456789+/''"

definition b64_char :: "nat \<Rightarrow> char" where
  "b64_char n = b64_alphabet ! n"

definition b64_val :: "char \<Rightarrow> nat option" where
  "b64_val c = IndexByte c b64_alphabet"

abbreviation pad :: char where
  "pad \<equiv> CHR ''=''"

fun b64_encode :: "string \<Rightarrow> string" where
  "b64_encode [] = []"
| "b64_encode [a] = (let x = of_char a in
     [b64_char (x div 4), b64_char (x mod 4 * 16), pad, pad])"
| "b64_encode [a, b] = (let x = of_char a; y = of_char b in
     [b64_char (x div 4), b64_char (x mod 4 * 16 + y div 16), b64_char (y mod 16 * 4), pad])"
| "b64_encode (a # b # c # r) = (let x = of_char a; y = of_char b; z = of_char c in
     b64_char (x div 4) # b64_char (x mod 4 * 16 + y div 16) # b64_char (y mod 16 * 4 + z div 64) #
     b64_char (z mod 64) # b64_encode r)"

text \<open>
  Line breaks are skipped. A quantum is four characters; padding may only end the last one. What was
  decoded before an error is returned with it.
\<close>

fun b64_quanta :: "string \<Rightarrow> string \<times> bool" where
  "b64_quanta [] = ([], True)"
| "b64_quanta (a # b # c # d # r) =
     (case (b64_val a, b64_val b) of
        (Some w, Some x) \<Rightarrow>
          if c = pad then (if d = pad then ([char_of (w * 4 + x div 16)], r = []) else ([], False))
          else (case b64_val c of
              None \<Rightarrow> ([], False)
            | Some y \<Rightarrow>
                if d = pad then ([char_of (w * 4 + x div 16), char_of (x mod 16 * 16 + y div 4)], r = [])
                else (case b64_val d of
                    None \<Rightarrow> ([], False)
                  | Some z \<Rightarrow>
                      (case b64_quanta r of (s, ok) \<Rightarrow>
                        (char_of (w * 4 + x div 16) # char_of (x mod 16 * 16 + y div 4) # char_of (y mod 4 * 64 + z) # s, ok))))
      | _ \<Rightarrow> ([], False))"
| "b64_quanta s = ([], False)"

definition b64_decode :: "string \<Rightarrow> string \<times> bool" where
  "b64_decode s = b64_quanta (filter (\<lambda>c. c \<noteq> newline \<and> c \<noteq> CHR 0x0D) s)"

section \<open>The handler\<close>

record proxy =
  x_Unauthed :: "32 word"
  x_Authed :: "32 word"

record request =
  q_Method :: string
  q_Auth :: string
  q_Host :: string

text \<open>What the connection does: hijacking it, dialling the target, writing and reading.\<close>

record connection =
  n_hijacker :: bool
  n_hijack :: "go_error option"
  n_dial :: "string \<Rightarrow> go_error option"
  n_write_ok :: "go_error option"
  n_first_read :: "string res"
  n_first_write :: "go_error option"

datatype response = HttpError nat string | LostError nat string | Tunnelled string

definition basic_prefix :: string where
  "basic_prefix = ''Basic ''"

text \<open>The decoding error of the header is not looked at.\<close>

definition credentials_ok :: "string \<Rightarrow> bool" where
  "credentials_ok auth =
     (case SplitN (CHR '':'') 2 (fst (b64_decode (TrimPrefix auth basic_prefix))) of
        [u, p] \<Rightarrow> u = ''proxy-user'' \<and> p = ''proxy-pass''
      | _ \<Rightarrow> False)"

text \<open>
  The response, and the counters. The 200 of a CONNECT is written to the hijacked connection and counted
  before the client's first packet is awaited. \<open>http.Error\<close> after hijacking writes to a response that
  no longer has a connection: that answer is lost.
\<close>

definition handler :: "connection \<Rightarrow> request \<Rightarrow> (proxy, response) io" where
  "handler c q =
     (if q_Method q \<noteq> ''CONNECT'' then ret (HttpError 405 ''CONNECT only'')
      else let hasAuth = (q_Auth q \<noteq> []) in
      if hasAuth \<and> \<not> credentials_ok (q_Auth q) then ret (HttpError 407 ''Auth failed'')
      else if \<not> n_hijacker c then panic (Errorf ''no hijack iface'' [])
      else if n_hijack c \<noteq> None then panic (Errorf ''hijack failed'' [])
      else (case n_dial c (q_Host q) of
          Some e \<Rightarrow> ret (LostError 502 (''Upstream conn failed: '' @ error_text e))
        | None \<Rightarrow>
            (case n_write_ok c of
               Some e \<Rightarrow> panic (Errorf ''Writing 200 OK failed: %v'' [error_text e])
             | None \<Rightarrow>
                 thenE (upd (\<lambda>p. if hasAuth then p\<lparr>x_Authed := x_Authed p + 1\<rparr> else p\<lparr>x_Unauthed := x_Unauthed p + 1\<rparr>))
                 (case n_first_read c of
                    Err e \<Rightarrow> panic (Errorf ''Expected client to send a first packet: %v'' [error_text e])
                  | Panic e \<Rightarrow> panic e
                  | Ok b \<Rightarrow>
                      (case n_first_write c of
                         Some e \<Rightarrow> panic (Errorf ''Sending client's first packet to server failed: %v'' [error_text e])
                       | None \<Rightarrow> ret (Tunnelled b))))))"

text \<open>Requests are served one after another here; the counters are atomic.\<close>

fun serve :: "(connection \<times> request) list \<Rightarrow> proxy \<Rightarrow> proxy" where
  "serve [] p = p"
| "serve ((c, q) # r) p = serve r (snd (handler c q p))"

section \<open>Lemmas\<close>

lemma b64_table:
  "n < 64 \<Longrightarrow> b64_val (b64_char n) = Some n \<and> b64_char n \<noteq> pad \<and> b64_char n \<noteq> newline \<and> b64_char n \<noteq> CHR 0x0D"
proof -
  assume "n < 64"
  moreover have "list_all (\<lambda>n. b64_val (b64_char n) = Some n \<and> b64_char n \<noteq> pad \<and>
      b64_char n \<noteq> newline \<and> b64_char n \<noteq> CHR 0x0D) [0..<64]"
    by code_simp
  ultimately show ?thesis by (simp add: list_all_iff)
qed

lemma byte_bound: "(of_char c :: nat) < 256"
  using nat_of_char_less_256 by simp

lemma byte_parts:
  "(of_char a :: nat) div 4 < 64" "(of_char a :: nat) mod 4 * 16 < 64" "(of_char a :: nat) mod 64 < 64"
  "(of_char a :: nat) mod 16 * 4 < 64" "(of_char a :: nat) mod 4 * 16 + of_char b div 16 < 64"
  "(of_char a :: nat) mod 16 * 4 + of_char b div 64 < 64"
  using byte_bound [of a] byte_bound [of b] by linarith+

lemma byte_small:
  "(of_char b :: nat) div 16 div 16 = 0" "(of_char b :: nat) div 16 mod 16 = of_char b div 16"
  "(of_char b :: nat) div 64 div 4 = 0" "(of_char b :: nat) div 64 mod 4 = of_char b div 64"
  using byte_bound [of b] by (simp_all add: div_mult2_eq [symmetric] div_less_iff_less_mult)

lemma b64_encode_chars: "c \<in> set (b64_encode s) \<Longrightarrow> c \<noteq> newline \<and> c \<noteq> CHR 0x0D"
proof (induction s rule: b64_encode.induct)
  case (2 a)
  then show ?case using b64_table byte_parts by (auto simp: Let_def)
next
  case (3 a b)
  then show ?case using b64_table byte_parts by (auto simp: Let_def)
next
  case (4 a b c r)
  then show ?case using b64_table byte_parts by (auto simp: Let_def)
qed simp

lemma b64_quanta_encode: "b64_quanta (b64_encode s) = (s, True)"
  by (induction s rule: b64_encode.induct)
    (simp_all add: Let_def b64_table byte_parts byte_small div_mult_mod_eq)

lemma b64_roundtrip: "b64_decode (b64_encode s) = (s, True)"
proof -
  have "filter (\<lambda>c. c \<noteq> newline \<and> c \<noteq> CHR 0x0D) (b64_encode s) = b64_encode s"
    using b64_encode_chars by (auto intro!: filter_True)
  then show ?thesis by (simp add: b64_decode_def b64_quanta_encode)
qed

text \<open>A request that gets its 200: the counter it belongs to goes up by one.\<close>

definition established :: "bool \<Rightarrow> connection \<times> request \<Rightarrow> bool" where
  "established authed r = (case r of (c, q) \<Rightarrow>
     q_Method q = ''CONNECT'' \<and> (q_Auth q \<noteq> []) = authed \<and> (authed \<longrightarrow> credentials_ok (q_Auth q)) \<and>
     n_hijacker c \<and> n_hijack c = None \<and> n_dial c (q_Host q) = None \<and> n_write_ok c = None)"

lemma handler_counts:
  "snd (handler c q p) =
     (if established True (c, q) then p\<lparr>x_Authed := x_Authed p + 1\<rparr>
      else if established False (c, q) then p\<lparr>x_Unauthed := x_Unauthed p + 1\<rparr> else p)"
  by (auto simp: handler_def established_def Let_def io_defs split: option.splits res.splits)

lemma established_one: "established True r \<Longrightarrow> \<not> established False r"
  by (auto simp: established_def split: prod.splits)

section \<open>Properties\<close>

text \<open>
  Which credentials open the proxy. A header that is the encoding of a user and a password, with
  or without the word Basic in front, is accepted exactly when they are \<open>proxy-user\<close> and
  \<open>proxy-pass\<close>; the user's name ends at the first colon.
\<close>

lemma proxy_credentials:
  assumes "CHR '':'' \<notin> set u"
  shows "credentials_ok (basic_prefix @ b64_encode (u @ '':'' @ p)) \<longleftrightarrow> u = ''proxy-user'' \<and> p = ''proxy-pass''"
proof -
  have "SplitN CHR '':'' 2 (u @ '':'' @ p) = [u, p]"
    using SplitN_step [OF assms, of 0 p] by (simp add: numeral_2_eq_2)
  then show ?thesis by (simp add: credentials_ok_def b64_roundtrip)
qed

text \<open>
  C8: what the counters count. After any sequence of requests each of the two 32-bit counters is its
  initial value plus the number of the requests of its kind that were established, modulo 2^32: those
  are the CONNECT requests with good credentials, or with none, whose target answers and whose 200
  could be written. A request that is turned away leaves both as they were and gets a 405 or a 407; a
  target that does not answer gets no answer at all.
\<close>

theorem proxy_counters:
  "x_Authed (serve rs p) = x_Authed p + of_nat (length (filter (established True) rs)) \<and>
   x_Unauthed (serve rs p) = x_Unauthed p + of_nat (length (filter (established False) rs)) \<and>
   (q_Method q \<noteq> ''CONNECT'' \<longrightarrow> handler c q p = (Ok (HttpError 405 ''CONNECT only''), p)) \<and>
   (q_Method q = ''CONNECT'' \<and> q_Auth q \<noteq> [] \<and> \<not> credentials_ok (q_Auth q) \<longrightarrow>
      handler c q p = (Ok (HttpError 407 ''Auth failed''), p)) \<and>
   (\<forall>s. fst (handler c q p) = Ok (Tunnelled s) \<longrightarrow> established (q_Auth q \<noteq> []) (c, q)) \<and>
   (\<forall>n m. fst (handler c q p) = Ok (HttpError n m) \<longrightarrow> n \<in> {405, 407})"
proof (intro conjI impI allI)
  show "x_Authed (serve rs p) = x_Authed p + of_nat (length (filter (established True) rs))"
    by (induction rs p rule: serve.induct) (auto simp: handler_counts)
  show "x_Unauthed (serve rs p) = x_Unauthed p + of_nat (length (filter (established False) rs))"
    by (induction rs p rule: serve.induct) (auto simp: handler_counts established_one)
qed (auto simp: handler_def established_def Let_def io_defs split: option.splits res.splits if_splits)

theorem proxy_counters_witness:
  "x_Unauthed (serve [(\<lparr>n_hijacker = True, n_hijack = None, n_dial = (\<lambda>_. None), n_write_ok = None,
        n_first_read = Ok ''x'', n_first_write = None\<rparr>, \<lparr>q_Method = ''CONNECT'', q_Auth = [], q_Host = ''h''\<rparr>)]
      \<lparr>x_Unauthed = - 1, x_Authed = 0\<rparr>) = 0"
  using proxy_counters [of "[(\<lparr>n_hijacker = True, n_hijack = None, n_dial = (\<lambda>_. None), n_write_ok = None,
        n_first_read = Ok ''x'', n_first_write = None\<rparr>, \<lparr>q_Method = ''CONNECT'', q_Auth = [], q_Host = ''h''\<rparr>)]"
      "\<lparr>x_Unauthed = - 1, x_Authed = 0\<rparr>"]
  by (simp add: established_def)

end
