(* ===== verification/Orchestrator.thy ===== *)
theory Orchestrator
  imports Run_External Run_History Http_Proxy
begin

text \<open>
  The run itself (\<open>Runner.Run\<close> and \<open>Runner.runBatch\<close> of \<open>cmd/run.go\<close>): what is checked before anything is
  started, the batches one after another, and for each batch the server, the namespace, the Nexus
  endpoints, the proxy and the summary listener, set up one inside the other and given back by deferred
  calls, the tests in this process or in another, the summary, the proxy counts and the histories.
  What the code calls that is not in the repository is the record \<open>run_env\<close>.
\<close>

section \<open>The environment\<close>

text \<open>
  \<open>en_conn n\<close> is what a harness in another process sends to the summary listener, \<open>en_requests n\<close> what the
  proxy serves, in the batch whose listener was opened when the trace had \<open>n\<close> actions; \<open>en_registry\<close> holds
  the Go features linked into this process.
\<close>

record 'w run_env =
  en_semver :: semver_lib
  en_yaml :: "string \<Rightarrow> (string \<times> dynamicConfigValue list) list res"
  en_url_Parse :: "string \<Rightarrow> (string \<times> string \<times> string) res"
  en_proto :: proto_api
  en_sdk :: sdk_lib
  en_fetch :: "Fetcher \<Rightarrow> Histories res"
  en_registry :: "'w registry"
  en_capability :: "string \<Rightarrow> string \<Rightarrow> capability option"
  en_endpoint :: "string \<Rightarrow> endpoint"
  en_conn :: "nat \<Rightarrow> (string \<times> go_error option) option"
  en_requests :: "nat \<Rightarrow> (connection \<times> request) list"
  en_createTime :: string
  en_rootDir :: string

section \<open>A batch\<close>

definition batch_config :: "RunConfig \<Rightarrow> runBatch \<Rightarrow> ('z world_scheme, RunConfig) io" where
  "batch_config config b = (let c = config\<lparr>r_NamespaceCapabilitiesJSON := b_CapabilitiesJSON b\<rparr> in
     if r_Namespace c = [] then bindE new_uuid (\<lambda>u. ret (c\<lparr>r_Namespace := ''features-ns-'' @ u\<rparr>)) else ret c)"

definition batch_label :: "runBatch \<Rightarrow> string" where
  "batch_label b = (if b_VariantName b \<noteq> [] then b_VariantName b else ''default'')"

definition batch_line :: "runBatch \<Rightarrow> string" where
  "batch_line b = Sprintf (''Running feature batch variant=%s features=%s dynamicConfigOverrides=%s'' @ [newline])
     [batch_label b, Join (featureSummaryNames (b_Features b)) '','', formatMap (b_DynamicConfig b)]"

text \<open>The parts of \<open>runBatch\<close> that defer something take what follows them as an argument.\<close>

definition with_server ::
  "'w run_env \<Rightarrow> RunConfig \<Rightarrow> runBatch \<Rightarrow> (RunConfig \<Rightarrow> ('z net_world_scheme, unit) io) \<Rightarrow> ('z net_world_scheme, unit) io" where
  "with_server E c b body =
     (if r_Server c = [] then
        bindE (dynamicConfigArgs (en_yaml E) (en_rootDir E) (b_DynamicConfig b)) (\<lambda>args.
        bindE (wrapE ''failed starting devserver: %w'' [] (act (AStartDevServer (r_Namespace c) args))) (\<lambda>addr.
          deferE (act_ignore AStopDevServer) (body (c\<lparr>r_Server := addr\<rparr>))))
      else if b_VariantName b \<noteq> [] then
        fail (Errorf ''feature run variant %q requires the embedded dev server, but --server was provided'' [batch_label b])
      else thenE (WaitNamespaceAvailable (r_Server c) (r_Namespace c) (r_ClientCertPath c) (r_ClientKeyPath c)
             (r_CACertPath c) (r_TLSServerName c))
           (body c))"

definition with_endpoints ::
  "'w run_env \<Rightarrow> RunConfig \<Rightarrow> RunFeature list \<Rightarrow> (RunFeature list \<Rightarrow> ('z net_world_scheme, unit) io)
     \<Rightarrow> ('z net_world_scheme, unit) io" where
  "with_endpoints E c features body =
     bindE (createNexusEndpoints (en_endpoint E) c features) (\<lambda>(deleteEndpoints, features').
       deferE deleteEndpoints (if features' = [] then ret () else body features'))"

definition with_proxy ::
  "RunConfig \<Rightarrow> bool \<Rightarrow> (RunConfig \<Rightarrow> ('z net_world_scheme, unit) io) \<Rightarrow> ('z net_world_scheme, unit) io" where
  "with_proxy c wanted body =
     (if wanted then
        bindE (wrapE ''could not start proxy server: %w'' [] (act AStartProxy)) (\<lambda>addr.
          deferE (act_ignore ACloseProxy) (body (c\<lparr>r_HTTPProxyURL := ''http://'' @ addr\<rparr>)))
      else body c)"

definition with_listener ::
  "(string \<Rightarrow> ('z net_world_scheme, unit) io) \<Rightarrow> ('z net_world_scheme, unit) io" where
  "with_listener body = bindE (act (AListen ''127.0.0.1:0'')) (\<lambda>addr. deferE (act_ignore ACloseListener) (body addr))"

text \<open>The configuration and the capabilities variable of the batch, restored on every way out.\<close>

definition with_config :: "RunConfig \<Rightarrow> ('z runner_state_scheme, unit) io \<Rightarrow> ('z runner_state_scheme, unit) io" where
  "with_config c body = (\<lambda>s. let orig = u_Config s in
     case setNamespaceCapabilitiesEnv (r_NamespaceCapabilitiesJSON c) (s\<lparr>u_Config := c\<rparr>) of
       (restoreEnv, s1) \<Rightarrow> deferE (\<lambda>t. (restoreEnv t)\<lparr>u_Config := orig\<rparr>) body s1)"

definition in_process :: "RunConfig \<Rightarrow> bool" where
  "in_process c = (r_Lang c = ''go'' \<and> r_Version c = [] \<and> r_DirName c = [])"

definition go_harness_config :: "RunConfig \<Rightarrow> harness_config" where
  "go_harness_config c = \<lparr>hr_Server = r_Server c, hr_Namespace = r_Namespace c, hr_ClientCertPath = r_ClientCertPath c,
     hr_ClientKeyPath = r_ClientKeyPath c, hr_CACertPath = r_CACertPath c, hr_SummaryURI = r_SummaryURI c,
     hr_HTTPProxyURL = r_HTTPProxyURL c, hr_TLSServerName = r_TLSServerName c\<rparr>"

definition run_tests ::
  "'z runner_state_scheme run_env \<Rightarrow> RunConfig \<Rightarrow> RunFeature list \<Rightarrow> ('z runner_state_scheme, unit) io" where
  "run_tests E c features =
     (if in_process c
      then RunHarness (en_url_Parse E) (en_proto E) (en_sdk E) (en_fetch E) (go_harness_config c) (en_registry E) features
      else external_batch (en_semver E) (en_rootDir E) c features)"

text \<open>
  The connection the listener gets: from this process, when it opened the listener's address, with the lines
  written since then; from another process, what the environment says.
\<close>

definition sent_lines :: "action list \<Rightarrow> string" where
  "sent_lines as = concat (List.map_filter (\<lambda>a. case a of AWriteSummary l \<Rightarrow> Some l | _ \<Rightarrow> None) as)"

definition connection_of ::
  "'w run_env \<Rightarrow> RunConfig \<Rightarrow> string \<Rightarrow> nat \<Rightarrow> 'z net_world_scheme \<Rightarrow> (string \<times> go_error option) option" where
  "connection_of E c addr n s =
     (if in_process c then
        (let as = drop n (n_trace s) in if AOpenSummary ''tcp'' addr \<in> set as then Some (sent_lines as, None) else None)
      else en_conn E n)"

definition batch_summary :: "runBatch \<Rightarrow> RunFeature list \<Rightarrow> (string \<times> go_error option) option \<Rightarrow> Summary" where
  "batch_summary b features conn =
     (case summaryServer conn of
        None \<Rightarrow> map (\<lambda>f. \<lparr>s_Name = SummaryName f, s_Outcome = FeaturePassed, s_Message = []\<rparr>) features
      | Some summary \<Rightarrow> if b_VariantName b \<noteq> [] then rewriteVariantSummary summary features else summary)"

definition print_lines :: "string list \<Rightarrow> 'z net_world_scheme \<Rightarrow> 'z net_world_scheme" where
  "print_lines ls = fold (\<lambda>l. act_ignore (APrint (l @ [newline]))) ls"

text \<open>The expected counts of the features that passed; \<open>None\<close> when one failed.\<close>

fun expected_counts :: "RunFeature list \<Rightarrow> Summary \<Rightarrow> int \<times> int \<Rightarrow> (int \<times> int) option" where
  "expected_counts features [] counts = Some counts"
| "expected_counts features (summ # summary) (unauthed, authed) =
     (if s_Outcome summ = ''FAILED'' then None
      else if s_Outcome summ = ''PASSED'' then
        (case find (\<lambda>f. SummaryName f = s_Name summ) features of
           None \<Rightarrow> expected_counts features summary (unauthed, authed)
         | Some f \<Rightarrow> expected_counts features summary
             (unauthed + c_UnauthedProxyCount (f_Config f), authed + c_AuthedProxyCount (f_Config f)))
      else expected_counts features summary (unauthed, authed))"

definition check_proxy :: "RunFeature list \<Rightarrow> Summary \<Rightarrow> proxy \<Rightarrow> unit res" where
  "check_proxy features summary p =
     (case expected_counts features summary (0, 0) of
        None \<Rightarrow> Ok ()
      | Some (unauthed, authed) \<Rightarrow>
          if x_Unauthed p \<noteq> of_int unauthed then
            Err (Errorf ''expected %v unauthed HTTP proxy connections, got %v'' [show_int unauthed, show_nat (unat (x_Unauthed p))])
          else if x_Authed p \<noteq> of_int authed then
            Err (Errorf ''expected %v authed HTTP proxy connections, got %v'' [show_int authed, show_nat (unat (x_Authed p))])
          else Ok ())"

definition batch_history ::
  "'w run_env \<Rightarrow> RunConfig \<Rightarrow> RunFeature list \<Rightarrow> Summary \<Rightarrow> ('z net_world_scheme, unit) io" where
  "batch_history E c = handleHistory (handleSingleHistory (en_proto E) (en_fetch E) (en_rootDir E) (en_createTime E) c) c"

text \<open>What follows the tests of a batch that went well, given the connection of the listener.\<close>

definition after_tests ::
  "'w run_env \<Rightarrow> RunConfig \<Rightarrow> runBatch \<Rightarrow> RunFeature list \<Rightarrow> nat \<Rightarrow> (string \<times> go_error option) option
     \<Rightarrow> ('z net_world_scheme, unit) io" where
  "after_tests E c b features n conn = (let summary = batch_summary b features conn in
     thenE (upd (print_lines (logFeatureSummary (batch_label b) summary)))
    (thenE (whenE (b_ExpectsProxy b) (of_res (check_proxy features summary (serve (en_requests E n) \<lparr>x_Unauthed = 0, x_Authed = 0\<rparr>))))
       (batch_history E c features summary)))"

text \<open>From the listener on: the tests, the end of the listener, the summary, the counts, the histories.\<close>

definition run_listening ::
  "'z runner_state_scheme run_env \<Rightarrow> RunConfig \<Rightarrow> runBatch \<Rightarrow> RunFeature list \<Rightarrow> string \<Rightarrow> ('z runner_state_scheme, unit) io" where
  "run_listening E c b features addr =
     bindE (asks (\<lambda>s. length (n_trace s))) (\<lambda>n.
     thenE (run_tests E c features)
    (thenE (upd (act_ignore ACloseListener))
    (bindE (asks (connection_of E c addr n)) (after_tests E c b features n))))"

text \<open>The listener, and with its address in the configuration of the batch everything under it.\<close>

definition batch_body ::
  "'z runner_state_scheme run_env \<Rightarrow> runBatch \<Rightarrow> RunFeature list \<Rightarrow> RunConfig \<Rightarrow> ('z runner_state_scheme, unit) io" where
  "batch_body E b features c = with_listener (\<lambda>addr. let c' = c\<lparr>r_SummaryURI := ''tcp://'' @ addr\<rparr> in
     with_config c' (run_listening E c' b features addr))"

definition RunBatch :: "'z runner_state_scheme run_env \<Rightarrow> runBatch \<Rightarrow> ('z runner_state_scheme, unit) io" where
  "RunBatch E b =
     bindE (asks u_Config) (\<lambda>orig.
     bindE (batch_config orig b) (\<lambda>c.
     thenE (upd (act_ignore (APrint (batch_line b))))
    (with_server E c b (\<lambda>c.
       thenE (assertNamespaceCapabilities (en_capability E) c (b_Capabilities b))
      (with_endpoints E c (b_Features b) (\<lambda>features.
         with_proxy c (b_ExpectsProxy b) (batch_body E b features)))))))"

section \<open>The run\<close>

definition destroyTempDir :: "'z runner_state_scheme \<Rightarrow> 'z runner_state_scheme" where
  "destroyTempDir s = (case u_Program s of None \<Rightarrow> s | Some p \<Rightarrow> os_RemoveAll (Dir p) s)"

fun run_batches :: "'z runner_state_scheme run_env \<Rightarrow> runBatch list \<Rightarrow> ('z runner_state_scheme, unit) io" where
  "run_batches E [] = ret ()"
| "run_batches E (b # bs) =
     thenE (RunBatch E b) (for_each (\<lambda>b. thenE (upd (act_ignore (APrint [newline]))) (RunBatch E b)) bs)"

definition check_prepared_dir :: "string \<Rightarrow> RunConfig \<Rightarrow> ('z world_scheme, unit) io" where
  "check_prepared_dir rootDir c =
     (if r_DirName c = [] then ret ()
      else if ContainsAny (r_DirName c) (bslash # ''/'')
      then fail (Errorf ''prepared directory must not have path separators, it is always relative to the SDK features root'' [])
      else if r_Version c \<noteq> [] then fail (Errorf ''cannot provide version with prepared directory'' [])
      else thenE (wrapE ''failed checking prepared directory: %w'' [] (os_Stat (PathJoin [rootDir, r_DirName c]))) (ret ()))"

fun check_generate :: "disk_feature list \<Rightarrow> unit res" where
  "check_generate [] = Ok ()"
| "check_generate (f # fs) =
     (if c_RunVariants (d_Config f) \<noteq> []
      then Err (Errorf ''cannot generate history for feature %q because it defines runVariants'' [d_Dir f])
      else check_generate fs)"

text \<open>What is selected, once the configuration is found to be sound.\<close>

definition select_features ::
  "'w run_env \<Rightarrow> RunConfig \<Rightarrow> string list \<Rightarrow> ('z world_scheme, disk_feature list) io" where
  "select_features E c patterns =
     (if r_GenerateHistory c \<and> r_Version c = [] then fail (Errorf ''must have explicit version to generate history'' [])
      else thenE (check_prepared_dir (en_rootDir E) c)
        (bindE (GlobFeatures (sv_Compare (en_semver E)) c (en_rootDir E) patterns) (\<lambda>features.
           if features = [] then fail (Errorf ''no features matched'' [])
           else if length features > 1 \<and> r_GenerateHistory c
           then fail (Errorf ''can only specify a single feature when generating history'' [])
           else thenE (whenE (r_GenerateHistory c) (of_res (check_generate features)))
             (let filtered = filterFeaturesForExternalServer c features patterns in
              if filtered = [] then fail (Errorf ''no features matched'' []) else ret filtered))))"

definition Run :: "'z runner_state_scheme run_env \<Rightarrow> string list \<Rightarrow> ('z runner_state_scheme, unit) io" where
  "Run E patterns =
     bindE (asks u_Config) (\<lambda>c0.
     case normalizeLangName (r_Lang c0) of
       Err e \<Rightarrow> thenE (upd (\<lambda>s. s\<lparr>u_Config := c0\<lparr>r_Lang := []\<rparr>\<rparr>)) (fail e)
     | Panic e \<Rightarrow> panic e
     | Ok lang \<Rightarrow> let c = c0\<lparr>r_Lang := lang\<rparr> in
         thenE (upd (\<lambda>s. s\<lparr>u_Config := c\<rparr>))
        (bindE (select_features E c patterns) (\<lambda>features.
         let body = bindE (makeRunBatches features) (run_batches E) in
         if r_DirName c = [] \<and> \<not> r_RetainTempDir c then deferE destroyTempDir body else body)))"

section \<open>What a batch holds\<close>

text \<open>The resources of the caller: no worker of its own, and no listener.\<close>

definition calm_stack :: "resource list \<Rightarrow> bool" where
  "calm_stack st = (RWorker \<notin> set st \<and> RListener \<notin> set st)"

text \<open>The code of the linked features only does with its runner what \<open>lifecycle\<close> allows.\<close>

definition well_behaved :: "'z runner_state_scheme run_env \<Rightarrow> bool" where
  "well_behaved E = (\<forall>p \<in> set (RegisteredFeatures (en_registry E)). \<forall>cfg. hooks_live (en_sdk E) cfg (with_mutator p))"

lemma ignores_files_held [keeps_intros]: "ignores_files held"
  by (simp add: ignores_files_def held_def)

lemma held_u_fields [simp]: "held (s\<lparr>u_Program := p\<rparr>) = held s" "held (s\<lparr>u_Config := c\<rparr>) = held s"
  by (simp_all add: held_def)

lemma held_env [simp]: "held (Setenv k v w) = held w" "held (Unsetenv k w) = held w" "held (os_RemoveAll p w) = held w"
  by (simp_all add: Setenv_def Unsetenv_def os_RemoveAll_def split: option.splits)

subsection \<open>Tests in this process\<close>

lemma find_feature_in: "find_feature all d = Some p \<Longrightarrow> p \<in> set all"
  by (auto simp: find_feature_def find_Some_iff)

lemma held_write_entry: "held s = Some st \<Longrightarrow> held (write_entry e s) = Some st"
  unfolding write_entry_def by (rule held_neutral(2)) simp_all

lemma preserves_run_one:
  assumes "outside st" "\<forall>p \<in> set all. \<forall>cfg. hooks_live L cfg (with_mutator p)"
  shows "preserves (\<lambda>s. held s = Some st) (run_one P L fetch c all rf acc)"
proof (cases "find_feature all (f_Dir rf)")
  case None
  then show ?thesis by (simp add: run_one_def preserves_pure)
next
  case (Some p)
  show ?thesis
  proof (rule preservesI)
    fix s :: "'a harness_state_scheme"
    assume h: "held s = Some st"
    obtain x t where r: "runFeature P L fetch (runner_config c rf) (with_mutator p) s = (x, t)" by (rule prod.exhaust)
    have "hooks_live L (with_defaults L (runner_config c rf)) (with_mutator p)"
      using assms(2) find_feature_in [OF Some] by blast
    from runFeature_releases [OF this assms(1) h, of P fetch] have "held t = Some st" by (simp add: r)
    then show "held (snd (run_one P L fetch c all rf acc s)) = Some st"
      using Some r h
      by (cases x)
        (auto simp: run_one_def Let_def thenE_def bindE_def upd_def ret_def held_write_entry split: option.splits)
  qed
qed

lemma preserves_openSummary:
  fixes m :: "('z net_world_scheme, 'a) io"
  assumes "preserves (\<lambda>s. held s = Some (RSummary # st)) m"
  shows "preserves (\<lambda>s. held s = Some st) (bindE (openSummary url uri) (\<lambda>_. deferE (act_ignore ACloseSummary) m))"
proof -
  have br: "preserves (\<lambda>s. held s = Some st) (bindE (act (AOpenSummary k a)) (\<lambda>_. deferE (act_ignore ACloseSummary) m))" for k a
    by (rule preserves_bracket [of _ RSummary]) (simp_all add: assms)
  have unit: "bindE (act_unit a) (\<lambda>_. k) = bindE (act a) (\<lambda>_. k)" for a and k :: "('z net_world_scheme, 'a) io"
    by (rule ext) (simp add: act_unit_def bindE_def ret_def split: prod.splits res.splits)
  show ?thesis
  proof (cases "url uri")
    case (Ok x)
    obtain scheme host path where x: "x = (scheme, host, path)" by (cases x)
    show ?thesis using br
      by (simp add: openSummary_def Ok x of_res_def bindE_def [of "\<lambda>w. (Ok _, w)"] unit) (simp add: preserves_pure)
  qed (simp_all add: openSummary_def of_res_def bindE_def preserves_def)
qed

lemma preserves_RunHarness:
  assumes "outside st" "\<forall>p \<in> set (RegisteredFeatures g). \<forall>cfg. hooks_live L cfg (with_mutator p)"
  shows "preserves (\<lambda>s. held s = Some st) (RunHarness url P L fetch c g features)"
proof -
  have o: "outside (RSummary # st)" using assms(1) by (simp add: outside_def)
  show ?thesis
    unfolding RunHarness_def
    by (intro preserves_if preserves_pure preserves_openSummary preserves_bindE preserves_fold_io
        preserves_run_one [OF o assms(2)]) (auto intro!: preserves_intros)
qed

subsection \<open>Tests in another process\<close>

lemma keeps_prepares [keeps_intros]:
  assumes i [keeps_intros]: "ignores_files f"
  shows "keeps f (prepare_go V root p)" "keeps f (prepare_java b root p)" "keeps f (prepare_ts root p)"
    "keeps f (prepare_php root p)" "keeps f (prepare_py root p)" "keeps f (prepare_dotnet root p)" "keeps f (prepare_ruby root p)"
  unfolding prepare_go_def prepare_java_def prepare_ts_def prepare_php_def prepare_py_def prepare_dotnet_def
    prepare_ruby_def Let_def
  by (intro keeps_intros)+

lemma keeps_program_from_dir [keeps_intros]: "keeps f (program_from_dir lang root d)"
  unfolding program_from_dir_def Let_def by (intro keeps_intros)

lemma keeps_run_external [keeps_intros]:
  assumes "ignores_files f" "\<And>s p. f (s\<lparr>u_Program := p\<rparr>) = f s" "keeps f build" "keeps f args"
  shows "keeps f (run_external build args)"
proof -
  have run: "keeps f (run_command cmd)" for cmd by (rule keeps_env(4) [OF assms(1)])
  have e: "keeps f (ensure_program build)"
  proof (rule keepsI)
    fix s
    have "keeps f (bindE build (\<lambda>p. upd (\<lambda>s. s\<lparr>u_Program := Some p\<rparr>)))"
      by (intro keeps_intros assms)
    then show "f (snd (ensure_program build s)) = f s"
      by (simp add: ensure_program_def keeps_def split: option.splits)
  qed
  have "keeps f (invoke as)" for as
  proof (rule keepsI)
    fix s
    have "keeps f (wrapE t ts (bindE (of_res r) (\<lambda>cmd. run_command (g cmd))))" for t ts g and r :: "command res"
      by (intro keeps_intros run)
    then show "f (snd (invoke as s)) = f s" by (simp add: invoke_def keeps_def split: option.splits)
  qed
  with e show ?thesis unfolding run_external_def by (intro keeps_intros assms)
qed

lemma keeps_external_batch:
  assumes i: "ignores_files f" and u: "\<And>s p. f (s\<lparr>u_Program := p\<rparr>) = f s"
  shows "keeps f (external_batch V root c fs)"
proof -
  note run = keeps_run_external [OF i u]
  show ?thesis
    unfolding external_batch_def run_language_def RunGoExternal_def RunJavaExternal_def RunTypeScriptExternal_def
      RunPhpExternal_def RunPythonExternal_def RunDotNetExternal_def RunRubyExternal_def
    by (intro keeps_thenE keeps_whenE keeps_bindE keeps_program_from_dir keeps_upd u keeps_if run keeps_prepares i
        keeps_run_args keeps_pure)
qed

subsection \<open>The brackets\<close>

lemma preserves_run_tests:
  fixes E :: "'z runner_state_scheme run_env"
  assumes "well_behaved E" "outside st"
  shows "preserves (\<lambda>s. held s = Some st) (run_tests E c fs)"
proof -
  have "keeps held (external_batch (en_semver E) (en_rootDir E) c fs :: ('z runner_state_scheme, unit) io)"
    by (rule keeps_external_batch [OF ignores_files_held]) simp
  then have "preserves (\<lambda>s. held s = Some st) (external_batch (en_semver E) (en_rootDir E) c fs :: ('z runner_state_scheme, unit) io)"
    by (simp add: keeps_def preserves_def)
  moreover have "preserves (\<lambda>s. held s = Some st)
     (RunHarness (en_url_Parse E) (en_proto E) (en_sdk E) (en_fetch E) (go_harness_config c) (en_registry E) fs)"
    by (rule preserves_RunHarness) (use assms in \<open>auto simp: well_behaved_def\<close>)
  ultimately show ?thesis by (simp add: run_tests_def)
qed

lemma held_print_lines: "held s = Some st \<Longrightarrow> held (print_lines ls s) = Some st"
  unfolding print_lines_def by (induction ls arbitrary: s) (simp_all add: held_neutral(2))

lemma held_set_env: "held (snd (setNamespaceCapabilitiesEnv j w)) = held w"
  "held (fst (setNamespaceCapabilitiesEnv j w) v) = held v"
  by (simp_all add: setNamespaceCapabilitiesEnv_def split: option.splits)

text \<open>While the listener is open, and once it is closed.\<close>

definition listening :: "resource list \<Rightarrow> resource list option \<Rightarrow> bool" where
  "listening st h = (h = Some st \<or> h = Some (RListener # st))"

lemma preserves_after_tests: "preserves (\<lambda>s. held s = Some st) (after_tests E c b fs n conn)"
proof -
  have "preserves (\<lambda>s. held s = Some st) (batch_history E c fs summary)" for summary
    unfolding batch_history_def by (intro balanced_preserves balanced_handleHistory balanced_handleSingleHistory)
  then show ?thesis unfolding after_tests_def Let_def by (intro preserves_intros held_print_lines)
qed

lemma run_listening_run:
  "run_listening E c b fs addr s =
     (case run_tests E c fs s of
        (Ok u, s1) \<Rightarrow> let s2 = act_ignore ACloseListener s1; n = length (n_trace s) in
          after_tests E c b fs n (connection_of E c addr n s2) s2
      | (Err e, s1) \<Rightarrow> (Err e, s1)
      | (Panic e, s1) \<Rightarrow> (Panic e, s1))"
  by (auto simp: run_listening_def thenE_def bindE_def asks_def upd_def Let_def split: prod.splits res.splits)

lemma preserves_run_listening:
  assumes "well_behaved E" "outside st" "held s = Some (RListener # st)"
  shows "listening st (held (snd (run_listening E c b fs addr s)))"
proof -
  have o: "outside (RListener # st)" using assms(2) by (simp add: outside_def)
  obtain x s1 where t: "run_tests E c fs s = (x, s1)" by (rule prod.exhaust)
  have h1: "held s1 = Some (RListener # st)" by (rule preservesD [OF preserves_run_tests [OF assms(1) o] assms(3) t])
  have h2: "held (act_ignore ACloseListener s1) = Some st"
    using held_act_ignore [OF h1, of ACloseListener RListener] by (simp add: release_def)
  have h3: "held (snd (after_tests E c b fs n conn (act_ignore ACloseListener s1))) = Some st" for n conn
    by (rule preserves_after_tests [unfolded preserves_def, rule_format]) (rule h2)
  show ?thesis using t h1 h3 by (cases x) (simp_all add: run_listening_run listening_def Let_def)
qed

lemma preserves_with_listener:
  fixes body :: "string \<Rightarrow> ('z net_world_scheme, unit) io"
  assumes "RListener \<notin> set st" "\<And>addr s. held s = Some (RListener # st) \<Longrightarrow> listening st (held (snd (body addr s)))"
  shows "preserves (\<lambda>s. held s = Some st) (with_listener body)"
proof (rule preservesI)
  fix s :: "'z net_world_scheme"
  assume h: "held s = Some st"
  obtain x s1 where a: "act (AListen ''127.0.0.1:0'') s = (x, s1)" by (rule prod.exhaust)
  have h1: "held s1 = Some (if \<exists>e. x = Err e then st else RListener # st)"
    using held_act [OF h, of "AListen ''127.0.0.1:0''" RListener] a by simp
  show "held (snd (with_listener body s)) = Some st"
  proof (cases x)
    case (Ok addr)
    obtain y s2 where b: "body addr s1 = (y, s2)" by (rule prod.exhaust)
    have "listening st (held s2)" using assms(2) [of s1 addr] h1 Ok b by simp
    then have "held (act_ignore ACloseListener s2) = Some st"
      using held_act_ignore [of s2, where a = ACloseListener and r = RListener] release_absent [OF assms(1)]
      by (auto simp: listening_def)
    then show ?thesis using a Ok b by (simp add: with_listener_def bindE_def deferE_def)
  qed (use a h1 in \<open>simp_all add: with_listener_def bindE_def act_no_panic\<close>)
qed

lemma preserves_with_proxy:
  assumes "\<And>c. preserves (\<lambda>s. held s = Some st) (body c)" "\<And>c. preserves (\<lambda>s. held s = Some (RProxy # st)) (body c)"
  shows "preserves (\<lambda>s. held s = Some st) (with_proxy c wanted body)"
  unfolding with_proxy_def
  by (intro preserves_if preserves_bracket_wrap [of _ RProxy] assms) simp_all

lemma createNexusEndpoints_held:
  assumes "held w = Some st" "createNexusEndpoints eo c fs w = (r, w')"
  shows "\<exists>st'. held w' = Some st' \<and> set st' \<subseteq> {REndpoint, RClient} \<union> set st \<and>
    (case r of Ok (del, fs') \<Rightarrow> \<forall>v. held v = Some st' \<longrightarrow> held (del v) = Some st | _ \<Rightarrow> st' = st)"
proof (cases "list_all (\<lambda>f. \<not> is_nexus f) fs")
  case True
  with assms show ?thesis by (intro exI [of _ st]) (auto simp: createNexusEndpoints_def ret_def)
next
  case False
  obtain x w1 where l: "load_tls c w = (x, w1)" by (rule prod.exhaust)
  have h1: "held w1 = Some st" by (rule balancedD [OF balanced_load_tls assms(1) l])
  show ?thesis
  proof (cases x)
    case (Ok tls)
    obtain y w2 where d: "act (dial c tls) w1 = (y, w2)" by (rule prod.exhaust)
    have h2: "held w2 = Some (if \<exists>e. y = Err e then st else RClient # st)"
      using held_act [OF h1, of "dial c tls" RClient] d by simp
    show ?thesis
    proof (cases y)
      case (Ok z)
      then have "held w2 = Some (endpoint_stack (length ([] :: endpoint list)) st)" using h2 by (simp add: endpoint_stack_def)
      from create_endpoints_held [OF this, of eo "r_Namespace c" fs "[]"]
      obtain refused created fs' w3 where e: "create_endpoints eo (r_Namespace c) fs [] [] w2 = (Ok (refused, created, fs'), w3)"
        "held w3 = Some (endpoint_stack (length created) st)" by (cases "create_endpoints eo (r_Namespace c) fs [] [] w2") blast
      have c: "held (cleanup created v) = Some st" if "held v = Some (endpoint_stack (length created) st)" for v :: "'a net_world_scheme"
        by (rule held_cleanup [OF that])
      show ?thesis
      proof (cases refused)
        case None
        with assms(2) False l \<open>x = Ok tls\<close> d Ok e(1) have "r = Ok (cleanup created, fs')" "w' = w3"
          by (simp_all add: createNexusEndpoints_def bindE_def wrapE_def ret_def)
        then show ?thesis using e(2) c by (intro exI [of _ "endpoint_stack (length created) st"]) (auto simp: endpoint_stack_def)
      next
        case (Some fe)
        obtain f e' where fe: "fe = (f, e')" by (cases fe)
        with assms(2) False l \<open>x = Ok tls\<close> d Ok e(1) Some have "w' = cleanup created w3"
          "(\<exists>err. r = Err err) \<or> r = Ok (id, filter (\<lambda>f. \<not> is_nexus f) fs')"
          by (auto simp: createNexusEndpoints_def bindE_def wrapE_def ret_def thenE_def upd_def fail_def split: if_splits)
        then show ?thesis using c [OF e(2)] by (intro exI [of _ st]) (auto split: res.splits)
      qed
    next
      case (Err err)
      with assms(2) False l \<open>x = Ok tls\<close> d h2 show ?thesis
        by (intro exI [of _ st]) (auto simp: createNexusEndpoints_def bindE_def wrapE_def)
    qed (use d act_no_panic in blast)
  qed (use assms(2) False l h1 in \<open>intro exI [of _ st]; auto simp: createNexusEndpoints_def bindE_def wrapE_def\<close>)+
qed

lemma preserves_with_endpoints:
  assumes "\<And>fs' st'. set st' \<subseteq> {REndpoint, RClient} \<union> set st \<Longrightarrow> preserves (\<lambda>s. held s = Some st') (body fs')"
  shows "preserves (\<lambda>s. held s = Some st) (with_endpoints E c fs body)"
proof (rule preservesI)
  fix s :: "'a net_world_scheme"
  assume h: "held s = Some st"
  obtain r s1 where n: "createNexusEndpoints (en_endpoint E) c fs s = (r, s1)" by (rule prod.exhaust)
  from createNexusEndpoints_held [OF h n] obtain st' where st': "held s1 = Some st'" "set st' \<subseteq> {REndpoint, RClient} \<union> set st"
    "case r of Ok (del, fs') \<Rightarrow> \<forall>v. held v = Some st' \<longrightarrow> held (del v) = Some st | _ \<Rightarrow> st' = st" by blast
  show "held (snd (with_endpoints E c fs body s)) = Some st"
  proof (cases r)
    case (Ok df)
    obtain del fs' where df: "df = (del, fs')" by (rule prod.exhaust)
    obtain x s2 where b: "(if fs' = [] then ret () else body fs') s1 = (x, s2)" by (rule prod.exhaust)
    have "preserves (\<lambda>s. held s = Some st') (if fs' = [] then ret () else body fs')"
      by (intro preserves_if preserves_pure assms st'(2))
    from preservesD [OF this st'(1) b] have "held s2 = Some st'" .
    then have "held (del s2) = Some st" using st'(3) Ok df by simp
    then show ?thesis using n Ok df b by (simp add: with_endpoints_def bindE_def deferE_def)
  qed (use n st' in \<open>simp_all add: with_endpoints_def bindE_def\<close>)
qed

lemma balanced_dynamicConfigArgs [balanced_intros]: "balanced (dynamicConfigArgs y root os)"
  unfolding dynamicConfigArgs_def Let_def
  by (intro balanced_intros) (auto split: sum.splits intro!: balanced_intros)

lemma preserves_with_server:
  assumes "\<And>c. preserves (\<lambda>s. held s = Some (RServer # st)) (body c)" "\<And>c. preserves (\<lambda>s. held s = Some st) (body c)"
  shows "preserves (\<lambda>s. held s = Some st) (with_server E c b body)"
  unfolding with_server_def
  by (intro preserves_if preserves_bindE preserves_thenE preserves_pure preserves_bracket_wrap [of _ RServer] assms
      balanced_preserves balanced_dynamicConfigArgs balanced_WaitNamespaceAvailable) simp_all

lemma preserves_RunBatch:
  fixes E :: "'z runner_state_scheme run_env"
  assumes "well_behaved E" "calm_stack st"
  shows "preserves (\<lambda>s. held s = Some st) (RunBatch E b)"
proof -
  have body: "preserves (\<lambda>s. held s = Some st') (batch_body E b fs c)" if "calm_stack st'" for st' c fs
    unfolding batch_body_def
  proof (rule preserves_with_listener)
    show "RListener \<notin> set st'" using that by (simp add: calm_stack_def)
    fix addr and s :: "'z runner_state_scheme"
    let ?c = "c\<lparr>r_SummaryURI := ''tcp://'' @ addr\<rparr>"
    assume h: "held s = Some (RListener # st')"
    have o: "outside st'" using that by (simp add: calm_stack_def outside_def)
    obtain restore s1 where e: "setNamespaceCapabilitiesEnv (r_NamespaceCapabilitiesJSON ?c) (s\<lparr>u_Config := ?c\<rparr>) = (restore, s1)"
      by (rule prod.exhaust)
    have r: "held s1 = held s" "held (restore v) = held v" for v :: "'z runner_state_scheme"
      using held_set_env [of "r_NamespaceCapabilitiesJSON ?c" "s\<lparr>u_Config := ?c\<rparr>"] e by simp_all
    obtain x s2 where m: "run_listening E ?c b fs addr s1 = (x, s2)" by (rule prod.exhaust)
    have "listening st' (held (snd (run_listening E ?c b fs addr s1)))"
      by (rule preserves_run_listening [OF assms(1) o]) (simp add: r h)
    then show "listening st' (held (snd ((let c' = ?c in with_config c' (run_listening E c' b fs addr)) s)))"
      using e m by (simp add: Let_def with_config_def deferE_def r)
  qed
  have proxy: "preserves (\<lambda>s. held s = Some st') (with_proxy c q (batch_body E b fs))" if "calm_stack st'" for st' c q fs
    using that by (intro preserves_with_proxy body) (simp_all add: calm_stack_def)
  show ?thesis
    unfolding RunBatch_def batch_config_def Let_def [of "_\<lparr>r_NamespaceCapabilitiesJSON := _\<rparr>"]
    by (intro preserves_bindE preserves_thenE preserves_if preserves_pure preserves_upd preserves_with_server
        preserves_with_endpoints proxy balanced_preserves [OF balanced_os(11)]
        balanced_preserves [OF balanced_assertNamespaceCapabilities])
      (use assms(2) in \<open>auto simp: calm_stack_def held_neutral(2)\<close>)
qed

section \<open>What a batch restores\<close>

text \<open>An observation that sees neither the trace nor the number of UUIDs drawn.\<close>

definition quiet_obs :: "('z net_world_scheme \<Rightarrow> 'o) \<Rightarrow> bool" where
  "quiet_obs f = (\<forall>w t n. f (w\<lparr>n_trace := t\<rparr>) = f w \<and> f (w\<lparr>w_uuids := n\<rparr>) = f w)"

lemma quiet_steps [keeps_intros]:
  assumes "quiet_obs f"
  shows "keeps f (act a)" "keeps f new_uuid" "f (act_ignore a w) = f w"
  using assms by (simp_all add: quiet_obs_def keeps_def new_uuid_def act_ignore_def act_def Let_def split: option.splits)

lemma quiet_cleanup [keeps_intros]: "quiet_obs f \<Longrightarrow> f (cleanup created w) = f w"
proof -
  assume q: "quiet_obs f"
  have "f (fold (\<lambda>(i, v). act_ignore (ADeleteEndpoint i v)) created w) = f w"
    by (induction created arbitrary: w) (auto simp: quiet_steps(3) [OF q])
  then show ?thesis by (simp add: cleanup_def quiet_steps(3) [OF q])
qed

lemma keeps_load_tls [keeps_intros]: "keeps f (load_tls c)"
  unfolding load_tls_def by (rule keeps_LoadTLSConfig)

lemma keeps_create_endpoints [keeps_intros]:
  assumes "quiet_obs f"
  shows "keeps f (create_endpoints eo ns fs created ready)"
proof (induction fs arbitrary: created ready)
  case (Cons g gs)
  then show ?case
    unfolding create_endpoints.simps Let_def
    by (intro keeps_intros assms) (auto split: sum.splits intro!: keeps_intros Cons)
qed (simp add: keeps_pure)

lemma keeps_with_endpoints:
  assumes "quiet_obs f" "\<And>fs. keeps f (body fs)"
  shows "keeps f (with_endpoints E c fs body)"
proof (rule keepsI)
  fix s :: "'a net_world_scheme"
  have k: "keeps f (createNexusEndpoints (en_endpoint E) c fs)"
    unfolding createNexusEndpoints_def
    by (intro keeps_intros assms) (auto split: option.splits intro!: keeps_intros assms(1))
  obtain r s1 where n: "createNexusEndpoints (en_endpoint E) c fs s = (r, s1)" by (rule prod.exhaust)
  have s1: "f s1 = f s" by (rule keepsD [OF k n])
  have del: "f (del v) = f v" if "r = Ok (del, fs')" for del fs' v
    using n that by (auto simp: createNexusEndpoints_def bindE_Ok_iff thenE_Ok_iff ret_def wrapE_def upd_def fail_def
        quiet_cleanup [OF assms(1)] split: if_splits option.splits prod.splits res.splits) (metis id_apply)+
  show "f (snd (with_endpoints E c fs body s)) = f s"
  proof (cases r)
    case (Ok df)
    obtain d fs' where df: "df = (d, fs')" by (rule prod.exhaust)
    have "keeps f (if fs' = [] then ret () else body fs')" by (intro keeps_intros assms(2))
    then have "f (snd ((if fs' = [] then ret () else body fs') s1)) = f s" using s1 by (simp add: keeps_def)
    then show ?thesis using n Ok df del by (auto simp: with_endpoints_def bindE_def deferE_def split: prod.splits)
  qed (use n s1 in \<open>simp_all add: with_endpoints_def bindE_def\<close>)
qed

lemma keeps_dynamicConfigArgs [keeps_intros]: "keeps f (dynamicConfigArgs y root os)"
  unfolding dynamicConfigArgs_def Let_def
  by (intro keeps_intros) (auto split: sum.splits intro!: keeps_intros)

lemma keeps_with_server:
  assumes "quiet_obs f" "\<And>addr. keeps f (body (c\<lparr>r_Server := addr\<rparr>))" "keeps f (body c)"
  shows "keeps f (with_server E c b body)"
proof -
  have "keeps f (WaitNamespaceAvailable h ns cc k ca sn)" for h ns cc k ca sn
    by (rule keeps_WaitNamespaceAvailable) (use assms(1) in \<open>simp_all add: quiet_obs_def\<close>)
  then show ?thesis unfolding with_server_def by (intro keeps_intros assms quiet_steps(3) [OF assms(1)])
qed

lemma keeps_batch_body:
  assumes "quiet_obs f" "\<And>addr m. keeps f (with_config (c\<lparr>r_SummaryURI := addr\<rparr>) m)"
  shows "keeps f (batch_body E b fs c)"
  unfolding batch_body_def with_listener_def Let_def by (intro keeps_intros assms quiet_steps(3) [OF assms(1)])

lemma keeps_with_proxy:
  assumes "quiet_obs f" "\<And>addr. keeps f (body (c\<lparr>r_HTTPProxyURL := addr\<rparr>))" "keeps f (body c)"
  shows "keeps f (with_proxy c q body)"
  unfolding with_proxy_def by (intro keeps_intros assms quiet_steps(3) [OF assms(1)])

text \<open>What the innermost bracket keeps, for every configuration of the batch, the batch keeps.\<close>

lemma keeps_RunBatch:
  assumes q: "quiet_obs f"
    and w: "\<And>c m. r_NamespaceCapabilitiesJSON c = b_CapabilitiesJSON b \<Longrightarrow> keeps f (with_config c m)"
  shows "keeps f (RunBatch E b)"
proof -
  have body: "keeps f (batch_body E b fs c)" if "r_NamespaceCapabilitiesJSON c = b_CapabilitiesJSON b" for fs c
    using that by (intro keeps_batch_body q w) simp
  have assert: "keeps f (assertNamespaceCapabilities g c ex)" for g c ex
    unfolding assertNamespaceCapabilities_def by (intro keeps_intros q quiet_steps(3) [OF q])
  have inner: "keeps f (thenE (assertNamespaceCapabilities (en_capability E) c (b_Capabilities b))
      (with_endpoints E c (b_Features b) (\<lambda>fs. with_proxy c (b_ExpectsProxy b) (batch_body E b fs))))"
    if "r_NamespaceCapabilitiesJSON c = b_CapabilitiesJSON b" for c
    using that by (intro keeps_thenE assert keeps_with_endpoints q keeps_with_proxy body) simp_all
  have server: "keeps f (thenE (upd (act_ignore (APrint l))) (with_server E c b (\<lambda>c.
      thenE (assertNamespaceCapabilities (en_capability E) c (b_Capabilities b))
      (with_endpoints E c (b_Features b) (\<lambda>fs. with_proxy c (b_ExpectsProxy b) (batch_body E b fs))))))"
    if "r_NamespaceCapabilitiesJSON c = b_CapabilitiesJSON b" for c l
    using that by (intro keeps_thenE keeps_upd keeps_with_server inner q quiet_steps(3) [OF q]) simp_all
  have "f (snd (RunBatch E b s)) = f s" for s
  proof -
    let ?c = "u_Config s\<lparr>r_NamespaceCapabilitiesJSON := b_CapabilitiesJSON b\<rparr>"
    obtain c s1 where c: "batch_config (u_Config s) b s = (Ok c, s1)" "r_NamespaceCapabilitiesJSON c = b_CapabilitiesJSON b" "f s1 = f s"
      using q by (cases "r_Namespace (u_Config s) = []")
        (simp_all add: batch_config_def Let_def bindE_def new_uuid_def ret_def quiet_obs_def)
    show ?thesis using server [OF c(2), of "batch_line b"] c(1,3) unfolding keeps_def
      by (simp add: RunBatch_def bindE_def [of "batch_config _ _"])
  qed
  then show ?thesis by (rule keepsI)
qed

text \<open>The innermost bracket restores the configuration, and the variable when the batch has one.\<close>

lemma with_config_restores:
  "keeps u_Config (with_config c m)"
  "r_NamespaceCapabilitiesJSON c \<noteq> [] \<Longrightarrow> keeps (LookupEnv featureNamespaceCapabilitiesEnv) (with_config c m)"
proof -
  have look: "LookupEnv k (s\<lparr>u_Config := d\<rparr>) = LookupEnv k s" for k d and s :: "'a runner_state_scheme"
    by (simp add: LookupEnv_def)
  show "keeps u_Config (with_config c m)"
    by (auto simp: keeps_def with_config_def deferE_def Let_def split: prod.splits)
  show "keeps (LookupEnv featureNamespaceCapabilitiesEnv) (with_config c m)" if "r_NamespaceCapabilitiesJSON c \<noteq> []"
    using that by (auto simp: keeps_def with_config_def deferE_def Let_def setNamespaceCapabilitiesEnv_def look
        LookupEnv_Setenv LookupEnv_Unsetenv split: prod.splits option.splits)
qed

lemma quiet_observations: "quiet_obs u_Config" "quiet_obs (LookupEnv k)"
  by (simp_all add: quiet_obs_def LookupEnv_def)

lemma keeps_GlobFeatures: "keeps f (GlobFeatures cmp cfg root ps)"
  unfolding GlobFeatures_def glob_visit_def Let_def by (intro keeps_intros)

lemma keeps_select_features: "keeps f (select_features E c ps)"
  unfolding select_features_def check_prepared_dir_def Let_def by (intro keeps_intros keeps_GlobFeatures)

section \<open>Properties\<close>

text \<open>
  C23: a batch leaves the runner as it found it. When the linked features only do with their runner what
  \<open>lifecycle\<close> allows, then on every way out of a batch, whatever fails and at whichever step, panics
  included, everything it took is given back, in the order opposite to the one it was taken in: the dev
  server, the clients, the Nexus endpoints it created, the proxy, the listener (closed once or twice), the
  summary and the workers of its features. Its configuration is the old one, and so is the capabilities
  variable of the process when the batch sets it.
\<close>

theorem batch_gives_back:
  assumes "well_behaved E" "calm_stack base" "held s = Some base"
  shows "held (snd (RunBatch E b s)) = Some base \<and> u_Config (snd (RunBatch E b s)) = u_Config s \<and>
    (b_CapabilitiesJSON b \<noteq> [] \<longrightarrow>
      LookupEnv featureNamespaceCapabilitiesEnv (snd (RunBatch E b s)) = LookupEnv featureNamespaceCapabilitiesEnv s)"
proof (intro conjI impI)
  show "held (snd (RunBatch E b s)) = Some base"
    using preserves_RunBatch [OF assms(1,2), of b] assms(3) by (simp add: preserves_def)
  show "u_Config (snd (RunBatch E b s)) = u_Config s"
    using keeps_RunBatch [OF quiet_observations(1) with_config_restores(1), where b = b and E = E] by (simp add: keeps_def)
  assume "b_CapabilitiesJSON b \<noteq> []"
  then show "LookupEnv featureNamespaceCapabilitiesEnv (snd (RunBatch E b s)) = LookupEnv featureNamespaceCapabilitiesEnv s"
    using keeps_RunBatch [OF quiet_observations(2) with_config_restores(2), where b = b and E = E] by (simp add: keeps_def)
qed

definition sample_env :: "runner_state run_env" where
  "sample_env = \<lparr>en_semver = \<lparr>sv_IsValid = (\<lambda>_. True), sv_Compare = (\<lambda>_ _. 0)\<rparr>, en_yaml = (\<lambda>_. Ok []),
     en_url_Parse = (\<lambda>_. Ok (''tcp'', ''h'', [])), en_proto = sample_proto, en_sdk = sample_sdk, en_fetch = (\<lambda>_. Ok []),
     en_registry = \<lparr>g_Features = [], g_Commands = []\<rparr>, en_capability = (\<lambda>_ _. Some (CapBool True)),
     en_endpoint = (\<lambda>t. (t, ''1'')), en_conn = (\<lambda>_. None), en_requests = (\<lambda>_. []), en_createTime = [], en_rootDir = ''/r''\<rparr>"

definition sample_batch :: runBatch where
  "sample_batch = default_batch\<lparr>b_Features := [sample_run_feature\<lparr>f_Dir := ''nexus/a''\<rparr>], b_Capabilities := [(''nexus'', True)],
     b_CapabilitiesJSON := ''{}'', b_ExpectsProxy := True\<rparr>"

theorem batch_gives_back_witness:
  "\<exists>s'. RunBatch sample_env sample_batch
       (calm_runner [] (Some (TypeScriptProgram ''/r/p'')) (zero_run_config\<lparr>r_Lang := ''ts''\<rparr>)) = (Ok (), s') \<and>
     held s' = Some [] \<and> length (n_trace s') > 10"
proof -
  let ?s = "calm_runner [] (Some (TypeScriptProgram ''/r/p'')) (zero_run_config\<lparr>r_Lang := ''ts''\<rparr>)"
  have "fst (RunBatch sample_env sample_batch ?s) = Ok ()" by code_simp
  from fst_res [OF this] obtain s' where r: "RunBatch sample_env sample_batch ?s = (Ok (), s')" by (rule that)
  have "length (n_trace (snd (RunBatch sample_env sample_batch ?s))) > 10" by code_simp
  with r have "length (n_trace s') > 10" by simp
  moreover have "well_behaved sample_env" by (simp add: well_behaved_def sample_env_def RegisteredFeatures_def)
  moreover have "held ?s = Some []"
    by (simp add: held_def calm_runner_def calm_harness_def calm_net_def harness_state.defs net_world.defs world.defs)
  ultimately show ?thesis using batch_gives_back [of sample_env "[]" ?s sample_batch] r
    by (auto simp: calm_stack_def)
qed



end
