(* ===== verification/Tunnel.thy ===== *)
theory Tunnel
  imports Http_Proxy "HOL-Library.Sublist"
begin

text \<open>
  The life of the proxy server and of one established tunnel (\<open>harness/go/harness/httpproxy.go\<close>): the
  handler reads the client's first packet and forwards it, then two goroutines copy in the two directions,
  in any order, until their sources end; the one that copies from the target closes it. A tunnel is a
  state machine: the bytes each side has still to send, those it was given, and the point the code is at.
\<close>

section \<open>The server\<close>

record proxy_server =
  ps_Address :: string
  ps_counters :: proxy
  ps_open :: bool

text \<open>What \<open>net.Listen\<close> gives is an argument.\<close>

definition StartHTTPConnectProxyServer :: "string res \<Rightarrow> proxy_server res" where
  "StartHTTPConnectProxyServer listen = (case listen of
     Ok addr \<Rightarrow> Ok \<lparr>ps_Address = addr, ps_counters = \<lparr>x_Unauthed = 0, x_Authed = 0\<rparr>, ps_open = True\<rparr>
   | Err e \<Rightarrow> Err e
   | Panic e \<Rightarrow> Panic e)"

definition CloseProxy :: "proxy_server \<Rightarrow> proxy_server" where
  "CloseProxy p = p\<lparr>ps_open := False\<rparr>"

text \<open>A request reaches the handler as long as the server has not been closed.\<close>

definition ServeHTTP :: "connection \<Rightarrow> request \<Rightarrow> proxy_server \<Rightarrow> proxy_server" where
  "ServeHTTP c q p = (if ps_open p then p\<lparr>ps_counters := snd (handler c q (ps_counters p))\<rparr> else p)"

section \<open>A tunnel\<close>

text \<open>Whether the copy from the client, and the one from the target, still run.\<close>

datatype phase = AwaitFirst | HaveFirst string | Copying bool bool | Failed

record tunnel =
  t_from_client :: string
  t_from_target :: string
  t_to_client :: string
  t_to_target :: string
  t_phase :: phase

text \<open>
  A step of the handler or of a goroutine. A read takes some bytes of what is there, at most the 32 KiB
  of the buffer; a copy ends when its source has ended or when what it read cannot be written, which is
  always so once the target is closed. What a failed write had is lost.
\<close>

datatype taction =
    ReadFirst nat
  | FirstReadFails
  | ForwardFirst
  | ForwardFails
  | CopyUp nat
  | CopyUpEnds
  | CopyUpFails nat
  | CopyDown nat
  | CopyDownEnds
  | CopyDownFails nat

definition buffer_size :: nat where
  "buffer_size = 32 * 1024"

definition readable :: "nat \<Rightarrow> string \<Rightarrow> bool" where
  "readable n s = (0 < n \<and> n \<le> length s \<and> n \<le> buffer_size)"

definition read_client :: "nat \<Rightarrow> tunnel \<Rightarrow> tunnel" where
  "read_client n t = t\<lparr>t_from_client := drop n (t_from_client t)\<rparr>"

definition read_target :: "nat \<Rightarrow> tunnel \<Rightarrow> tunnel" where
  "read_target n t = t\<lparr>t_from_target := drop n (t_from_target t)\<rparr>"

fun tunnel_act :: "taction \<Rightarrow> tunnel \<Rightarrow> tunnel option" where
  "tunnel_act (ReadFirst n) t =
     (if t_phase t = AwaitFirst \<and> readable n (t_from_client t)
      then Some ((read_client n t)\<lparr>t_phase := HaveFirst (take n (t_from_client t))\<rparr>) else None)"
| "tunnel_act FirstReadFails t =
     (if t_phase t = AwaitFirst \<and> t_from_client t = [] then Some (t\<lparr>t_phase := Failed\<rparr>) else None)"
| "tunnel_act ForwardFirst t =
     (case t_phase t of
        HaveFirst b \<Rightarrow> Some (t\<lparr>t_phase := Copying True True, t_to_target := t_to_target t @ b\<rparr>)
      | _ \<Rightarrow> None)"
| "tunnel_act ForwardFails t =
     (case t_phase t of HaveFirst b \<Rightarrow> Some (t\<lparr>t_phase := Failed\<rparr>) | _ \<Rightarrow> None)"
| "tunnel_act (CopyUp n) t =
     (if t_phase t = Copying True True \<and> readable n (t_from_client t)
      then Some ((read_client n t)\<lparr>t_to_target := t_to_target t @ take n (t_from_client t)\<rparr>) else None)"
| "tunnel_act CopyUpEnds t =
     (case t_phase t of
        Copying True down \<Rightarrow> if t_from_client t = [] then Some (t\<lparr>t_phase := Copying False down\<rparr>) else None
      | _ \<Rightarrow> None)"
| "tunnel_act (CopyUpFails n) t =
     (case t_phase t of
        Copying True down \<Rightarrow>
          if readable n (t_from_client t) then Some ((read_client n t)\<lparr>t_phase := Copying False down\<rparr>) else None
      | _ \<Rightarrow> None)"
| "tunnel_act (CopyDown n) t =
     (case t_phase t of
        Copying up True \<Rightarrow>
          if readable n (t_from_target t)
          then Some ((read_target n t)\<lparr>t_to_client := t_to_client t @ take n (t_from_target t)\<rparr>) else None
      | _ \<Rightarrow> None)"
| "tunnel_act CopyDownEnds t =
     (case t_phase t of
        Copying up True \<Rightarrow> if t_from_target t = [] then Some (t\<lparr>t_phase := Copying up False\<rparr>) else None
      | _ \<Rightarrow> None)"
| "tunnel_act (CopyDownFails n) t =
     (case t_phase t of
        Copying up True \<Rightarrow>
          if readable n (t_from_target t) then Some ((read_target n t)\<lparr>t_phase := Copying up False\<rparr>) else None
      | _ \<Rightarrow> None)"

text \<open>A write that fails though the other side is still open.\<close>

fun broken_write :: "taction \<Rightarrow> tunnel \<Rightarrow> bool" where
  "broken_write ForwardFails t = True"
| "broken_write (CopyUpFails n) t = (t_phase t = Copying True True)"
| "broken_write (CopyDownFails n) t = True"
| "broken_write a t = False"

text \<open>The tunnel of a client that will send \<open>cs\<close> and a target that will send \<open>ss\<close>, then end.\<close>

definition open_tunnel :: "string \<Rightarrow> string \<Rightarrow> tunnel" where
  "open_tunnel cs ss = \<lparr>t_from_client = cs, t_from_target = ss, t_to_client = [], t_to_target = [], t_phase = AwaitFirst\<rparr>"

inductive tunnel_step :: "tunnel \<Rightarrow> tunnel \<Rightarrow> bool" where
  act: "tunnel_act a t = Some t' \<Longrightarrow> tunnel_step t t'"

text \<open>The steps when no side breaks off.\<close>

inductive calm_step :: "tunnel \<Rightarrow> tunnel \<Rightarrow> bool" where
  calm: "tunnel_act a t = Some t' \<Longrightarrow> \<not> broken_write a t \<Longrightarrow> calm_step t t'"

inductive_cases tunnel_stepE: "tunnel_step t t'"
inductive_cases calm_stepE: "calm_step t t'"

fun tunnel_run :: "taction list \<Rightarrow> tunnel \<Rightarrow> tunnel option" where
  "tunnel_run [] t = Some t"
| "tunnel_run (a # as) t = (case tunnel_act a t of None \<Rightarrow> None | Some t' \<Rightarrow> tunnel_run as t')"

section \<open>Lemmas\<close>

lemma closed_server_idle: "\<not> ps_open p \<Longrightarrow> ServeHTTP c q p = p"
  by (simp add: ServeHTTP_def)

lemma tunnel_run_steps: "tunnel_run as t = Some t' \<Longrightarrow> tunnel_step\<^sup>*\<^sup>* t t'"
  by (induction as arbitrary: t) (auto split: option.splits intro: tunnel_step.intros converse_rtranclp_into_rtranclp)

text \<open>What the client has sent and the target has not been given: a packet in the hands of the handler.\<close>

definition in_hand :: "phase \<Rightarrow> string" where
  "in_hand p = (case p of HaveFirst b \<Rightarrow> b | _ \<Rightarrow> [])"

text \<open>
  The invariant of a tunnel of a client that sends \<open>cs\<close> and a target that sends \<open>ss\<close>, and what holds
  besides when no side breaks off.
\<close>

definition tunnel_inv :: "string \<Rightarrow> string \<Rightarrow> tunnel \<Rightarrow> bool" where
  "tunnel_inv cs ss t \<longleftrightarrow>
     prefix (t_to_target t) cs \<and> prefix (t_to_client t) ss \<and>
     (case t_phase t of
        AwaitFirst \<Rightarrow> t_from_client t = cs \<and> t_from_target t = ss \<and> t_to_target t = [] \<and> t_to_client t = []
      | HaveFirst b \<Rightarrow> b \<noteq> [] \<and> b @ t_from_client t = cs \<and> t_from_target t = ss \<and> t_to_target t = [] \<and> t_to_client t = []
      | Copying up down \<Rightarrow> t_to_target t \<noteq> [] \<and> (up \<and> down \<longrightarrow> t_to_target t @ t_from_client t = cs) \<and>
          (down \<longrightarrow> t_to_client t @ t_from_target t = ss)
      | Failed \<Rightarrow> t_to_target t = [] \<and> t_to_client t = [])"

definition calm_inv :: "string \<Rightarrow> tunnel \<Rightarrow> bool" where
  "calm_inv ss t \<longleftrightarrow>
     t_to_client t @ t_from_target t = ss \<and>
     (case t_phase t of
        AwaitFirst \<Rightarrow> t_from_client t \<noteq> []
      | HaveFirst b \<Rightarrow> True
      | Copying up down \<Rightarrow> down \<or> t_from_target t = []
      | Failed \<Rightarrow> False)"

lemma tunnel_inv_open: "tunnel_inv cs ss (open_tunnel cs ss)"
  by (simp add: tunnel_inv_def open_tunnel_def)

lemma readable_take: "readable n s \<Longrightarrow> take n s \<noteq> []"
  by (auto simp: readable_def)

lemma read_simps [simp]:
  "t_from_client (read_client n t) = drop n (t_from_client t)" "t_from_target (read_client n t) = t_from_target t"
  "t_to_target (read_client n t) = t_to_target t" "t_to_client (read_client n t) = t_to_client t"
  "t_phase (read_client n t) = t_phase t"
  "t_from_target (read_target n t) = drop n (t_from_target t)" "t_from_client (read_target n t) = t_from_client t"
  "t_to_target (read_target n t) = t_to_target t" "t_to_client (read_target n t) = t_to_client t"
  "t_phase (read_target n t) = t_phase t"
  by (simp_all add: read_client_def read_target_def)

lemma tunnel_inv_act:
  assumes "tunnel_act a t = Some t'" "tunnel_inv cs ss t"
  shows "tunnel_inv cs ss t'"
proof (cases "t_phase t")
  case (Copying up down)
  with assms show ?thesis
    by (cases a; cases up; cases down) (auto simp: tunnel_inv_def take_is_prefix split: if_splits)
qed (use assms in \<open>cases a; force simp: tunnel_inv_def dest: readable_take split: if_splits\<close>)+

lemma calm_inv_act:
  "tunnel_act a t = Some t' \<Longrightarrow> \<not> broken_write a t \<Longrightarrow> calm_inv ss t \<Longrightarrow> calm_inv ss t'"
  by (cases a) (auto simp: calm_inv_def split: phase.splits if_splits bool.splits)

lemma calm_inv_reachable:
  assumes "calm_step\<^sup>*\<^sup>* (open_tunnel cs ss) t" "cs \<noteq> []"
  shows "calm_inv ss t"
  using assms(1)
proof (induction rule: rtranclp_induct)
  case base
  show ?case using assms(2) by (simp add: calm_inv_def open_tunnel_def)
next
  case (step t u)
  then show ?case by (auto elim: calm_stepE intro: calm_inv_act)
qed

lemma tunnel_inv_step: "tunnel_step t t' \<Longrightarrow> tunnel_inv cs ss t \<Longrightarrow> tunnel_inv cs ss t'"
  by (auto elim: tunnel_stepE intro: tunnel_inv_act)

lemma tunnel_inv_reachable: "tunnel_step\<^sup>*\<^sup>* (open_tunnel cs ss) t \<Longrightarrow> tunnel_inv cs ss t"
  by (induction rule: rtranclp_induct) (auto intro: tunnel_inv_open tunnel_inv_step)

text \<open>Every step uses up a byte of a source or a phase.\<close>

definition phase_weight :: "phase \<Rightarrow> nat" where
  "phase_weight p = (case p of AwaitFirst \<Rightarrow> 5 | HaveFirst _ \<Rightarrow> 4 | Copying up down \<Rightarrow> 1 + of_bool up + of_bool down | Failed \<Rightarrow> 0)"

definition tunnel_measure :: "tunnel \<Rightarrow> nat" where
  "tunnel_measure t = length (t_from_client t) + length (t_from_target t) + phase_weight (t_phase t)"

lemma tunnel_act_decreases: "tunnel_act a t = Some t' \<Longrightarrow> tunnel_measure t' < tunnel_measure t"
  by (cases a) (auto simp: tunnel_measure_def phase_weight_def readable_def split: phase.splits if_splits bool.splits)

lemma tunnel_step_decreases: "tunnel_step t t' \<Longrightarrow> tunnel_measure t' < tunnel_measure t"
  by (auto elim: tunnel_stepE intro: tunnel_act_decreases)

lemma phase_weight_bound: "phase_weight p \<le> 5"
  by (cases p) (auto simp: phase_weight_def of_bool_def)

lemma readable_one: "s \<noteq> [] \<Longrightarrow> readable 1 s"
  by (cases s) (auto simp: readable_def buffer_size_def)

lemma calm_decreases: "calm_step t t' \<Longrightarrow> tunnel_measure t' < tunnel_measure t"
  by (auto elim: calm_stepE intro: tunnel_act_decreases)

lemma calm_run_bounded: "(calm_step ^^ n) t u \<Longrightarrow> n \<le> tunnel_measure t"
proof (induction n arbitrary: t)
  case (Suc n)
  from relpowp_Suc_D2 [OF Suc.prems] obtain t1 where "calm_step t t1" "(calm_step ^^ n) t1 u" by blast
  with Suc.IH [of t1] calm_decreases [of t t1] show ?case by simp
qed simp

lemma calm_run_ends: "\<exists>u. calm_step\<^sup>*\<^sup>* t u \<and> (\<nexists>u'. calm_step u u')"
proof (induction t rule: measure_induct_rule [of tunnel_measure])
  case (less t)
  show ?case
  proof (cases "\<exists>t'. calm_step t t'")
    case True
    then obtain t' where t': "calm_step t t'" ..
    from less.IH [OF calm_decreases [OF this]] obtain u where "calm_step\<^sup>*\<^sup>* t' u" "\<nexists>u'. calm_step u u'" by blast
    with t' show ?thesis by (blast intro: converse_rtranclp_into_rtranclp)
  qed blast
qed

lemma calm_stuck_phase:
  assumes "\<nexists>t'. calm_step t t'"
  shows "t_phase t = Failed \<or> t_phase t = Copying False False"
proof -
  have stuck: "broken_write a t \<or> tunnel_act a t = None" for a
    using assms calm_step.intros by (cases "tunnel_act a t") auto
  show ?thesis
  proof (cases "t_phase t")
    case AwaitFirst
    then show ?thesis
      using stuck [of "ReadFirst 1"] stuck [of FirstReadFails] readable_one [of "t_from_client t"] by (auto split: if_splits)
  next
    case (HaveFirst b)
    then show ?thesis using stuck [of ForwardFirst] by simp
  next
    case (Copying up down)
    have "\<not> down"
      using Copying stuck [of "CopyDown 1"] stuck [of CopyDownEnds] readable_one [of "t_from_target t"] by (auto split: if_splits bool.splits)
    moreover from this have "\<not> up"
      using Copying stuck [of "CopyUpFails 1"] stuck [of CopyUpEnds] readable_one [of "t_from_client t"] by (auto split: if_splits bool.splits)
    ultimately show ?thesis using Copying by simp
  qed simp
qed

section \<open>Properties\<close>

text \<open>
  C9: the order of the first packets. At every moment of a tunnel, in whichever order the two copies run and
  whatever breaks, the target has been given a prefix of what the client sends and the client a prefix of
  what the target sends, in order, nothing skipped or twice; and before the first packet of the client
  has been given to the target, the client has been given nothing. While both copies run, what a side has
  not been given is still to be read.
\<close>

theorem tunnel_order:
  assumes "tunnel_step\<^sup>*\<^sup>* (open_tunnel cs ss) t"
  shows "prefix (t_to_target t) cs \<and> prefix (t_to_client t) ss \<and>
    (t_to_client t \<noteq> [] \<longrightarrow> t_to_target t \<noteq> []) \<and>
    (t_phase t = Copying True True \<longrightarrow> t_to_target t @ t_from_client t = cs \<and> t_to_client t @ t_from_target t = ss)"
  using tunnel_inv_reachable [OF assms]
  by (auto simp: tunnel_inv_def split: phase.splits)

theorem tunnel_order_witness:
  "\<exists>t. tunnel_run [ReadFirst 2, ForwardFirst, CopyDown 1, CopyUpFails 1] (open_tunnel ''abc'' ''xy'') = Some t \<and>
     t_to_target t = ''ab'' \<and> prefix (t_to_client t) ''xy''"
proof -
  let ?as = "[ReadFirst 2, ForwardFirst, CopyDown 1, CopyUpFails 1]"
  have "map_option t_to_target (tunnel_run ?as (open_tunnel ''abc'' ''xy'')) = Some ''ab''"
    by (simp add: open_tunnel_def read_client_def read_target_def readable_def buffer_size_def)
  then obtain t where t: "tunnel_run ?as (open_tunnel ''abc'' ''xy'') = Some t" "t_to_target t = ''ab''"
    unfolding map_option_eq_Some by blast
  from tunnel_order [OF tunnel_run_steps [OF t(1)]] t show ?thesis by blast
qed

text \<open>
  C10: a tunnel delivers and ends. When neither side breaks off, then from every moment of a tunnel whose client
  sends something there is a run to its end, no run is longer than the bytes left and the few changes of
  phase, and every run that cannot go on has given the client all that the target sent, and both copies
  have ended. What the client still sends when the target has ended is not forwarded.
\<close>

theorem tunnel_delivers:
  assumes "calm_step\<^sup>*\<^sup>* (open_tunnel cs ss) t" "cs \<noteq> []"
  shows "(\<exists>u. calm_step\<^sup>*\<^sup>* t u \<and> (\<nexists>u'. calm_step u u')) \<and>
    (\<forall>n u. (calm_step ^^ n) t u \<longrightarrow> n \<le> length (t_from_client t) + length (t_from_target t) + 5) \<and>
    (\<forall>u. calm_step\<^sup>*\<^sup>* t u \<and> (\<nexists>u'. calm_step u u') \<longrightarrow> t_to_client u = ss \<and> t_phase u = Copying False False)"
proof (intro conjI allI impI)
  show "\<exists>u. calm_step\<^sup>*\<^sup>* t u \<and> (\<nexists>u'. calm_step u u')" by (rule calm_run_ends)
  show "n \<le> length (t_from_client t) + length (t_from_target t) + 5" if "(calm_step ^^ n) t u" for n u
    using calm_run_bounded [OF that] phase_weight_bound [of "t_phase t"] by (simp add: tunnel_measure_def)
  fix u
  assume u: "calm_step\<^sup>*\<^sup>* t u \<and> (\<nexists>u'. calm_step u u')"
  then have "calm_inv ss u" using calm_inv_reachable [OF rtranclp_trans assms(2)] assms(1) by blast
  moreover from u have "t_phase u = Failed \<or> t_phase u = Copying False False" by (blast dest: calm_stuck_phase)
  ultimately show "t_to_client u = ss" "t_phase u = Copying False False" by (auto simp: calm_inv_def)
qed

theorem tunnel_delivers_witness:
  "\<exists>u. calm_step\<^sup>*\<^sup>* (open_tunnel ''ab'' ''xyz'') u \<and> t_to_client u = ''xyz''"
proof -
  have "calm_step\<^sup>*\<^sup>* (open_tunnel ''ab'' ''xyz'') (open_tunnel ''ab'' ''xyz'')" "''ab'' \<noteq> []" by simp_all
  from tunnel_delivers [OF this] show ?thesis by blast
qed

end
