(* ===== verification/Feature_Payloads.thy ===== *)
theory Feature_Payloads
  imports Http_Proxy Harness_Util
begin

text \<open>
  Two pieces of the Go features that work on payloads: the codec that wraps a payload in base64
  (\<open>features/data_converter/codec/feature.go\<close>) and the driver that keeps payloads in files
  (\<open>features/snippets/external_storage/custom_driver/custom_storage_driver.go\<close>). Protobuf is a parameter,
  \<open>payload_api\<close>. What the client of a storage driver relies on is the locale \<open>payload_store\<close>, which the
  driver on disk interprets.
\<close>

section \<open>Payloads\<close>

record payload =
  py_Metadata :: "(string \<times> string) list"
  py_Data :: string

record payload_api =
  pa_Marshal :: "payload \<Rightarrow> go_error + string"
  pa_Unmarshal :: "string \<Rightarrow> go_error + payload"

definition of_sum :: "go_error + 'a \<Rightarrow> ('w, 'a) io" where
  "of_sum r = (case r of Inl e \<Rightarrow> fail e | Inr a \<Rightarrow> ret a)"

section \<open>The codec\<close>

definition my_encoding :: string where
  "my_encoding = ''my-encoding''"

definition corrupt_input :: go_error where
  "corrupt_input = External OtherError ''illegal base64 data''"

definition decodeBase64 :: "string \<Rightarrow> go_error + string" where
  "decodeBase64 s = (case b64_decode s of (dst, ok) \<Rightarrow> if ok then Inr dst else Inl corrupt_input)"

fun encode_each :: "payload_api \<Rightarrow> payload list \<Rightarrow> go_error + payload list" where
  "encode_each A [] = Inr []"
| "encode_each A (p # ps) =
     (case pa_Marshal A p of
        Inl e \<Rightarrow> Inl e
      | Inr b \<Rightarrow>
          (case encode_each A ps of
             Inl e \<Rightarrow> Inl e
           | Inr r \<Rightarrow> Inr (\<lparr>py_Metadata = [(''encoding'', my_encoding)], py_Data = b64_encode b\<rparr> # r)))"

fun decode_each :: "payload_api \<Rightarrow> payload list \<Rightarrow> go_error + payload list" where
  "decode_each A [] = Inr []"
| "decode_each A (p # ps) =
     (case (if map_of (py_Metadata p) ''encoding'' \<noteq> Some my_encoding then Inr p
            else (case decodeBase64 (py_Data p) of Inl e \<Rightarrow> Inl e | Inr dst \<Rightarrow> pa_Unmarshal A dst)) of
        Inl e \<Rightarrow> Inl e
      | Inr q \<Rightarrow> (case decode_each A ps of Inl e \<Rightarrow> Inl e | Inr r \<Rightarrow> Inr (q # r)))"

text \<open>Both methods return the payloads they were given together with an error.\<close>

definition with_error :: "'a \<Rightarrow> go_error + 'a \<Rightarrow> 'a \<times> go_error option" where
  "with_error old r = (case r of Inl e \<Rightarrow> (old, Some e) | Inr new \<Rightarrow> (new, None))"

definition Encode :: "payload_api \<Rightarrow> payload list \<Rightarrow> payload list \<times> go_error option" where
  "Encode A payloads = with_error payloads (encode_each A payloads)"

definition Decode :: "payload_api \<Rightarrow> payload list \<Rightarrow> payload list \<times> go_error option" where
  "Decode A payloads = with_error payloads (decode_each A payloads)"

section \<open>The driver on disk\<close>

datatype storage_target = WorkflowTarget string string | ActivityTarget string string | NoTarget

definition target_dir :: "string \<Rightarrow> storage_target \<Rightarrow> string" where
  "target_dir storeDir t =
     (case t of
        WorkflowTarget ns workflow \<Rightarrow> if workflow \<noteq> [] then PathJoin [storeDir, ns, workflow] else storeDir
      | ActivityTarget ns activity \<Rightarrow> if activity \<noteq> [] then PathJoin [storeDir, ns, activity] else storeDir
      | NoTarget \<Rightarrow> storeDir)"

text \<open>A claim is the path of the file.\<close>

fun store_each :: "payload_api \<Rightarrow> string \<Rightarrow> payload list \<Rightarrow> ('z world_scheme, string list) io" where
  "store_each A dir [] = ret []"
| "store_each A dir (p # ps) =
     bindE new_uuid (\<lambda>u. let filePath = PathJoin [dir, u @ ''.bin''] in
     bindE (wrapE ''marshal payload: %w'' [] (of_sum (pa_Marshal A p))) (\<lambda>data.
     thenE (wrapE ''write payload: %w'' [] (os_WriteFile filePath data))
       (bindE (store_each A dir ps) (\<lambda>claims. ret (filePath # claims)))))"

definition Store_payloads :: "payload_api \<Rightarrow> string \<Rightarrow> storage_target \<Rightarrow> payload list \<Rightarrow> ('z world_scheme, string list) io" where
  "Store_payloads A storeDir t ps = (let dir = target_dir storeDir t in
     thenE (wrapE ''create store directory: %w'' [] (os_MkdirAll dir)) (store_each A dir ps))"

fun Retrieve :: "payload_api \<Rightarrow> string list \<Rightarrow> ('z world_scheme, payload list) io" where
  "Retrieve A [] = ret []"
| "Retrieve A (filePath # claims) =
     bindE (wrapE ''read payload: %w'' [] (os_ReadFile filePath)) (\<lambda>data.
     bindE (wrapE ''unmarshal payload: %w'' [] (of_sum (pa_Unmarshal A data))) (\<lambda>p.
     bindE (Retrieve A claims) (\<lambda>ps. ret (p # ps))))"

section \<open>The contract of a storage driver\<close>

text \<open>
  \<open>view w\<close> is the store as the client sees it, a map from claims to payloads. Storing adds new claims and
  changes no old one; retrieving looks claims up.
\<close>

locale payload_store =
  fixes good :: "'w \<Rightarrow> bool" and ok :: "'t \<Rightarrow> 'p list \<Rightarrow> bool" and view :: "'w \<Rightarrow> 'c \<Rightarrow> 'p option"
    and store :: "'t \<Rightarrow> 'p list \<Rightarrow> ('w, 'c list) io" and retrieve :: "'c list \<Rightarrow> ('w, 'p list) io"
  assumes store_adds: "good w \<Longrightarrow> ok t ps \<Longrightarrow> store t ps w = (Ok cs, w') \<Longrightarrow>
      good w' \<and> length cs = length ps \<and> distinct cs \<and> set cs \<inter> dom (view w) = {} \<and>
      view w' = view w ++ map_of (zip cs ps)"
    and retrieve_reads: "good w \<Longrightarrow> set cs \<subseteq> dom (view w) \<Longrightarrow> retrieve cs w = (Ok (map (\<lambda>c. the (view w c)) cs), w)"
begin

lemma retrieve_later:
  assumes "good w" "length cs = length ps" "distinct cs" "\<And>c p. (c, p) \<in> set (zip cs ps) \<Longrightarrow> view w c = Some p"
  shows "retrieve cs w = (Ok ps, w)"
proof -
  have v: "view w (cs ! i) = Some (ps ! i)" if "i < length ps" for i
    using assms(2,4) that by (auto simp: set_zip)
  have "set cs \<subseteq> dom (view w)" using v assms(2) by (auto simp: in_set_conv_nth)
  moreover have "map (\<lambda>c. the (view w c)) cs = ps" using v assms(2) by (auto intro: nth_equalityI)
  ultimately show ?thesis using retrieve_reads [OF assms(1), of cs] by simp
qed

lemma retrieve_stored:
  assumes "good w" "ok t ps" "store t ps w = (Ok cs, w')"
  shows "retrieve cs w' = (Ok ps, w')"
proof (rule retrieve_later)
  note s = store_adds [OF assms]
  show "good w'" "length cs = length ps" "distinct cs" using s by auto
  fix c p assume "(c, p) \<in> set (zip cs ps)"
  then have "map_of (zip cs ps) c = Some p" using s by (auto intro: map_of_is_SomeI)
  then show "view w' c = Some p" using s by (auto simp: map_add_Some_iff)
qed

text \<open>What was stored before is still there.\<close>

lemma retrieve_after_store:
  assumes "good w" "ok t ps" "store t ps w = (Ok cs, w')" "set cs0 \<subseteq> dom (view w)"
  shows "fst (retrieve cs0 w') = fst (retrieve cs0 w)"
proof -
  note s = store_adds [OF assms(1-3)]
  have "view w' c = view w c" if "c \<in> set cs0" for c
  proof -
    have "c \<notin> set cs" using that assms(4) s by blast
    then have n: "map_of (zip cs ps) c = None" using s by (auto simp: map_of_eq_None_iff dest: set_zip_leftD)
    from s have "view w' = view w ++ map_of (zip cs ps)" by blast
    then show ?thesis using n by (simp add: map_add_def)
  qed
  then have "map (\<lambda>c. the (view w' c)) cs0 = map (\<lambda>c. the (view w c)) cs0" "set cs0 \<subseteq> dom (view w')"
    using assms(4) by (auto simp: domIff subset_iff)
  then show ?thesis using retrieve_reads [of w' cs0] retrieve_reads [OF assms(1,4)] s by simp
qed

end

section \<open>The driver keeps the contract\<close>

definition file_at :: "fs \<Rightarrow> string \<Rightarrow> string option" where
  "file_at m q = (case map_of m q of Some (FileN c) \<Rightarrow> Some c | _ \<Rightarrow> None)"

definition bin_path :: "string \<Rightarrow> string \<Rightarrow> string" where
  "bin_path d u = d @ slash # u @ ''.bin''"

text \<open>The identifiers still to be drawn differ from each other and name no file yet.\<close>

definition disk_good :: "'z world_scheme \<Rightarrow> bool" where
  "disk_good w \<longleftrightarrow> no_faults w \<and> inj (x_uuid w) \<and> (\<forall>i. slash \<notin> set (x_uuid w i)) \<and>
     (\<forall>d i. w_uuids w \<le> i \<longrightarrow> file_at (w_fs w) (bin_path d (x_uuid w i)) = None)"

definition disk_ok :: "payload_api \<Rightarrow> string \<Rightarrow> storage_target \<Rightarrow> payload list \<Rightarrow> bool" where
  "disk_ok A storeDir t ps \<longleftrightarrow> clean_abs (target_dir storeDir t) \<and>
     (\<forall>p b. p \<in> set ps \<and> pa_Marshal A p = Inr b \<longrightarrow> pa_Unmarshal A b = Inr p)"

definition disk_view :: "payload_api \<Rightarrow> 'z world_scheme \<Rightarrow> string \<Rightarrow> payload option" where
  "disk_view A w q =
     (if clean_abs q then
        (case file_at (w_fs w) q of
           Some c \<Rightarrow> (case pa_Unmarshal A c of Inr p \<Rightarrow> Some p | Inl _ \<Rightarrow> None)
         | None \<Rightarrow> None)
      else None)"

lemma mkdirs_files: "mkdirs ps m = Some m' \<Longrightarrow> file_at m' = file_at m"
proof (induction ps arbitrary: m)
  case (Cons p ps)
  show ?case
  proof (cases "map_of m p")
    case None
    with Cons.prems Cons.IH [of "fs_put p DirN m"] have "file_at m' = file_at (fs_put p DirN m)" by simp
    with None show ?thesis by (auto simp: file_at_def fun_eq_iff map_of_fs_put)
  next
    case (Some n)
    with Cons show ?thesis by (cases n) simp_all
  qed
qed simp

lemma bin_ordinary: "slash \<notin> set u \<Longrightarrow> ordinary (u @ ''.bin'')"
  by (cases u) (auto simp: ordinary_def)

lemma bin_path_clean: "clean_abs d \<Longrightarrow> slash \<notin> set u \<Longrightarrow> clean_abs (bin_path d u) \<and> PathJoin [d, u @ ''.bin''] = bin_path d u"
  using clean_abs_sub(1) [OF _ bin_ordinary] PathJoin_sub [OF _ bin_ordinary] by (simp add: bin_path_def)

lemma bin_path_inj:
  assumes "slash \<notin> set u" "slash \<notin> set v" "bin_path d u = bin_path e v"
  shows "u = v"
proof -
  have "rev u @ slash # rev d = rev v @ slash # rev e"
    using assms(3) arg_cong [of "bin_path d u" "bin_path e v" rev] by (simp add: bin_path_def)
  from sep_unique [OF this] assms(1,2) show ?thesis by simp
qed

lemma write_bin_Ok:
  assumes "disk_good w" "clean_abs d" "u = x_uuid w (w_uuids w)" "w1 = w\<lparr>w_uuids := Suc (w_uuids w)\<rparr>"
    and "os_WriteFile (bin_path d u) c w1 = (Ok (), w2)"
  shows "disk_good w2 \<and> file_at (w_fs w2) = (file_at (w_fs w))(bin_path d u \<mapsto> c) \<and> x_uuid w2 = x_uuid w \<and>
    file_at (w_fs w) (bin_path d u) = None"
proof -
  have g: "no_faults w1" "slash \<notin> set u" "inj (x_uuid w)" "\<forall>i. slash \<notin> set (x_uuid w i)"
    using assms(1,3,4) by (auto simp: disk_good_def no_faults_def)
  have cl: "clean_abs (bin_path d u)" using bin_path_clean [OF assms(2) g(2)] by simp
  have "w2 = w1\<lparr>w_fs := fs_put (bin_path d u) (FileN c) (w_fs w1)\<rparr>"
    using assms(5) abs_path_clean [OF cl, of w1]
    by (auto simp: os_WriteFile_def thenE_Ok_iff faulty_ok [OF g(1)] Let_def split: if_splits)
  then have w2: "w2 = w\<lparr>w_uuids := Suc (w_uuids w), w_fs := fs_put (bin_path d u) (FileN c) (w_fs w)\<rparr>"
    using assms(4) by simp
  then have f: "file_at (w_fs w2) = (file_at (w_fs w))(bin_path d u \<mapsto> c)"
    by (auto simp: file_at_def fun_eq_iff map_of_fs_put)
  have old: "file_at (w_fs w) (bin_path e (x_uuid w i)) = None" if "w_uuids w \<le> i" for e i
    using assms(1) that by (simp add: disk_good_def)
  have "file_at (w_fs w2) (bin_path e (x_uuid w i)) = None" if "Suc (w_uuids w) \<le> i" for e i
  proof -
    have "x_uuid w i \<noteq> u" using g(3) that assms(3) by (auto simp: inj_eq)
    then have "bin_path e (x_uuid w i) \<noteq> bin_path d u" using bin_path_inj g(2,4) by blast
    then show ?thesis using old [of i e] that f by simp
  qed
  then have "disk_good w2" using assms(1) w2 by (simp add: disk_good_def no_faults_def)
  then show ?thesis using f old [of "w_uuids w" d] w2 assms(3) by simp
qed

lemma disk_view_put:
  assumes "disk_good w" "clean_abs q" "file_at (w_fs w2) = (file_at (w_fs w))(q \<mapsto> c)" "pa_Unmarshal A c = Inr p"
  shows "disk_view A w2 = (disk_view A w)(q \<mapsto> p)"
  using assms(2-4) by (auto simp: disk_view_def fun_eq_iff)

lemma store_each_Ok:
  assumes "store_each A d ps w = (Ok cs, w')" "disk_good w" "clean_abs d"
    and "\<forall>p b. p \<in> set ps \<and> pa_Marshal A p = Inr b \<longrightarrow> pa_Unmarshal A b = Inr p"
  shows "disk_good w' \<and> length cs = length ps \<and> distinct cs \<and> set cs \<inter> dom (disk_view A w) = {} \<and>
    disk_view A w' = disk_view A w ++ map_of (zip cs ps)"
  using assms
proof (induction ps arbitrary: w cs)
  case Nil
  then show ?case by (simp add: ret_def)
next
  case (Cons p ps)
  let ?u = "x_uuid w (w_uuids w)" and ?w1 = "w\<lparr>w_uuids := Suc (w_uuids w)\<rparr>"
  let ?q = "bin_path d ?u"
  have sl: "slash \<notin> set ?u" using Cons.prems(2) by (simp add: disk_good_def)
  note q = bin_path_clean [OF Cons.prems(3) sl]
  have run: "bindE (wrapE ''marshal payload: %w'' [] (of_sum (pa_Marshal A p))) (\<lambda>data.
     thenE (wrapE ''write payload: %w'' [] (os_WriteFile ?q data))
       (bindE (store_each A d ps) (\<lambda>claims. ret (?q # claims)))) ?w1 = (Ok cs, w')"
    using Cons.prems(1) q by (simp add: bindE_new_uuid Let_def)
  then obtain b w2 cs' where b: "pa_Marshal A p = Inr b" and wr: "os_WriteFile ?q b ?w1 = (Ok (), w2)"
    and rest: "store_each A d ps w2 = (Ok cs', w')" and cs: "cs = ?q # cs'"
    by (auto simp: bindE_Ok_iff thenE_Ok_iff wrapE_Ok of_sum_def ret_def fail_def split: sum.splits)
  note w2 = write_bin_Ok [OF Cons.prems(2,3) refl refl wr]
  have v: "disk_view A w2 = (disk_view A w)(?q \<mapsto> p)"
    using Cons.prems(4) b q w2 by (intro disk_view_put [OF Cons.prems(2)]) auto
  from Cons.IH [OF rest] w2 Cons.prems(3,4) have
    ih: "disk_good w'" "length cs' = length ps" "distinct cs'" "set cs' \<inter> dom (disk_view A w2) = {}"
      "disk_view A w' = disk_view A w2 ++ map_of (zip cs' ps)"
    by auto
  have nq: "?q \<notin> set cs'" using ih(4) v by auto
  then have "map_of (zip cs' ps) ?q = None" by (auto simp: map_of_eq_None_iff dest: set_zip_leftD)
  then have view: "disk_view A w' = disk_view A w ++ map_of (zip cs (p # ps))"
    unfolding ih(5) v cs by (auto simp: fun_eq_iff map_add_def split: option.splits)
  have "?q \<notin> dom (disk_view A w)" using w2 by (auto simp: disk_view_def split: if_splits)
  then have "set cs \<inter> dom (disk_view A w) = {}" using ih(4) v cs by auto
  with ih(1-3) nq cs have "disk_good w' \<and> length cs = length (p # ps) \<and> distinct cs \<and> set cs \<inter> dom (disk_view A w) = {}" by simp
  with view show ?case by blast
qed

lemma MkdirAll_good:
  assumes "os_MkdirAll d w = (Ok (), w1)" "disk_good w"
  shows "disk_good w1 \<and> disk_view A w1 = disk_view A w"
proof -
  have nf: "no_faults w" using assms(2) by (simp add: disk_good_def)
  from assms(1) obtain m where m: "mkdirs (path_prefixes (abs_path w d)) (w_fs w) = Some m" "w1 = w\<lparr>w_fs := m\<rparr>"
    by (auto simp: os_MkdirAll_def thenE_Ok_iff faulty_ok [OF nf] split: option.splits)
  with mkdirs_files [OF m(1)] assms(2) show ?thesis
    by (simp add: disk_good_def no_faults_def disk_view_def fun_eq_iff)
qed

lemma Store_payloads_adds:
  assumes "disk_good w" "disk_ok A root t ps" "Store_payloads A root t ps w = (Ok cs, w')"
  shows "disk_good w' \<and> length cs = length ps \<and> distinct cs \<and> set cs \<inter> dom (disk_view A w) = {} \<and>
    disk_view A w' = disk_view A w ++ map_of (zip cs ps)"
proof -
  from assms(3) obtain w1 where d: "os_MkdirAll (target_dir root t) w = (Ok (), w1)"
    and s: "store_each A (target_dir root t) ps w1 = (Ok cs, w')"
    by (auto simp: Store_payloads_def Let_def thenE_Ok_iff wrapE_Ok)
  from MkdirAll_good [OF d assms(1)] store_each_Ok [OF s] assms(2) show ?thesis
    unfolding disk_ok_def by metis
qed

lemma Retrieve_reads:
  assumes "disk_good w" "set cs \<subseteq> dom (disk_view A w)"
  shows "Retrieve A cs w = (Ok (map (\<lambda>c. the (disk_view A w c)) cs), w)"
  using assms(2)
proof (induction cs)
  case Nil
  show ?case by (simp add: ret_def)
next
  case (Cons q cs)
  have nf: "no_faults w" using assms(1) by (simp add: disk_good_def)
  from Cons.prems obtain p where v: "disk_view A w q = Some p" by auto
  then obtain b where q: "clean_abs q" "map_of (w_fs w) q = Some (FileN b)" "pa_Unmarshal A b = Inr p"
    by (auto simp: disk_view_def file_at_def split: if_splits option.splits node.splits sum.splits)
  then have "os_ReadFile q w = (Ok b, w)"
    by (simp add: os_ReadFile_def thenE_def bindE_def faulty_ok [OF nf] fs_at_def abs_path_clean)
  with Cons q(3) v show ?case by (simp add: bindE_def wrapE_def of_sum_def ret_def)
qed

interpretation disk: payload_store disk_good "disk_ok A storeDir" "disk_view A" "Store_payloads A storeDir" "Retrieve A"
  for A storeDir
  by unfold_locales (rule Store_payloads_adds, assumption+, rule Retrieve_reads)

section \<open>Properties\<close>

text \<open>
  C27: the driver on disk implements a map from claims to payloads. When the identifiers it draws are new and
  protobuf reads back what it writes, then storing payloads adds new claims, one for each, for the given
  payloads, and leaves every older claim as it was; retrieving claims that are there gives their payloads
  and changes nothing; so what was stored is retrieved, and what was stored earlier still is.
\<close>

theorem disk_driver_refines:
  assumes "disk_good w" "disk_ok A storeDir t ps" "Store_payloads A storeDir t ps w = (Ok cs, w')"
  shows "disk_good w' \<and> length cs = length ps \<and> distinct cs \<and> set cs \<inter> dom (disk_view A w) = {} \<and>
    disk_view A w' = disk_view A w ++ map_of (zip cs ps) \<and> Retrieve A cs w' = (Ok ps, w') \<and>
    (\<forall>cs0. set cs0 \<subseteq> dom (disk_view A w) \<longrightarrow>
      Retrieve A cs0 w = (Ok (map (\<lambda>c. the (disk_view A w c)) cs0), w) \<and> fst (Retrieve A cs0 w') = fst (Retrieve A cs0 w))"
  using disk.store_adds [OF assms] disk.retrieve_stored [OF assms] disk.retrieve_reads [OF assms(1)]
    disk.retrieve_after_store [OF assms] by blast

definition plain_api :: payload_api where
  "plain_api = \<lparr>pa_Marshal = (\<lambda>p. Inr (py_Data p)),
     pa_Unmarshal = (\<lambda>b. Inr \<lparr>py_Metadata = [], py_Data = b\<rparr>)\<rparr>"

definition disk_world :: world where
  "disk_world = (calm_world [])\<lparr>x_uuid := (\<lambda>n. replicate n (CHR ''u''))\<rparr>"

theorem disk_driver_refines_witness:
  "\<exists>cs w'. Store_payloads plain_api ''/store'' (WorkflowTarget ''ns'' ''wf'') [\<lparr>py_Metadata = [], py_Data = ''x''\<rparr>] disk_world = (Ok cs, w') \<and>
     Retrieve plain_api cs w' = (Ok [\<lparr>py_Metadata = [], py_Data = ''x''\<rparr>], w')"
proof -
  let ?ps = "[\<lparr>py_Metadata = [], py_Data = ''x''\<rparr>]" and ?t = "WorkflowTarget ''ns'' ''wf''"
  have "fst (Store_payloads plain_api ''/store'' ?t ?ps disk_world) = Ok [''/store/ns/wf/.bin'']" by code_simp
  from fst_res [OF this] obtain w' where
    run: "Store_payloads plain_api ''/store'' ?t ?ps disk_world = (Ok [''/store/ns/wf/.bin''], w')" by (rule that)
  have "disk_good disk_world"
    by (auto simp: disk_good_def disk_world_def calm_world_def no_faults_def file_at_def inj_def dest: arg_cong [of _ _ length])
  moreover have "clean_abs (target_dir ''/store'' ?t)" by code_simp
  then have "disk_ok plain_api ''/store'' ?t ?ps" by (simp add: disk_ok_def plain_api_def)
  ultimately show ?thesis using disk_driver_refines [OF _ _ run] run by blast
qed

text \<open>
  C28: the codec undoes itself. When protobuf reads back what it writes for the given payloads, decoding what
  encoding gave gives them back, whatever their own encoding is, and without an error; every encoded payload
  says so in its metadata. Payloads of other encodings go through decoding unchanged. When encoding fails
  for one payload, all come back as they were, with the error.
\<close>

theorem codec_roundtrip:
  assumes "\<forall>p b. p \<in> set ps \<and> pa_Marshal A p = Inr b \<longrightarrow> pa_Unmarshal A b = Inr p"
  shows "(case Encode A ps of
      (es, None) \<Rightarrow> Decode A es = (ps, None) \<and> length es = length ps \<and>
        (\<forall>e \<in> set es. map_of (py_Metadata e) ''encoding'' = Some my_encoding)
    | (es, Some err) \<Rightarrow> es = ps \<and> (\<exists>p \<in> set ps. pa_Marshal A p = Inl err)) \<and>
    (\<forall>qs. (\<forall>q \<in> set qs. map_of (py_Metadata q) ''encoding'' \<noteq> Some my_encoding) \<longrightarrow> Decode A qs = (qs, None))"
proof -
  have enc: "case encode_each A ps of
      Inr es \<Rightarrow> decode_each A es = Inr ps \<and> length es = length ps \<and>
        (\<forall>e \<in> set es. map_of (py_Metadata e) ''encoding'' = Some my_encoding)
    | Inl err \<Rightarrow> \<exists>p \<in> set ps. pa_Marshal A p = Inl err"
    using assms
  proof (induction ps)
    case (Cons p ps)
    from Cons.prems have p: "\<forall>b. pa_Marshal A p = Inr b \<longrightarrow> pa_Unmarshal A b = Inr p" by simp
    from Cons have "case encode_each A ps of
        Inr es \<Rightarrow> decode_each A es = Inr ps \<and> length es = length ps \<and>
          (\<forall>e \<in> set es. map_of (py_Metadata e) ''encoding'' = Some my_encoding)
      | Inl err \<Rightarrow> \<exists>p \<in> set ps. pa_Marshal A p = Inl err" by simp
    with p show ?case by (cases "pa_Marshal A p"; cases "encode_each A ps") (auto simp: decodeBase64_def b64_roundtrip)
  qed simp
  have dec: "decode_each A qs = Inr qs" if "\<forall>q \<in> set qs. map_of (py_Metadata q) ''encoding'' \<noteq> Some my_encoding" for qs
    using that by (induction qs) auto
  show ?thesis using enc dec
    by (auto simp: Encode_def Decode_def with_error_def split: sum.splits)
qed

theorem codec_roundtrip_witness:
  "Decode plain_api (fst (Encode plain_api [\<lparr>py_Metadata = [], py_Data = ''x''\<rparr>])) = ([\<lparr>py_Metadata = [], py_Data = ''x''\<rparr>], None)"
proof -
  let ?ps = "[\<lparr>py_Metadata = [], py_Data = ''x''\<rparr>]"
  have "\<forall>p b. p \<in> set ?ps \<and> pa_Marshal plain_api p = Inr b \<longrightarrow> pa_Unmarshal plain_api b = Inr p" by (simp add: plain_api_def)
  moreover have "snd (Encode plain_api ?ps) = None" by code_simp
  ultimately show ?thesis using codec_roundtrip [of ?ps plain_api] by (cases "Encode plain_api ?ps") auto
qed

end
