(* ===== verification/Feature_Http_Proxy.thy ===== *)
theory Feature_Http_Proxy
  imports Harness_Runner
begin

text \<open>
  The features that go through the HTTP proxy (\<open>features/client/http_proxy/feature.go\<close> and
  \<open>features/client/http_proxy_auth/feature.go\<close>): the hook that starts a subprocess with the proxy in its
  environment, the arguments it passes, and what the subprocess does with them. \<open>net.ParseIP\<close>, the
  functions of \<open>net/http\<close> and \<open>net/url\<close>, \<open>os.Executable\<close>, the flags of \<open>urfave/cli\<close> and the conversion of
  the result are the parameters of \<open>proxy_lib\<close>.
\<close>

section \<open>What is used of the libraries\<close>

record proxy_lib =
  pl_loopback :: "string \<Rightarrow> bool"
  pl_NewRequest :: "string \<Rightarrow> go_error option"
  pl_ProxyFromEnvironment :: "(string \<Rightarrow> string option) \<Rightarrow> string \<Rightarrow> string option res"
  pl_with_user :: "string \<Rightarrow> string res"
  pl_executable :: "string res"
  pl_parse_flags :: "(string \<times> bool) list \<Rightarrow> string list \<Rightarrow> (string \<Rightarrow> string option) res"
  pl_decode :: "string \<Rightarrow> string res"

text \<open>\<open>net.SplitHostPort\<close>: the last colon separates; a host with colons is in brackets.\<close>

definition address_error :: "string \<Rightarrow> string \<Rightarrow> go_error" where
  "address_error hostport why = External OtherError (''address '' @ hostport @ '': '' @ why)"

definition SplitHostPort :: "string \<Rightarrow> (string \<times> string) res" where
  "SplitHostPort hostport =
     (case LastIndexByte (CHR '':'') hostport of
        None \<Rightarrow> Err (address_error hostport ''missing port in address'')
      | Some i \<Rightarrow> let port = drop (Suc i) hostport in
          if HasPrefix hostport ''['' then
            (case IndexByte (CHR '']'') hostport of
               None \<Rightarrow> Err (address_error hostport ''missing ']' in address'')
             | Some r \<Rightarrow>
                 if Suc r = length hostport then Err (address_error hostport ''missing port in address'')
                 else if Suc r \<noteq> i then
                   Err (address_error hostport (if hostport ! Suc r = CHR '':'' then ''too many colons in address''
                     else ''missing port in address''))
                 else if CHR ''['' \<in> set (drop 1 hostport) then Err (address_error hostport ''unexpected '[' in address'')
                 else if CHR '']'' \<in> set (drop (Suc r) hostport) then Err (address_error hostport ''unexpected ']' in address'')
                 else Ok (drop 1 (take r hostport), port))
          else let host = take i hostport in
            if CHR '':'' \<in> set host then Err (address_error hostport ''too many colons in address'')
            else if CHR ''['' \<in> set hostport then Err (address_error hostport ''unexpected '[' in address'')
            else if CHR '']'' \<in> set hostport then Err (address_error hostport ''unexpected ']' in address'')
            else Ok (host, port))"

text \<open>An assertion of \<open>r.Require\<close>: one that fails panics with its text.\<close>

definition require_that :: "sdk_lib \<Rightarrow> string \<Rightarrow> bool \<Rightarrow> ('w, unit) io" where
  "require_that L text b = (if b then ret () else FailNow (Some (Errorf ''%s'' [sl_assert L text])))"

definition require_NoError :: "sdk_lib \<Rightarrow> 'a res \<Rightarrow> ('w, 'a) io" where
  "require_NoError L r =
     (case r of Ok a \<Rightarrow> ret a | Err e \<Rightarrow> panic (Errorf ''%s'' [sl_assert L (error_text e)]) | Panic e \<Rightarrow> panic e)"

section \<open>The subprocess and its arguments\<close>

record subprocessArgs =
  sa_server :: string
  sa_namespace :: string
  sa_clientCertPath :: string
  sa_clientKeyPath :: string
  sa_caCertPath :: string
  sa_tlsServerName :: string
  sa_taskQueue :: string
  sa_workflowID :: string

definition subprocessCommandName :: string where
  "subprocessCommandName = ''http-proxy-subprocess''"

text \<open>The flags, with whether they are required.\<close>

definition subprocess_flags :: "(string \<times> bool) list" where
  "subprocess_flags = [(''server'', True), (''namespace'', True), (''client-cert-path'', False), (''client-key-path'', False),
     (''ca-cert-path'', False), (''tls-server-name'', False), (''task-queue'', True), (''workflow-id'', True)]"

text \<open>The destinations of the flags: a flag that is not given leaves an empty string.\<close>

definition flag_value :: "(string \<Rightarrow> string option) \<Rightarrow> string \<Rightarrow> string" where
  "flag_value m k = (case m k of Some v \<Rightarrow> v | None \<Rightarrow> [])"

definition flag_destinations :: "(string \<Rightarrow> string option) \<Rightarrow> subprocessArgs" where
  "flag_destinations m = \<lparr>sa_server = flag_value m ''server'', sa_namespace = flag_value m ''namespace'',
     sa_clientCertPath = flag_value m ''client-cert-path'', sa_clientKeyPath = flag_value m ''client-key-path'',
     sa_caCertPath = flag_value m ''ca-cert-path'', sa_tlsServerName = flag_value m ''tls-server-name'',
     sa_taskQueue = flag_value m ''task-queue'', sa_workflowID = flag_value m ''workflow-id''\<rparr>"

definition subprocess_args :: "subprocessArgs \<Rightarrow> string list" where
  "subprocess_args s =
     [''--server'', sa_server s, ''--namespace'', sa_namespace s, ''--task-queue'', sa_taskQueue s,
      ''--workflow-id'', sa_workflowID s] @
     (if sa_clientCertPath s \<noteq> [] then [''--client-cert-path'', sa_clientCertPath s, ''--client-key-path'', sa_clientKeyPath s] else []) @
     (if sa_caCertPath s \<noteq> [] then [''--ca-cert-path'', sa_caCertPath s] else []) @
     (if sa_tlsServerName s \<noteq> [] then [''--tls-server-name'', sa_tlsServerName s] else [])"

text \<open>Empty with no error if no proxy is set.\<close>

definition proxyAddr :: "proxy_lib \<Rightarrow> (string \<Rightarrow> string option) \<Rightarrow> string \<Rightarrow> string res" where
  "proxyAddr B env destAddr = (let url = ''https://'' @ destAddr @ ''/'' in
     case pl_NewRequest B url of
       Some e \<Rightarrow> Err e
     | None \<Rightarrow>
         (case pl_ProxyFromEnvironment B env url of
            Ok None \<Rightarrow> Ok [] | Ok (Some u) \<Rightarrow> Ok u | Err e \<Rightarrow> Err e | Panic e \<Rightarrow> Panic e))"

definition SubprocessExecuteWorkflow :: "proxy_lib \<Rightarrow> subprocessArgs \<Rightarrow> ('z net_world_scheme, unit) io" where
  "SubprocessExecuteWorkflow B args =
     bindE (asks (\<lambda>w. proxyAddr B (\<lambda>k. LookupEnv k w) (sa_server args))) (\<lambda>r.
     bindE (wrapE ''failed getting proxy addr: %w'' [] (of_res r)) (\<lambda>addr.
     if addr = [] then fail (Errorf ''proxy not enabled'' [])
     else
       bindE (if sa_clientCertPath args \<noteq> [] then
                wrapE ''failed loading TLS config: %w'' []
                  (LoadTLSConfig (sa_clientCertPath args) (sa_clientKeyPath args) (sa_caCertPath args) (sa_tlsServerName args))
              else ret None) (\<lambda>tls.
       thenE (wrapE ''failed dialing client: %w'' []
           (act_unit (ADial (''passthrough:///'' @ sa_server args) (sa_namespace args) tls)))
         (deferE (act_ignore ACloseClient)
           (bindE (wrapE ''failed starting workflow: %w'' []
               (act (AStartWorkflow (sa_workflowID args) (sa_taskQueue args) ''Workflow''))) (\<lambda>run.
            bindE (wrapE ''failed running workflow: %w'' []
               (bindE (act (AGetResult run)) (\<lambda>t. of_res (pl_decode B t)))) (\<lambda>res.
            if res \<noteq> ''done'' then fail (Errorf ''workflow had unexpected response: %v'' [res]) else ret ())))))))"

section \<open>The feature\<close>

definition runner_args :: "RunnerConfig \<Rightarrow> string \<Rightarrow> subprocessArgs" where
  "runner_args c workflowID =
     \<lparr>sa_server = hc_ServerHostPort c, sa_namespace = hc_Namespace c,
      sa_clientCertPath = hc_ClientCertPath c, sa_clientKeyPath = hc_ClientKeyPath c,
      sa_caCertPath = hc_CACertPath c, sa_tlsServerName = hc_TLSServerName c,
      sa_taskQueue = hc_TaskQueue c, sa_workflowID = workflowID\<rparr>"

definition run_subprocess ::
  "proxy_lib \<Rightarrow> bool \<Rightarrow> RunnerConfig \<Rightarrow> subprocessArgs \<Rightarrow> ('z harness_state_scheme, workflow_run option) io" where
  "run_subprocess B useAuth c args =
     (case CreateSubprocessCommand (pl_executable B) subprocessCommandName (subprocess_args args) of
        Err e \<Rightarrow> fail (Errorf ''failed creating subprocess command'' [])
      | Panic e \<Rightarrow> panic e
      | Ok cmd \<Rightarrow>
          bindE (of_res (if useAuth then pl_with_user B (hc_HTTPProxyURL c) else Ok (hc_HTTPProxyURL c))) (\<lambda>proxyURL.
          bindE (asks Environ) (\<lambda>env.
            thenE (wrapE ''failed running subprocess: %w'' []
                (run_command (cmd\<lparr>c_env := (''HTTPS_PROXY='' @ proxyURL) # env\<rparr>)))
              (ret (Some \<lparr>wr_ID = sa_workflowID args, wr_RunID = []\<rparr>)))))"

definition ExecuteProxy ::
  "proxy_lib \<Rightarrow> sdk_lib \<Rightarrow> bool \<Rightarrow> RunnerConfig \<Rightarrow> ('z harness_state_scheme, workflow_run option) io" where
  "ExecuteProxy B L useAuth c =
     bindE (require_NoError L (SplitHostPort (hc_ServerHostPort c))) (\<lambda>hp.
     if fst hp = ''localhost'' \<or> pl_loopback B (fst hp) then fail (Skip ''Cannot run proxy test on localhost/loopback'')
     else
       bindE (asks (\<lambda>s. proxyAddr B (\<lambda>k. LookupEnv k s) (hc_ServerHostPort c))) (\<lambda>r.
       bindE (require_NoError L r) (\<lambda>addr.
       thenE (require_that L ''Should be empty'' (addr = []))
      (thenE (require_that L ''Should NOT be empty'' (hc_HTTPProxyURL c \<noteq> []))
      (bindE new_uuid (\<lambda>u. run_subprocess B useAuth c (runner_args c (''wf-'' @ u))))))))"

definition proxy_feature :: "proxy_lib \<Rightarrow> sdk_lib \<Rightarrow> bool \<Rightarrow> string \<Rightarrow> 'z harness_state_scheme Feature" where
  "proxy_feature B L useAuth file = zero_feature\<lparr>fd_Workflows := RFunc ''Workflow'' file,
     fd_Execute := Some (ExecuteProxy B L useAuth), fd_ExpectRunResult := Some (VStr ''done'')\<rparr>"

text \<open>The process that is started: its own app, the command named first, the flags.\<close>

definition subprocess_main :: "proxy_lib \<Rightarrow> string list \<Rightarrow> ('z net_world_scheme, unit) io" where
  "subprocess_main B argv =
     (case dispatch argv of
        (True, exe # name # rest) \<Rightarrow>
          if name = subprocessCommandName then
            bindE (of_res (pl_parse_flags B subprocess_flags rest)) (\<lambda>m. SubprocessExecuteWorkflow B (flag_destinations m))
          else fail (Errorf ''no command'' [])
      | _ \<Rightarrow> fail (Errorf ''no command'' []))"

section \<open>Lemmas\<close>

subsection \<open>The environment of a command\<close>

definition plain_env :: "(string \<times> string) list \<Rightarrow> bool" where
  "plain_env e = (distinct (map fst e) \<and> list_all (\<lambda>kv. CHR ''='' \<notin> set (fst kv)) e)"

lemma entry_prefix:
  assumes "CHR ''='' \<notin> set k" "CHR ''='' \<notin> set j"
  shows "HasPrefix (j @ ''='' @ v) (k @ ''='') \<longleftrightarrow> j = k"
  using assms by (auto simp: HasPrefix_iff dest: sep_unique)

lemma filter_Environ:
  assumes "plain_env e" "CHR ''='' \<notin> set k"
  shows "filter (\<lambda>x. HasPrefix x (k @ ''='')) (map (\<lambda>(j, v). j @ ''='' @ v) e) =
    (case map_of e k of None \<Rightarrow> [] | Some v \<Rightarrow> [k @ ''='' @ v])"
  using assms(1)
proof (induction e)
  case (Cons x e)
  obtain j v where x: "x = (j, v)" by force
  have "plain_env e" "CHR ''='' \<notin> set j" "j \<notin> fst ` set e" using Cons.prems by (simp_all add: plain_env_def x)
  moreover have "map_of e j = None" using calculation(3) by (auto simp: map_of_eq_None_iff)
  ultimately show ?case using Cons.IH entry_prefix [OF assms(2), of j v] x by (auto simp del: HasPrefix_Cons)
qed simp

lemma env_value_first:
  assumes "plain_env (w_env w)" "CHR ''='' \<notin> set k"
  shows "env_value k ((k @ ''='' @ v) # Environ w) = Some (case LookupEnv k w of Some u \<Rightarrow> u | None \<Rightarrow> v)"
  using filter_Environ [OF assms] entry_prefix [OF assms(2) assms(2), of v]
  by (simp add: env_value_entries Environ_def LookupEnv_def split: option.splits)

subsection \<open>The flags\<close>

definition flag_pairs :: "subprocessArgs \<Rightarrow> (string \<times> string) list" where
  "flag_pairs s =
     [(''server'', sa_server s), (''namespace'', sa_namespace s), (''task-queue'', sa_taskQueue s), (''workflow-id'', sa_workflowID s)] @
     (if sa_clientCertPath s \<noteq> [] then [(''client-cert-path'', sa_clientCertPath s), (''client-key-path'', sa_clientKeyPath s)] else []) @
     (if sa_caCertPath s \<noteq> [] then [(''ca-cert-path'', sa_caCertPath s)] else []) @
     (if sa_tlsServerName s \<noteq> [] then [(''tls-server-name'', sa_tlsServerName s)] else [])"

definition flag_args :: "(string \<times> string) list \<Rightarrow> string list" where
  "flag_args kvs = concat (map (\<lambda>(k, v). [''--'' @ k, v]) kvs)"

text \<open>
  What \<open>urfave/cli\<close> promises for flags that take a value: each flag name is followed by its value; all
  required flags must be there.
\<close>

definition parses_flags :: "proxy_lib \<Rightarrow> bool" where
  "parses_flags B \<longleftrightarrow> (\<forall>flags kvs. distinct (map fst kvs) \<and> set (map fst kvs) \<subseteq> set (map fst flags) \<and>
     (\<forall>k. (k, True) \<in> set flags \<longrightarrow> k \<in> set (map fst kvs)) \<longrightarrow>
       pl_parse_flags B flags (flag_args kvs) = Ok (map_of kvs))"

lemma subprocess_args_pairs: "subprocess_args s = flag_args (flag_pairs s)"
  by (simp add: subprocess_args_def flag_args_def flag_pairs_def)

lemma flags_parsed: "parses_flags B \<Longrightarrow> pl_parse_flags B subprocess_flags (subprocess_args s) = Ok (map_of (flag_pairs s))"
  unfolding subprocess_args_pairs parses_flags_def
  by (erule allE [of _ subprocess_flags], erule allE [of _ "flag_pairs s"], erule mp)
    (auto simp: flag_pairs_def subprocess_flags_def)

lemma flags_received:
  "flag_destinations (map_of (flag_pairs s)) = s\<lparr>sa_clientKeyPath := if sa_clientCertPath s = [] then [] else sa_clientKeyPath s\<rparr>"
  by (cases s) (simp add: flag_destinations_def flag_pairs_def flag_value_def)

lemma dispatch_subprocess:
  "CreateSubprocessCommand x name as = Ok cmd \<Longrightarrow> \<exists>exe. x = Ok exe \<and> dispatch (c_exe cmd # c_args cmd) = (True, exe # name # as)"
  by (auto simp: CreateSubprocessCommand_def dispatch_def Command_def split: res.splits)

subsection \<open>The hook\<close>

lemma bindE_pure_Ok:
  "bindE (of_res r) k w = (Ok b, w') \<longleftrightarrow> (\<exists>a. r = Ok a \<and> k a w = (Ok b, w'))"
  "bindE (require_NoError L r) k w = (Ok b, w') \<longleftrightarrow> (\<exists>a. r = Ok a \<and> k a w = (Ok b, w'))"
  "thenE (require_that L t c) m w = (Ok b, w') \<longleftrightarrow> c \<and> m w = (Ok b, w')"
  by (cases r; auto simp: require_NoError_def require_that_def FailNow_def io_defs)+

abbreviation runner_view :: "'z harness_state_scheme \<Rightarrow> action list \<times> (nat \<Rightarrow> action \<Rightarrow> go_error option) \<times> bool \<times> bool" where
  "runner_view s \<equiv> (n_trace s, x_answer s, h_Worker s, h_Client s)"

lemma keeps_ExecuteProxy: "keeps runner_view (ExecuteProxy B L a c)"
proof -
  have [keeps_intros]: "keeps runner_view (require_NoError L r)" "keeps runner_view (require_that L t b)" for r t b
    by (auto simp: keeps_def require_NoError_def require_that_def ret_def panic_def FailNow_def split: res.splits)
  have [keeps_intros]: "keeps runner_view new_uuid" by (simp add: keeps_def new_uuid_def)
  have [keeps_intros]: "keeps runner_view (run_command d)" for d by (rule keeps_run_command) simp
  have [keeps_intros]: "keeps runner_view (run_subprocess B a c args)" for args
    unfolding run_subprocess_def
    by (cases "CreateSubprocessCommand (pl_executable B) subprocessCommandName (subprocess_args args)")
      (simp_all only: res.case, (intro keeps_intros)+)
  show ?thesis unfolding ExecuteProxy_def by (intro keeps_intros)
qed

text \<open>The subprocess told what the feature's runner knows: the key only together with a certificate.\<close>

definition told_by :: "RunnerConfig \<Rightarrow> string \<Rightarrow> subprocessArgs" where
  "told_by c workflowID = (runner_args c workflowID)\<lparr>
     sa_clientKeyPath := if hc_ClientCertPath c = [] then [] else hc_ClientKeyPath c\<rparr>"

lemma told_by_flags: "flag_destinations (map_of (flag_pairs (runner_args c u))) = told_by c u"
  by (simp add: flags_received told_by_def runner_args_def)

lemma run_subprocess_Ok:
  assumes "run_subprocess B useAuth c args s = (Ok r, s')"
  obtains cmd url where
    "r = Some \<lparr>wr_ID = sa_workflowID args, wr_RunID = []\<rparr>"
    "CreateSubprocessCommand (pl_executable B) subprocessCommandName (subprocess_args args) = Ok cmd"
    "(if useAuth then pl_with_user B (hc_HTTPProxyURL c) else Ok (hc_HTTPProxyURL c)) = Ok url"
    "w_cmds s' = w_cmds s @ [cmd\<lparr>c_env := (''HTTPS_PROXY='' @ url) # Environ s\<rparr>]"
proof -
  from assms obtain cmd where cmd: "CreateSubprocessCommand (pl_executable B) subprocessCommandName (subprocess_args args) = Ok cmd"
    by (auto simp: run_subprocess_def fail_def panic_def split: res.splits)
  obtain u where u: "u = (if useAuth then pl_with_user B (hc_HTTPProxyURL c) else Ok (hc_HTTPProxyURL c))" by simp
  from assms obtain url where "u = Ok url" "r = Some \<lparr>wr_ID = sa_workflowID args, wr_RunID = []\<rparr>"
    "run_command (cmd\<lparr>c_env := (''HTTPS_PROXY='' @ url) # Environ s\<rparr>) s = (Ok (), s')"
    unfolding run_subprocess_def cmd u [symmetric]
    by (auto simp: bindE_pure_Ok thenE_Ok_iff wrapE_Ok ret_def)
  with u that [OF this(2) cmd _ run_command_state [OF this(3)]] show thesis by simp
qed

lemma ExecuteProxy_Ok:
  assumes "ExecuteProxy B L useAuth c s = (Ok r, s')"
  shows "proxyAddr B (\<lambda>k. LookupEnv k s) (hc_ServerHostPort c) = Ok [] \<and> hc_HTTPProxyURL c \<noteq> [] \<and>
    run_subprocess B useAuth c (runner_args c (''wf-'' @ x_uuid s (w_uuids s))) (s\<lparr>w_uuids := Suc (w_uuids s)\<rparr>) = (Ok r, s')"
proof -
  from assms obtain hp where "SplitHostPort (hc_ServerHostPort c) = Ok hp" and
    rest: "(if fst hp = ''localhost'' \<or> pl_loopback B (fst hp) then fail (Skip ''Cannot run proxy test on localhost/loopback'')
     else
       bindE (asks (\<lambda>s. proxyAddr B (\<lambda>k. LookupEnv k s) (hc_ServerHostPort c))) (\<lambda>r.
       bindE (require_NoError L r) (\<lambda>addr.
       thenE (require_that L ''Should be empty'' (addr = []))
      (thenE (require_that L ''Should NOT be empty'' (hc_HTTPProxyURL c \<noteq> []))
      (bindE new_uuid (\<lambda>u. run_subprocess B useAuth c (runner_args c (''wf-'' @ u)))))))) s = (Ok r, s')"
    unfolding ExecuteProxy_def bindE_pure_Ok by blast
  then show ?thesis by (auto simp: fail_def bindE_pure_Ok bindE_new_uuid split: if_splits)
qed

section \<open>Properties\<close>

text \<open>
  C26: the subprocess of the proxy features is told what the runner knows. When the hook succeeds, no proxy was
  in the environment, and it has run one more command: the process's own executable, which dispatches to
  the registered command; with the flags parsed as the library documents, that one runs the workflow against
  the runner's server, namespace and task queue, with its TLS options (the key only with a certificate), under
  the very id of the run the hook returns. The proxy's address, with the user added for the authenticated
  feature, is put first in the environment, so it counts only when the variable was not set at all. To the
  runner the hook is a step of the life cycle: it leaves client, worker and trace alone.
\<close>

theorem proxy_subprocess_told:
  assumes "parses_flags B" "plain_env (w_env s)" "ExecuteProxy B L useAuth c s = (Ok r, s')"
  shows "lifecycle L c p s s' \<and> proxyAddr B (\<lambda>k. LookupEnv k s) (hc_ServerHostPort c) = Ok [] \<and>
    (\<exists>run cmd url. r = Some run \<and> w_cmds s' = w_cmds s @ [cmd] \<and>
      (\<forall>w::net_world. subprocess_main B (c_exe cmd # c_args cmd) w = SubprocessExecuteWorkflow B (told_by c (wr_ID run)) w) \<and>
      (if useAuth then pl_with_user B (hc_HTTPProxyURL c) else Ok (hc_HTTPProxyURL c)) = Ok url \<and>
      env_value ''HTTPS_PROXY'' (c_env cmd) = Some (case LookupEnv ''HTTPS_PROXY'' s of Some v \<Rightarrow> v | None \<Rightarrow> url))"
proof -
  let ?id = "''wf-'' @ x_uuid s (w_uuids s)" and ?s1 = "s\<lparr>w_uuids := Suc (w_uuids s)\<rparr>"
  note ok = ExecuteProxy_Ok [OF assms(3)]
  from ok obtain cmd url where
    r: "r = Some \<lparr>wr_ID = sa_workflowID (runner_args c ?id), wr_RunID = []\<rparr>" and
    cmd: "CreateSubprocessCommand (pl_executable B) subprocessCommandName (subprocess_args (runner_args c ?id)) = Ok cmd" and
    url: "(if useAuth then pl_with_user B (hc_HTTPProxyURL c) else Ok (hc_HTTPProxyURL c)) = Ok url" and
    cmds: "w_cmds s' = w_cmds ?s1 @ [cmd\<lparr>c_env := (''HTTPS_PROXY='' @ url) # Environ ?s1\<rparr>]"
    by (blast elim: run_subprocess_Ok)
  have e: "Environ ?s1 = Environ s" by (simp add: Environ_def)
  from dispatch_subprocess [OF cmd] obtain exe where
    d: "dispatch (c_exe cmd # c_args cmd) = (True, exe # subprocessCommandName # subprocess_args (runner_args c ?id))" by blast
  have main: "subprocess_main B (c_exe cmd # c_args cmd) w = SubprocessExecuteWorkflow B (told_by c ?id) w" for w :: net_world
    unfolding subprocess_main_def d by (simp add: flags_parsed [OF assms(1)] of_res_def bindE_def told_by_flags)
  have "runner_view s' = runner_view s"
    by (rule keepsD [OF keeps_ExecuteProxy assms(3)])
  then have "lifecycle L c p s s'" by (intro life_quiet) simp_all
  moreover have "env_value ''HTTPS_PROXY'' ((''HTTPS_PROXY='' @ url) # Environ s) =
      Some (case LookupEnv ''HTTPS_PROXY'' s of Some v \<Rightarrow> v | None \<Rightarrow> url)"
    using env_value_first [OF assms(2), of "''HTTPS_PROXY''" url] by simp
  ultimately show ?thesis
    using ok r url cmds main e
    by (intro conjI exI [of _ "\<lparr>wr_ID = ?id, wr_RunID = []\<rparr>"]
        exI [of _ "cmd\<lparr>c_env := (''HTTPS_PROXY='' @ url) # Environ s\<rparr>"] exI [of _ url]) (simp_all add: runner_args_def)
qed

fun pair_up :: "string list \<Rightarrow> (string \<times> string) list" where
  "pair_up (f # v # r) = (drop 2 f, v) # pair_up r"
| "pair_up r = []"

definition plain_proxy_lib :: proxy_lib where
  "plain_proxy_lib = \<lparr>pl_loopback = (\<lambda>h. HasPrefix h ''127.''), pl_NewRequest = (\<lambda>_. None),
     pl_ProxyFromEnvironment = (\<lambda>env url. Ok (env ''HTTPS_PROXY'')), pl_with_user = (\<lambda>u. Ok u),
     pl_executable = Ok ''/bin/features'', pl_parse_flags = (\<lambda>flags args. Ok (map_of (pair_up args))),
     pl_decode = (\<lambda>t. Ok t)\<rparr>"

lemma pair_up_flag_args: "pair_up (flag_args kvs) = kvs"
  by (induction kvs) (auto simp: flag_args_def)

lemma plain_parses_flags: "parses_flags plain_proxy_lib"
  by (simp add: parses_flags_def plain_proxy_lib_def pair_up_flag_args)

theorem proxy_subprocess_told_witness:
  "\<exists>run s'. ExecuteProxy plain_proxy_lib sample_sdk False
      (sample_config\<lparr>hc_ServerHostPort := ''10.0.0.1:7233'', hc_HTTPProxyURL := ''http://p''\<rparr>) (calm_harness []) = (Ok (Some run), s') \<and>
    (\<exists>cmd. w_cmds s' = [cmd] \<and> env_value ''HTTPS_PROXY'' (c_env cmd) = Some ''http://p'')"
proof -
  let ?c = "sample_config\<lparr>hc_ServerHostPort := ''10.0.0.1:7233'', hc_HTTPProxyURL := ''http://p''\<rparr>"
  have "fst (ExecuteProxy plain_proxy_lib sample_sdk False ?c (calm_harness [])) = Ok (Some \<lparr>wr_ID = ''wf-0'', wr_RunID = []\<rparr>)"
    by code_simp
  from fst_res [OF this] obtain s' where
    run: "ExecuteProxy plain_proxy_lib sample_sdk False ?c (calm_harness []) = (Ok (Some \<lparr>wr_ID = ''wf-0'', wr_RunID = []\<rparr>), s')"
    by (rule that)
  have env: "w_env (calm_harness []) = []" "w_cmds (calm_harness []) = []"
    by (simp_all add: calm_harness_def calm_net_def calm_world_def net_world.defs world.defs)
  then have "plain_env (w_env (calm_harness []))" "LookupEnv ''HTTPS_PROXY'' (calm_harness []) = None"
    by (simp_all add: plain_env_def LookupEnv_def)
  with proxy_subprocess_told [OF plain_parses_flags this(1) run] env run show ?thesis by auto
qed

end
