(* ===== verification/Feature_Checks.thy ===== *)
theory Feature_Checks
  imports Feature_Http_Proxy "HOL-Library.Word"
begin

text \<open>
  Checks the Go features make themselves: whether the server supports updates
  (\<open>features/update/updateutil\<close>), the events a history must not or must have (there, in
  \<open>features/update/task_failure\<close> and in \<open>features/reset/reset_and_delete\<close>), the wait for the completion of a
  scheduled workflow (\<open>features/schedule/basic\<close>), the counters of \<open>features/telemetry/metrics\<close> and of
  \<open>features/eager_workflow/successful_start\<close>. The answers of the services are parameters; the numbers of
  the enumerations of the API are the record \<open>enum_lib\<close>.
\<close>

section \<open>Support for updates\<close>

datatype update_stage = StageAccepted | StageCompleted

definition updateDisabledMsg :: string where
  "updateDisabledMsg = ''server support for update is disabled; set frontend.enableUpdateWorkflowExecution=true in dynamic config to enable''"

definition asyncAcceptedDisabledMsg :: string where
  "asyncAcceptedDisabledMsg = ''server support for asynchronous (accepted) udpates is disabled; set frontend.enableUpdateWorkflowExecutionAsyncAccepted=true in dynamic config to enable''"

definition tooOldMsg :: string where
  "tooOldMsg = ''server version too old to support update''"

text \<open>
  \<open>UpdateWorkflow\<close> gives an error and a nil handle, or a handle, whose \<open>Get\<close> gives an error or none.
\<close>

definition checkSupport :: "(update_stage \<Rightarrow> go_error + go_error option) \<Rightarrow> update_stage \<Rightarrow> string \<Rightarrow> string res" where
  "checkSupport update waitForStage deniedMsg =
     (case update waitForStage of
        Inl err \<Rightarrow>
          if has_kind PermissionDenied err then Ok deniedMsg
          else if has_kind Unimplemented err then Ok tooOldMsg
          else if has_kind NotFound err then Ok []
          else Panic nil_func
      | Inr None \<Rightarrow> Ok []
      | Inr (Some err) \<Rightarrow>
          if has_kind PermissionDenied err then Ok deniedMsg
          else if has_kind Unimplemented err then Ok tooOldMsg
          else Ok [])"

definition CheckServerSupportsUpdate :: "(update_stage \<Rightarrow> go_error + go_error option) \<Rightarrow> string res" where
  "CheckServerSupportsUpdate update = checkSupport update StageCompleted updateDisabledMsg"

definition CheckServerSupportsAsyncAcceptedUpdate :: "(update_stage \<Rightarrow> go_error + go_error option) \<Rightarrow> string res" where
  "CheckServerSupportsAsyncAcceptedUpdate update = checkSupport update StageAccepted asyncAcceptedDisabledMsg"

section \<open>Events of histories\<close>

record enum_lib =
  el_WorkflowTaskCompleted :: int
  el_UpdateRejected :: int
  el_UnhandledFailure :: int

definition event_type :: "gval \<Rightarrow> int" where
  "event_type ev = (case getter ''EventType'' ev of VInt i \<Rightarrow> i | _ \<Rightarrow> 0)"

definition event_id :: "gval \<Rightarrow> int" where
  "event_id ev = (case getter ''EventId'' ev of VInt i \<Rightarrow> i | _ \<Rightarrow> 0)"

definition RequireNoUpdateRejectedEvents ::
  "enum_lib \<Rightarrow> sdk_lib \<Rightarrow> Histories res \<Rightarrow> ('z world_scheme, unit) io" where
  "RequireNoUpdateRejectedEvents N L fetched =
     bindE (asks (Getenv ''TEMPORAL_FEATURES_DISABLE_WORKFLOW_COMPLETION_CHECK'')) (\<lambda>off.
       if off \<noteq> [] then ret ()
       else bindE (require_NoError L fetched) (\<lambda>histories.
         for_each (\<lambda>hist. for_each (\<lambda>ev.
             require_that L ''found a workflow update rejected event'' (event_type ev \<noteq> el_UpdateRejected N))
           (elements (getter ''Events'' hist))) histories))"

definition is_panic_failure :: "enum_lib \<Rightarrow> string \<Rightarrow> gval \<Rightarrow> bool" where
  "is_panic_failure N panicMsg ev =
     (let attrs = attributes_of ''WorkflowTaskFailedEventAttributes'' ev in
      attrs \<noteq> VNil \<and> Contains (text_of (getter ''Message'' (getter ''Failure'' attrs))) panicMsg \<and>
      getter ''Cause'' attrs = VInt (el_UnhandledFailure N))"

definition panicMsg :: string where
  "panicMsg = ''fear not, dear examiner of logs, for this panic was intentional''"

definition countPanicWFTFailures :: "enum_lib \<Rightarrow> sdk_lib \<Rightarrow> Histories res \<Rightarrow> ('w, nat) io" where
  "countPanicWFTFailures N L fetched =
     bindE (require_NoError L fetched) (\<lambda>histories.
     thenE (require_that L ''Should NOT be empty'' (histories \<noteq> []))
       (ret (length (filter (is_panic_failure N panicMsg) (elements (getter ''Events'' (hd histories)))))))"

text \<open>The end of the hook of \<open>task_failure\<close>: the count is looked at when the variable is set.\<close>

definition check_panic_count :: "enum_lib \<Rightarrow> sdk_lib \<Rightarrow> Histories res \<Rightarrow> ('z world_scheme, unit) io" where
  "check_panic_count N L fetched =
     thenE (bindE (asks (Getenv ''TEMPORAL_FEATURES_DISABLE_WORKFLOW_COMPLETION_CHECK'')) (\<lambda>off.
         whenE (off \<noteq> [])
           (bindE (countPanicWFTFailures N L fetched) (\<lambda>n.
              require_that L ''update handler panic should have caused 1 WFT Failure'' (n = 1)))))
       (RequireNoUpdateRejectedEvents N L fetched)"

fun find_wft :: "enum_lib \<Rightarrow> nat \<Rightarrow> gval res list \<Rightarrow> int res" where
  "find_wft N wftCount [] = Ok 0"
| "find_wft N wftCount (Ok ev # r) =
     (if event_type ev = el_WorkflowTaskCompleted N
      then (if wftCount + 1 = 2 then Ok (event_id ev) else find_wft N (wftCount + 1) r)
      else find_wft N wftCount r)"
| "find_wft N wftCount (Err e # r) = Err e"
| "find_wft N wftCount (Panic e # r) = Panic e"

definition findSecondWFTComplete :: "enum_lib \<Rightarrow> gval res list \<Rightarrow> int res" where
  "findSecondWFTComplete N iter = find_wft N 0 iter"

section \<open>Waiting for a scheduled workflow\<close>

datatype run_status = StatusRunning | StatusCompleted | StatusOther string

record sched_exec =
  se_WorkflowId :: string
  se_RunId :: string
  se_Status :: run_status

text \<open>
  The listing number \<open>n\<close> of a page, and the result of a workflow; how often the client listed and slept.
\<close>

record sched_api =
  sv_list :: "nat \<Rightarrow> string \<Rightarrow> (sched_exec list \<times> string) res"
  sv_result :: "string \<Rightarrow> string \<Rightarrow> string res"

record sched_state =
  ss_calls :: nat
  ss_sleeps :: nat

text \<open>Whether an execution of the page has the wanted result.\<close>

fun scan_page :: "sdk_lib \<Rightarrow> sched_api \<Rightarrow> string \<Rightarrow> string \<Rightarrow> sched_exec list \<Rightarrow> bool res" where
  "scan_page L A wid untilResult [] = Ok False"
| "scan_page L A wid untilResult (e # es) =
     (if \<not> HasPrefix (se_WorkflowId e) wid then scan_page L A wid untilResult es
      else if se_Status e = StatusCompleted then
        (case sv_result A (se_WorkflowId e) (se_RunId e) of
           Ok result \<Rightarrow> if result = untilResult then Ok True else scan_page L A wid untilResult es
         | Err err \<Rightarrow> Panic (Errorf ''%s'' [sl_assert L (error_text err)])
         | Panic err \<Rightarrow> Panic err)
      else if se_Status e = StatusRunning then scan_page L A wid untilResult es
      else Panic (Errorf ''%s'' [sl_assert L ''Not equal'']))"

text \<open>
  The inner loop goes on while \<open>resp\<close> is nil or there is a next page. The response of a listing is declared
  anew in the body, so that the variable of the condition is never assigned. Fuel bounds both loops.
\<close>

fun list_loop ::
  "sdk_lib \<Rightarrow> sched_api \<Rightarrow> string \<Rightarrow> string \<Rightarrow> nat \<Rightarrow> (sched_exec list \<times> string) option \<Rightarrow> string \<Rightarrow> sched_state
     \<Rightarrow> (bool res \<times> sched_state) option" where
  "list_loop L A wid untilResult 0 resp token st = None"
| "list_loop L A wid untilResult (Suc fuel) resp token st =
     (if resp = None \<or> token \<noteq> [] then
        (case sv_list A (ss_calls st) token of
           Err e \<Rightarrow> Some (Panic (Errorf ''%s'' [sl_assert L (error_text e)]), st\<lparr>ss_calls := Suc (ss_calls st)\<rparr>)
         | Panic e \<Rightarrow> Some (Panic e, st\<lparr>ss_calls := Suc (ss_calls st)\<rparr>)
         | Ok (execs, nextToken) \<Rightarrow>
             (case scan_page L A wid untilResult execs of
                Ok False \<Rightarrow> list_loop L A wid untilResult fuel resp nextToken (st\<lparr>ss_calls := Suc (ss_calls st)\<rparr>)
              | r \<Rightarrow> Some (r, st\<lparr>ss_calls := Suc (ss_calls st)\<rparr>)))
      else Some (Ok False, st))"

fun wait_loop ::
  "sdk_lib \<Rightarrow> sched_api \<Rightarrow> string \<Rightarrow> string \<Rightarrow> nat \<Rightarrow> nat \<Rightarrow> sched_state \<Rightarrow> (unit res \<times> sched_state) option" where
  "wait_loop L A wid untilResult 0 inner st = None"
| "wait_loop L A wid untilResult (Suc fuel) inner st =
     (case list_loop L A wid untilResult inner None [] st of
        None \<Rightarrow> None
      | Some (Ok True, st') \<Rightarrow> Some (Ok (), st')
      | Some (Ok False, st') \<Rightarrow> wait_loop L A wid untilResult fuel inner (st'\<lparr>ss_sleeps := Suc (ss_sleeps st')\<rparr>)
      | Some (Err e, st') \<Rightarrow> Some (Err e, st')
      | Some (Panic e, st') \<Rightarrow> Some (Panic e, st'))"

definition waitCompletedWith ::
  "sdk_lib \<Rightarrow> sched_api \<Rightarrow> string \<Rightarrow> string \<Rightarrow> nat \<Rightarrow> sched_state \<Rightarrow> (unit res \<times> sched_state) option" where
  "waitCompletedWith L A wid untilResult fuel st = wait_loop L A wid untilResult fuel fuel st"

section \<open>Counters\<close>

record counter =
  ct_Name :: string
  ct_Tags :: "(string \<times> string) list"
  ct_Value :: "64 word"

definition tags_match :: "(string \<times> string) list \<Rightarrow> (string \<times> string) list \<Rightarrow> bool" where
  "tags_match expectedTags tags = list_all (\<lambda>(k, v). v = (case map_of tags k of Some x \<Rightarrow> x | None \<Rightarrow> [])) expectedTags"

fun counterValue :: "counter list \<Rightarrow> string \<Rightarrow> (string \<times> string) list \<Rightarrow> 64 word" where
  "counterValue [] name expectedTags = 0"
| "counterValue (c # cs) name expectedTags =
     (if ct_Name c \<noteq> name then counterValue cs name expectedTags
      else if \<not> tags_match expectedTags (ct_Tags c) then counterValue cs name expectedTags
      else ct_Value c + counterValue cs name expectedTags)"

text \<open>A call of the client: whether it is a start that asks for eager execution, and its answer.\<close>

record rpc_call =
  rc_request_eager :: bool
  rc_error :: "go_error option"
  rc_eager_task :: bool

definition EagerDetector :: "rpc_call \<Rightarrow> (64 word, unit) io" where
  "EagerDetector r = (case rc_error r of
     Some e \<Rightarrow> fail e
   | None \<Rightarrow> whenE (rc_request_eager r \<and> rc_eager_task r) (upd (\<lambda>n. n + 1)))"

section \<open>Lemmas\<close>

lemma scan_page_no_Err: "scan_page L A wid u es \<noteq> Err e"
  by (induction es) (auto split: res.splits)

lemma list_loop_ends:
  "list_loop L A wid u fuel None token st = Some (r, st') \<Longrightarrow>
    ss_sleeps st' = ss_sleeps st \<and> ss_calls st < ss_calls st' \<and> (r = Ok True \<or> (\<exists>e. r = Panic e))"
proof (induction fuel arbitrary: token st)
  case (Suc fuel)
  show ?case
  proof (cases "sv_list A (ss_calls st) token")
    case (Ok p)
    obtain es t where p: "p = (es, t)" by force
    show ?thesis
    proof (cases "scan_page L A wid u es = Ok False")
      case True
      with Suc.prems Ok p have "list_loop L A wid u fuel None t (st\<lparr>ss_calls := Suc (ss_calls st)\<rparr>) = Some (r, st')" by simp
      from Suc.IH [OF this] show ?thesis by simp
    next
      case False
      obtain q where q: "scan_page L A wid u es = q" by simp
      with False scan_page_no_Err [of L A wid u es] have d: "q = Ok True \<or> (\<exists>e. q = Panic e)"
        by (cases q) auto
      then have "Some (q, st\<lparr>ss_calls := Suc (ss_calls st)\<rparr>) = Some (r, st')"
        using Suc.prems Ok p q by (elim disjE exE) simp_all
      then have "r = q" "st' = st\<lparr>ss_calls := Suc (ss_calls st)\<rparr>" by simp_all
      with d show ?thesis by simp
    qed
  qed (use Suc.prems in auto)
qed simp

lemma list_loop_returns:
  assumes "\<forall>n token. d \<le> n \<longrightarrow> (\<exists>e. sv_list A n token = Err e)"
  shows "d < ss_calls st + fuel \<Longrightarrow> fuel \<noteq> 0 \<Longrightarrow> ss_calls st \<le> d \<Longrightarrow>
    \<exists>r st'. list_loop L A wid u fuel None token st = Some (r, st') \<and> ss_calls st' \<le> Suc d"
proof (induction fuel arbitrary: token st)
  case (Suc fuel)
  show ?case
  proof (cases "sv_list A (ss_calls st) token")
    case (Ok p)
    obtain es t where p: "p = (es, t)" by force
    have less: "ss_calls st < d"
    proof (rule ccontr)
      assume "\<not> ss_calls st < d"
      then show False using assms Ok by (metis not_less res.distinct(1))
    qed
    show ?thesis
    proof (cases "scan_page L A wid u es")
      case (Ok b)
      then show ?thesis using Suc.IH [of "st\<lparr>ss_calls := Suc (ss_calls st)\<rparr>" t] Suc.prems less \<open>sv_list A (ss_calls st) token = Ok p\<close> p
        by (cases b; cases fuel) auto
    qed (use Suc.prems Ok p in auto)
  qed (use Suc.prems in auto)
qed simp

lemma find_wft_filter:
  "find_wft N n (map Ok evs) =
     (let ws = filter (\<lambda>ev. event_type ev = el_WorkflowTaskCompleted N) evs in
      Ok (if n = 0 then (if length ws < 2 then 0 else event_id (ws ! 1))
          else if n = 1 then (if ws = [] then 0 else event_id (hd ws)) else 0))" if "n \<le> 1"
  using that
proof (induction evs arbitrary: n)
  case (Cons ev evs)
  then show ?case by (cases n) (auto simp: Let_def hd_conv_nth)
qed (cases n; simp)

text \<open>With fewer than two such events the number is 0, and no error says so.\<close>

lemma second_wft_found:
  "findSecondWFTComplete N (map Ok evs) =
     (let ws = filter (\<lambda>ev. event_type ev = el_WorkflowTaskCompleted N) evs in
      Ok (if length ws < 2 then 0 else event_id (ws ! 1)))"
  unfolding findSecondWFTComplete_def using find_wft_filter [of 0 N evs] by (simp add: Let_def)

lemma counterValue_sum:
  "counterValue cs name tags =
     sum_list (map ct_Value (filter (\<lambda>c. ct_Name c = name \<and> tags_match tags (ct_Tags c)) cs))"
  by (induction cs) auto

section \<open>Properties\<close>

text \<open>
  C29: the wait for a scheduled workflow never pauses. Whatever the pages are, a wait that ends has found a
  completed workflow with the wanted result, or panics; it has never slept between its listings. When the
  listings fail from one number on, as they do once the deadline of its context is over, it ends at the
  latest with the first listing that fails.
\<close>

theorem schedule_wait_busy:
  assumes "\<forall>n token. d \<le> n \<longrightarrow> (\<exists>e. sv_list A n token = Err e)" "ss_calls st \<le> d" "d < ss_calls st + fuel"
  shows "\<exists>r st'. waitCompletedWith L A wid u fuel st = Some (r, st') \<and> ss_sleeps st' = ss_sleeps st \<and>
    ss_calls st < ss_calls st' \<and> ss_calls st' \<le> Suc d \<and> (r = Ok () \<or> (\<exists>e. r = Panic e))"
proof -
  obtain f where f: "fuel = Suc f" using assms(2,3) by (cases fuel) auto
  from list_loop_returns [OF assms(1) assms(3) _ assms(2)] f obtain r st' where
    l: "list_loop L A wid u fuel None [] st = Some (r, st')" "ss_calls st' \<le> Suc d" by blast
  with list_loop_ends [OF l(1)] f show ?thesis
    by (auto simp: waitCompletedWith_def)
qed

definition busy_api :: sched_api where
  "busy_api = \<lparr>sv_list = (\<lambda>n token. if n < 3 then Ok ([\<lparr>se_WorkflowId = ''id-1'', se_RunId = ''r'', se_Status = StatusRunning\<rparr>], [])
       else Err (External DeadlineExceeded ''context deadline exceeded'')), sv_result = (\<lambda>_ _. Ok ''arg1'')\<rparr>"

theorem schedule_wait_busy_witness:
  "\<exists>e st'. waitCompletedWith sample_sdk busy_api ''id'' ''arg1'' 10 \<lparr>ss_calls = 0, ss_sleeps = 0\<rparr> = Some (Panic e, st') \<and>
     ss_sleeps st' = 0"
proof -
  have "map_option fst (waitCompletedWith sample_sdk busy_api ''id'' ''arg1'' 10 \<lparr>ss_calls = 0, ss_sleeps = 0\<rparr>) =
      Some (Panic (Errorf ''%s'' [''context deadline exceeded'']))" by code_simp
  then obtain st' where
    run: "waitCompletedWith sample_sdk busy_api ''id'' ''arg1'' 10 \<lparr>ss_calls = 0, ss_sleeps = 0\<rparr> =
      Some (Panic (Errorf ''%s'' [''context deadline exceeded'']), st')"
    unfolding map_option_eq_Some by auto
  have "\<forall>n token. 3 \<le> n \<longrightarrow> (\<exists>e. sv_list busy_api n token = Err e)" by (simp add: busy_api_def)
  from schedule_wait_busy [OF this, of "\<lparr>ss_calls = 0, ss_sleeps = 0\<rparr>" 10 sample_sdk "''id''" "''arg1''"] run
  show ?thesis by auto
qed

text \<open>
  What the check for update support answers. It says that updates are supported exactly when the update
  of a workflow that does not exist is refused with not-found, or gives a handle whose result is no error of
  the two kinds that mean unsupported; a message names the reason otherwise. An update that fails in any
  other way (the server is unavailable, the deadline is over) makes it panic: the handle is nil.
\<close>

lemma update_support_answers:
  "(CheckServerSupportsUpdate update = Ok [] \<longleftrightarrow>
     (case update StageCompleted of
        Inl e \<Rightarrow> has_kind NotFound e \<and> \<not> has_kind PermissionDenied e \<and> \<not> has_kind Unimplemented e
      | Inr None \<Rightarrow> True
      | Inr (Some e) \<Rightarrow> \<not> has_kind PermissionDenied e \<and> \<not> has_kind Unimplemented e)) \<and>
   ((\<exists>e. CheckServerSupportsUpdate update = Panic e) \<longleftrightarrow>
     (\<exists>e. update StageCompleted = Inl e \<and> \<not> has_kind NotFound e \<and> \<not> has_kind PermissionDenied e \<and> \<not> has_kind Unimplemented e)) \<and>
   (\<forall>m. CheckServerSupportsUpdate update = Ok m \<longrightarrow> m \<in> {[], updateDisabledMsg, tooOldMsg})"
  by (auto simp: CheckServerSupportsUpdate_def checkSupport_def updateDisabledMsg_def tooOldMsg_def
      split: sum.splits option.splits)

end
