(* ===== verification/Feature_Calls.thy ===== *)
theory Feature_Calls
  imports Feature_Checks
begin

text \<open>
  What the hooks of the Go features do with their runner: the calls of the client and of its services, the
  second worker some of them start, stopping and starting the runner's worker, and the waits of
  \<open>harness/go/harness/util.go\<close> and \<open>runner.go\<close>. The service is a machine, a parameter: a state and the
  answer to each call. Every call of a hook is logged in order. A hook is \<open>live\<close> when it does with its
  runner only what \<open>lifecycle\<close> allows, so that the run of its feature gives back what it takes.
\<close>

section \<open>Calls\<close>

datatype build_op =
    AddNewIDInNewDefaultSet string
  | AddNewCompatibleVersion string string bool

record deployment_version =
  dv_DeploymentName :: string
  dv_BuildID :: string

record update_options =
  uo_UpdateID :: string
  uo_WorkflowID :: string
  uo_RunID :: string
  uo_UpdateName :: string
  uo_Args :: "gval list"
  uo_Stage :: update_stage

text \<open>Intervals are in milliseconds.\<close>

record schedule_options =
  sh_ID :: string
  sh_Every :: nat
  sh_BufferOne :: bool
  sh_WorkflowID :: string
  sh_Args :: "gval list"
  sh_TaskQueue :: string
  sh_Paused :: bool
  sh_Note :: string

datatype feature_call =
    CSignal string string string gval
  | CQuery string string string
  | CQueryArgs string string string "gval list"
  | CQueryWithin string string string nat
  | CQueryUntil string string string gval
  | CWaitScheduled string string
  | CCancel string string
  | CTerminate string string
  | CDescribeWorkflow string string
  | CHistory string string
  | CGetSystemInfo
  | CGetBuildIds string
  | CUpdateBuildIds string build_op
  | CListDeployments
  | CDescribeDeployment string
  | CDescribeRouting string string
  | CSetCurrent string string gval
  | CSetRamp string string gval nat
  | CUnsetCurrent string string
  | CUnsetRamp string string
  | CDeleteVersion string gval
  | CDeleteDeployment string string
  | CExecuteDefault
  | CStartWorkflow string string "deployment_version option"
  | CUpdate update_options
  | CUpdateGet string string string
  | CUpdateGetWithin string string string nat
  | CReset string string int
  | CDeleteWorkflow string string
  | CListWorkflows string
  | CScheduleCreate schedule_options
  | CScheduleDescribe string
  | CScheduleList
  | CScheduleUpdate string "gval list"
  | CSchedulePause string string
  | CScheduleUnpause string string
  | CScheduleTrigger string
  | CScheduleBackfill string "(int \<times> int) list"
  | CScheduleDelete string
  | CStartWorker string bool
  | CStopWorker
  | CStartSecond string
  | CStopSecond
  | CSleep nat

text \<open>
  The parameters of the hooks: the answer to a call; the items of an iterator and their errors; the
  answers to the queries of a wait; the history as a wait sees it at each tick; how many ticks a wait
  has before it is over, and whether its context ended or its timeout fired; how long stopping the worker
  takes, and the clock, both in milliseconds; and how a message or a duration prints.
\<close>

record 's hook_env =
  he_lib :: sdk_lib
  he_answer :: "'s \<Rightarrow> feature_call \<Rightarrow> gval res \<times> 's"
  he_items :: "'s \<Rightarrow> feature_call \<Rightarrow> gval res list"
  he_query :: "'s \<Rightarrow> string \<Rightarrow> nat \<Rightarrow> gval res res"
  he_histories :: "'s \<Rightarrow> nat \<Rightarrow> gval res list"
  he_ticks :: "'s \<Rightarrow> nat \<times> go_error option"
  he_stop_time :: "'s \<Rightarrow> int"
  he_now :: "'s \<Rightarrow> nat \<Rightarrow> int"
  he_show :: "gval \<Rightarrow> string"

text \<open>
  The state of a hook: the service, the log, the options of the worker the hook sets in its runner, and
  whether the second worker of the feature's package runs, and the run id a package keeps for its checks.
\<close>

record 's feature_state = harness_state +
  fs_server :: 's
  fs_log :: "feature_call list"
  fs_BuildID :: string
  fs_UseBuildIDForVersioning :: bool
  fs_second :: bool
  fs_original :: string

definition log_call :: "feature_call \<Rightarrow> ('s, 'z) feature_state_scheme \<Rightarrow> ('s, 'z) feature_state_scheme" where
  "log_call c s = s\<lparr>fs_log := fs_log s @ [c]\<rparr>"

definition fcall :: "'s hook_env \<Rightarrow> feature_call \<Rightarrow> (('s, 'z) feature_state_scheme, gval) io" where
  "fcall E c = (\<lambda>s. case he_answer E (fs_server s) c of (r, t) \<Rightarrow> (r, (log_call c s)\<lparr>fs_server := t\<rparr>))"

definition fdo :: "'s hook_env \<Rightarrow> feature_call \<Rightarrow> (('s, 'z) feature_state_scheme, unit) io" where
  "fdo E c = bindE (fcall E c) (\<lambda>_. ret ())"

text \<open>A call that gives an iterator, whose items are then read.\<close>

definition fitems :: "'s hook_env \<Rightarrow> feature_call \<Rightarrow> (('s, 'z) feature_state_scheme, gval res list) io" where
  "fitems E c = (\<lambda>s. (Ok (he_items E (fs_server s) c), (log_call c s)\<lparr>fs_server := snd (he_answer E (fs_server s) c)\<rparr>))"

section \<open>Workers\<close>

definition stop_worker :: "(('s, 'z) feature_state_scheme, unit) io" where
  "stop_worker = upd (\<lambda>s. StopWorker (log_call CStopWorker s))"

definition start_worker :: "'s hook_env \<Rightarrow> 'v Runner \<Rightarrow> (('s, 'z) feature_state_scheme, unit) io" where
  "start_worker E r = (\<lambda>s.
     thenE (upd (log_call (CStartWorker (fs_BuildID s) (fs_UseBuildIDForVersioning s))))
       (StartWorker (he_lib E) (rn_Config r) (rn_Feature r)) s)"

definition set_build :: "string \<Rightarrow> (('s, 'z) feature_state_scheme, unit) io" where
  "set_build v = upd (\<lambda>s. s\<lparr>fs_BuildID := v, fs_UseBuildIDForVersioning := True\<rparr>)"

text \<open>\<open>worker.New\<close> with its registrations and \<open>Start\<close>; \<open>Stop\<close>.\<close>

definition start_second :: "'s hook_env \<Rightarrow> string \<Rightarrow> (('s, 'z) feature_state_scheme, unit) io" where
  "start_second E build = thenE (fdo E (CStartSecond build)) (upd (\<lambda>s. s\<lparr>fs_second := True\<rparr>))"

definition stop_second :: "(('s, 'z) feature_state_scheme, unit) io" where
  "stop_second = upd (\<lambda>s. (log_call CStopSecond s)\<lparr>fs_second := False\<rparr>)"

section \<open>Workflows\<close>

definition execute_default :: "'v Runner \<Rightarrow> (('s, 'z) feature_state_scheme, workflow_run) io" where
  "execute_default r = thenE (upd (log_call CExecuteDefault)) (ExecuteDefault r)"

text \<open>\<open>ExecuteWorkflow\<close> with options of the hook; a pinned version overrides the versioning.\<close>

definition execute_workflow ::
  "start_options \<Rightarrow> deployment_version option \<Rightarrow> string \<Rightarrow> (('s, 'z) feature_state_scheme, workflow_run) io" where
  "execute_workflow opts override w =
     thenE (upd (log_call (CStartWorkflow (so_ID opts) w override))) (start_workflow opts w)"

section \<open>Waits\<close>

definition wait_events :: "'s hook_env \<Rightarrow> 's \<Rightarrow> select_event list" where
  "wait_events E t = (case he_ticks E t of (k, over) \<Rightarrow>
     replicate k Ticked @ [case over of Some e \<Rightarrow> CtxDone e | None \<Rightarrow> TimeoutFired])"

definition still_waiting :: go_error where
  "still_waiting = External OtherError ''still waiting''"

definition do_until ::
  "'s hook_env \<Rightarrow> (('s, 'z) feature_state_scheme, bool) io \<Rightarrow> (('s, 'z) feature_state_scheme, unit) io" where
  "do_until E predicate = (\<lambda>s.
     case DoUntilEventually predicate (wait_events E (fs_server s)) s of Some x \<Rightarrow> x | None \<Rightarrow> (Panic still_waiting, s))"

definition lib_equal :: "sdk_lib \<Rightarrow> gval \<Rightarrow> gval \<Rightarrow> go_error option" where
  "lib_equal L a b = (if sl_equal L a b then None else Some (Errorf ''%s'' [sl_assert L ''Not equal'']))"

definition query_until ::
  "'s hook_env \<Rightarrow> string \<Rightarrow> string \<Rightarrow> string \<Rightarrow> gval \<Rightarrow> (('s, 'z) feature_state_scheme, unit) io" where
  "query_until E wid rid query expected = (\<lambda>s. let t = fs_server s; c = CQueryUntil wid rid query expected in
     (case QueryUntilEventually (he_query E t query) (lib_equal (he_lib E)) query expected (wait_events E t) 0 None of
        Some x \<Rightarrow> x | None \<Rightarrow> Panic still_waiting,
      (log_call c s)\<lparr>fs_server := snd (he_answer E t c)\<rparr>))"

definition wait_scheduled :: "'s hook_env \<Rightarrow> workflow_run \<Rightarrow> (('s, 'z) feature_state_scheme, unit) io" where
  "wait_scheduled E run = (\<lambda>s. let t = fs_server s; c = CWaitScheduled (wr_ID run) (wr_RunID run) in
     (case WaitForActivityTaskScheduled (he_histories E t) (wait_events E t) of
        Some (ev, x) \<Rightarrow> x | None \<Rightarrow> Panic still_waiting,
      (log_call c s)\<lparr>fs_server := snd (he_answer E t c)\<rparr>))"

text \<open>A wait is over after its last event: what stands for waiting on never shows.\<close>

lemma DoUntilEventually_over:
  assumes "stop \<noteq> Ticked"
  shows "DoUntilEventually p (replicate k Ticked @ stop # rest) w \<noteq> None"
proof (induction k arbitrary: w)
  case 0
  show ?case using assms by (cases stop) simp_all
next
  case (Suc k)
  obtain x w' where p: "p w = (x, w')" by force
  show ?case
  proof (cases x)
    case (Ok b)
    then show ?thesis using Suc.IH [of w'] p by (cases b) simp_all
  qed (simp_all add: p)
qed

lemma do_until_cases:
  "\<exists>x. DoUntilEventually p (wait_events E t) w = Some x"
proof -
  obtain k over where k: "he_ticks E t = (k, over)" by force
  then show ?thesis
    using DoUntilEventually_over [of "case over of Some e \<Rightarrow> CtxDone e | None \<Rightarrow> TimeoutFired" p k "[]" w]
    by (auto simp: wait_events_def split: option.splits)
qed

text \<open>A wait that succeeds has seen its condition hold last.\<close>

lemma DoUntilEventually_Ok:
  "DoUntilEventually p es w = Some (Ok (), w') \<Longrightarrow> \<exists>v. p v = (Ok True, w')"
proof (induction p es w rule: DoUntilEventually.induct)
  case (4 p es w)
  obtain x v where p: "p w = (x, v)" by force
  show ?case
  proof (cases x)
    case (Ok b)
    then show ?thesis using 4 p by (cases b) auto
  qed (use 4 p in auto)
qed simp_all

lemma do_until_Ok: "do_until E p s = (Ok (), s') \<Longrightarrow> \<exists>v. p v = (Ok True, s')"
  using do_until_cases [of p E "fs_server s" s] DoUntilEventually_Ok [of p "wait_events E (fs_server s)" s s']
  by (auto simp: do_until_def)

section \<open>Hooks that are live\<close>

definition live :: "sdk_lib \<Rightarrow> RunnerConfig \<Rightarrow> 'w PreparedFeature \<Rightarrow> ('z harness_state_scheme, 'a) io \<Rightarrow> bool" where
  "live L c p m = (\<forall>s. reaches L c p s (snd (m s)))"

named_theorems live_intros

lemma liveI: "(\<And>s. reaches L c p s (snd (m s))) \<Longrightarrow> live L c p m"
  by (simp add: live_def)

lemma liveD: "live L c p m \<Longrightarrow> m s = (x, s') \<Longrightarrow> reaches L c p s s'"
  unfolding live_def by (metis snd_conv)

lemma live_step: "(\<And>s. lifecycle L c p s (snd (m s))) \<Longrightarrow> live L c p m"
  by (rule liveI) (rule r_into_rtranclp)

lemma live_quiet:
  assumes "\<And>s. n_trace (snd (m s)) = n_trace s" "\<And>s. x_answer (snd (m s)) = x_answer s"
    "\<And>s. h_Worker (snd (m s)) = h_Worker s" "\<And>s. h_Client (snd (m s)) = h_Client s"
  shows "live L c p m"
  by (rule live_step) (rule life_quiet; simp add: assms)

lemma live_pure [live_intros]:
  "live L c p (ret a)" "live L c p (fail e)" "live L c p (panic e)" "live L c p (of_res r)" "live L c p (asks f)"
  by (rule live_quiet; simp add: io_defs split: res.splits)+

lemma live_bindE [live_intros]:
  assumes "live L c p m" "\<And>x. live L c p (k x)"
  shows "live L c p (bindE m k)"
proof (rule liveI)
  fix s
  obtain x t where m: "m s = (x, t)" by force
  have "reaches L c p s t" using liveD [OF assms(1) m] .
  moreover have "reaches L c p t (snd (k y t))" for y
    using assms(2) [of y] by (simp add: live_def)
  ultimately show "reaches L c p s (snd (bindE m k s))"
    by (cases x) (auto simp: bindE_def m intro: rtranclp_trans)
qed

lemma live_thenE [live_intros]: "live L c p m \<Longrightarrow> live L c p k \<Longrightarrow> live L c p (thenE m k)"
  unfolding thenE_def by (rule live_bindE)

lemma live_same_state:
  assumes "live L c p m" "\<And>s. snd (n s) = snd (m s)"
  shows "live L c p n"
  using assms by (simp add: live_def)

lemma live_attempt [live_intros]: "live L c p m \<Longrightarrow> live L c p (attempt m)"
  by (erule live_same_state) (simp add: attempt_def split: prod.splits res.splits)

lemma live_wrapE [live_intros]: "live L c p m \<Longrightarrow> live L c p (wrapE f as m)"
  by (erule live_same_state) (simp add: wrapE_def split: prod.splits res.splits)

lemma live_if [live_intros]: "(b \<Longrightarrow> live L c p m) \<Longrightarrow> (\<not> b \<Longrightarrow> live L c p k) \<Longrightarrow> live L c p (if b then m else k)"
  by simp

lemma live_whenE [live_intros]: "(b \<Longrightarrow> live L c p m) \<Longrightarrow> live L c p (whenE b m)"
  unfolding whenE_def by (simp add: live_pure)

lemma live_for_each [live_intros]: "(\<And>x. live L c p (g x)) \<Longrightarrow> live L c p (for_each g xs)"
  by (induction xs) (simp_all add: live_pure live_thenE)

lemma live_deferE [live_intros]: "live L c p m \<Longrightarrow> live L c p (upd g) \<Longrightarrow> live L c p (deferE g m)"
proof (rule liveI)
  fix s
  assume m: "live L c p m" and g: "live L c p (upd g)"
  obtain x t where x: "m s = (x, t)" by force
  have "reaches L c p t (g t)" using g by (simp add: live_def upd_def)
  then show "reaches L c p s (snd (deferE g m s))"
    using liveD [OF m x] by (simp add: deferE_def x)
qed

lemma live_act [live_intros]: "acquires a = None \<Longrightarrow> releases a = None \<Longrightarrow> live L c p (act a)"
  by (rule live_step) (rule life_call)

lemma live_act_unit [live_intros]: "acquires a = None \<Longrightarrow> releases a = None \<Longrightarrow> live L c p (act_unit a)"
  unfolding act_unit_def by (intro live_intros)

lemma StartWorker_same:
  assumes "registrations p = registrations q"
  shows "StartWorker L c p = StartWorker L c q"
  by (rule ext) (simp add: StartWorker_def assms)

lemma live_StartWorker: "registrations q = registrations p \<Longrightarrow> live L c p (StartWorker L c q)"
  by (rule live_step) (simp add: StartWorker_same [of q p] life_start)

lemma live_StopWorker: "live L c p (upd StopWorker)"
  by (rule live_step) (simp add: upd_def life_stop)

subsection \<open>The calls of the hooks\<close>

lemma log_call_fields [simp]:
  "n_trace (log_call k s) = n_trace s" "x_answer (log_call k s) = x_answer s" "x_text (log_call k s) = x_text s"
  "h_Worker (log_call k s) = h_Worker s" "h_Client (log_call k s) = h_Client s"
  "fs_log (log_call k s) = fs_log s @ [k]" "fs_server (log_call k s) = fs_server s"
  "fs_second (log_call k s) = fs_second s" "fs_BuildID (log_call k s) = fs_BuildID s"
  "fs_UseBuildIDForVersioning (log_call k s) = fs_UseBuildIDForVersioning s"
  by (simp_all add: log_call_def)

lemma live_log [live_intros]: "live L c p (upd (log_call k))"
  by (rule live_quiet; simp add: upd_def)

lemma live_fcall [live_intros]:
  "live L c p (fcall E k)" "live L c p (fdo E k)" "live L c p (fitems E k)"
proof -
  show "live L c p (fcall E k)" by (rule live_quiet; simp add: fcall_def split: prod.splits)
  then show "live L c p (fdo E k)" unfolding fdo_def by (intro live_intros)
  show "live L c p (fitems E k)" by (rule live_quiet; simp add: fitems_def)
qed

lemma stop_worker_steps: "stop_worker = thenE (upd (log_call CStopWorker)) (upd StopWorker)"
  by (rule ext) (simp add: stop_worker_def thenE_def bindE_def upd_def)

lemma live_stop_worker [live_intros]: "live L c p stop_worker"
  unfolding stop_worker_steps by (intro live_thenE live_log live_StopWorker)

lemma live_workers [live_intros]:
  "live L c p (set_build v)" "live L c p stop_second" "live L c p (start_second E v)"
proof -
  show "live L c p (set_build v)" "live L c p stop_second"
    by (rule live_quiet; simp add: set_build_def stop_second_def upd_def)+
  show "live L c p (start_second E v)"
    unfolding start_second_def by (intro live_intros live_fcall) (rule live_quiet; simp add: upd_def)
qed

lemma live_start_worker [live_intros]:
  fixes E :: "'s hook_env"
  assumes "he_lib E = L" "rn_Config r = c" "registrations (rn_Feature r) = registrations p"
  shows "live L c p (start_worker E r)"
proof (rule liveI)
  fix s :: "('s, 'z) feature_state_scheme"
  have "reaches L c p s (snd (thenE (upd (log_call k)) (StartWorker L c (rn_Feature r)) s))" for k
    by (rule live_def [THEN iffD1, rule_format]) (intro live_thenE live_log live_StartWorker assms(3))
  then show "reaches L c p s (snd (start_worker E r s))"
    by (simp only: start_worker_def assms)
qed

lemma live_start_workflow [live_intros]: "live L c p (start_workflow opts w)"
  unfolding start_workflow_def by (intro live_intros) simp_all

lemma live_execute [live_intros]:
  "live L c p (execute_default r)" "live L c p (execute_workflow opts v w)"
proof -
  have "live L c p (ExecuteDefault r)"
    by (auto simp: ExecuteDefault_def Let_def intro: live_intros split: option.splits res.splits)
  then show "live L c p (execute_default r)" unfolding execute_default_def by (intro live_intros)
  show "live L c p (execute_workflow opts v w)" unfolding execute_workflow_def by (intro live_intros)
qed

lemma reaches_DoUntilEventually:
  "live L c p m \<Longrightarrow> DoUntilEventually m es s = Some (x, t) \<Longrightarrow> reaches L c p s t"
proof (induction m es s rule: DoUntilEventually.induct)
  case (4 m es s)
  obtain y v where v: "m s = (y, v)" by force
  note r = liveD [OF 4(2) v]
  show ?case
  proof (cases y)
    case (Ok b)
    then show ?thesis using 4 v r by (cases b) (auto intro: rtranclp_trans)
  qed (use 4 v r in auto)
qed simp_all

lemma live_do_until [live_intros]:
  fixes m :: "(('s, 'z) feature_state_scheme, bool) io"
  assumes "live L c p m"
  shows "live L c p (do_until E m)"
proof (rule liveI)
  fix s :: "('s, 'z) feature_state_scheme"
  obtain x t where "DoUntilEventually m (wait_events E (fs_server s)) s = Some (x, t)"
    using do_until_cases [of m E "fs_server s" s] by force
  then show "reaches L c p s (snd (do_until E m s))"
    using reaches_DoUntilEventually [OF assms] by (simp add: do_until_def)
qed

lemma live_waits [live_intros]:
  "live L c p (query_until E wid rid q v)" "live L c p (wait_scheduled E run)"
  by (rule live_quiet; simp add: query_until_def wait_scheduled_def Let_def split: option.splits)+

section \<open>What a hook changes\<close>

lemma keeps_calls [keeps_intros]:
  assumes "\<And>k s. f (log_call k s) = f s" "\<And>t s. f (s\<lparr>fs_server := t\<rparr>) = f s"
  shows "keeps f (fcall E c)" "keeps f (fdo E c)" "keeps f (fitems E c)" "keeps f (query_until E wid rid q v)"
    "keeps f (wait_scheduled E run)" "keeps f (upd (log_call c))"
  using assms
  by (auto simp: keeps_def fcall_def fdo_def fitems_def query_until_def wait_scheduled_def Let_def bindE_def ret_def upd_def
      split: prod.splits res.splits)

lemma DoUntilEventually_keeps: "keeps f m \<Longrightarrow> DoUntilEventually m es s = Some (x, t) \<Longrightarrow> f t = f s"
proof (induction m es s rule: DoUntilEventually.induct)
  case (4 m es s)
  obtain y v where v: "m s = (y, v)" by force
  note r = keepsD [OF 4(2) v]
  show ?case
  proof (cases y)
    case (Ok b)
    then show ?thesis using 4 v r by (cases b) auto
  qed (use 4 v r in auto)
qed simp_all

lemma keeps_do_until [keeps_intros]:
  fixes m :: "(('s, 'z) feature_state_scheme, bool) io"
  assumes "keeps f m"
  shows "keeps f (do_until E m)"
proof (rule keepsI)
  fix s :: "('s, 'z) feature_state_scheme"
  obtain x t where "DoUntilEventually m (wait_events E (fs_server s)) s = Some (x, t)"
    using do_until_cases [of m E "fs_server s" s] by force
  then show "f (snd (do_until E m s)) = f s"
    using DoUntilEventually_keeps [OF assms] by (simp add: do_until_def)
qed

lemma log_fcall: "fcall E c s = (x, s') \<Longrightarrow> fs_log s' = fs_log s @ [c]"
  by (auto simp: fcall_def split: prod.splits)

lemma log_fdo: "fdo E c s = (x, s') \<Longrightarrow> fs_log s' = fs_log s @ [c]"
  by (auto simp: fdo_def bindE_def ret_def fcall_def split: prod.splits res.splits)

text \<open>A condition that is false when its call fails.\<close>

definition holds_in :: "'s hook_env \<Rightarrow> feature_call \<Rightarrow> (gval \<Rightarrow> bool) \<Rightarrow> (('s, 'z) feature_state_scheme, bool) io" where
  "holds_in E c Q = bindE (attempt (fcall E c)) (\<lambda>x. ret (case x of Inl e \<Rightarrow> False | Inr v \<Rightarrow> Q v))"

lemma log_holds_in: "holds_in E c Q s = (x, s') \<Longrightarrow> fs_log s' = fs_log s @ [c]"
  by (auto simp: holds_in_def bindE_def attempt_def ret_def fcall_def split: prod.splits res.splits)

lemma holds_in_True:
  "holds_in E c Q s = (Ok True, s') \<Longrightarrow> \<exists>v. he_answer E (fs_server s) c = (Ok v, fs_server s') \<and> Q v"
  by (auto simp: holds_in_def bindE_def attempt_def ret_def fcall_def split: prod.splits res.splits)

text \<open>A wait that succeeds made its call at least once, and its last answer met the condition.\<close>

lemma DoUntilEventually_holds:
  fixes s :: "('s, 'z) feature_state_scheme"
  shows "DoUntilEventually (holds_in E c Q) es s = Some (Ok (), s') \<Longrightarrow>
    \<exists>n t v. fs_log s' = fs_log s @ replicate n c @ [c] \<and> he_answer E t c = (Ok v, fs_server s') \<and> Q v"
proof (induction "holds_in E c Q :: (('s, 'z) feature_state_scheme, bool) io" es s rule: DoUntilEventually.induct)
  case (4 es s)
  obtain y u where u: "holds_in E c Q s = (y, u)" by force
  note l = log_holds_in [OF u]
  show ?case
  proof (cases "y = Ok True")
    case True
    then have "s' = u" using 4(2) u by simp
    with holds_in_True [of E c Q s s'] True u obtain v where
      "he_answer E (fs_server s) c = (Ok v, fs_server s')" "Q v" by blast
    then show ?thesis using l \<open>s' = u\<close> by (intro exI [of _ 0] exI [of _ "fs_server s"] exI [of _ v]) simp
  next
    case False
    then have y: "y = Ok False" using 4(2) u by (cases y) (auto split: bool.splits)
    then have "DoUntilEventually (holds_in E c Q) es u = Some (Ok (), s')" using 4(2) u by simp
    with 4(1) [OF u [symmetric] y refl] obtain n t v where
      "fs_log s' = fs_log u @ replicate n c @ [c]" "he_answer E t c = (Ok v, fs_server s')" "Q v" by blast
    then show ?thesis using l by (intro exI [of _ "Suc n"] exI [of _ t] exI [of _ v]) simp
  qed
qed simp_all

lemma wait_holds:
  assumes "do_until E (holds_in E c Q) s = (Ok (), s')"
  shows "\<exists>n t v. fs_log s' = fs_log s @ replicate n c @ [c] \<and> he_answer E t c = (Ok v, fs_server s') \<and> Q v"
proof -
  from assms do_until_cases [of "holds_in E c Q" E "fs_server s" s]
  have "DoUntilEventually (holds_in E c Q) (wait_events E (fs_server s)) s = Some (Ok (), s')"
    by (auto simp: do_until_def)
  then show ?thesis by (rule DoUntilEventually_holds)
qed

section \<open>What a hook logs\<close>

text \<open>The calls a hook adds to the log, however it ends.\<close>

definition logs :: "(feature_call \<Rightarrow> bool) \<Rightarrow> (('s, 'z) feature_state_scheme, 'a) io \<Rightarrow> bool" where
  "logs Q m = (\<forall>s. \<exists>cs. fs_log (snd (m s)) = fs_log s @ cs \<and> list_all Q cs)"

named_theorems logs_intros

lemma logsD: "logs Q m \<Longrightarrow> m s = (x, s') \<Longrightarrow> \<exists>cs. fs_log s' = fs_log s @ cs \<and> list_all Q cs"
  unfolding logs_def by (metis snd_conv)

lemma logs_keeps: "keeps fs_log m \<Longrightarrow> logs Q m"
  unfolding logs_def keeps_def by (auto intro: exI [of _ "[]"])

lemma logs_one: "(\<And>s. fs_log (snd (m s)) = fs_log s @ [c s]) \<Longrightarrow> (\<And>s. Q (c s)) \<Longrightarrow> logs Q m"
  unfolding logs_def by auto

lemma logs_pure [logs_intros]:
  "logs Q (ret a)" "logs Q (fail e)" "logs Q (panic e)" "logs Q (of_res r)" "logs Q (asks g)"
  by (rule logs_keeps, rule keeps_pure)+

lemma logs_bindE [logs_intros]:
  assumes "logs Q m" "\<And>a. logs Q (k a)"
  shows "logs Q (bindE m k)"
proof (unfold logs_def, rule allI)
  fix s
  obtain x t where m: "m s = (x, t)" by force
  from logsD [OF assms(1) m] obtain cs where cs: "fs_log t = fs_log s @ cs" "list_all Q cs" by blast
  have "\<exists>ds. fs_log (snd (k a t)) = fs_log t @ ds \<and> list_all Q ds" for a
    using assms(2) [of a] by (simp add: logs_def)
  with m cs show "\<exists>cs. fs_log (snd (bindE m k s)) = fs_log s @ cs \<and> list_all Q cs"
    by (cases x) (fastforce simp: bindE_def)+
qed

lemma logs_thenE [logs_intros]: "logs Q m \<Longrightarrow> logs Q k \<Longrightarrow> logs Q (thenE m k)"
  unfolding thenE_def by (rule logs_bindE)

lemma logs_same_state: "logs Q m \<Longrightarrow> (\<And>s. snd (n s) = snd (m s)) \<Longrightarrow> logs Q n"
  by (simp add: logs_def)

lemma logs_attempt [logs_intros]: "logs Q m \<Longrightarrow> logs Q (attempt m)"
  by (erule logs_same_state) (simp add: attempt_def split: prod.splits res.splits)

lemma logs_wrapE [logs_intros]: "logs Q m \<Longrightarrow> logs Q (wrapE f as m)"
  by (erule logs_same_state) (simp add: wrapE_def split: prod.splits res.splits)

lemma logs_if [logs_intros]: "(b \<Longrightarrow> logs Q m) \<Longrightarrow> (\<not> b \<Longrightarrow> logs Q k) \<Longrightarrow> logs Q (if b then m else k)"
  by simp

lemma logs_for_each [logs_intros]: "(\<And>x. x \<in> set xs \<Longrightarrow> logs Q (g x)) \<Longrightarrow> logs Q (for_each g xs)"
  by (induction xs) (simp_all add: logs_pure logs_thenE)

lemma logs_calls [logs_intros]:
  "Q c \<Longrightarrow> logs Q (fcall E c)" "Q c \<Longrightarrow> logs Q (fdo E c)" "Q c \<Longrightarrow> logs Q (fitems E c)" "Q c \<Longrightarrow> logs Q (upd (log_call c))"
  by (rule logs_one [of _ "\<lambda>_. c"];
      simp add: fcall_def fdo_def fitems_def upd_def bindE_def ret_def split: prod.splits res.splits)+

lemma logs_holds_in [logs_intros]: "Q c \<Longrightarrow> logs Q (holds_in E c P)"
  unfolding holds_in_def by (intro logs_intros)

lemma fs_log_StopWorker [simp]: "fs_log (StopWorker s) = fs_log s" "fs_second (StopWorker s) = fs_second s"
  by (simp_all add: StopWorker_def act_ignore_def)

lemma keeps_feature_act [keeps_intros]:
  "keeps fs_log (act a)" "keeps fs_log (act_unit a)" "keeps fs_second (act a)" "keeps fs_second (act_unit a)"
  by (rule keeps_act; simp)+

lemma keeps_feature_runner [keeps_intros]:
  "keeps fs_log (StartWorker L c p)" "keeps fs_second (StartWorker L c p)"
  "keeps fs_log (ExecuteDefault r)" "keeps fs_second (ExecuteDefault r)"
  "keeps fs_log (start_workflow opts w)" "keeps fs_second (start_workflow opts w)"
  "keeps fs_log (CheckResultDefault L r run)" "keeps fs_second (CheckResultDefault L r run)"
  by (rule keeps_StartWorker keeps_ExecuteDefault keeps_start_workflow keeps_CheckResultDefault; simp add: keeps_feature_act)+

lemma logs_workers [logs_intros]:
  "Q CStopWorker \<Longrightarrow> logs Q stop_worker" "(\<And>b u. Q (CStartWorker b u)) \<Longrightarrow> logs Q (start_worker E r)"
  "logs Q (set_build v)" "Q (CStartSecond v) \<Longrightarrow> logs Q (start_second E v)" "Q CStopSecond \<Longrightarrow> logs Q stop_second"
proof -
  show "Q CStopWorker \<Longrightarrow> logs Q stop_worker" "Q CStopSecond \<Longrightarrow> logs Q stop_second"
    by (rule logs_one; simp add: stop_worker_def stop_second_def upd_def)+
  show "logs Q (set_build v)" by (rule logs_keeps) (simp add: set_build_def keeps_def upd_def)
  have "logs Q (upd (\<lambda>s. s\<lparr>fs_second := True\<rparr>))" by (rule logs_keeps) (simp add: keeps_def upd_def)
  then show "Q (CStartSecond v) \<Longrightarrow> logs Q (start_second E v)"
    unfolding start_second_def by (intro logs_intros)
  assume "\<And>b u. Q (CStartWorker b u)"
  then show "logs Q (start_worker E r)"
    by (intro logs_one [where c = "\<lambda>s. CStartWorker (fs_BuildID s) (fs_UseBuildIDForVersioning s)"])
      (simp_all add: start_worker_def keeps_feature_runner(1) [unfolded keeps_def, rule_format])
qed

lemma logs_execute [logs_intros]:
  "Q CExecuteDefault \<Longrightarrow> logs Q (execute_default r)"
  "Q (CStartWorkflow (so_ID opts) w v) \<Longrightarrow> logs Q (execute_workflow opts v w)"
  unfolding execute_default_def execute_workflow_def
  by (intro logs_intros; (intro logs_keeps keeps_feature_runner)?; simp)+

lemma logs_DoUntilEventually:
  "logs Q m \<Longrightarrow> DoUntilEventually m es s = Some (x, t) \<Longrightarrow> \<exists>cs. fs_log t = fs_log s @ cs \<and> list_all Q cs"
proof (induction m es s rule: DoUntilEventually.induct)
  case (4 m es s)
  obtain y v where v: "m s = (y, v)" by force
  from logsD [OF 4(2) v] obtain cs where cs: "fs_log v = fs_log s @ cs" "list_all Q cs" by blast
  show ?case
  proof (cases "y = Ok False")
    case True
    then have "DoUntilEventually m es v = Some (x, t)" using 4(3) v by simp
    from 4(1) [OF v [symmetric] True _ 4(2) this] obtain ds where "fs_log t = fs_log v @ ds" "list_all Q ds" by blast
    then show ?thesis using cs by (intro exI [of _ "cs @ ds"]) simp
  next
    case False
    then have "t = v" using 4(3) v by (cases y) (auto split: bool.splits)
    then show ?thesis using cs by blast
  qed
qed (auto intro: exI [of _ "[]"])

lemma logs_waits [logs_intros]:
  "logs Q m \<Longrightarrow> logs Q (do_until E m)"
  "Q (CQueryUntil wid rid q v) \<Longrightarrow> logs Q (query_until E wid rid q v)"
  "Q (CWaitScheduled (wr_ID run) (wr_RunID run)) \<Longrightarrow> logs Q (wait_scheduled E run)"
proof -
  assume m: "logs Q m"
  show "logs Q (do_until E m)"
    unfolding logs_def
  proof
    fix s
    obtain x t where "DoUntilEventually m (wait_events E (fs_server s)) s = Some (x, t)"
      using do_until_cases [of m E "fs_server s" s] by force
    then show "\<exists>cs. fs_log (snd (do_until E m s)) = fs_log s @ cs \<and> list_all Q cs"
      using logs_DoUntilEventually [OF m] by (simp add: do_until_def)
  qed
qed (rule logs_one; simp add: query_until_def wait_scheduled_def Let_def)+

section \<open>Hooks that succeed\<close>

text \<open>With services that answer, from every state in which they do.\<close>

definition calm :: "'z net_world_scheme \<Rightarrow> bool" where
  "calm s = (x_answer s = (\<lambda>_ _. None))"

definition succeeds :: "('z net_world_scheme, 'a) io \<Rightarrow> bool" where
  "succeeds m = (\<forall>s. calm s \<longrightarrow> (\<exists>a t. m s = (Ok a, t) \<and> calm t))"

named_theorems succeeds_intros

lemma succeedsI: "(\<And>s. calm s \<Longrightarrow> \<exists>a t. m s = (Ok a, t) \<and> calm t) \<Longrightarrow> succeeds m"
  by (simp add: succeeds_def)

lemma succeedsE:
  assumes "succeeds m" "calm s"
  obtains a t where "m s = (Ok a, t)" "calm t"
  using assms unfolding succeeds_def by blast

lemma succeeds_bindE [succeeds_intros]:
  assumes "succeeds m" "\<And>a. succeeds (k a)"
  shows "succeeds (bindE m k)"
  using assms unfolding succeeds_def by (fastforce simp: bindE_def)

lemma succeeds_thenE [succeeds_intros]: "succeeds m \<Longrightarrow> succeeds k \<Longrightarrow> succeeds (thenE m k)"
  unfolding thenE_def by (rule succeeds_bindE)

lemma succeeds_known:
  fixes m :: "('z net_world_scheme, 'a) io"
  assumes "succeeds (k a)" "\<And>s. calm s \<Longrightarrow> \<exists>t. m s = (Ok a, t) \<and> calm t"
  shows "succeeds (bindE m k)"
  unfolding succeeds_def
proof (intro allI impI)
  fix s :: "'z net_world_scheme"
  assume "calm s"
  from assms(2) [OF this] obtain t where "m s = (Ok a, t)" "calm t" by blast
  with assms(1) show "\<exists>b u. bindE m k s = (Ok b, u) \<and> calm u" by (auto simp: bindE_def elim!: succeedsE)
qed

lemma succeeds_ret [succeeds_intros]: "succeeds (ret a)" "succeeds (asks f)"
  by (rule succeedsI; simp add: ret_def asks_def)+

lemma succeeds_upd [succeeds_intros]: "(\<And>s. x_answer (f s) = x_answer s) \<Longrightarrow> succeeds (upd f)"
  by (rule succeedsI) (simp add: upd_def calm_def)

lemma succeeds_act [succeeds_intros]: "succeeds (act a)" "succeeds (act_unit a)"
proof -
  show "succeeds (act a)" by (rule succeedsI) (simp add: act_def calm_def Let_def)
  then show "succeeds (act_unit a)" unfolding act_unit_def by (intro succeeds_intros)
qed

lemma calm_fields [simp]:
  "calm (log_call c s) = calm s" "calm (s\<lparr>fs_server := t\<rparr>) = calm s" "calm (s\<lparr>fs_second := b\<rparr>) = calm s"
  by (simp_all add: calm_def)

lemma succeeds_fcall [succeeds_intros]:
  fixes E :: "'s hook_env"
  assumes "\<And>t. \<exists>v. fst (he_answer E t c) = Ok v"
  shows "succeeds (fcall E c :: (('s, 'z) feature_state_scheme, gval) io)" "succeeds (fdo E c :: (('s, 'z) feature_state_scheme, unit) io)"
proof -
  show "succeeds (fcall E c :: (('s, 'z) feature_state_scheme, gval) io)"
  proof (rule succeedsI)
    fix s :: "('s, 'z) feature_state_scheme"
    assume "calm s"
    moreover obtain v u where "he_answer E (fs_server s) c = (Ok v, u)"
      using assms [of "fs_server s"] by (metis fst_res)
    ultimately show "\<exists>a t. fcall E c s = (Ok a, t) \<and> calm t" by (simp add: fcall_def)
  qed
  then show "succeeds (fdo E c :: (('s, 'z) feature_state_scheme, unit) io)" unfolding fdo_def by (intro succeeds_intros)
qed

lemma succeeds_do_until:
  fixes E :: "'s hook_env"
  assumes "\<And>t. 0 < fst (he_ticks E t)" "\<And>t. \<exists>v. fst (he_answer E t c) = Ok v \<and> Q v"
  shows "succeeds (do_until E (holds_in E c Q) :: (('s, 'z) feature_state_scheme, unit) io)"
proof (rule succeedsI)
  fix s :: "('s, 'z) feature_state_scheme"
  assume "calm s"
  obtain k over where k: "he_ticks E (fs_server s) = (Suc k, over)"
    using assms(1) [of "fs_server s"] by (metis Suc_pred prod.collapse)
  obtain v u where "he_answer E (fs_server s) c = (Ok v, u)" "Q v"
    using assms(2) [of "fs_server s"] by (metis fst_res)
  then have "holds_in E c Q s = (Ok True, (log_call c s)\<lparr>fs_server := u\<rparr>)"
    by (simp add: holds_in_def bindE_def attempt_def fcall_def ret_def)
  with k \<open>calm s\<close> show "\<exists>a t. do_until E (holds_in E c Q) s = (Ok a, t) \<and> calm t"
    by (simp add: do_until_def wait_events_def)
qed

lemma succeeds_start_workflow [succeeds_intros]:
  "succeeds (start_workflow opts w)" "succeeds (execute_workflow opts pin w)"
  "(\<And>t. \<exists>v. fst (he_answer E t (CStartSecond b)) = Ok v) \<Longrightarrow> succeeds (start_second E b)"
  unfolding execute_workflow_def start_workflow_def start_second_def
  by (intro succeeds_intros; simp)+

end
