(* ===== verification/Feature_Versions.thy ===== *)
theory Feature_Versions
  imports Feature_Calls
begin

text \<open>
  The Go features of worker versioning: \<open>features/build_id_versioning\<close>, whose six features decide which
  worker gets the tasks of a queue with build ids, and \<open>features/deployment_versioning\<close>, whose four
  routing features set the current or the ramping version of a deployment and whose fifth cleans old
  deployments. Their shared code is \<open>common.go\<close> of each directory. What \<open>uuid.NewString\<close> gave a package
  as the name of its deployment is a parameter, and so is the numbering of the API's enumerations.
\<close>

section \<open>Build ids: the shared code\<close>

definition AddSomeVersions :: "'s hook_env \<Rightarrow> string \<Rightarrow> (('s, 'z) feature_state_scheme, unit) io" where
  "AddSomeVersions E tq =
     thenE (for_each (\<lambda>version. fdo E (CUpdateBuildIds tq (AddNewIDInNewDefaultSet version))) [''1.0'', ''2.0''])
       (fdo E (CUpdateBuildIds tq (AddNewCompatibleVersion ''2.1'' ''2.0'' True)))"

text \<open>The capabilities of a response are a pointer, read without a getter.\<close>

definition ServerSupportsBuildIDVersioning ::
  "'s hook_env \<Rightarrow> 'v Runner \<Rightarrow> (('s, 'z) feature_state_scheme, bool) io" where
  "ServerSupportsBuildIDVersioning E r =
     bindE (asks (LookupEnv ''ENABLE_VERSIONING_TESTS'')) (\<lambda>enable.
       if enable = None \<or> ToLower (the enable) \<noteq> ''true'' then ret False
       else bindE (fcall E CGetSystemInfo) (\<lambda>info.
         bindE (attempt (fdo E (CGetBuildIds (hc_TaskQueue (rn_Config r))))) (\<lambda>x.
           case x of
             Inl e \<Rightarrow> ret False
           | Inr _ \<Rightarrow>
               if getter ''Capabilities'' info = VNil then panic nil_func
               else ret (getter ''BuildIdBasedVersioning'' (getter ''Capabilities'' info) = VBool True))))"

text \<open>The query runs with a deadline of three seconds; any error of it is taken for the timeout.\<close>

definition MustTimeoutQuery :: "'s hook_env \<Rightarrow> workflow_run \<Rightarrow> (('s, 'z) feature_state_scheme, unit) io" where
  "MustTimeoutQuery E run =
     bindE (attempt (fdo E (CQuery (wr_ID run) (wr_RunID run) ''waiting''))) (\<lambda>x.
       case x of Inl e \<Rightarrow> ret () | Inr _ \<Rightarrow> fail (Errorf ''query should have timed out: %!w(<nil>)'' []))"

text \<open>How each of the six hooks starts.\<close>

definition if_build_ids ::
  "'s hook_env \<Rightarrow> 'v Runner \<Rightarrow> (('s, 'z) feature_state_scheme, 'a) io \<Rightarrow> (('s, 'z) feature_state_scheme, 'a) io" where
  "if_build_ids E r hook =
     bindE (ServerSupportsBuildIDVersioning E r) (\<lambda>supported.
       if \<not> supported then fail (Skip ''server does not support build id versioning'') else hook)"

definition signal :: "'s hook_env \<Rightarrow> workflow_run \<Rightarrow> string \<Rightarrow> gval \<Rightarrow> (('s, 'z) feature_state_scheme, unit) io" where
  "signal E run name arg = fdo E (CSignal (wr_ID run) (wr_RunID run) name arg)"

definition reset_sticky :: "'v Runner \<Rightarrow> workflow_run \<Rightarrow> (('s, 'z) feature_state_scheme, unit) io" where
  "reset_sticky r run = ResetStickyQueue (rn_Config r) run"

text \<open>What a hook returns: its run.\<close>

definition with_run ::
  "(('s, 'z) feature_state_scheme, workflow_run) io \<Rightarrow> (workflow_run \<Rightarrow> (('s, 'z) feature_state_scheme, unit) io)
     \<Rightarrow> (('s, 'z) feature_state_scheme, workflow_run option) io" where
  "with_run m k = bindE m (\<lambda>run. thenE (k run) (ret (Some run)))"

section \<open>Build ids: the features\<close>

definition add_default :: "'s hook_env \<Rightarrow> 'v Runner \<Rightarrow> string \<Rightarrow> (('s, 'z) feature_state_scheme, unit) io" where
  "add_default E r build = fdo E (CUpdateBuildIds (hc_TaskQueue (rn_Config r)) (AddNewIDInNewDefaultSet build))"

definition add_compatible ::
  "'s hook_env \<Rightarrow> 'v Runner \<Rightarrow> string \<Rightarrow> string \<Rightarrow> (('s, 'z) feature_state_scheme, unit) io" where
  "add_compatible E r build existing =
     fdo E (CUpdateBuildIds (hc_TaskQueue (rn_Config r)) (AddNewCompatibleVersion build existing False))"

definition fsleep :: "nat \<Rightarrow> (('s, 'z) feature_state_scheme, unit) io" where
  "fsleep ms = upd (log_call (CSleep ms))"

text \<open>\<open>activity_and_child_on_correct_version\<close>\<close>

definition Execute_activity_and_child ::
  "'s hook_env \<Rightarrow> 'v Runner \<Rightarrow> (('s, 'z) feature_state_scheme, workflow_run option) io" where
  "Execute_activity_and_child E r = if_build_ids E r
     (thenE (add_default E r ''1.0'')
     (thenE (start_second E ''2.0'')
     (with_run (execute_default r) (\<lambda>run.
        thenE (fsleep 1000)
       (thenE (add_default E r ''2.0'')
              (signal E run ''unblocker'' VNil))))))"

text \<open>
  Its workflow: what the activity and the child workflow give, without and with the intent to run on the
  default version.
\<close>

definition Workflow_activity_and_child :: "(bool \<Rightarrow> int res) \<Rightarrow> (bool \<Rightarrow> int res) \<Rightarrow> ('w, unit) io" where
  "Workflow_activity_and_child ranBy ranByWf =
     bindE (of_res (ranBy False)) (\<lambda>res.
     if res \<noteq> 1 then fail (Errorf ''expected activity to run on version 1.0 worker'' [])
     else bindE (of_res (ranByWf False)) (\<lambda>res.
     if res \<noteq> 1 then fail (Errorf ''expected child wf to run on version 1.0 worker'' [])
     else bindE (of_res (ranBy True)) (\<lambda>res.
     if res \<noteq> 2 then fail (Errorf ''expected activity to run on default version worker'' [])
     else bindE (of_res (ranByWf True)) (\<lambda>res.
     if res \<noteq> 2 then fail (Errorf ''expected child wf to run on version 1.0 worker'' [])
     else ret ()))))"

text \<open>\<open>continues_as_new_on_correct_version\<close>. The last signal's error is assigned and not looked at.\<close>

datatype SignalDecision = ContinueSame | ContinueDefault | End

fun decision_value :: "SignalDecision \<Rightarrow> gval" where
  "decision_value ContinueSame = VInt 0"
| "decision_value ContinueDefault = VInt 1"
| "decision_value End = VInt 2"

definition Execute_continues_as_new ::
  "'s hook_env \<Rightarrow> 'v Runner \<Rightarrow> (('s, 'z) feature_state_scheme, workflow_run option) io" where
  "Execute_continues_as_new E r = if_build_ids E r
     (thenE (add_default E r ''1.0'')
     (thenE (start_second E ''2.0'')
     (with_run (execute_default r) (\<lambda>run. let latest = run\<lparr>wr_RunID := []\<rparr> in
        thenE (fsleep 1000)
       (thenE (add_default E r ''2.0'')
       (thenE (query_until E (wr_ID run) (wr_RunID run) ''runningOn'' (VStr ''1.0''))
       (thenE (signal E run ''unblocker'' (decision_value ContinueSame))
       (thenE (query_until E (wr_ID run) [] ''runningOn'' (VStr ''1.0''))
       (thenE (signal E latest ''unblocker'' (decision_value ContinueDefault))
       (thenE (query_until E (wr_ID run) [] ''runningOn'' (VStr ''2.0''))
       (bindE (attempt (signal E latest ''unblocker'' (decision_value End))) (\<lambda>_.
          ret ()))))))))))))"

datatype versioning_intent = IntentCompatible | IntentDefault

text \<open>Its workflow after a signal: it ends, or continues as new with an intent.\<close>

definition Workflow_continues_as_new :: "SignalDecision \<Rightarrow> versioning_intent option" where
  "Workflow_continues_as_new useDefault =
     (if useDefault = End then None
      else Some (if useDefault = ContinueSame then IntentCompatible else IntentDefault))"

text \<open>\<open>only_appropriate_worker_gets_task\<close>. The error of the first reset is assigned and not looked at.\<close>

definition Execute_only_appropriate ::
  "'s hook_env \<Rightarrow> 'v Runner \<Rightarrow> (('s, 'z) feature_state_scheme, workflow_run option) io" where
  "Execute_only_appropriate E r = if_build_ids E r
     (thenE (AddSomeVersions E (hc_TaskQueue (rn_Config r)))
     (thenE stop_worker
     (thenE (start_worker E r)
     (with_run (execute_default r) (\<lambda>run.
        thenE (query_until E (wr_ID run) (wr_RunID run) ''waiting'' (VBool True))
       (thenE stop_worker
       (bindE (attempt (reset_sticky r run)) (\<lambda>_.
        thenE (signal E run ''unblocker'' VNil)
       (thenE (for_each (\<lambda>version.
                 thenE (set_build version)
                (thenE (start_worker E r)
                (thenE (wrapE ''worker with version %s should not have gotten task: %w'' [version] (MustTimeoutQuery E run))
                (thenE stop_worker
                       (reset_sticky r run))))) [''2.0'', ''1.0''])
       (thenE (set_build ''2.1'')
              (start_worker E r)))))))))))"

text \<open>\<open>unversioned_worker_gets_unversioned_task\<close>\<close>

definition Execute_unversioned_gets ::
  "'s hook_env \<Rightarrow> 'v Runner \<Rightarrow> (('s, 'z) feature_state_scheme, workflow_run option) io" where
  "Execute_unversioned_gets E r = if_build_ids E r
     (with_run (execute_default r) (\<lambda>run.
        thenE (AddSomeVersions E (hc_TaskQueue (rn_Config r)))
              (signal E run ''unblocker'' VNil)))"

text \<open>\<open>unversioned_worker_no_task\<close>\<close>

definition Execute_unversioned_no_task ::
  "'s hook_env \<Rightarrow> 'v Runner \<Rightarrow> (('s, 'z) feature_state_scheme, workflow_run option) io" where
  "Execute_unversioned_no_task E r = if_build_ids E r
     (thenE (AddSomeVersions E (hc_TaskQueue (rn_Config r)))
     (with_run (execute_default r) (\<lambda>run.
        bindE (attempt (fdo E (CQuery (wr_ID run) (wr_RunID run) ''__stack_trace''))) (\<lambda>x.
          case x of
            Inr _ \<Rightarrow> fail (Errorf ''query should have timed out'' [])
          | Inl e \<Rightarrow> thenE stop_worker (thenE (set_build ''2.1'') (start_worker E r))))))"

text \<open>
  \<open>versions_added_while_worker_polling\<close>. A query that does not time out and one that does are failures
  with a text of their own; the error of the last start is assigned and not looked at.
\<close>

definition must_fail :: "string \<Rightarrow> ('w, unit) io \<Rightarrow> ('w, unit) io" where
  "must_fail text m = bindE (attempt m) (\<lambda>x. case x of Inl e \<Rightarrow> ret () | Inr _ \<Rightarrow> fail (Errorf text []))"

definition or_text :: "string \<Rightarrow> ('w, unit) io \<Rightarrow> ('w, unit) io" where
  "or_text text m = bindE (attempt m) (\<lambda>x. case x of Inl e \<Rightarrow> fail (Errorf text []) | Inr _ \<Rightarrow> ret ())"

definition Execute_versions_added ::
  "'s hook_env \<Rightarrow> 'v Runner \<Rightarrow> (('s, 'z) feature_state_scheme, workflow_run option) io" where
  "Execute_versions_added E r = if_build_ids E r
     (thenE (add_default E r ''1.0'')
     (thenE stop_worker
     (thenE (start_worker E r)
     (with_run (execute_default r) (\<lambda>run.
        thenE (signal E run ''add1'' VNil)
       (thenE (query_until E (wr_ID run) (wr_RunID run) ''counter'' (VInt 1))
       (thenE stop_worker
       (thenE (reset_sticky r run)
       (thenE (set_build ''1.1'')
       (thenE (start_worker E r)
       (thenE (signal E run ''add1'' VNil)
       (thenE (or_text ''1.1 worker should not have seen task since 1.1 is not yet in sets'' (MustTimeoutQuery E run))
       (thenE (add_compatible E r ''1.1'' ''1.0'')
       (thenE stop_worker
       (thenE (start_worker E r)
       (thenE (query_until E (wr_ID run) (wr_RunID run) ''counter'' (VInt 2))
       (thenE (add_compatible E r ''1.2'' ''1.1'')
       (thenE (signal E run ''add1'' VNil)
       (thenE (must_fail ''1.1 worker should not have seen task since 1.2 is now default''
                 (query_until E (wr_ID run) (wr_RunID run) ''counter'' (VInt 2)))
       (thenE stop_worker
       (thenE (reset_sticky r run)
       (thenE (set_build ''1.2'')
       (bindE (attempt (start_worker E r)) (\<lambda>_.
          fdo E (CCancel (wr_ID run) (wr_RunID run))))))))))))))))))))))))))"

text \<open>Both features with a second worker, and the routing features below, stop it here.\<close>

definition CheckHistory_second ::
  "proto_api \<Rightarrow> sdk_lib \<Rightarrow> (Fetcher \<Rightarrow> Histories res) \<Rightarrow> 'v Runner \<Rightarrow> workflow_run \<Rightarrow> (('s, 'z) feature_state_scheme, unit) io" where
  "CheckHistory_second P L fetch r run = thenE stop_second (CheckHistoryDefault P L fetch r run)"

section \<open>Deployments: the shared code\<close>

text \<open>The numbers of the enumerations of the API that the hooks compare with.\<close>

record status_lib =
  st_Running :: int
  st_Terminated :: int
  st_PropagationCompleted :: int
  st_PropagationUnspecified :: int

text \<open>A field of a struct that is a value.\<close>

definition field_of :: "string \<Rightarrow> gval \<Rightarrow> gval" where
  "field_of n v = (case v of VStruct t fs \<Rightarrow> get_field n fs | _ \<Rightarrow> VNil)"

definition version_of :: "gval \<Rightarrow> deployment_version" where
  "version_of v = \<lparr>dv_DeploymentName = text_of (field_of ''DeploymentName'' v), dv_BuildID = text_of (field_of ''BuildID'' v)\<rparr>"

definition has_version :: "deployment_version \<Rightarrow> gval \<Rightarrow> bool" where
  "has_version version d =
     (\<exists>v \<in> set (elements (field_of ''VersionSummaries'' (field_of ''Info'' d))). version_of (field_of ''Version'' v) = version)"

definition WaitForDeploymentVersion ::
  "'s hook_env \<Rightarrow> string \<Rightarrow> deployment_version \<Rightarrow> (('s, 'z) feature_state_scheme, unit) io" where
  "WaitForDeploymentVersion E dn version = do_until E (holds_in E (CDescribeDeployment dn) (has_version version))"

definition WaitForDeployment :: "'s hook_env \<Rightarrow> string \<Rightarrow> (('s, 'z) feature_state_scheme, unit) io" where
  "WaitForDeployment E dn = do_until E (holds_in E (CDescribeDeployment dn) (\<lambda>_. True))"

text \<open>The information of a description is a pointer, read without a getter.\<close>

definition running_in :: "status_lib \<Rightarrow> 's hook_env \<Rightarrow> workflow_run \<Rightarrow> (('s, 'z) feature_state_scheme, bool) io" where
  "running_in N E run = bindE (attempt (fcall E (CDescribeWorkflow (wr_ID run) (wr_RunID run)))) (\<lambda>x.
     case x of
       Inl e \<Rightarrow> ret False
     | Inr d \<Rightarrow>
         if getter ''WorkflowExecutionInfo'' d = VNil then panic nil_func
         else ret (getter ''Status'' (getter ''WorkflowExecutionInfo'' d) = VInt (st_Running N)))"

definition WaitForWorkflowRunning ::
  "status_lib \<Rightarrow> 's hook_env \<Rightarrow> workflow_run \<Rightarrow> (('s, 'z) feature_state_scheme, unit) io" where
  "WaitForWorkflowRunning N E run = do_until E (running_in N E run)"

definition propagated :: "status_lib \<Rightarrow> gval \<Rightarrow> bool" where
  "propagated N resp = (let state = getter ''RoutingConfigUpdateState'' (getter ''WorkerDeploymentInfo'' resp) in
     state = VInt (st_PropagationCompleted N) \<or> state = VInt (st_PropagationUnspecified N))"

definition WaitForRoutingConfigPropagation ::
  "status_lib \<Rightarrow> 's hook_env \<Rightarrow> 'v Runner \<Rightarrow> string \<Rightarrow> (('s, 'z) feature_state_scheme, unit) io" where
  "WaitForRoutingConfigPropagation N E r dn =
     do_until E (holds_in E (CDescribeRouting (hc_Namespace (rn_Config r)) dn) (propagated N))"

text \<open>The conflict token is that of the description taken before the wait for the version.\<close>

definition SetCurrent ::
  "status_lib \<Rightarrow> 's hook_env \<Rightarrow> 'v Runner \<Rightarrow> string \<Rightarrow> deployment_version \<Rightarrow> (('s, 'z) feature_state_scheme, unit) io" where
  "SetCurrent N E r dn version =
     thenE (WaitForDeployment E dn)
    (bindE (fcall E (CDescribeDeployment dn)) (\<lambda>response1.
     thenE (WaitForDeploymentVersion E dn version)
    (thenE (fdo E (CSetCurrent dn (dv_BuildID version) (field_of ''ConflictToken'' response1)))
           (WaitForRoutingConfigPropagation N E r dn))))"

definition SetRamp ::
  "status_lib \<Rightarrow> 's hook_env \<Rightarrow> 'v Runner \<Rightarrow> string \<Rightarrow> deployment_version \<Rightarrow> nat \<Rightarrow> (('s, 'z) feature_state_scheme, unit) io" where
  "SetRamp N E r dn version percentage =
     thenE (WaitForDeployment E dn)
    (bindE (fcall E (CDescribeDeployment dn)) (\<lambda>response1.
     thenE (WaitForDeploymentVersion E dn version)
    (thenE (fdo E (CSetRamp dn (dv_BuildID version) (field_of ''ConflictToken'' response1) percentage))
           (WaitForRoutingConfigPropagation N E r dn))))"

definition ServerSupportsDeployments :: "'s hook_env \<Rightarrow> (('s, 'z) feature_state_scheme, bool) io" where
  "ServerSupportsDeployments E =
     bindE (attempt (fdo E CListDeployments)) (\<lambda>x.
       case x of
         Inl e \<Rightarrow> ret False
       | Inr _ \<Rightarrow> asks (\<lambda>s. list_all (\<lambda>i. case i of Ok v \<Rightarrow> True | _ \<Rightarrow> False) (he_items E (fs_server s) CListDeployments)))"

section \<open>Deployments: the routing features\<close>

definition v1 :: "string \<Rightarrow> deployment_version" where
  "v1 dn = \<lparr>dv_DeploymentName = dn, dv_BuildID = ''1.0''\<rparr>"

definition v2 :: "string \<Rightarrow> deployment_version" where
  "v2 dn = \<lparr>dv_DeploymentName = dn, dv_BuildID = ''2.0''\<rparr>"

text \<open>The workflows of the two workers: what they return for the value of the signal.\<close>

definition WaitForSignalOne :: "string \<Rightarrow> string" where
  "WaitForSignalOne val = val @ ''_v1''"

definition WaitForSignalTwo :: "string \<Rightarrow> string" where
  "WaitForSignalTwo val = val @ ''_v2''"

text \<open>
  The four hooks are one script: start the second worker, make a first version current, start the
  workflow (with or without a pinned version), wait for it to run, change the routing, and signal.
\<close>

definition routing_execute ::
  "status_lib \<Rightarrow> 's hook_env \<Rightarrow> 'v Runner \<Rightarrow> string \<Rightarrow> deployment_version \<Rightarrow> deployment_version option
     \<Rightarrow> (('s, 'z) feature_state_scheme, unit) io \<Rightarrow> (('s, 'z) feature_state_scheme, workflow_run option) io" where
  "routing_execute N E r dn first override change =
     bindE (ServerSupportsDeployments E) (\<lambda>supported.
       if \<not> supported then fail (Skip ''server does not support deployment versioning'')
       else thenE (start_second E (dv_BuildID (v2 dn)))
           (thenE (SetCurrent N E r dn first)
           (with_run
             (execute_workflow \<lparr>so_ID = ''workflow_1'', so_TaskQueue = hc_TaskQueue (rn_Config r), so_WorkflowExecutionTimeout = 60000\<rparr>
                override ''WaitForSignal'') (\<lambda>run.
              thenE (WaitForWorkflowRunning N E run)
             (thenE change
                    (signal E run ''start-signal'' (VStr ''prefix'')))))))"

definition Execute_auto_upgrade where
  "Execute_auto_upgrade N E r dn = routing_execute N E r dn (v1 dn) None (SetCurrent N E r dn (v2 dn))"

definition Execute_pinned where
  "Execute_pinned N E r dn = routing_execute N E r dn (v1 dn) None (SetCurrent N E r dn (v2 dn))"

definition Execute_override where
  "Execute_override N E r dn = routing_execute N E r dn (v2 dn) (Some (v1 dn)) (ret ())"

definition Execute_ramp where
  "Execute_ramp N E r dn = routing_execute N E r dn (v1 dn) None (SetRamp N E r dn (v2 dn) 100)"

text \<open>The results the features expect.\<close>

definition expect_auto_upgrade :: gval where "expect_auto_upgrade = VStr ''prefix_v2''"
definition expect_pinned :: gval where "expect_pinned = VStr ''prefix_v1''"
definition expect_override :: gval where "expect_override = VStr ''prefix_v1''"
definition expect_ramp :: gval where "expect_ramp = VStr ''prefix_v2''"

section \<open>Deployments: cleaning\<close>

text \<open>The workflow, given what its activities give; each activity runs after the one before it.\<close>

definition CleanOldDeployments :: "string list res \<Rightarrow> (string \<Rightarrow> unit res) \<Rightarrow> ('w, string) io" where
  "CleanOldDeployments listed delete =
     bindE (of_res listed) (\<lambda>deploymentsToClean.
       thenE (for_each (\<lambda>deployment. of_res (delete deployment)) deploymentsToClean)
         (ret (Sprintf ''Cleaned %d deployments'' [show_nat (length deploymentsToClean)])))"

text \<open>The clock is read for each item; times are in milliseconds.\<close>

fun old_ones :: "(nat \<Rightarrow> int) \<Rightarrow> nat \<Rightarrow> gval res list \<Rightarrow> string list res" where
  "old_ones now i [] = Ok []"
| "old_ones now i (Err e # r) = Err e"
| "old_ones now i (Panic e # r) = Panic e"
| "old_ones now i (Ok d # r) =
     (case old_ones now (Suc i) r of
        Ok names \<Rightarrow>
          Ok (if (case getter ''CreateTime'' d of VInt t \<Rightarrow> t | _ \<Rightarrow> 0) < now i - 86400000
              then text_of (getter ''Name'' d) # names else names)
      | e \<Rightarrow> e)"

definition ListOldDeployments :: "'s hook_env \<Rightarrow> (('s, 'z) feature_state_scheme, string list) io" where
  "ListOldDeployments E =
     thenE (fdo E CListDeployments)
       (bindE (asks (\<lambda>s. old_ones (he_now E (fs_server s)) 0 (he_items E (fs_server s) CListDeployments))) of_res)"

text \<open>The answer to the last call is not looked at.\<close>

definition DeleteDeployment :: "'s hook_env \<Rightarrow> string \<Rightarrow> string \<Rightarrow> (('s, 'z) feature_state_scheme, unit) io" where
  "DeleteDeployment E ns dn =
     bindE (wrapE ''failed to describe worker deployment %s: %w'' [dn] (fcall E (CDescribeRouting ns dn))) (\<lambda>info.
     thenE (wrapE ''failed to unset current version for deployment %s: %w'' [dn] (fdo E (CUnsetCurrent ns dn)))
    (thenE (wrapE ''failed to unset ramping version for deployment %s: %w'' [dn] (fdo E (CUnsetRamp ns dn)))
    (if getter ''WorkerDeploymentInfo'' info = VNil then panic nil_func
     else thenE (for_each (\<lambda>version. let v = getter ''DeploymentVersion'' version in
                   wrapE ''failed to delete deployment version %s for deployment %s: %w'' [he_show E v, dn]
                     (fdo E (CDeleteVersion ns v)))
                 (elements (getter ''VersionSummaries'' (getter ''WorkerDeploymentInfo'' info))))
          (bindE (attempt (fdo E (CDeleteDeployment ns dn))) (\<lambda>_. ret ())))))"

section \<open>Lemmas\<close>

subsection \<open>The hooks are live\<close>

lemma live_steps [live_intros]:
  "live L c p (AddSomeVersions E tq)" "live L c p (MustTimeoutQuery E run)" "live L c p (signal E run n a)"
  "live L c p (reset_sticky r run)" "live L c p (add_default E r b)" "live L c p (add_compatible E r b x)"
  "live L c p (fsleep ms)" "live L c p (holds_in E k Q)"
proof -
  show "live L c p (MustTimeoutQuery E run)"
    unfolding MustTimeoutQuery_def by (intro live_intros) (auto intro: live_intros split: sum.splits)
  show "live L c p (reset_sticky r run)"
    unfolding reset_sticky_def ResetStickyQueue_def by (intro live_intros) simp_all
qed (unfold AddSomeVersions_def signal_def add_default_def add_compatible_def fsleep_def holds_in_def, (intro live_intros)+)

lemma live_supports [live_intros]:
  "live L c p (ServerSupportsBuildIDVersioning E r)" "live L c p (ServerSupportsDeployments E)"
  unfolding ServerSupportsBuildIDVersioning_def ServerSupportsDeployments_def
  by (intro live_intros; auto intro: live_intros split: sum.splits)+

lemma live_if_build_ids [live_intros]: "live L c p m \<Longrightarrow> live L c p (if_build_ids E r m)"
  unfolding if_build_ids_def by (intro live_intros)

lemma live_with_run [live_intros]:
  "live L c p m \<Longrightarrow> (\<And>run. live L c p (k run)) \<Longrightarrow> live L c p (with_run m k)"
  unfolding with_run_def by (intro live_intros)

lemma live_queries [live_intros]:
  "live L c p m \<Longrightarrow> live L c p (must_fail t m)" "live L c p m \<Longrightarrow> live L c p (or_text t m)"
  unfolding must_fail_def or_text_def
  by (intro live_intros; auto intro: live_intros split: sum.splits)+

lemma live_running [live_intros]: "live L c p (running_in N E run)"
  unfolding running_in_def by (intro live_intros) (auto intro: live_intros split: sum.splits)

lemma live_deployments [live_intros]:
  "live L c p (WaitForDeploymentVersion E dn v)" "live L c p (WaitForDeployment E dn)"
  "live L c p (WaitForWorkflowRunning N E run)" "live L c p (WaitForRoutingConfigPropagation N E r dn)"
  unfolding WaitForDeploymentVersion_def WaitForDeployment_def WaitForWorkflowRunning_def WaitForRoutingConfigPropagation_def
  by (intro live_intros)+

lemma live_changes [live_intros]:
  "live L c p (SetCurrent N E r dn v)" "live L c p (SetRamp N E r dn v pct)"
  unfolding SetCurrent_def SetRamp_def by (intro live_intros)+

text \<open>
  The ten hooks, for a runner with the configuration and the registrations of the feature that is run.
\<close>

lemma versioning_hooks_live:
  assumes "he_lib E = L" "rn_Config r = c" "registrations (rn_Feature r) = registrations p"
  shows "live L c p (Execute_activity_and_child E r)" "live L c p (Execute_continues_as_new E r)"
    "live L c p (Execute_only_appropriate E r)" "live L c p (Execute_unversioned_gets E r)"
    "live L c p (Execute_unversioned_no_task E r)" "live L c p (Execute_versions_added E r)"
    "live L c p (Execute_auto_upgrade N E r dn)" "live L c p (Execute_pinned N E r dn)"
    "live L c p (Execute_override N E r dn)" "live L c p (Execute_ramp N E r dn)"
proof -
  note start = live_start_worker [OF assms]
  show "live L c p (Execute_unversioned_no_task E r)"
    unfolding Execute_unversioned_no_task_def
    by (intro live_intros) (auto intro!: live_intros start split: sum.splits)
qed (unfold Execute_activity_and_child_def Execute_continues_as_new_def Execute_only_appropriate_def
    Execute_unversioned_gets_def Execute_versions_added_def Execute_auto_upgrade_def Execute_pinned_def
    Execute_override_def Execute_ramp_def routing_execute_def Let_def,
  (intro live_intros assms)+)

subsection \<open>Changing the routing\<close>

text \<open>
  What the two changes have in common: the deployment is described, its version seen, the change asked
  for, and its propagation seen.
\<close>

definition changes_routing ::
  "status_lib \<Rightarrow> 's hook_env \<Rightarrow> string \<Rightarrow> string \<Rightarrow> deployment_version \<Rightarrow> (gval \<Rightarrow> feature_call) \<Rightarrow> feature_call list \<Rightarrow> 's \<Rightarrow> bool" where
  "changes_routing N E ns dn version change cs t =
     (\<exists>before token n d u u' v.
        cs = before @ [change token] @ replicate n (CDescribeRouting ns dn) @ [CDescribeRouting ns dn] \<and>
        set before = {CDescribeDeployment dn} \<and>
        he_answer E u (CDescribeDeployment dn) = (Ok d, u') \<and> has_version version d \<and>
        (\<exists>x. fst (he_answer E u' (change token)) = Ok x) \<and>
        (\<exists>w. he_answer E w (CDescribeRouting ns dn) = (Ok v, t) \<and> propagated N v))"

lemma fdo_Ok: "fdo E c s = (Ok (), s') \<Longrightarrow> \<exists>x. he_answer E (fs_server s) c = (Ok x, fs_server s') \<and> fs_log s' = fs_log s @ [c]"
  by (auto simp: fdo_def bindE_def ret_def fcall_def split: prod.splits res.splits)

lemma routing_change:
  assumes "thenE (WaitForDeployment E dn)
     (bindE (fcall E (CDescribeDeployment dn)) (\<lambda>response1.
       thenE (WaitForDeploymentVersion E dn version)
         (thenE (fdo E (change (field_of ''ConflictToken'' response1)))
           (WaitForRoutingConfigPropagation N E r dn)))) s = (Ok (), s')"
  shows "\<exists>cs. fs_log s' = fs_log s @ cs \<and>
    changes_routing N E (hc_Namespace (rn_Config r)) dn version change cs (fs_server s')"
proof -
  let ?d = "CDescribeDeployment dn" and ?p = "CDescribeRouting (hc_Namespace (rn_Config r)) dn"
  from assms obtain s1 response1 s2 s3 s4 where
    1: "WaitForDeployment E dn s = (Ok (), s1)" and
    2: "fcall E ?d s1 = (Ok response1, s2)" and
    3: "WaitForDeploymentVersion E dn version s2 = (Ok (), s3)" and
    4: "fdo E (change (field_of ''ConflictToken'' response1)) s3 = (Ok (), s4)" and
    5: "WaitForRoutingConfigPropagation N E r dn s4 = (Ok (), s')"
    by (auto simp: thenE_Ok_iff bindE_Ok_iff)
  let ?c = "change (field_of ''ConflictToken'' response1)"
  from wait_holds [OF 1 [unfolded WaitForDeployment_def]] obtain k where l1: "fs_log s1 = fs_log s @ replicate k ?d @ [?d]" by blast
  from wait_holds [OF 3 [unfolded WaitForDeploymentVersion_def]] obtain n u d where
    l3: "fs_log s3 = fs_log s2 @ replicate n ?d @ [?d]" "he_answer E u ?d = (Ok d, fs_server s3)" "has_version version d" by blast
  from fdo_Ok [OF 4] obtain x where l4: "he_answer E (fs_server s3) ?c = (Ok x, fs_server s4)" "fs_log s4 = fs_log s3 @ [?c]" by blast
  from wait_holds [OF 5 [unfolded WaitForRoutingConfigPropagation_def]] obtain j w v where
    l5: "fs_log s' = fs_log s4 @ replicate j ?p @ [?p]" "he_answer E w ?p = (Ok v, fs_server s')" "propagated N v" by blast
  let ?before = "replicate k ?d @ [?d] @ [?d] @ replicate n ?d @ [?d]"
  have "fs_log s' = fs_log s @ ?before @ [?c] @ replicate j ?p @ [?p]"
    using l1 log_fcall [OF 2] l3(1) l4(2) l5(1) by simp
  moreover have "set ?before = {?d}" by auto
  ultimately show ?thesis
    unfolding changes_routing_def using l3 l4 l5 by (metis fst_conv)
qed

lemmas SetCurrent_change = routing_change [where change = "CSetCurrent dn (dv_BuildID version)" for dn version,
  folded SetCurrent_def]

lemmas SetRamp_change = routing_change [where change = "\<lambda>token. CSetRamp dn (dv_BuildID version) token pct" for dn version pct,
  folded SetRamp_def]

lemma SetCurrent_changes:
  assumes "SetCurrent N E r dn version s = (Ok (), s')"
  shows "\<exists>cs. fs_log s' = fs_log s @ cs \<and>
    changes_routing N E (hc_Namespace (rn_Config r)) dn version (CSetCurrent dn (dv_BuildID version)) cs (fs_server s')"
  using routing_change [of E dn version _ N r s s', OF assms [unfolded SetCurrent_def]] .

lemma SetRamp_changes:
  assumes "SetRamp N E r dn version pct s = (Ok (), s')"
  shows "\<exists>cs. fs_log s' = fs_log s @ cs \<and>
    changes_routing N E (hc_Namespace (rn_Config r)) dn version (\<lambda>t. CSetRamp dn (dv_BuildID version) t pct) cs (fs_server s')"
  using routing_change [of E dn version "\<lambda>t. CSetRamp dn (dv_BuildID version) t pct" N r s s', OF assms [unfolded SetRamp_def]] .

definition no_signal :: "feature_call \<Rightarrow> bool" where
  "no_signal c = (case c of CSignal i r n a \<Rightarrow> False | _ \<Rightarrow> True)"

lemma no_signal_simps [simp]:
  "no_signal (CDescribeDeployment d)" "no_signal (CSetCurrent d b t)" "no_signal (CSetRamp d b t p)"
  "no_signal (CDescribeRouting n d)" "no_signal CListDeployments" "no_signal (CStartSecond b)"
  "no_signal (CDescribeWorkflow i r)" "no_signal (CStartWorkflow i w v)"
  by (simp_all add: no_signal_def)

lemma logs_running: "logs no_signal (running_in N E run)"
  unfolding running_in_def by (intro logs_intros) (auto intro: logs_intros split: sum.splits)

lemma logs_no_signal:
  "logs no_signal (ServerSupportsDeployments E)" "logs no_signal (SetCurrent N E r dn v)"
  "logs no_signal (WaitForWorkflowRunning N E run)" "logs no_signal (execute_workflow opts pin w)"
  "logs no_signal (start_second E b)"
proof -
  show "logs no_signal (ServerSupportsDeployments E)"
    unfolding ServerSupportsDeployments_def
    by (intro logs_intros) (auto intro: logs_intros split: sum.splits)
qed (unfold SetCurrent_def WaitForDeployment_def WaitForDeploymentVersion_def WaitForRoutingConfigPropagation_def
    WaitForWorkflowRunning_def, (intro logs_intros logs_running; simp)+)

text \<open>What a routing script that succeeds went through.\<close>

lemma routing_steps:
  assumes "routing_execute N E r dn first override change s = (Ok x, s')"
  obtains run earlier s1 s2 where "x = Some run" "change s1 = (Ok (), s2)"
    "fs_log s1 = fs_log s @ earlier" "list_all no_signal earlier" "CStartWorkflow ''workflow_1'' ''WaitForSignal'' override \<in> set earlier"
    "fs_log s' = fs_log s2 @ [CSignal (wr_ID run) (wr_RunID run) ''start-signal'' (VStr ''prefix'')]"
    "\<exists>v. he_answer E (fs_server s2) (CSignal (wr_ID run) (wr_RunID run) ''start-signal'' (VStr ''prefix'')) = (Ok v, fs_server s')"
proof -
  let ?o = "\<lparr>so_ID = ''workflow_1'', so_TaskQueue = hc_TaskQueue (rn_Config r), so_WorkflowExecutionTimeout = 60000\<rparr>"
  obtain sup a where 0: "ServerSupportsDeployments E s = (Ok sup, a)"
    using assms by (auto simp: routing_execute_def bindE_Ok_iff)
  with assms have sup: "sup" by (auto simp: routing_execute_def bindE_Ok_iff fail_def split: if_splits)
  from assms 0 sup obtain b c d run e s1 s2 where
    1: "start_second E (dv_BuildID (v2 dn)) a = (Ok (), b)" and
    2: "SetCurrent N E r dn first b = (Ok (), c)" and
    3: "execute_workflow ?o override ''WaitForSignal'' c = (Ok run, d)" and
    4: "WaitForWorkflowRunning N E run d = (Ok (), s1)" and
    5: "change s1 = (Ok (), s2)" and
    6: "signal E run ''start-signal'' (VStr ''prefix'') s2 = (Ok (), s')" and x: "x = Some run"
    by (auto simp: routing_execute_def with_run_def thenE_Ok_iff bindE_Ok_iff ret_def split: if_splits)
  from logsD [OF logs_no_signal(1) 0] logsD [OF logs_no_signal(5) 1] logsD [OF logs_no_signal(2) 2]
    logsD [OF logs_no_signal(3) 4]
  obtain l0 l1 l2 l4 where l: "fs_log a = fs_log s @ l0" "fs_log b = fs_log a @ l1" "fs_log c = fs_log b @ l2" "fs_log s1 = fs_log d @ l4"
      "list_all no_signal l0" "list_all no_signal l1" "list_all no_signal l2" "list_all no_signal l4" by blast
  have "fs_log d = fs_log c @ [CStartWorkflow ''workflow_1'' ''WaitForSignal'' override]"
    using keepsD [OF keeps_feature_runner(5), of ?o "''WaitForSignal''" "log_call (CStartWorkflow ''workflow_1'' ''WaitForSignal'' override) c" "Ok run" d] 3
    by (simp add: execute_workflow_def thenE_upd)
  moreover from fdo_Ok [OF 6 [unfolded signal_def]] obtain v where
    "he_answer E (fs_server s2) (CSignal (wr_ID run) (wr_RunID run) ''start-signal'' (VStr ''prefix'')) = (Ok v, fs_server s')"
    "fs_log s' = fs_log s2 @ [CSignal (wr_ID run) (wr_RunID run) ''start-signal'' (VStr ''prefix'')]" by blast
  ultimately show ?thesis
    by (intro that [of run s1 s2 "l0 @ l1 @ l2 @ [CStartWorkflow ''workflow_1'' ''WaitForSignal'' override] @ l4"])
      (use l x 5 in auto)
qed

subsection \<open>The second worker\<close>

lemma second_CloseRunner [simp]: "fs_second (CloseRunner s) = fs_second s"
  by (simp add: CloseRunner_def Let_def act_ignore_def)

lemma second_after_run:
  assumes "fd_Execute (pf_Feature (rn_Feature r)) = Some (\<lambda>c. h)" "fd_CheckResult (pf_Feature (rn_Feature r)) = None"
    "fd_CheckHistory (pf_Feature (rn_Feature r)) = Some (\<lambda>c. CheckHistory_second P L fetch q)"
    "h s = (y, s1)" "y \<noteq> Ok None"
  shows "fs_second (snd (RunRunner P L fetch r s)) \<longleftrightarrow>
    fs_second s1 \<and> \<not> (\<exists>run. y = Ok (Some run) \<and> fst (CheckResultDefault L r run s1) = Ok ())"
proof (cases "\<exists>run. y = Ok (Some run)")
  case True
  then obtain run where y: "y = Ok (Some run)" by blast
  obtain z s2 where z: "CheckResultDefault L r run s1 = (z, s2)" by force
  have s2: "fs_second s2 = fs_second s1" by (rule keepsD [OF keeps_feature_runner(8) z])
  have h: "CheckHistoryDefault P L fetch q run u = (x, t) \<Longrightarrow> fs_second t = fs_second u" for u x t
    by (rule keepsD [OF keeps_CheckHistoryDefault])
  show ?thesis
    using s2 by (cases z) (auto simp: RunRunner_def run_steps_def deferE_def Let_def or_default_def assms y z bindE_def thenE_def
        CheckHistory_second_def stop_second_def upd_def log_call_def split: prod.splits dest!: h)
next
  case False
  then show ?thesis
    using assms(5) by (cases y) (auto simp: RunRunner_def run_steps_def deferE_def Let_def or_default_def assms bindE_def)
qed

lemma keeps_second_steps [keeps_intros]:
  "keeps fs_second (ServerSupportsDeployments E)" "keeps fs_second (SetCurrent N E r dn v)"
  "keeps fs_second (SetRamp N E r dn v pct)" "keeps fs_second (WaitForWorkflowRunning N E run)"
  "keeps fs_second (execute_workflow opts pin w)" "keeps fs_second (signal E run n a)"
proof -
  have call: "keeps fs_second (fcall E c)" "keeps fs_second (fdo E c)" "keeps fs_second (upd (log_call c))" for E c
    by (rule keeps_calls; simp)+
  have holds: "keeps fs_second (holds_in E c Q)" for E c Q
    unfolding holds_in_def by (intro keeps_intros call)
  have running: "keeps fs_second (running_in N E run)" for E run
    unfolding running_in_def by (intro keeps_intros call) (auto intro: keeps_intros split: sum.splits)
  show "keeps fs_second (ServerSupportsDeployments E)"
    unfolding ServerSupportsDeployments_def
    by (intro keeps_intros call) (auto intro: keeps_intros split: sum.splits)
  show "keeps fs_second (execute_workflow opts pin w)"
    unfolding execute_workflow_def by (intro keeps_intros call)
  show "keeps fs_second (SetCurrent N E r dn v)" "keeps fs_second (SetRamp N E r dn v pct)"
    "keeps fs_second (WaitForWorkflowRunning N E run)" "keeps fs_second (signal E run n a)"
    unfolding SetCurrent_def SetRamp_def WaitForWorkflowRunning_def WaitForDeployment_def WaitForDeploymentVersion_def
      WaitForRoutingConfigPropagation_def signal_def
    by (intro keeps_intros call holds running)+
qed

lemma routing_second:
  assumes "keeps fs_second change" "ServerSupportsDeployments E s = (Ok True, s0)"
    "start_second E (dv_BuildID (v2 dn)) s0 = (Ok (), s1)" "routing_execute N E r dn first override change s = (y, s2)"
  shows "fs_second s2 = fs_second s1 \<and> y \<noteq> Ok None"
proof -
  let ?o = "\<lparr>so_ID = ''workflow_1'', so_TaskQueue = hc_TaskQueue (rn_Config r), so_WorkflowExecutionTimeout = 60000\<rparr>"
  let ?rest = "thenE (SetCurrent N E r dn first)
     (with_run (execute_workflow ?o override ''WaitForSignal'') (\<lambda>run.
        thenE (WaitForWorkflowRunning N E run) (thenE change (signal E run ''start-signal'' (VStr ''prefix'')))))"
  have "keeps fs_second ?rest"
    unfolding with_run_def by (intro keeps_intros assms(1))
  moreover have r: "?rest s1 = (y, s2)"
    using assms(2-4) by (simp add: routing_execute_def bindE_def thenE_def)
  moreover have "y \<noteq> Ok None"
    using r by (auto simp: thenE_Ok_iff bindE_Ok_iff with_run_def ret_def)
  ultimately show ?thesis by (auto dest: keepsD)
qed

section \<open>Concrete instances\<close>

definition sample_answer :: "feature_call \<Rightarrow> gval res" where
  "sample_answer c = (case c of
     CDescribeDeployment d \<Rightarrow> Ok (VStruct [] [(''Info'', VStruct [] [(''VersionSummaries'', VSlice (map (\<lambda>b.
         VStruct [] [(''Version'', VStruct [] [(''DeploymentName'', VStr d), (''BuildID'', VStr b)])]) [''1.0'', ''2.0'']))]),
       (''ConflictToken'', VStr ''token'')])
   | CDescribeWorkflow i r \<Rightarrow> Ok (VPtr (VStruct [] [(''WorkflowExecutionInfo'', VPtr (VStruct [] [(''Status'', VInt 1)]))]))
   | CDescribeRouting n d \<Rightarrow> Ok (VPtr (VStruct [] [(''WorkerDeploymentInfo'', VPtr (VStruct [] [(''RoutingConfigUpdateState'', VInt 2)]))]))
   | _ \<Rightarrow> Ok VNil)"

definition sample_env :: "unit hook_env" where
  "sample_env = \<lparr>he_lib = sample_sdk, he_answer = (\<lambda>t c. (sample_answer c, t)), he_items = (\<lambda>_ _. []),
     he_query = (\<lambda>_ _ _. Ok (Ok VNil)), he_histories = (\<lambda>_ _. []), he_ticks = (\<lambda>_. (2, None)), he_stop_time = (\<lambda>_. 0),
     he_now = (\<lambda>_ _. 0), he_show = (\<lambda>_. [])\<rparr>"

definition sample_status :: status_lib where
  "sample_status = \<lparr>st_Running = 1, st_Terminated = 4, st_PropagationCompleted = 2, st_PropagationUnspecified = 0\<rparr>"

definition sample_state :: "'s \<Rightarrow> 's feature_state" where
  "sample_state t = harness_state.extend (calm_harness [])
     \<lparr>fs_server = t, fs_log = [], fs_BuildID = [], fs_UseBuildIDForVersioning = False, fs_second = False,
      fs_original = []\<rparr>"

definition impatient_env :: "unit hook_env" where
  "impatient_env = sample_env\<lparr>he_ticks := (\<lambda>_. (0, None))\<rparr>"

lemma sample_supports: "calm s \<Longrightarrow> \<exists>t. ServerSupportsDeployments sample_env s = (Ok True, t) \<and> calm t"
  by (simp add: ServerSupportsDeployments_def bindE_def attempt_def fdo_def fcall_def ret_def asks_def sample_env_def sample_answer_def)

lemma sample_running:
  "running_in sample_status sample_env run = holds_in sample_env (CDescribeWorkflow (wr_ID run) (wr_RunID run))
     (\<lambda>d. getter ''Status'' (getter ''WorkflowExecutionInfo'' d) = VInt 1)"
  by (rule ext) (simp add: running_in_def holds_in_def bindE_def attempt_def fcall_def sample_env_def sample_answer_def sample_status_def
      getter_def get_field_def)

lemma sample_succeeds: "succeeds (Execute_ramp sample_status sample_env r dn)"
proof -
  have ticks: "0 < fst (he_ticks sample_env t)" for t by (simp add: sample_env_def)
  have answers: "\<exists>v. fst (he_answer sample_env t c) = Ok v" for t c
    by (simp add: sample_env_def sample_answer_def split: feature_call.splits)
  have seen: "\<exists>v. fst (he_answer sample_env t c) = Ok v \<and> Q v" if "sample_answer c = Ok v" "Q v" for t c Q v
    using that by (simp add: sample_env_def)
  have deployment: "succeeds (WaitForDeployment sample_env dn)" "succeeds (WaitForDeploymentVersion sample_env dn (v1 dn))"
    "succeeds (WaitForDeploymentVersion sample_env dn (v2 dn))"
    unfolding WaitForDeployment_def WaitForDeploymentVersion_def
    by (rule succeeds_do_until [OF ticks seen], simp add: sample_answer_def,
      simp add: has_version_def field_of_def get_field_def elements_def version_of_def text_of_def v1_def v2_def)+
  have routing: "succeeds (WaitForRoutingConfigPropagation sample_status sample_env r dn)"
    "succeeds (WaitForWorkflowRunning sample_status sample_env run)" for run
    unfolding WaitForRoutingConfigPropagation_def WaitForWorkflowRunning_def sample_running
    by (rule succeeds_do_until [OF ticks seen], simp add: sample_answer_def,
      simp add: propagated_def getter_def get_field_def sample_status_def)+
  show ?thesis
    unfolding Execute_ramp_def routing_execute_def SetCurrent_def SetRamp_def with_run_def signal_def
    by (rule succeeds_known [OF _ sample_supports]) (auto intro!: succeeds_intros answers deployment routing)
qed

section \<open>Properties\<close>

text \<open>
  C35: the routing is changed before the workflow is told to go on. When one of the three scripts that change the
  routing while the workflow runs succeeds, its log ends with the change to version 2.0 and, after it,
  nothing but descriptions of the routing and the signal. The change was asked for directly after a
  description that lists version 2.0, and the signal was sent directly after a description that shows
  the change propagated; before the change there is the start of the workflow and no signal.
\<close>

theorem routing_before_signal:
  assumes "(hook, change) \<in> {(Execute_auto_upgrade N E r dn, CSetCurrent dn ''2.0''),
      (Execute_pinned N E r dn, CSetCurrent dn ''2.0''), (Execute_ramp N E r dn, \<lambda>t. CSetRamp dn ''2.0'' t 100)}"
    and "hook s = (Ok x, s')"
  shows "\<exists>run earlier cs t. x = Some run \<and>
    fs_log s' = fs_log s @ earlier @ cs @ [CSignal (wr_ID run) (wr_RunID run) ''start-signal'' (VStr ''prefix'')] \<and>
    list_all no_signal earlier \<and> CStartWorkflow ''workflow_1'' ''WaitForSignal'' None \<in> set earlier \<and>
    changes_routing N E (hc_Namespace (rn_Config r)) dn (v2 dn) change cs t \<and>
    (\<exists>v. he_answer E t (CSignal (wr_ID run) (wr_RunID run) ''start-signal'' (VStr ''prefix'')) = (Ok v, fs_server s'))"
proof -
  obtain m where m: "hook = routing_execute N E r dn (v1 dn) None m"
    "m = SetCurrent N E r dn (v2 dn) \<and> change = CSetCurrent dn ''2.0'' \<or>
     m = SetRamp N E r dn (v2 dn) 100 \<and> change = (\<lambda>t. CSetRamp dn ''2.0'' t 100)"
    using assms(1) by (auto simp: Execute_auto_upgrade_def Execute_pinned_def Execute_ramp_def)
  from routing_steps [OF assms(2) [unfolded m(1)]] obtain run earlier s1 s2 where
    l: "x = Some run" "m s1 = (Ok (), s2)" "fs_log s1 = fs_log s @ earlier" "list_all no_signal earlier"
      "CStartWorkflow ''workflow_1'' ''WaitForSignal'' None \<in> set earlier"
      "fs_log s' = fs_log s2 @ [CSignal (wr_ID run) (wr_RunID run) ''start-signal'' (VStr ''prefix'')]"
      "\<exists>v. he_answer E (fs_server s2) (CSignal (wr_ID run) (wr_RunID run) ''start-signal'' (VStr ''prefix'')) = (Ok v, fs_server s')" .
  have "\<exists>cs. fs_log s2 = fs_log s1 @ cs \<and> changes_routing N E (hc_Namespace (rn_Config r)) dn (v2 dn) change cs (fs_server s2)"
    using m(2) SetCurrent_changes [of N E r dn "v2 dn" s1 s2] SetRamp_changes [of N E r dn "v2 dn" 100 s1 s2] l(2)
    by (auto simp: v2_def)
  then obtain cs where "fs_log s2 = fs_log s1 @ cs" "changes_routing N E (hc_Namespace (rn_Config r)) dn (v2 dn) change cs (fs_server s2)"
    by blast
  then show ?thesis
    using l by (intro exI [of _ run] exI [of _ earlier] exI [of _ cs] exI [of _ "fs_server s2"]) simp
qed

theorem routing_before_signal_witness:
  "\<exists>x s'. Execute_ramp sample_status sample_env sample_runner ''d'' (sample_state ()) = (Ok x, s') \<and>
     (\<exists>run earlier cs t. x = Some run \<and>
       fs_log s' = earlier @ cs @ [CSignal (wr_ID run) (wr_RunID run) ''start-signal'' (VStr ''prefix'')] \<and>
       list_all no_signal earlier \<and> CStartWorkflow ''workflow_1'' ''WaitForSignal'' None \<in> set earlier \<and>
       changes_routing sample_status sample_env [] ''d'' (v2 ''d'') (\<lambda>t. CSetRamp ''d'' ''2.0'' t 100) cs t \<and>
       (\<exists>v. he_answer sample_env t (CSignal (wr_ID run) (wr_RunID run) ''start-signal'' (VStr ''prefix'')) = (Ok v, fs_server s')))"
proof -
  have "calm (sample_state ())"
    by (simp add: calm_def sample_state_def calm_harness_def calm_net_def harness_state.defs net_world.defs world.defs)
  then obtain x s' where run: "Execute_ramp sample_status sample_env sample_runner ''d'' (sample_state ()) = (Ok x, s')"
    using sample_succeeds [of sample_runner "''d''"] by (blast elim: succeedsE)
  have none: "fs_log (sample_state ()) = []" "hc_Namespace (rn_Config sample_runner) = []"
    by (simp_all add: sample_state_def harness_state.defs sample_runner_def sample_config_def)
  have "(Execute_ramp sample_status sample_env sample_runner ''d'', \<lambda>t. CSetRamp ''d'' ''2.0'' t 100) \<in>
      {(Execute_auto_upgrade sample_status sample_env sample_runner ''d'', CSetCurrent ''d'' ''2.0''),
       (Execute_pinned sample_status sample_env sample_runner ''d'', CSetCurrent ''d'' ''2.0''),
       (Execute_ramp sample_status sample_env sample_runner ''d'', \<lambda>t. CSetRamp ''d'' ''2.0'' t 100)}" by simp
  note routing_before_signal [OF this run, unfolded none append_Nil]
  with run show ?thesis by (intro exI [of _ x] exI [of _ s'] conjI)
qed

text \<open>
  C36: the second worker of a routing feature outlives a run that fails. When the server supports
  deployments and the worker starts, it still runs after the whole run of the feature exactly when the
  run failed before its history was checked, in the hook itself or in the check of its result:
  only the check of the history stops it, and the run closes its own worker and client only.
\<close>

theorem second_worker_outlives:
  assumes "h \<in> {Execute_auto_upgrade N E q dn, Execute_pinned N E q dn, Execute_override N E q dn, Execute_ramp N E q dn}"
    and "fd_Execute (pf_Feature (rn_Feature r)) = Some (\<lambda>c. h)" "fd_CheckResult (pf_Feature (rn_Feature r)) = None"
    and "fd_CheckHistory (pf_Feature (rn_Feature r)) = Some (\<lambda>c. CheckHistory_second P L fetch q)"
    and "ServerSupportsDeployments E s = (Ok True, s0)" "start_second E ''2.0'' s0 = (Ok (), s1)" "h s = (y, s2)"
  shows "fs_second (snd (RunRunner P L fetch r s)) \<longleftrightarrow>
    \<not> (\<exists>run. y = Ok (Some run) \<and> fst (CheckResultDefault L r run s2) = Ok ())"
proof -
  obtain first override change where h: "h = routing_execute N E q dn first override change" "keeps fs_second change"
    using assms(1) unfolding Execute_auto_upgrade_def Execute_pinned_def Execute_override_def Execute_ramp_def
    by (auto intro: keeps_intros)
  have start: "start_second E (dv_BuildID (v2 dn)) s0 = (Ok (), s1)" using assms(6) by (simp add: v2_def)
  have "fs_second s1" using assms(6) by (auto simp: start_second_def thenE_Ok_iff upd_def)
  with routing_second [OF h(2) assms(5) start] assms(7) h(1) have "fs_second s2 \<and> y \<noteq> Ok None" by blast
  with second_after_run [OF assms(2-4,7)] show ?thesis by blast
qed

definition routing_feature :: "unit feature_state PreparedFeature" where
  "routing_feature = \<lparr>pf_Feature = zero_feature\<lparr>
       fd_Execute := Some (\<lambda>c. Execute_pinned sample_status impatient_env sample_runner ''d''),
       fd_CheckHistory := Some (\<lambda>c. CheckHistory_second sample_proto sample_sdk (\<lambda>_. Ok []) sample_runner)\<rparr>,
     pf_Dir = [], pf_AbsDir = [], pf_Workflows = [], pf_Activities = [], pf_NexusServices = []\<rparr>"

theorem second_worker_outlives_witness:
  "fs_second (snd (RunRunner sample_proto sample_sdk (\<lambda>_. Ok [])
     \<lparr>rn_Config = sample_config, rn_Feature = routing_feature, rn_CreateTime = []\<rparr> (sample_state ())))"
proof -
  let ?s = "sample_state ()"
  obtain s0 where s0: "ServerSupportsDeployments impatient_env ?s = (Ok True, s0)"
    by (simp add: ServerSupportsDeployments_def bindE_def attempt_def fdo_def fcall_def ret_def asks_def impatient_env_def
        sample_env_def sample_answer_def)
  obtain s1 where s1: "start_second impatient_env ''2.0'' s0 = (Ok (), s1)"
    by (simp add: start_second_def thenE_def bindE_def fdo_def fcall_def ret_def upd_def impatient_env_def sample_env_def sample_answer_def)
  have "WaitForDeployment impatient_env ''d'' s1 = (Err (Errorf ''timeout waiting for condition to be met'' []), s1)"
    by (simp add: WaitForDeployment_def do_until_def wait_events_def impatient_env_def)
  then have y: "Execute_pinned sample_status impatient_env sample_runner ''d'' ?s =
      (Err (Errorf ''timeout waiting for condition to be met'' []), s1)"
    using s0 s1 by (simp add: Execute_pinned_def routing_execute_def SetCurrent_def bindE_def thenE_def v2_def)
  show ?thesis
    using second_worker_outlives [where h = "Execute_pinned sample_status impatient_env sample_runner ''d''" and r = "\<lparr>rn_Config = sample_config, rn_Feature = routing_feature, rn_CreateTime = []\<rparr>"
        and L = sample_sdk and P = sample_proto and fetch = "\<lambda>_. Ok []" and N = sample_status and q = sample_runner and dn = "''d''", OF _ _ _ _ s0 s1 y]
    by (simp add: routing_feature_def zero_feature_def)
qed

end
