(* ===== verification/Feature_Converters.thy ===== *)
theory Feature_Converters
  imports Feature_Payloads Feature_Versions
begin

text \<open>
  The checks of the Go features about data converters (\<open>features/data_converter\<close>): \<open>json\<close>, \<open>json_protobuf\<close>,
  \<open>binary\<close>, \<open>binary_protobuf\<close>, \<open>empty\<close>, \<open>failure\<close> and \<open>codec\<close>, whose codec is in \<open>Feature_Payloads\<close>. What the client
  answers about the run and what protobuf reads are parameters; JSON is read as in \<open>Go_Json\<close>, files as in
  \<open>Go_Os\<close>.
\<close>

section \<open>The run of a workflow\<close>

text \<open>The client's answers: the result, converted to the type the check wants, and the histories by filter.\<close>

datatype history_filter = UnspecifiedFilter | AllEvent | CloseEvent

record 'v finished_run =
  fr_result :: "'v res"
  fr_history :: "history_filter \<Rightarrow> gval res list"

definition result_payload :: "'v finished_run \<Rightarrow> gval res" where
  "result_payload run = GetWorkflowResultPayload (fr_history run CloseEvent)"

definition argument_payload :: "'v finished_run \<Rightarrow> gval res" where
  "argument_payload run = GetWorkflowArgumentPayload (fr_history run AllEvent)"

text \<open>A payload of the history, and \<open>proto.Equal\<close> on payloads.\<close>

definition payload_in :: "gval \<Rightarrow> payload" where
  "payload_in v =
     \<lparr>py_Metadata = (case getter ''Metadata'' v of VMap kvs \<Rightarrow> map (\<lambda>(k, x). (k, text_of x)) kvs | _ \<Rightarrow> []),
      py_Data = text_of (getter ''Data'' v)\<rparr>"

definition metadata :: "string \<Rightarrow> payload \<Rightarrow> string" where
  "metadata k p = (case map_of (py_Metadata p) k of Some x \<Rightarrow> x | None \<Rightarrow> [])"

definition payload_equal :: "payload \<Rightarrow> payload \<Rightarrow> bool" where
  "payload_equal p q = (map_of (py_Metadata p) = map_of (py_Metadata q) \<and> py_Data p = py_Data q)"

text \<open>A blob of the API, and what protobuf and its JSON read.\<close>

record data_blob =
  db_EncodingType :: int
  db_Data :: string

record converter_api = payload_api +
  ca_json_payload :: "string \<Rightarrow> go_error + payload"
  ca_json_blob :: "string \<Rightarrow> go_error + data_blob"
  ca_blob :: "string \<Rightarrow> go_error + data_blob"

definition deadbeef :: string where
  "deadbeef = map char_of [0xde, 0xad, 0xbe, 0xef :: nat]"

definition expected_blob :: data_blob where
  "expected_blob = \<lparr>db_EncodingType = 0, db_Data = deadbeef\<rparr>"

section \<open>The checks\<close>

text \<open>The last step of the echo workflows: the argument went over the wire as the result did.\<close>

definition same_argument :: "sdk_lib \<Rightarrow> 'v finished_run \<Rightarrow> payload \<Rightarrow> ('w, unit) io" where
  "same_argument L run p =
     bindE (of_res (argument_payload run)) (\<lambda>payloadArg. require_that L ''Should be true'' (payload_equal p (payload_in payloadArg)))"

text \<open>The type \<open>Message\<close> is a struct with one field, \<open>spec\<close>.\<close>

definition read_message :: "string \<Rightarrow> bool res" where
  "read_message contents = (case parse_res contents of
     Ok j \<Rightarrow> decode_struct (\<lambda>k v m. if fold_eq k ''spec'' then set_bool (\<lambda>b _. b) v m else Ok m) j False
   | Err e \<Rightarrow> Err e | Panic e \<Rightarrow> Panic e)"

definition CheckResult_json :: "sdk_lib \<Rightarrow> bool finished_run \<Rightarrow> ('w, unit) io" where
  "CheckResult_json L run =
     bindE (of_res (fr_result run)) (\<lambda>result.
     thenE (require_that L ''Not equal'' (result = True))
    (bindE (of_res (result_payload run)) (\<lambda>p. let payload = payload_in p in
     thenE (require_that L ''Not equal'' (metadata ''encoding'' payload = ''json/plain''))
    (bindE (of_res (read_message (py_Data payload))) (\<lambda>resultInHistory.
     thenE (require_that L ''Not equal'' (resultInHistory = result))
           (same_argument L run payload))))))"

definition CheckResult_codec :: "payload_api \<Rightarrow> sdk_lib \<Rightarrow> bool finished_run \<Rightarrow> ('w, unit) io" where
  "CheckResult_codec A L run =
     bindE (of_res (fr_result run)) (\<lambda>result.
     thenE (require_that L ''Not equal'' (result = True))
    (bindE (of_res (result_payload run)) (\<lambda>p. let payload = payload_in p in
     thenE (require_that L ''Not equal'' (metadata ''encoding'' payload = my_encoding))
    (bindE (of_sum (decodeBase64 (py_Data payload))) (\<lambda>extractedData.
     bindE (of_sum (pa_Unmarshal A extractedData)) (\<lambda>innerPayload.
     thenE (require_that L ''Not equal'' (metadata ''encoding'' innerPayload = ''json/plain''))
    (bindE (of_res (read_message (py_Data innerPayload))) (\<lambda>resultInHistory.
     thenE (require_that L ''Not equal'' (resultInHistory = result))
           (same_argument L run payload)))))))))"

text \<open>The checks of \<open>json_protobuf\<close> and \<open>binary_protobuf\<close> differ in the encoding and in how the data is read.\<close>

definition check_blob ::
  "string \<Rightarrow> (string \<Rightarrow> go_error + data_blob) \<Rightarrow> sdk_lib \<Rightarrow> data_blob finished_run \<Rightarrow> ('w, unit) io" where
  "check_blob encoding Unmarshal L run =
     bindE (of_res (fr_result run)) (\<lambda>result.
     thenE (require_that L ''Should be true'' (result = expected_blob))
    (bindE (of_res (result_payload run)) (\<lambda>p. let payload = payload_in p in
     thenE (require_that L ''Not equal'' (metadata ''encoding'' payload = encoding))
    (thenE (require_that L ''Not equal'' (metadata ''messageType'' payload = ''temporal.api.common.v1.DataBlob''))
    (bindE (of_sum (Unmarshal (py_Data payload))) (\<lambda>resultInHistory.
     thenE (require_that L ''Should be true'' (result = resultInHistory))
           (same_argument L run payload)))))))"

definition CheckResult_json_protobuf :: "converter_api \<Rightarrow> sdk_lib \<Rightarrow> data_blob finished_run \<Rightarrow> ('w, unit) io" where
  "CheckResult_json_protobuf A L run = check_blob ''json/protobuf'' (ca_json_blob A) L run"

definition CheckResult_binary_protobuf :: "converter_api \<Rightarrow> sdk_lib \<Rightarrow> data_blob finished_run \<Rightarrow> ('w, unit) io" where
  "CheckResult_binary_protobuf A L run = check_blob ''binary/protobuf'' (ca_blob A) L run"

text \<open>The checks of \<open>binary\<close> and \<open>empty\<close> compare with a payload in a file of the repository.\<close>

definition show_bytes :: "string \<Rightarrow> string" where
  "show_bytes bs = ''['' @ Join (map (\<lambda>c. show_nat (of_char c)) bs) '' '' @ '']''"

definition expect_payload :: "converter_api \<Rightarrow> sdk_lib \<Rightarrow> string \<Rightarrow> payload \<Rightarrow> ('z world_scheme, unit) io" where
  "expect_payload A L file payload =
     bindE (os_ReadFile file) (\<lambda>contents.
     bindE (of_sum (ca_json_payload A contents)) (\<lambda>expectedPayload.
       require_that L ''Should be true'' (payload_equal expectedPayload payload)))"

definition CheckResult_binary ::
  "converter_api \<Rightarrow> sdk_lib \<Rightarrow> string \<Rightarrow> string finished_run \<Rightarrow> ('z world_scheme, unit) io" where
  "CheckResult_binary A L absDir run =
     bindE (of_res (fr_result run)) (\<lambda>result.
       if result \<noteq> deadbeef then fail (Errorf ''invalid result: %v'' [show_bytes result])
       else bindE (of_res (result_payload run)) (\<lambda>p. let payload = payload_in p in
         thenE (expect_payload A L (PathJoin [absDir, ''../../../features/data_converter/binary/payload.json'']) payload)
               (same_argument L run payload)))"

definition CheckResult_empty ::
  "converter_api \<Rightarrow> sdk_lib \<Rightarrow> string \<Rightarrow> gval finished_run \<Rightarrow> ('z world_scheme, unit) io" where
  "CheckResult_empty A L absDir run = (let scheduled = attributes_of ''ActivityTaskScheduledEventAttributes'' in
     bindE (of_res (fr_result run)) (\<lambda>result.
     thenE (require_that L ''Expected nil'' (result = VNil))
    (bindE (of_res (FindEvent (fr_history run UnspecifiedFilter) (\<lambda>ev. scheduled ev \<noteq> VNil))) (\<lambda>found.
     case found of
       None \<Rightarrow> fail (Errorf ''could not locate WorkflowExecutionCompleted event'' [])
     | Some event \<Rightarrow> bindE (of_res (first_payload ''Input'' (scheduled event))) (\<lambda>p.
         expect_payload A L (PathJoin [absDir, ''payload.json'']) (payload_in p))))))"

text \<open>
  \<open>failure\<close>: the fields are read without getters, so that a nil pointer panics; the errors of reading the encoded
  attributes are ignored, and what could be read is kept: a value that is no text reads as the empty text.
\<close>

definition deref :: "gval \<Rightarrow> ('w, gval) io" where
  "deref v = (case v of VPtr x \<Rightarrow> ret x | _ \<Rightarrow> panic nil_dereference)"

definition read_texts :: "string \<Rightarrow> (string \<times> string) list" where
  "read_texts contents = (case json_parse contents of
     Some (JObj ms) \<Rightarrow> fold (\<lambda>(k, v). map_put k (case v of JStr s \<Rightarrow> s | _ \<Rightarrow> [])) ms []
   | _ \<Rightarrow> [])"

definition checkFailure :: "sdk_lib \<Rightarrow> gval \<Rightarrow> string \<Rightarrow> string \<Rightarrow> ('w, unit) io" where
  "checkFailure L failure message stacktrace =
     bindE (deref failure) (\<lambda>f.
     thenE (require_that L ''Not equal'' (text_of (field_of ''Message'' f) = ''Encoded failure''))
    (thenE (require_that L ''Not equal'' (text_of (field_of ''StackTrace'' f) = []))
    (bindE (deref (field_of ''EncodedAttributes'' f)) (\<lambda>attributes. let p = payload_in (VPtr attributes); data = read_texts (py_Data p) in
     thenE (require_that L ''Not equal'' (metadata ''encoding'' p = ''json/plain''))
    (thenE (require_that L ''Not equal'' (map_of data ''message'' = Some message \<or> map_of data ''message'' = None \<and> message = []))
           (require_that L ''Not equal'' (map_of data ''stack_trace'' = Some stacktrace \<or> map_of data ''stack_trace'' = None \<and> stacktrace = [])))))))"

definition CheckResult_failure :: "sdk_lib \<Rightarrow> unit finished_run \<Rightarrow> ('w, unit) io" where
  "CheckResult_failure L run = (let failed = attributes_of ''WorkflowExecutionFailedEventAttributes'' in
     thenE (require_that L ''Expected value not to be nil.'' (case fr_result run of Err e \<Rightarrow> True | _ \<Rightarrow> False))
    (bindE (of_res (FindEvent (fr_history run UnspecifiedFilter) (\<lambda>ev. failed ev \<noteq> VNil))) (\<lambda>found.
     case found of
       None \<Rightarrow> fail (Errorf ''could not locate WorkflowExecutionFailed event'' [])
     | Some event \<Rightarrow>
         let failure = getter ''Failure'' (failed event) in
         thenE (checkFailure L failure ''main error'' [])
        (bindE (deref failure) (\<lambda>f. checkFailure L (field_of ''Cause'' f) ''cause error'' [])))))"

section \<open>Lemmas\<close>

lemma require_that_Ok: "require_that L t b w = (Ok (), w') \<longleftrightarrow> b \<and> w' = w"
  by (auto simp: require_that_def FailNow_def ret_def panic_def)

lemma require_that_steps: "thenE (require_that L t b) k w = (Ok x, w') \<longleftrightarrow> b \<and> k w = (Ok x, w')"
  by (auto simp: require_that_def FailNow_def thenE_def bindE_def ret_def panic_def)

lemma of_res_steps: "bindE (of_res r) k w = (Ok x, w') \<longleftrightarrow> (\<exists>a. r = Ok a \<and> k a w = (Ok x, w'))"
  by (cases r) (auto simp: bindE_def of_res_def)

lemma of_sum_steps: "bindE (of_sum r) k w = (Ok x, w') \<longleftrightarrow> (\<exists>a. r = Inr a \<and> k a w = (Ok x, w'))"
  by (cases r) (auto simp: bindE_def of_sum_def ret_def fail_def)

lemmas check_steps = require_that_Ok require_that_steps of_res_steps of_sum_steps

lemma same_argument_Ok:
  "same_argument L run p w = (Ok (), w') \<longleftrightarrow> w' = w \<and> (\<exists>a. argument_payload run = Ok a \<and> payload_equal p (payload_in a))"
  by (auto simp: same_argument_def check_steps)

lemma metadata_my_encoding: "metadata ''encoding'' p = my_encoding \<longleftrightarrow> map_of (py_Metadata p) ''encoding'' = Some my_encoding"
  by (auto simp: metadata_def my_encoding_def split: option.splits)

lemma Decode_one:
  "map_of (py_Metadata p) ''encoding'' = Some my_encoding \<Longrightarrow>
     Decode A [p] = ([q], None) \<longleftrightarrow> (\<exists>dst. decodeBase64 (py_Data p) = Inr dst \<and> pa_Unmarshal A dst = Inr q)"
  by (auto simp: Decode_def with_error_def split: sum.splits)

section \<open>What the checks accept\<close>

text \<open>
  The check of \<open>codec\<close> accepts what the codec makes. It succeeds exactly when the client read
  \<open>{"spec": true}\<close>, the result in the history has the encoding of the codec, decoding it with the codec gives a
  payload in plain JSON that says the same, and the argument is in the history as the result is.
\<close>

lemma codec_check_accepts:
  shows "CheckResult_codec A L run w = (Ok (), w') \<longleftrightarrow> w' = w \<and> fr_result run = Ok True \<and>
      (\<exists>p a q. result_payload run = Ok p \<and> argument_payload run = Ok a \<and> payload_equal (payload_in p) (payload_in a) \<and>
        map_of (py_Metadata (payload_in p)) ''encoding'' = Some my_encoding \<and> Decode A [payload_in p] = ([q], None) \<and>
        metadata ''encoding'' q = ''json/plain'' \<and> read_message (py_Data q) = Ok True)"
  by (auto simp: CheckResult_codec_def Let_def check_steps same_argument_Ok metadata_my_encoding Decode_one)
    (intro exI [of _ True] TrueI)

text \<open>So it accepts a run whose argument and result the codec encoded from such a payload.\<close>

lemma encoded_run_accepted:
  assumes "pa_Marshal A q = Inr b" "pa_Unmarshal A b = Inr q"
    and "metadata ''encoding'' q = ''json/plain''" "read_message (py_Data q) = Ok True" "fr_result run = Ok True"
    and "result_payload run = Ok p" "argument_payload run = Ok a"
    and "Encode A [q] = ([payload_in p], None)" "Encode A [q] = ([payload_in a], None)"
  shows "CheckResult_codec A L run w = (Ok (), w)"
proof -
  have p: "payload_in p = \<lparr>py_Metadata = [(''encoding'', my_encoding)], py_Data = b64_encode b\<rparr>" "payload_in p = payload_in a"
    using assms(1,8,9) by (simp_all add: Encode_def with_error_def)
  then have "Decode A [payload_in p] = ([q], None)"
    using assms(2) by (simp add: Decode_def with_error_def decodeBase64_def b64_roundtrip)
  then show ?thesis
    unfolding codec_check_accepts using assms p by (auto simp: payload_equal_def)
qed

lemma check_blob_accepts:
  "check_blob encoding U L run w = (Ok (), w') \<longleftrightarrow> w' = w \<and> fr_result run = Ok expected_blob \<and>
      (\<exists>p a. result_payload run = Ok p \<and> argument_payload run = Ok a \<and> payload_equal (payload_in p) (payload_in a) \<and>
        metadata ''encoding'' (payload_in p) = encoding \<and>
        metadata ''messageType'' (payload_in p) = ''temporal.api.common.v1.DataBlob'' \<and>
        U (py_Data (payload_in p)) = Inr expected_blob)"
  by (auto simp: check_blob_def Let_def check_steps same_argument_Ok)

end
