(* ===== verification/Feature_Shutdown.thy ===== *)
theory Feature_Shutdown
  imports Feature_Versions Feature_Config
begin

text \<open>
  The Go features that stop their worker or remove what they ran. \<open>poll_complete_on_shutdown\<close>
  (\<open>features/worker_shutdown\<close>): five workflows, a worker that is stopped under them, and a verdict that
  depends on a capability the runner of the features found (\<open>Namespace_Setup\<close>, \<open>Feature_Config\<close>) and told
  the harness in a variable of the environment. \<open>features/activity/shutdown\<close>: a worker that is stopped and
  started again under activities. \<open>features/reset/reset_and_delete\<close>: a workflow that is driven, reset,
  finished and deleted.
\<close>

section \<open>Polling to the end\<close>

definition workflowCount :: nat where "workflowCount = 5"

text \<open>Milliseconds.\<close>

definition shutdownTimeout :: int where "shutdownTimeout = 5000"
definition historyTimeout :: nat where "historyTimeout = 15000"

text \<open>The numbers of the types of events the features look for.\<close>

record event_lib =
  ev_WorkflowTaskFailed :: int
  ev_WorkflowTaskTimedOut :: int
  ev_WorkflowExecutionTerminated :: int

fun any_problem :: "event_lib \<Rightarrow> gval res list \<Rightarrow> bool res" where
  "any_problem V [] = Ok False"
| "any_problem V (Ok event # iter) =
     (if event_type event \<in> {ev_WorkflowTaskFailed V, ev_WorkflowTaskTimedOut V} then Ok True else any_problem V iter)"
| "any_problem V (Err e # iter) = Err e"
| "any_problem V (Panic e # iter) = Panic e"

definition hasWorkflowTaskProblem ::
  "event_lib \<Rightarrow> 's hook_env \<Rightarrow> workflow_run \<Rightarrow> (('s, 'z) feature_state_scheme, bool) io" where
  "hasWorkflowTaskProblem V E run =
     bindE (fitems E (CHistory (wr_ID run) (wr_RunID run))) (\<lambda>iter. of_res (any_problem V iter))"

definition assertNoWorkflowTaskProblems ::
  "event_lib \<Rightarrow> 's hook_env \<Rightarrow> workflow_run \<Rightarrow> (('s, 'z) feature_state_scheme, unit) io" where
  "assertNoWorkflowTaskProblems V E run =
     bindE (hasWorkflowTaskProblem V E run) (\<lambda>hasProblem.
       if hasProblem then fail (Errorf ''unexpected workflow task problem in %s'' [wr_ID run]) else ret ())"

text \<open>One pass over the runs, up to the first with a problem.\<close>

fun scan_runs :: "event_lib \<Rightarrow> 's hook_env \<Rightarrow> workflow_run list \<Rightarrow> (('s, 'z) feature_state_scheme, bool) io" where
  "scan_runs V E [] = ret False"
| "scan_runs V E (run # runs) =
     bindE (hasWorkflowTaskProblem V E run) (\<lambda>hasProblem. if hasProblem then ret True else scan_runs V E runs)"

text \<open>
  The passes: \<open>k\<close> more of them follow a pause of 200 ms before the deadline is over (\<open>None\<close>) or the
  context is done with an error.
\<close>

fun wait_problem ::
  "event_lib \<Rightarrow> 's hook_env \<Rightarrow> workflow_run list \<Rightarrow> nat \<Rightarrow> go_error option \<Rightarrow> (('s, 'z) feature_state_scheme, unit) io" where
  "wait_problem V E runs 0 over =
     bindE (scan_runs V E runs) (\<lambda>found.
       if found then ret ()
       else fail (case over of
           None \<Rightarrow> Errorf ''expected a workflow task failure or timeout within %s'' [''15s'']
         | Some e \<Rightarrow> e))"
| "wait_problem V E runs (Suc k) over =
     bindE (scan_runs V E runs) (\<lambda>found.
       if found then ret () else thenE (fsleep 200) (wait_problem V E runs k over))"

definition waitForAnyWorkflowTaskProblem ::
  "event_lib \<Rightarrow> 's hook_env \<Rightarrow> workflow_run list \<Rightarrow> (('s, 'z) feature_state_scheme, unit) io" where
  "waitForAnyWorkflowTaskProblem V E runs =
     bindE (asks (\<lambda>s. he_ticks E (fs_server s))) (\<lambda>(k, over). wait_problem V E runs k over)"

definition capability_name :: string where
  "capability_name = ''workerPollCompleteOnShutdown''"

definition expectWorkerPollCompleteOnShutdown :: "('z world_scheme, bool) io" where
  "expectWorkerPollCompleteOnShutdown =
     bindE (asks (Getenv ''FEATURE_NAMESPACE_CAPABILITIES'')) (\<lambda>capabilitiesJSON.
       if capabilitiesJSON = [] then fail (Errorf ''FEATURE_NAMESPACE_CAPABILITIES is required'' [])
       else bindE (wrapE ''invalid FEATURE_NAMESPACE_CAPABILITIES: %w'' []
           (of_res (case parse_res capabilitiesJSON of
              Ok j \<Rightarrow> decode_map decode_bool j [] | Err e \<Rightarrow> Err e | Panic e \<Rightarrow> Panic e))) (\<lambda>capabilities.
         case map_of capabilities capability_name of
           None \<Rightarrow> fail (Errorf ''FEATURE_NAMESPACE_CAPABILITIES missing workerPollCompleteOnShutdown'' [])
         | Some v \<Rightarrow> ret v))"

text \<open>The workflows are started one by one; the id is the directory of the feature and a fresh UUID.\<close>

fun start_runs :: "'v Runner \<Rightarrow> nat \<Rightarrow> workflow_run list \<Rightarrow> (('s, 'z) feature_state_scheme, workflow_run list) io" where
  "start_runs r 0 runs = ret runs"
| "start_runs r (Suc n) runs =
     bindE new_uuid (\<lambda>u.
     bindE (execute_workflow \<lparr>so_ID = Sprintf ''%s-%s'' [pf_Dir (rn_Feature r), u], so_TaskQueue = hc_TaskQueue (rn_Config r),
         so_WorkflowExecutionTimeout = 60000\<rparr> None ''Workflow'') (\<lambda>run.
       start_runs r n (runs @ [run])))"

definition terminate_runs :: "'s hook_env \<Rightarrow> workflow_run list \<Rightarrow> ('s, 'z) feature_state_scheme \<Rightarrow> ('s, 'z) feature_state_scheme" where
  "terminate_runs E runs s = fold (\<lambda>run s. snd (fcall E (CTerminate (wr_ID run) (wr_RunID run)) s)) runs s"

text \<open>How long stopping took is read off the state the worker was stopped in.\<close>

definition Execute_poll_complete ::
  "event_lib \<Rightarrow> 's hook_env \<Rightarrow> 'v Runner \<Rightarrow> (('s, 'z) feature_state_scheme, workflow_run option) io" where
  "Execute_poll_complete V E r =
     bindE (start_runs r workflowCount []) (\<lambda>runs.
     deferE (terminate_runs E runs)
      (thenE (for_each (wait_scheduled E) runs)
      (bindE (asks (\<lambda>s. he_stop_time E (fs_server s))) (\<lambda>elapsed.
       thenE stop_worker
      (if elapsed > shutdownTimeout
       then fail (Errorf ''worker shutdown took %s, expected <= %s'' [he_show E (VInt elapsed), ''5s''])
       else bindE expectWorkerPollCompleteOnShutdown (\<lambda>workerPollCompleteOnShutdown.
         thenE (if workerPollCompleteOnShutdown then for_each (assertNoWorkflowTaskProblems V E) runs
                else waitForAnyWorkflowTaskProblem V E runs)
               (ret None)))))))"

section \<open>Stopping a worker under its activities\<close>

definition Execute_activity_shutdown ::
  "'s hook_env \<Rightarrow> 'v Runner \<Rightarrow> (('s, 'z) feature_state_scheme, workflow_run option) io" where
  "Execute_activity_shutdown E r =
     with_run (execute_default r) (\<lambda>run.
       thenE (wait_scheduled E run)
      (thenE stop_worker
             (start_worker E r)))"

text \<open>
  The workflow, given how its three activities end: \<open>None\<close> without an error. Of an activity that does not
  fail at the end the text of a nil error is asked for.
\<close>

definition Workflow_activity_shutdown :: "go_error option \<Rightarrow> go_error option \<Rightarrow> go_error option \<Rightarrow> string res" where
  "Workflow_activity_shutdown fut fut1 fut2 =
     (case fut of
        Some e \<Rightarrow> Err (Errorf ''expected activity to succeed, got %v'' [error_text e])
      | None \<Rightarrow>
          (case fut1 of
             None \<Rightarrow> Err (Errorf ''expected activity to fail with 'worker is shutting down', got %v'' [''<nil>''])
           | Some e1 \<Rightarrow>
               if \<not> Contains (error_text e1) ''worker is shutting down''
               then Err (Errorf ''expected activity to fail with 'worker is shutting down', got %v'' [error_text e1])
               else (case fut2 of
                   None \<Rightarrow> Panic nil_func
                 | Some e2 \<Rightarrow>
                     if \<not> Contains (error_text e2) ''(type: ScheduleToClose)''
                     then Err (Errorf ''expected activity to fail with ScheduleToClose timeout, got %v'' [error_text e2])
                     else Ok ''done'')))"

section \<open>Resetting and deleting\<close>

definition SignalName :: string where "SignalName = ''drivesignal''"

definition drive :: "'s hook_env \<Rightarrow> workflow_run \<Rightarrow> string \<Rightarrow> (('s, 'z) feature_state_scheme, unit) io" where
  "drive E run text = signal E run SignalName (VStr text)"

text \<open>
  The run id is read from the run before the error of the start is looked at: with an error the run is
  nil. An empty run id names the latest run.
\<close>

definition Execute_reset_and_delete ::
  "enum_lib \<Rightarrow> 's hook_env \<Rightarrow> 'v Runner \<Rightarrow> (('s, 'z) feature_state_scheme, workflow_run option) io" where
  "Execute_reset_and_delete N E r =
     bindE (attempt (execute_default r)) (\<lambda>x.
       case x of
         Inl e \<Rightarrow> panic nil_func
       | Inr run \<Rightarrow>
           thenE (upd (\<lambda>s. s\<lparr>fs_original := wr_RunID run\<rparr>))
          (thenE (for_each (\<lambda>i. drive E run []) [0..<5])
          (thenE (fsleep 1000)
          (bindE (fitems E (CHistory (wr_ID run) (wr_RunID run))) (\<lambda>iter.
           bindE (of_res (findSecondWFTComplete N iter)) (\<lambda>foundID.
           thenE (fdo E (CReset (wr_ID run) (wr_RunID run) foundID))
          (let newRun = run\<lparr>wr_RunID := []\<rparr> in
           thenE (drive E newRun [])
          (thenE (drive E newRun ''finish'')
                 (ret (Some newRun))))))))))"

text \<open>The last item an iterator gives: nil without one, and after an error.\<close>

fun last_item :: "gval \<Rightarrow> gval res list \<Rightarrow> gval" where
  "last_item v [] = v"
| "last_item v (Ok w # iter) = last_item w iter"
| "last_item v (_ # iter) = VNil"

definition gone :: "'s hook_env \<Rightarrow> workflow_run \<Rightarrow> (('s, 'z) feature_state_scheme, bool) io" where
  "gone E run = bindE (attempt (fcall E (CDescribeWorkflow (wr_ID run) (wr_RunID run)))) (\<lambda>x.
     ret (case x of Inl e \<Rightarrow> has_kind NotFound e | Inr _ \<Rightarrow> False))"

definition eventually_holds ::
  "'s hook_env \<Rightarrow> (('s, 'z) feature_state_scheme, bool) io \<Rightarrow> (('s, 'z) feature_state_scheme, unit) io" where
  "eventually_holds E condition = bindE (attempt (do_until E condition)) (\<lambda>x.
     case x of Inr _ \<Rightarrow> ret () | Inl e \<Rightarrow> panic (Errorf ''%s'' [sl_assert (he_lib E) ''Condition never satisfied'']))"

definition listed_terminated :: "status_lib \<Rightarrow> gval \<Rightarrow> bool" where
  "listed_terminated S resp =
     (case elements (getter ''Executions'' resp) of [x] \<Rightarrow> getter ''Status'' x = VInt (st_Terminated S) | _ \<Rightarrow> False)"

text \<open>
  The outcome of the first wait, for the deletion to be taken, is overwritten by that of the second, for
  the run to be gone.
\<close>

definition CheckResult_reset_and_delete ::
  "event_lib \<Rightarrow> status_lib \<Rightarrow> 's hook_env \<Rightarrow> 'v Runner \<Rightarrow> workflow_run \<Rightarrow> (('s, 'z) feature_state_scheme, unit) io" where
  "CheckResult_reset_and_delete V S E r run =
     thenE (CheckResultDefault (he_lib E) r run)
    (bindE (attempt (do_until E (holds_in E (CDeleteWorkflow (wr_ID run) (wr_RunID run)) (\<lambda>_. True)))) (\<lambda>_.
     thenE (do_until E (gone E run))
    (bindE (asks fs_original) (\<lambda>originalRunID.
     bindE (fitems E (CHistory (wr_ID run) originalRunID)) (\<lambda>history.
     if event_type (last_item VNil history) \<noteq> ev_WorkflowExecutionTerminated V
     then fail (Errorf ''expected last event to be terminated'' [])
     else eventually_holds E (holds_in E (CListWorkflows (''WorkflowId = '' @ [squote] @ wr_ID run @ [squote])) (listed_terminated S)))))))"

text \<open>The workflow: it ends with the first signal whose text is not empty.\<close>

fun Workflow_reset :: "string list \<Rightarrow> string option" where
  "Workflow_reset [] = None"
| "Workflow_reset (text # signals) = (if text \<noteq> [] then Some [] else Workflow_reset signals)"

section \<open>Lemmas\<close>

subsection \<open>The capabilities, read back\<close>

lemma decode_bools:
  "\<exists>m'. decode_members (\<lambda>k v m. case decode_bool v of Ok a \<Rightarrow> Ok (map_put k a m) | Err e \<Rightarrow> Err e | Panic e \<Rightarrow> Panic e)
       (map (\<lambda>k. (k, JBool (g k))) ks) m = Ok m' \<and> (\<forall>k. map_of m' k = (if k \<in> set ks then Some (g k) else map_of m k))"
proof (induction ks arbitrary: m)
  case (Cons k ks)
  from Cons.IH [of "map_put k (g k) m"] show ?case
    by (auto simp: decode_bool_def map_of_map_put)
qed simp

lemma decode_capabilities:
  "\<exists>m. decode_map decode_bool (map_json JBool caps) [] = Ok m \<and> map_of m = map_of caps"
proof -
  from decode_bools [of "\<lambda>k. the (map_of caps k)" "sort (map fst caps)" "[]"] obtain m where
    m: "decode_map decode_bool (map_json JBool caps) [] = Ok m"
      "\<forall>k. map_of m k = (if k \<in> set (sort (map fst caps)) then Some (the (map_of caps k)) else None)"
    by (auto simp: decode_map_def map_json_def decode_struct_def)
  moreover have "map_of m k = map_of caps k" for k
  proof (cases "k \<in> fst ` set caps")
    case True
    then show ?thesis using m(2) by (cases "map_of caps k") (auto simp: map_of_eq_None_iff)
  next
    case False
    then show ?thesis using m(2) by (simp add: map_of_eq_None_iff [symmetric])
  qed
  ultimately show ?thesis by blast
qed

lemma expects_capability:
  assumes "Getenv ''FEATURE_NAMESPACE_CAPABILITIES'' w = Marshal (map_json JBool caps)"
  shows "expectWorkerPollCompleteOnShutdown w =
    (case map_of caps capability_name of
       None \<Rightarrow> Err (Errorf ''FEATURE_NAMESPACE_CAPABILITIES missing workerPollCompleteOnShutdown'' [])
     | Some v \<Rightarrow> Ok v, w)"
proof -
  obtain m where m: "decode_map decode_bool (map_json JBool caps) [] = Ok m" "map_of m = map_of caps"
    using decode_capabilities by blast
  have "wf_json (map_json JBool caps)" by (simp add: map_json_def list_all_iff)
  then have p: "parse_res (Marshal (map_json JBool caps)) = Ok (map_json JBool caps)"
    by (simp add: parse_res_def json_parse_Marshal)
  moreover have "Marshal (map_json JBool caps) \<noteq> []"
  proof
    assume "Marshal (map_json JBool caps) = []"
    with p show False by (simp add: parse_res_def json_parse_def skip_ws_def split: option.splits)
  qed
  ultimately show ?thesis
    by (simp add: expectWorkerPollCompleteOnShutdown_def assms m bindE_def wrapE_def of_res_def asks_def fail_def ret_def
        split: option.splits)
qed

subsection \<open>Starting and terminating\<close>

definition no_terminate :: "feature_call \<Rightarrow> bool" where
  "no_terminate c = (case c of CTerminate i r \<Rightarrow> False | _ \<Rightarrow> True)"

definition only_start :: "feature_call \<Rightarrow> bool" where
  "only_start c = (case c of CStartWorkflow i w v \<Rightarrow> True | _ \<Rightarrow> False)"

lemma start_runs_length: "start_runs r n runs s = (Ok rs, s') \<Longrightarrow> length rs = length runs + n"
proof (induction n arbitrary: runs s)
  case (Suc n)
  then obtain u run t where "start_runs r n (runs @ [run]) t = (Ok rs, s')"
    by (auto simp: bindE_Ok_iff)
  from Suc.IH [OF this] show ?case by simp
qed (simp add: ret_def)

lemma keeps_new_uuid: "(\<And>s n. f (s\<lparr>w_uuids := n\<rparr>) = f s) \<Longrightarrow> keeps f new_uuid"
  by (simp add: keeps_def new_uuid_def)

lemma logs_start_runs: "logs only_start (start_runs r n runs)"
  by (induction n arbitrary: runs)
    (auto simp: only_start_def intro!: logs_intros logs_keeps [OF keeps_new_uuid])

lemma log_terminate_runs:
  "fs_log (terminate_runs E runs s) = fs_log s @ map (\<lambda>run. CTerminate (wr_ID run) (wr_RunID run)) runs"
  by (induction runs arbitrary: s) (simp_all add: terminate_runs_def fcall_def split: prod.splits)

lemma logs_problems [logs_intros]:
  "(\<And>i w. Q (CHistory i w)) \<Longrightarrow> logs Q (hasWorkflowTaskProblem V E run)"
  "(\<And>i w. Q (CHistory i w)) \<Longrightarrow> logs Q (assertNoWorkflowTaskProblems V E run)"
  unfolding assertNoWorkflowTaskProblems_def hasWorkflowTaskProblem_def by (intro logs_intros; simp)+

lemma logs_scan [logs_intros]: "(\<And>i w. Q (CHistory i w)) \<Longrightarrow> logs Q (scan_runs V E runs)"
  by (induction runs) (auto intro!: logs_intros)

lemma logs_wait_problem:
  "(\<And>i w. Q (CHistory i w)) \<Longrightarrow> (\<And>n. Q (CSleep n)) \<Longrightarrow> logs Q (wait_problem V E runs k over)"
  by (induction k) (auto simp: fsleep_def intro!: logs_intros)

lemma logs_wait_any:
  "(\<And>i w. Q (CHistory i w)) \<Longrightarrow> (\<And>n. Q (CSleep n)) \<Longrightarrow> logs Q (waitForAnyWorkflowTaskProblem V E runs)"
  unfolding waitForAnyWorkflowTaskProblem_def
  by (intro logs_bindE logs_pure) (auto intro!: logs_wait_problem split: prod.splits)

lemma logs_expect: "logs Q expectWorkerPollCompleteOnShutdown"
  unfolding expectWorkerPollCompleteOnShutdown_def
  by (intro logs_intros) (auto intro: logs_intros split: option.splits)

text \<open>What the hook does between the start of its workflows and their end.\<close>

definition poll_body ::
  "event_lib \<Rightarrow> 's hook_env \<Rightarrow> workflow_run list \<Rightarrow> (('s, 'z) feature_state_scheme, workflow_run option) io" where
  "poll_body V E runs =
     thenE (for_each (wait_scheduled E) runs)
      (bindE (asks (\<lambda>s. he_stop_time E (fs_server s))) (\<lambda>elapsed.
       thenE stop_worker
      (if elapsed > shutdownTimeout
       then fail (Errorf ''worker shutdown took %s, expected <= %s'' [he_show E (VInt elapsed), ''5s''])
       else bindE expectWorkerPollCompleteOnShutdown (\<lambda>workerPollCompleteOnShutdown.
         thenE (if workerPollCompleteOnShutdown then for_each (assertNoWorkflowTaskProblems V E) runs
                else waitForAnyWorkflowTaskProblem V E runs)
               (ret None)))))"

lemma Execute_poll_complete_body:
  "Execute_poll_complete V E r = bindE (start_runs r workflowCount []) (\<lambda>runs. deferE (terminate_runs E runs) (poll_body V E runs))"
  unfolding Execute_poll_complete_def poll_body_def ..

lemma logs_poll_body: "logs no_terminate (poll_body V E runs)"
  unfolding poll_body_def
  by (intro logs_intros logs_expect logs_wait_any; simp add: no_terminate_def)

lemma deferE_iff: "deferE g m w = (x, w') \<longleftrightarrow> (\<exists>t. m w = (x, t) \<and> w' = g t)"
  by (auto simp: deferE_def split: prod.splits)

lemma succeeds_new_uuid [succeeds_intros]: "succeeds new_uuid"
  by (rule succeedsI) (simp add: new_uuid_def calm_def)

lemma succeeds_for_each [succeeds_intros]: "(\<And>x. succeeds (g x)) \<Longrightarrow> succeeds (for_each g xs)"
  by (induction xs) (simp_all add: succeeds_ret succeeds_thenE)

lemma succeeds_start_runs: "succeeds (start_runs r n runs)"
  by (induction n arbitrary: runs) (auto intro!: succeeds_intros)

lemma keeps_env_start_runs: "keeps w_env (start_runs r n runs)"
  by (induction n arbitrary: runs)
    (auto simp: execute_workflow_def log_call_def keeps_act intro!: keeps_intros keeps_new_uuid keeps_start_workflow)

subsection \<open>The verdict\<close>

definition is_problem :: "event_lib \<Rightarrow> gval \<Rightarrow> bool" where
  "is_problem V event = (event_type event \<in> {ev_WorkflowTaskFailed V, ev_WorkflowTaskTimedOut V})"

lemma any_problem_True: "any_problem V iter = Ok True \<Longrightarrow> \<exists>event. Ok event \<in> set iter \<and> is_problem V event"
  by (induction V iter rule: any_problem.induct) (auto simp: is_problem_def split: if_splits)

lemma any_problem_False: "any_problem V iter = Ok False \<Longrightarrow> \<forall>i \<in> set iter. \<exists>event. i = Ok event \<and> \<not> is_problem V event"
  by (induction V iter rule: any_problem.induct) (auto simp: is_problem_def split: if_splits)

text \<open>Some history of the run, as the service gave it, has a problem or is free of any.\<close>

definition problem_seen :: "event_lib \<Rightarrow> 's hook_env \<Rightarrow> workflow_run \<Rightarrow> bool" where
  "problem_seen V E run =
     (\<exists>t event. Ok event \<in> set (he_items E t (CHistory (wr_ID run) (wr_RunID run))) \<and> is_problem V event)"

definition no_problem_seen :: "event_lib \<Rightarrow> 's hook_env \<Rightarrow> workflow_run \<Rightarrow> bool" where
  "no_problem_seen V E run =
     (\<exists>t. \<forall>i \<in> set (he_items E t (CHistory (wr_ID run) (wr_RunID run))). \<exists>event. i = Ok event \<and> \<not> is_problem V event)"

lemma problem_reads:
  "hasWorkflowTaskProblem V E run s = (Ok b, s') \<Longrightarrow> (if b then problem_seen V E run else no_problem_seen V E run)"
  using any_problem_True any_problem_False
  by (fastforce simp: hasWorkflowTaskProblem_def bindE_def fitems_def of_res_def problem_seen_def no_problem_seen_def
      split: res.splits if_splits)

lemma assert_reads: "assertNoWorkflowTaskProblems V E run s = (Ok (), s') \<Longrightarrow> no_problem_seen V E run"
  by (auto simp: assertNoWorkflowTaskProblems_def bindE_Ok_iff fail_def split: if_splits dest!: problem_reads)

lemma for_each_Ok:
  "for_each g xs s = (Ok (), s') \<Longrightarrow> (\<And>x t t'. g x t = (Ok (), t') \<Longrightarrow> Q x) \<Longrightarrow> \<forall>x \<in> set xs. Q x"
  by (induction xs arbitrary: s) (auto simp: thenE_Ok_iff)

lemma scan_reads: "scan_runs V E runs s = (Ok True, s') \<Longrightarrow> \<exists>run \<in> set runs. problem_seen V E run"
proof (induction runs arbitrary: s)
  case (Cons run runs)
  then obtain b t where b: "hasWorkflowTaskProblem V E run s = (Ok b, t)"
    "(if b then ret True else scan_runs V E runs) t = (Ok True, s')" by (auto simp: bindE_Ok_iff)
  then show ?case using Cons.IH problem_reads [OF b(1)] by (cases b) auto
qed (simp add: ret_def)

lemma wait_reads: "wait_problem V E runs k over s = (Ok (), s') \<Longrightarrow> \<exists>run \<in> set runs. problem_seen V E run"
proof (induction k arbitrary: s)
  case 0
  then show ?case using scan_reads by (auto simp: bindE_Ok_iff fail_def split: if_splits)
next
  case (Suc k)
  then show ?case using scan_reads by (auto simp: bindE_Ok_iff thenE_Ok_iff split: if_splits)
qed

lemma expect_env:
  "w_env w = w_env w' \<Longrightarrow> fst (expectWorkerPollCompleteOnShutdown w) = fst (expectWorkerPollCompleteOnShutdown w')"
  by (auto simp: expectWorkerPollCompleteOnShutdown_def Getenv_def LookupEnv_def bindE_def asks_def fail_def wrapE_def of_res_def ret_def
      split: res.splits option.splits)

lemma w_env_StopWorker [simp]: "w_env (StopWorker s) = w_env s"
  by (simp add: StopWorker_def act_ignore_def)

lemma keeps_env_steps:
  "keeps w_env (for_each (wait_scheduled E) runs)" "keeps w_env stop_worker"
  by (intro keeps_for_each keeps_calls; simp add: log_call_def)
    (simp add: keeps_def stop_worker_def upd_def log_call_def)

text \<open>What a body that succeeds found.\<close>

lemma poll_body_Ok:
  assumes "poll_body V E runs s = (Ok z, s')"
  shows "z = None \<and> (\<exists>t. he_stop_time E t \<le> shutdownTimeout) \<and>
    (\<exists>v. fst (expectWorkerPollCompleteOnShutdown s) = Ok v \<and>
      (if v then \<forall>run \<in> set runs. no_problem_seen V E run else \<exists>run \<in> set runs. problem_seen V E run))"
proof -
  from assms obtain s1 s2 s3 s4 v where
    1: "for_each (wait_scheduled E) runs s = (Ok (), s1)" and 2: "stop_worker s1 = (Ok (), s2)" and
    t: "he_stop_time E (fs_server s1) \<le> shutdownTimeout" and
    3: "expectWorkerPollCompleteOnShutdown s2 = (Ok v, s3)" and
    4: "(if v then for_each (assertNoWorkflowTaskProblems V E) runs else waitForAnyWorkflowTaskProblem V E runs) s3 = (Ok (), s4)" and
    z: "z = None"
    by (auto simp: poll_body_def thenE_Ok_iff bindE_Ok_iff asks_def fail_def ret_def split: if_splits)
  have "w_env s2 = w_env s"
    using keepsD [OF keeps_env_steps(1) 1] keepsD [OF keeps_env_steps(2) 2] by simp
  then have "fst (expectWorkerPollCompleteOnShutdown s) = Ok v" using expect_env [of s2 s] 3 by simp
  moreover have "if v then \<forall>run \<in> set runs. no_problem_seen V E run else \<exists>run \<in> set runs. problem_seen V E run"
  proof (cases v)
    case True
    with 4 have "for_each (assertNoWorkflowTaskProblems V E) runs s3 = (Ok (), s4)" by simp
    then have "\<forall>run \<in> set runs. no_problem_seen V E run" by (rule for_each_Ok) (rule assert_reads)
    with True show ?thesis by simp
  next
    case False
    then show ?thesis using 4 wait_reads by (auto simp: waitForAnyWorkflowTaskProblem_def bindE_Ok_iff asks_def split: prod.splits)
  qed
  ultimately show ?thesis using z t by blast
qed

lemma sample_state_fields:
  "fs_log (sample_state t) = []" "calm (sample_state t)" "w_env (sample_state t) = []"
  by (simp_all add: calm_def sample_state_def calm_harness_def calm_net_def calm_world_def harness_state.defs net_world.defs world.defs)

subsection \<open>Driving\<close>

lemma fdo_fields: "fdo E c s = (Ok (), s') \<Longrightarrow> fs_log s' = fs_log s @ [c] \<and> fs_original s' = fs_original s"
  by (auto simp: fdo_def bindE_def ret_def fcall_def log_call_def split: prod.splits res.splits)

lemma drive_Ok:
  "drive E run text s = (Ok (), s') \<Longrightarrow>
     fs_log s' = fs_log s @ [CSignal (wr_ID run) (wr_RunID run) SignalName (VStr text)] \<and> fs_original s' = fs_original s"
  unfolding drive_def signal_def by (rule fdo_fields)

lemma drives_Ok:
  "for_each (\<lambda>i. drive E run []) xs s = (Ok (), s') \<Longrightarrow>
     fs_log s' = fs_log s @ map (\<lambda>text. CSignal (wr_ID run) (wr_RunID run) SignalName (VStr text)) (replicate (length xs) []) \<and>
     fs_original s' = fs_original s"
  by (induction xs arbitrary: s) (auto simp: thenE_Ok_iff ret_def dest!: drive_Ok)

text \<open>What a run of the script that succeeds did, given how the start of its workflow ended.\<close>

definition reset_rest ::
  "enum_lib \<Rightarrow> 's hook_env \<Rightarrow> workflow_run \<Rightarrow> (('s, 'z) feature_state_scheme, workflow_run option) io" where
  "reset_rest N E run =
     thenE (upd (\<lambda>s. s\<lparr>fs_original := wr_RunID run\<rparr>))
    (thenE (for_each (\<lambda>i. drive E run []) [0..<5])
    (thenE (fsleep 1000)
    (bindE (fitems E (CHistory (wr_ID run) (wr_RunID run))) (\<lambda>iter.
     bindE (of_res (findSecondWFTComplete N iter)) (\<lambda>foundID.
     thenE (fdo E (CReset (wr_ID run) (wr_RunID run) foundID))
    (let newRun = run\<lparr>wr_RunID := []\<rparr> in
     thenE (drive E newRun [])
    (thenE (drive E newRun ''finish'')
           (ret (Some newRun)))))))))"

lemma Execute_reset_rest:
  "Execute_reset_and_delete N E r =
     bindE (attempt (execute_default r)) (\<lambda>x. case x of Inl e \<Rightarrow> panic nil_func | Inr run \<Rightarrow> reset_rest N E run)"
  unfolding Execute_reset_and_delete_def reset_rest_def ..

lemma log_execute_default: "execute_default r s = (x, s') \<Longrightarrow> fs_log s' = fs_log s @ [CExecuteDefault]"
  using keepsD [OF keeps_feature_runner(3), of r "log_call CExecuteDefault s"]
  by (auto simp: execute_default_def thenE_def bindE_def upd_def)

lemma history_read:
  assumes "bindE (fitems E c) (\<lambda>iter. bindE (of_res (f iter)) k) s = (Ok x, s')"
  obtains y t where "fs_log t = fs_log s @ [c]" "fs_original t = fs_original s" "f (he_items E (fs_server s) c) = Ok y"
    "k y t = (Ok x, s')"
proof -
  let ?t = "(log_call c s)\<lparr>fs_server := snd (he_answer E (fs_server s) c)\<rparr>"
  from assms obtain y where "f (he_items E (fs_server s) c) = Ok y" "k y ?t = (Ok x, s')"
    by (auto simp: fitems_def of_res_def bindE_Ok_iff split: res.splits)
  then show thesis using that [of ?t y] by (simp add: log_call_def)
qed

lemma reset_rest_Ok:
  assumes "reset_rest N E run s = (Ok x, s')"
  shows "\<exists>t foundID. x = Some (run\<lparr>wr_RunID := []\<rparr>) \<and> fs_original s' = wr_RunID run \<and>
    findSecondWFTComplete N (he_items E t (CHistory (wr_ID run) (wr_RunID run))) = Ok foundID \<and>
    fs_log s' = fs_log s @ map (\<lambda>text. CSignal (wr_ID run) (wr_RunID run) SignalName (VStr text)) (replicate 5 []) @
      [CSleep 1000, CHistory (wr_ID run) (wr_RunID run), CReset (wr_ID run) (wr_RunID run) foundID] @
      map (\<lambda>text. CSignal (wr_ID run) [] SignalName (VStr text)) [[], ''finish'']"
proof -
  let ?c = "CHistory (wr_ID run) (wr_RunID run)"
  from assms obtain s1 s2 where
    1: "for_each (\<lambda>i. drive E run []) [0..<5] (s\<lparr>fs_original := wr_RunID run\<rparr>) = (Ok (), s1)" and
    2: "fsleep 1000 s1 = (Ok (), s2)" and
    3: "bindE (fitems E ?c) (\<lambda>iter. bindE (of_res (findSecondWFTComplete N iter)) (\<lambda>foundID.
       thenE (fdo E (CReset (wr_ID run) (wr_RunID run) foundID)) (let newRun = run\<lparr>wr_RunID := []\<rparr> in
       thenE (drive E newRun []) (thenE (drive E newRun ''finish'') (ret (Some newRun)))))) s2 = (Ok x, s')"
    unfolding reset_rest_def by (auto simp: thenE_Ok_iff upd_def)
  from history_read [OF 3] obtain foundID s3 where
    h: "fs_log s3 = fs_log s2 @ [?c]" "fs_original s3 = fs_original s2" "findSecondWFTComplete N (he_items E (fs_server s2) ?c) = Ok foundID"
    and 4: "thenE (fdo E (CReset (wr_ID run) (wr_RunID run) foundID)) (let newRun = run\<lparr>wr_RunID := []\<rparr> in
       thenE (drive E newRun []) (thenE (drive E newRun ''finish'') (ret (Some newRun)))) s3 = (Ok x, s')" .
  from 4 obtain s4 s5 where
    5: "fdo E (CReset (wr_ID run) (wr_RunID run) foundID) s3 = (Ok (), s4)" and
    6: "drive E (run\<lparr>wr_RunID := []\<rparr>) [] s4 = (Ok (), s5)" and
    7: "drive E (run\<lparr>wr_RunID := []\<rparr>) ''finish'' s5 = (Ok (), s')" and
    x: "x = Some (run\<lparr>wr_RunID := []\<rparr>)"
    by (auto simp: thenE_Ok_iff Let_def ret_def)
  have "fs_log s2 = fs_log s1 @ [CSleep 1000] \<and> fs_original s2 = fs_original s1"
    using 2 by (auto simp: fsleep_def upd_def log_call_def)
  then show ?thesis
    using drives_Ok [OF 1] h fdo_fields [OF 5] drive_Ok [OF 6] drive_Ok [OF 7] x
    by (intro exI [of _ "fs_server s2"] exI [of _ foundID]) (simp del: replicate.simps map_replicate)
qed

section \<open>Properties\<close>

text \<open>
  C37: the workflows of \<open>poll_complete_on_shutdown\<close> are terminated once they all started. If the five
  starts succeed, the hook ends, whichever way it ends, with the termination of the five runs, in the order of
  their starts, and terminates nothing before; if one of the starts fails, the hook ends with that
  failure and the workflows that were started before are not terminated.
\<close>

theorem poll_complete_cleans_up:
  assumes "Execute_poll_complete V E r s = (x, s')" "start_runs r workflowCount [] s = (y, s1)"
  shows "(\<forall>runs. y = Ok runs \<longrightarrow> length runs = 5 \<and>
       (\<exists>cs. list_all no_terminate cs \<and>
         fs_log s' = fs_log s @ cs @ map (\<lambda>run. CTerminate (wr_ID run) (wr_RunID run)) runs)) \<and>
     ((\<nexists>runs. y = Ok runs) \<longrightarrow> (\<forall>z. x \<noteq> Ok z) \<and> s' = s1 \<and> (\<exists>cs. list_all only_start cs \<and> fs_log s' = fs_log s @ cs))"
proof -
  from logsD [OF logs_start_runs assms(2)] obtain cs where cs: "fs_log s1 = fs_log s @ cs" "list_all only_start cs" by blast
  have starts: "list_all no_terminate cs"
    using cs(2) by (rule list.pred_mono_strong) (auto simp: only_start_def no_terminate_def split: feature_call.splits)
  show ?thesis
  proof (cases y)
    case (Ok runs)
    obtain z t where z: "poll_body V E runs s1 = (z, t)" by force
    with assms Ok have "s' = terminate_runs E runs t"
      by (simp add: Execute_poll_complete_body bindE_def deferE_def)
    moreover from logsD [OF logs_poll_body z] obtain ds where "fs_log t = fs_log s1 @ ds" "list_all no_terminate ds" by blast
    moreover have "length runs = 5" using start_runs_length assms(2) Ok by (fastforce simp: workflowCount_def)
    ultimately show ?thesis
      using Ok cs(1) starts by (auto simp: log_terminate_runs intro!: exI [of _ "cs @ ds"])
  qed (use assms cs in \<open>auto simp: Execute_poll_complete_body bindE_def\<close>)
qed

theorem poll_complete_cleans_up_witness:
  "\<exists>(runs::workflow_run list) cs. length runs = 5 \<and>
     fs_log (snd (Execute_poll_complete \<lparr>ev_WorkflowTaskFailed = 7, ev_WorkflowTaskTimedOut = 8, ev_WorkflowExecutionTerminated = 27\<rparr>
       impatient_env sample_runner (sample_state ()))) = cs @ map (\<lambda>run. CTerminate (wr_ID run) (wr_RunID run)) runs"
proof -
  let ?V = "\<lparr>ev_WorkflowTaskFailed = 7, ev_WorkflowTaskTimedOut = 8, ev_WorkflowExecutionTerminated = 27\<rparr>"
  obtain x s' where run: "Execute_poll_complete ?V impatient_env sample_runner (sample_state ()) = (x, s')" by force
  obtain runs s1 where "start_runs sample_runner workflowCount [] (sample_state ()) = (Ok runs, s1)"
    by (rule succeedsE [OF succeeds_start_runs sample_state_fields(2)])
  from poll_complete_cleans_up [OF run this] have "length runs = 5 \<and>
      (\<exists>cs. fs_log s' = cs @ map (\<lambda>run. CTerminate (wr_ID run) (wr_RunID run)) runs)"
    by (auto simp: sample_state_fields)
  then show ?thesis unfolding run snd_conv by blast
qed


text \<open>
  A service in which the tasks of the workflows fail, and a runner of features that told the harness that
  the namespace does not have the capability.
\<close>

definition failing_env :: "unit hook_env" where
  "failing_env = sample_env\<lparr>he_items := (\<lambda>t c. [Ok (VPtr (VStruct [] [(''EventType'', VInt 7)]))]),
     he_histories := (\<lambda>t n. [Ok (VPtr (VStruct [] [(''Attributes'', VIface (VPtr (VStruct
       ''history.HistoryEvent_ActivityTaskScheduledEventAttributes'' [(''ActivityTaskScheduledEventAttributes'', VPtr (VStruct [] []))])))]))])\<rparr>"

definition told_state :: "unit feature_state" where
  "told_state = (sample_state ())\<lparr>w_env := [(''FEATURE_NAMESPACE_CAPABILITIES'', Marshal (map_json JBool [(capability_name, False)]))]\<rparr>"

definition sample_events :: event_lib where
  "sample_events = \<lparr>ev_WorkflowTaskFailed = 7, ev_WorkflowTaskTimedOut = 8, ev_WorkflowExecutionTerminated = 27\<rparr>"

lemma failing_scheduled: "\<exists>t. wait_scheduled failing_env run s = (Ok (), t) \<and> w_env t = w_env s"
proof -
  have "fst (wait_scheduled failing_env run s) = Ok ()"
    by (simp add: wait_scheduled_def failing_env_def sample_env_def WaitForActivityTaskScheduled_def WaitForEvent_def wait_events_def
        numeral_2_eq_2 wait_tick_def attributes_of_def getter_def get_field_def Let_def)
  then show ?thesis
    by (intro exI [of _ "snd (wait_scheduled failing_env run s)"])
      (simp add: prod_eq_iff wait_scheduled_def Let_def log_call_def)
qed

lemma failing_each_scheduled: "\<exists>t. for_each (wait_scheduled failing_env) runs s = (Ok (), t) \<and> w_env t = w_env s"
proof (induction runs arbitrary: s)
  case (Cons run runs)
  from failing_scheduled [of run s] obtain t where t: "wait_scheduled failing_env run s = (Ok (), t)" "w_env t = w_env s" by blast
  with Cons.IH [of t] show ?case by (auto simp: thenE_def bindE_def)
qed (simp add: ret_def)

lemma failing_found: "runs \<noteq> [] \<Longrightarrow> \<exists>t. waitForAnyWorkflowTaskProblem sample_events failing_env runs s = (Ok (), t)"
  by (cases runs) (simp_all add: waitForAnyWorkflowTaskProblem_def bindE_def asks_def failing_env_def sample_env_def numeral_2_eq_2
      hasWorkflowTaskProblem_def fitems_def of_res_def event_type_def getter_def get_field_def sample_events_def ret_def)

lemma failing_passes:
  assumes "Getenv ''FEATURE_NAMESPACE_CAPABILITIES'' s = Marshal (map_json JBool [(capability_name, False)])" "runs \<noteq> []"
  shows "\<exists>t. poll_body sample_events failing_env runs s = (Ok None, t)"
proof -
  from failing_each_scheduled [of runs s] obtain t where t: "for_each (wait_scheduled failing_env) runs s = (Ok (), t)" "w_env t = w_env s"
    by blast
  let ?u = "StopWorker (log_call CStopWorker t)"
  have u: "stop_worker t = (Ok (), ?u)" by (simp add: stop_worker_def upd_def)
  have "Getenv ''FEATURE_NAMESPACE_CAPABILITIES'' ?u = Marshal (map_json JBool [(capability_name, False)])"
    using assms(1) t(2) by (simp add: Getenv_def LookupEnv_def log_call_def)
  from expects_capability [OF this] have e: "expectWorkerPollCompleteOnShutdown ?u = (Ok False, ?u)" by simp
  from failing_found [OF assms(2), of ?u] obtain v where
    v: "waitForAnyWorkflowTaskProblem sample_events failing_env runs ?u = (Ok (), v)" by blast
  have "he_stop_time failing_env a \<le> shutdownTimeout" for a
    by (simp add: failing_env_def sample_env_def shutdownTimeout_def)
  with t(1) u e v show ?thesis by (simp add: poll_body_def thenE_def bindE_def asks_def ret_def not_less)
qed


text \<open>
  C39: the capabilities reach the feature. Whatever map of capabilities a run expects of its namespace,
  the hook reads from its environment the value the map has for \<open>workerPollCompleteOnShutdown\<close>, or reports that the
  map has none: in this process, after the run set the variable, and in any process that is started with the
  environment the run gives its commands, whatever that variable was before.
\<close>

theorem capabilities_understood:
  assumes "caps \<noteq> []" "j = namespaceCapabilitiesEnv caps"
    and "answer = (case map_of caps ''workerPollCompleteOnShutdown'' of
        None \<Rightarrow> Err (Errorf ''FEATURE_NAMESPACE_CAPABILITIES missing workerPollCompleteOnShutdown'' []) | Some v \<Rightarrow> Ok v)"
    and "setNamespaceCapabilitiesEnv j w = (restore, w1)"
    and "LookupEnv featureNamespaceCapabilitiesEnv u =
        env_value featureNamespaceCapabilitiesEnv (c_env (applyNamespaceCapabilitiesEnv w cmd j))"
  shows "expectWorkerPollCompleteOnShutdown w1 = (answer, w1) \<and> expectWorkerPollCompleteOnShutdown u = (answer, u)"
proof -
  have j: "j = Marshal (map_json JBool caps)" using assms(1,2) by (simp add: namespaceCapabilitiesEnv_def)
  have ne: "j \<noteq> []"
  proof
    assume "j = []"
    moreover have "json_parse j = Some (map_json JBool caps)"
      unfolding j by (rule json_parse_Marshal) (simp add: map_json_def list_all_iff)
    ultimately show False by (simp add: json_parse_def skip_ws_def)
  qed
  have "LookupEnv featureNamespaceCapabilitiesEnv w1 = Some j"
    using capabilities_env_restored [OF assms(4) ne] by blast
  moreover have "LookupEnv featureNamespaceCapabilitiesEnv u = Some j"
    using assms(5) capabilities_env_applied [OF ne refl refl, of w cmd] by simp
  ultimately have "Getenv ''FEATURE_NAMESPACE_CAPABILITIES'' w1 = j" "Getenv ''FEATURE_NAMESPACE_CAPABILITIES'' u = j"
    by (simp_all add: Getenv_def featureNamespaceCapabilitiesEnv_def)
  then show ?thesis
    using expects_capability [of w1 caps] expects_capability [of u caps] j assms(3)
    by (simp add: capability_name_def)
qed

theorem capabilities_understood_witness:
  "fst (expectWorkerPollCompleteOnShutdown
     (snd (setNamespaceCapabilitiesEnv (namespaceCapabilitiesEnv [(''workerPollCompleteOnShutdown'', True)]) (calm_world [])))) = Ok True"
proof -
  let ?j = "namespaceCapabilitiesEnv [(''workerPollCompleteOnShutdown'', True)]" and ?n = featureNamespaceCapabilitiesEnv
  obtain restore w1 where w1: "setNamespaceCapabilitiesEnv ?j (calm_world []) = (restore, w1)" by force
  let ?cmd = "\<lparr>c_exe = [], c_args = [], c_dir = [], c_env = [], c_stdin = None, c_stdout = None, c_stderr = None\<rparr>"
  have "?j \<noteq> []" by code_simp
  from capabilities_env_applied [OF this refl refl, of "calm_world []" ?cmd]
  have "LookupEnv ?n ((calm_world [])\<lparr>w_env := [(?n, ?j)]\<rparr>) =
      env_value ?n (c_env (applyNamespaceCapabilitiesEnv (calm_world []) ?cmd ?j))"
    by (simp add: LookupEnv_def)
  from capabilities_understood [OF _ refl refl w1 this] w1 show ?thesis by simp
qed

text \<open>
  How \<open>reset_and_delete\<close> drives its workflow. If the workflow cannot be started, the hook panics
  instead of returning the error. When it succeeds, it has sent the run five empty signals, with which the
  workflow does not end, has read the history of the run and reset it to the event found there, and has
  sent the latest run an empty signal and one with a text, with which the workflow ends; what it
  returns is the latest run, and the run it reset is kept for the check of the result.
\<close>

lemma reset_script:
  "(\<forall>e t. ExecuteDefault r (log_call CExecuteDefault s) = (Err e, t) \<longrightarrow> Execute_reset_and_delete N E r s = (Panic nil_func, t)) \<and>
   (\<forall>x s'. Execute_reset_and_delete N E r s = (Ok x, s') \<longrightarrow>
     (\<exists>run t foundID before after. let to = (\<lambda>rid. map (\<lambda>text. CSignal (wr_ID run) rid SignalName (VStr text))) in
        x = Some (run\<lparr>wr_RunID := []\<rparr>) \<and> fs_original s' = wr_RunID run \<and>
        findSecondWFTComplete N (he_items E t (CHistory (wr_ID run) (wr_RunID run))) = Ok foundID \<and>
        fs_log s' = fs_log s @ CExecuteDefault # to (wr_RunID run) before @
          [CSleep 1000, CHistory (wr_ID run) (wr_RunID run), CReset (wr_ID run) (wr_RunID run) foundID] @ to [] after \<and>
        length before = 5 \<and> Workflow_reset before = None \<and> Workflow_reset after = Some []))"
proof (intro conjI allI impI)
  fix e t
  assume "ExecuteDefault r (log_call CExecuteDefault s) = (Err e, t)"
  then show "Execute_reset_and_delete N E r s = (Panic nil_func, t)"
    by (simp add: Execute_reset_and_delete_def bindE_def attempt_def execute_default_def panic_def)
next
  fix x s'
  assume "Execute_reset_and_delete N E r s = (Ok x, s')"
  then obtain y s0 where 0: "attempt (execute_default r) s = (Ok y, s0)"
    "(case y of Inl e \<Rightarrow> panic nil_func | Inr run \<Rightarrow> reset_rest N E run) s0 = (Ok x, s')"
    unfolding Execute_reset_rest bindE_Ok_iff by blast
  then obtain run where run: "execute_default r s = (Ok run, s0)" "reset_rest N E run s0 = (Ok x, s')"
    by (cases y) (auto simp: panic_def attempt_def split: prod.splits res.splits)
  moreover have "Workflow_reset (replicate 5 []) = None" "Workflow_reset [[], ''finish''] = Some []" by code_simp+
  ultimately show "\<exists>run t foundID before after. let to = (\<lambda>rid. map (\<lambda>text. CSignal (wr_ID run) rid SignalName (VStr text))) in
        x = Some (run\<lparr>wr_RunID := []\<rparr>) \<and> fs_original s' = wr_RunID run \<and>
        findSecondWFTComplete N (he_items E t (CHistory (wr_ID run) (wr_RunID run))) = Ok foundID \<and>
        fs_log s' = fs_log s @ CExecuteDefault # to (wr_RunID run) before @
          [CSleep 1000, CHistory (wr_ID run) (wr_RunID run), CReset (wr_ID run) (wr_RunID run) foundID] @ to [] after \<and>
        length before = 5 \<and> Workflow_reset before = None \<and> Workflow_reset after = Some []"
    using log_execute_default [OF run(1)] reset_rest_Ok [OF run(2)]
    by (elim exE) (intro exI [of _ run] exI [of _ "replicate 5 []"] exI [of _ "[[], ''finish'']"] exI,
      auto simp: Let_def simp del: replicate.simps map_replicate)
qed

text \<open>
  The service answers, and so does the history: two completed tasks, the second one number 9.
\<close>

definition reset_env :: "unit hook_env" where
  "reset_env = sample_env\<lparr>he_items := (\<lambda>t c. map (\<lambda>i. Ok (VPtr (VStruct [] [(''EventType'', VInt 7), (''EventId'', VInt i)]))) [4, 9])\<rparr>"

definition reset_runner :: "harness_state Runner" where
  "reset_runner = sample_runner\<lparr>rn_Feature := sample_feature\<lparr>pf_Feature := zero_feature\<lparr>fd_StartWorkflowOptionsMutator := Some id\<rparr>\<rparr>\<rparr>"

definition reset_enums :: enum_lib where
  "reset_enums = \<lparr>el_WorkflowTaskCompleted = 7, el_UpdateRejected = 8, el_UnhandledFailure = 9\<rparr>"

lemma succeeds_attempt:
  assumes "succeeds m" "\<And>a. succeeds (k (Inr a))"
  shows "succeeds (bindE (attempt m) k)"
  using assms unfolding succeeds_def by (fastforce simp: bindE_def attempt_def)

lemma reset_succeeds: "succeeds (Execute_reset_and_delete reset_enums reset_env reset_runner)"
proof -
  have answers: "\<exists>v. fst (he_answer reset_env t c) = Ok v" for t c
    by (simp add: reset_env_def sample_env_def sample_answer_def split: feature_call.splits)
  have "GetPrimaryWorkflow sample_feature = Ok (RFunc ''W'' ''/r/features/a/b/feature.go'', [])" by code_simp
  then have start: "succeeds (execute_default reset_runner)"
    unfolding execute_default_def ExecuteDefault_def
    by (auto simp: reset_runner_def sample_runner_def GetPrimaryWorkflow_def intro!: succeeds_intros)
  have "findSecondWFTComplete reset_enums (he_items reset_env t c) = Ok 9" for t c
    by (simp add: reset_env_def findSecondWFTComplete_def event_type_def event_id_def getter_def get_field_def reset_enums_def)
  then have history: "succeeds (bindE (fitems reset_env c) (\<lambda>iter. bindE (of_res (findSecondWFTComplete reset_enums iter)) k))"
    if "succeeds (k 9)" for c k
    using that unfolding succeeds_def by (auto simp: bindE_def fitems_def of_res_def)
  show ?thesis
    unfolding Execute_reset_rest reset_rest_def
    by (rule succeeds_attempt [OF start])
      (auto simp: Let_def drive_def signal_def fsleep_def intro!: succeeds_intros history answers)
qed

end
