(* ===== verification/Feature_Updates.thy ===== *)
theory Feature_Updates
  imports Feature_Shutdown
begin

text \<open>
  The Go features about updates of workflows (\<open>features/update\<close>): their hooks, as scripts over the service
  (\<open>Feature_Calls\<close>), and their workflows, as machines with handlers of updates, signals and queries. What
  the service and the SDK promise in between is stated in \<open>Update_Service\<close>. Whether the context of a run is
  done at its end is not modelled: \<open>ctx.Err()\<close> is nil. Integers are the 64 bits of Go's \<open>int\<close>.
\<close>

section \<open>Calls and assertions\<close>

definition require_ok :: "sdk_lib \<Rightarrow> ('w, 'a) io \<Rightarrow> ('w, 'a) io" where
  "require_ok L m = bindE (attempt m) (\<lambda>x. require_NoError L (case x of Inl e \<Rightarrow> Err e | Inr a \<Rightarrow> Ok a))"

definition require_err :: "sdk_lib \<Rightarrow> string \<Rightarrow> ('w, 'a) io \<Rightarrow> ('w, unit) io" where
  "require_err L text m = bindE (attempt m) (\<lambda>x. require_that L text (case x of Inl e \<Rightarrow> True | Inr a \<Rightarrow> False))"

definition update_of :: "workflow_run \<Rightarrow> string \<Rightarrow> string \<Rightarrow> gval list \<Rightarrow> update_stage \<Rightarrow> update_options" where
  "update_of run uid name args stage =
     \<lparr>uo_UpdateID = uid, uo_WorkflowID = wr_ID run, uo_RunID = wr_RunID run, uo_UpdateName = name, uo_Args = args, uo_Stage = stage\<rparr>"

text \<open>A handle is known by the id of its update.\<close>

definition send_update :: "'s hook_env \<Rightarrow> update_options \<Rightarrow> (('s, 'z) feature_state_scheme, string) io" where
  "send_update E o' = bindE (fcall E (CUpdate o')) (\<lambda>h. ret (text_of h))"

definition get_update :: "'s hook_env \<Rightarrow> workflow_run \<Rightarrow> string \<Rightarrow> (('s, 'z) feature_state_scheme, gval) io" where
  "get_update E run h = fcall E (CUpdateGet (wr_ID run) (wr_RunID run) h)"

definition expect_outcome ::
  "'s hook_env \<Rightarrow> workflow_run \<Rightarrow> string \<Rightarrow> gval \<Rightarrow> (('s, 'z) feature_state_scheme, unit) io" where
  "expect_outcome E run h expected =
     bindE (require_ok (he_lib E) (get_update E run h)) (\<lambda>result. require_that (he_lib E) ''Not equal'' (result = expected))"

definition expect_update ::
  "'s hook_env \<Rightarrow> workflow_run \<Rightarrow> update_options \<Rightarrow> gval \<Rightarrow> (('s, 'z) feature_state_scheme, unit) io" where
  "expect_update E run o' expected =
     bindE (require_ok (he_lib E) (send_update E o')) (\<lambda>h. expect_outcome E run h expected)"

definition expect_rejected ::
  "'s hook_env \<Rightarrow> workflow_run \<Rightarrow> update_options \<Rightarrow> (('s, 'z) feature_state_scheme, unit) io" where
  "expect_rejected E run o' =
     bindE (require_ok (he_lib E) (send_update E o')) (\<lambda>h.
       require_err (he_lib E) ''expected negative value to be rejected'' (get_update E run h))"

definition require_signal ::
  "'s hook_env \<Rightarrow> workflow_run \<Rightarrow> string \<Rightarrow> (('s, 'z) feature_state_scheme, unit) io" where
  "require_signal E run name = require_ok (he_lib E) (signal E run name VNil)"

text \<open>The support is asked for with an update of a workflow that does not exist.\<close>

definition supports_update ::
  "'s hook_env \<Rightarrow> update_stage \<Rightarrow> string \<Rightarrow> (('s, 'z) feature_state_scheme, string) io" where
  "supports_update E stage deniedMsg =
     bindE new_uuid (\<lambda>u. let none = ''__does_not_exist'';
         o' = \<lparr>uo_UpdateID = u, uo_WorkflowID = none, uo_RunID = [], uo_UpdateName = none, uo_Args = [], uo_Stage = stage\<rparr> in
     bindE (attempt (send_update E o')) (\<lambda>x.
       case x of
         Inl e \<Rightarrow> of_res (checkSupport (\<lambda>_. Inl e) stage deniedMsg)
       | Inr h \<Rightarrow> bindE (attempt (fcall E (CUpdateGet none [] h))) (\<lambda>y.
           of_res (checkSupport (\<lambda>_. Inr (case y of Inl e \<Rightarrow> Some e | Inr _ \<Rightarrow> None)) stage deniedMsg))))"

definition if_updates ::
  "'s hook_env \<Rightarrow> update_stage \<Rightarrow> string \<Rightarrow> (('s, 'z) feature_state_scheme, 'a) io \<Rightarrow> (('s, 'z) feature_state_scheme, 'a) io" where
  "if_updates E stage deniedMsg hook =
     bindE (supports_update E stage deniedMsg) (\<lambda>reason. if reason \<noteq> [] then fail (Skip reason) else hook)"

text \<open>The histories are fetched anew: what the fetcher gives then.\<close>

definition no_rejected ::
  "enum_lib \<Rightarrow> ('s \<Rightarrow> Histories res) \<Rightarrow> 's hook_env \<Rightarrow> (('s, 'z) feature_state_scheme, unit) io" where
  "no_rejected N fetched E =
     bindE (asks (\<lambda>s. fetched (fs_server s))) (RequireNoUpdateRejectedEvents N (he_lib E))"

section \<open>The hooks\<close>

definition shutdownSignal :: string where "shutdownSignal = ''shutdown_signal''"

text \<open>\<open>basic\<close>\<close>

definition Execute_basic ::
  "enum_lib \<Rightarrow> ('s \<Rightarrow> Histories res) \<Rightarrow> 's hook_env \<Rightarrow> 'v Runner \<Rightarrow> (('s, 'z) feature_state_scheme, workflow_run option) io" where
  "Execute_basic N fetched E r = if_updates E StageCompleted updateDisabledMsg
     (with_run (execute_default r) (\<lambda>run.
        thenE (expect_update E run (update_of run [] ''my-update-name'' [VStr ''my-update-arg''] StageCompleted)
                 (VStr (Sprintf ''update-result:%s'' [''my-update-arg''])))
              (no_rejected N fetched E)))"

text \<open>\<open>activities\<close>\<close>

definition Execute_activities ::
  "enum_lib \<Rightarrow> ('s \<Rightarrow> Histories res) \<Rightarrow> 's hook_env \<Rightarrow> 'v Runner \<Rightarrow> (('s, 'z) feature_state_scheme, workflow_run option) io" where
  "Execute_activities N fetched E r = if_updates E StageCompleted updateDisabledMsg
     (with_run (execute_default r) (\<lambda>run.
        thenE (expect_update E run (update_of run [] ''updateActivity'' [] StageCompleted) (VInt (6 * 5)))
       (thenE (require_signal E run shutdownSignal)
              (no_rejected N fetched E))))"

text \<open>\<open>deduplication\<close>\<close>

definition Execute_deduplication ::
  "enum_lib \<Rightarrow> ('s \<Rightarrow> Histories res) \<Rightarrow> 's hook_env \<Rightarrow> 'v Runner \<Rightarrow> (('s, 'z) feature_state_scheme, workflow_run option) io" where
  "Execute_deduplication N fetched E r = if_updates E StageCompleted updateDisabledMsg
     (with_run (execute_default r) (\<lambda>run. let o' = update_of run ''reused_update_id'' ''incrementCount'' [] StageAccepted in
        bindE (require_ok (he_lib E) (send_update E o')) (\<lambda>handle1.
        bindE (require_ok (he_lib E) (send_update E o')) (\<lambda>handle2.
        thenE (expect_outcome E run handle1 (VInt 1))
       (thenE (expect_outcome E run handle2 (VInt 1))
       (thenE (require_signal E run shutdownSignal)
       (thenE (no_rejected N fetched E)
       (bindE (fitems E (CHistory (wr_ID run) [])) (\<lambda>history.
        bindE (of_res (GetCountCompletedUpdates history)) (\<lambda>nUpdates.
          require_that (he_lib E) ''Not equal'' (nUpdates = 1)))))))))))"

text \<open>\<open>non_durable_reject\<close>\<close>

definition Execute_non_durable_reject ::
  "enum_lib \<Rightarrow> ('s \<Rightarrow> Histories res) \<Rightarrow> 's hook_env \<Rightarrow> 'v Runner \<Rightarrow> (('s, 'z) feature_state_scheme, workflow_run option) io" where
  "Execute_non_durable_reject N fetched E r = if_updates E StageCompleted updateDisabledMsg
     (with_run (execute_default r) (\<lambda>run.
        let add = (\<lambda>i. update_of run [] ''updateActivity'' [VInt i] StageCompleted) in
        thenE (expect_rejected E run (add (- 1)))
       (thenE (for_each (\<lambda>i.
            bindE (require_ok (he_lib E) (send_update E (add 2))) (\<lambda>h.
            thenE (bindE (require_ok (he_lib E) (get_update E run h)) (\<lambda>_. ret ()))
                  (expect_rejected E run (add (- 1))))) [0..<5])
       (thenE (require_signal E run shutdownSignal)
              (no_rejected N fetched E)))))"

text \<open>\<open>client_interceptor\<close>: what the client does with an update before it is sent.\<close>

definition go_int :: "int \<Rightarrow> int" where
  "go_int i = sint (word_of_int i :: 64 word)"

definition type_assertion :: go_error where
  "type_assertion = External OtherError ''interface conversion: interface {} is not int''"

definition AddOneInterceptor :: "update_options \<Rightarrow> update_options res" where
  "AddOneInterceptor in' =
     (if uo_UpdateName in' = ''add''
      then (case uo_Args in' of
              [] \<Rightarrow> Panic index_out_of_range
            | VInt i # args \<Rightarrow> Ok (in'\<lparr>uo_Args := VInt (go_int (i + 5)) # args\<rparr>)
            | _ \<Rightarrow> Panic type_assertion)
      else Ok in')"

definition Execute_client_interceptor :: "'s hook_env \<Rightarrow> 'v Runner \<Rightarrow> (('s, 'z) feature_state_scheme, workflow_run option) io" where
  "Execute_client_interceptor E r = if_updates E StageCompleted updateDisabledMsg
     (with_run (execute_default r) (\<lambda>run.
        thenE (bindE (of_res (AddOneInterceptor (update_of run [] ''add'' [VInt 5] StageCompleted))) (\<lambda>o'.
                 expect_update E run o' (VInt (5 + 5))))
              (require_signal E run shutdownSignal)))"

text \<open>\<open>validation_replay\<close>\<close>

definition Execute_validation_replay :: "'s hook_env \<Rightarrow> 'v Runner \<Rightarrow> (('s, 'z) feature_state_scheme, workflow_run option) io" where
  "Execute_validation_replay E r = if_updates E StageCompleted updateDisabledMsg
     (with_run (execute_default r) (\<lambda>run.
        thenE (bindE (require_ok (he_lib E) (send_update E (update_of run [] ''doSomeStuff'' [] StageCompleted))) (\<lambda>h.
                 bindE (require_ok (he_lib E) (get_update E run h)) (\<lambda>_. ret ())))
              (require_signal E run shutdownSignal)))"

text \<open>
  \<open>async_accepted\<close>: times are in milliseconds, but for the argument of the update, a number of nanoseconds.
  How the errors of the SDK are told apart is a parameter.
\<close>

record error_lib =
  xl_is_panic :: "go_error \<Rightarrow> bool"
  xl_is_application :: "go_error \<Rightarrow> bool"

definition failed_with :: "(go_error \<Rightarrow> bool) \<Rightarrow> go_error + 'a \<Rightarrow> bool" where
  "failed_with Q x = (case x of Inl err \<Rightarrow> Q err | Inr _ \<Rightarrow> False)"

definition requestedSleep :: int where "requestedSleep = 2000"

definition async_update :: "workflow_run \<Rightarrow> string \<Rightarrow> int \<Rightarrow> update_options" where
  "async_update run uid disposition =
     update_of run uid ''theUpdate'' [VInt (requestedSleep * 1000000), VInt disposition] StageAccepted"

definition Execute_async_accepted ::
  "enum_lib \<Rightarrow> error_lib \<Rightarrow> ('s \<Rightarrow> Histories res) \<Rightarrow> 's hook_env \<Rightarrow> 'v Runner
     \<Rightarrow> (('s, 'z) feature_state_scheme, workflow_run option) io" where
  "Execute_async_accepted N X fetched E r = if_updates E StageAccepted asyncAcceptedDisabledMsg
     (with_run (execute_default r) (\<lambda>run. let L = he_lib E in
        bindE (asks (\<lambda>s. he_now E (fs_server s) 0)) (\<lambda>start.
        bindE (attempt (send_update E (async_update run ''update:1'' 0))) (\<lambda>sent.
        bindE (asks (\<lambda>s. he_now E (fs_server s) 1)) (\<lambda>now.
        bindE (require_NoError L (case sent of Inl e \<Rightarrow> Err e | Inr h \<Rightarrow> Ok h)) (\<lambda>original.
        thenE (require_that L ''requesting the async update should block for less than the requested update execution time''
                 (now - start < requestedSleep))
       (thenE (expect_outcome E run original (VInt 123))
       (thenE (expect_outcome E run original (VInt 123))
       (bindE (require_ok L (send_update E (async_update run ''update:3'' 1))) (\<lambda>errUpdate.
        bindE (attempt (get_update E run errUpdate)) (\<lambda>x.
        thenE (require_that L ''Should be in error chain'' (failed_with (xl_is_application X) x))
       (bindE (require_ok L (send_update E (async_update run ''update:4'' 0))) (\<lambda>lastUpdate.
        bindE (attempt (fcall E (CUpdateGetWithin (wr_ID run) (wr_RunID run) lastUpdate 200))) (\<lambda>y.
        thenE (require_that L ''Should be in error chain'' (failed_with (has_kind DeadlineExceeded) y))
       (thenE (require_signal E run shutdownSignal)
              (no_rejected N fetched E))))))))))))))))"

text \<open>\<open>task_failure\<close>: an update whose validator panics, and one whose handler does, once.\<close>

definition Execute_task_failure ::
  "enum_lib \<Rightarrow> error_lib \<Rightarrow> ('s \<Rightarrow> Histories res) \<Rightarrow> ('s \<Rightarrow> gval res) \<Rightarrow> 's hook_env \<Rightarrow> 'v Runner
     \<Rightarrow> (('s, 'z) feature_state_scheme, workflow_run option) io" where
  "Execute_task_failure N X fetched result E r = if_updates E StageCompleted updateDisabledMsg
     (with_run (execute_default r) (\<lambda>run.
        bindE (require_ok (he_lib E) (send_update E (update_of run [] ''panic_from_validate'' [] StageCompleted))) (\<lambda>handle.
        bindE (attempt (get_update E run handle)) (\<lambda>x.
        thenE (require_that (he_lib E) ''Should be in error chain'' (failed_with (xl_is_panic X) x))
       (thenE (require_that (he_lib E) ''Error does not contain'' (failed_with (\<lambda>err. Contains (error_text err) panicMsg) x))
       (bindE (require_ok (he_lib E) (send_update E (update_of run [] ''panic_from_exec'' [] StageCompleted))) (\<lambda>_.
        thenE (require_signal E run ''shutdown!'')
       (bindE (asks (\<lambda>s. result (fs_server s))) (\<lambda>res.
        bindE (require_NoError (he_lib E) res) (\<lambda>_.
        bindE (asks (\<lambda>s. fetched (fs_server s))) (check_panic_count N (he_lib E))))))))))))"

section \<open>The workflows\<close>

text \<open>
  The variables of the workflows. A handler runs up to its first wait when the update comes in, and what it
  returns is computed from the variables at its end.
\<close>

record wf_state =
  ws_counter :: "64 word"
  ws_text :: string
  ws_done :: bool

type_synonym validator = "wf_state \<Rightarrow> gval list \<Rightarrow> go_error option"
type_synonym handler = "wf_state \<Rightarrow> gval list \<Rightarrow> wf_state \<times> (wf_state \<Rightarrow> gval res)"

record workflow_def =
  wd_update :: "string \<Rightarrow> (validator \<times> handler) option"
  wd_signal :: "wf_state \<Rightarrow> string \<Rightarrow> wf_state"
  wd_query :: "wf_state \<Rightarrow> string \<Rightarrow> gval list \<Rightarrow> gval res option"
  wd_result :: "wf_state \<Rightarrow> gval res option"

definition start_state :: wf_state where
  "start_state = \<lparr>ws_counter = 0, ws_text = [], ws_done = False\<rparr>"

definition on_update :: "string \<Rightarrow> validator \<Rightarrow> handler \<Rightarrow> string \<Rightarrow> (validator \<times> handler) option" where
  "on_update name check handle n = (if n = name then Some (check, handle) else None)"

definition no_check :: validator where "no_check w args = None"

definition on_shutdown :: "wf_state \<Rightarrow> string \<Rightarrow> wf_state" where
  "on_shutdown w name = (if name = shutdownSignal then w\<lparr>ws_done := True\<rparr> else w)"

definition when_done :: "(wf_state \<Rightarrow> gval) \<Rightarrow> wf_state \<Rightarrow> gval res option" where
  "when_done f w = (if ws_done w then Some (Ok (f w)) else None)"

definition int_arg :: "gval list \<Rightarrow> 64 word" where
  "int_arg args = (case args of VInt i # _ \<Rightarrow> word_of_int i | _ \<Rightarrow> 0)"

definition text_arg :: "gval list \<Rightarrow> string" where
  "text_arg args = (case args of a # _ \<Rightarrow> text_of a | [] \<Rightarrow> [])"

definition no_query :: "wf_state \<Rightarrow> string \<Rightarrow> gval list \<Rightarrow> gval res option" where "no_query w name args = None"

definition counter_value :: "wf_state \<Rightarrow> gval" where
  "counter_value w = VInt (sint (ws_counter w))"

definition Workflow_basic :: workflow_def where
  "Workflow_basic = \<lparr>
     wd_update = on_update ''my-update-name'' no_check (\<lambda>w args.
       (w\<lparr>ws_text := text_arg args\<rparr>, \<lambda>_. Ok (VStr (Sprintf ''update-result:%s'' [text_arg args])))),
     wd_signal = (\<lambda>w name. w), wd_query = no_query,
     wd_result = (\<lambda>w. if ws_text w \<noteq> [] then Some (Ok (VStr (Sprintf ''workflow-result:%s'' [ws_text w]))) else None)\<rparr>"

text \<open>The activities of \<open>activities\<close> are added up in the order they end in; an error counts as nothing.\<close>

definition SomeActivity :: "int res" where "SomeActivity = Ok 6"

definition add_results :: "int res list \<Rightarrow> 64 word" where
  "add_results fs = foldl (\<lambda>total f. total + (case f of Ok result \<Rightarrow> word_of_int result | _ \<Rightarrow> 0)) 0 fs"

definition Workflow_activities :: workflow_def where
  "Workflow_activities = \<lparr>
     wd_update = on_update ''updateActivity'' no_check (\<lambda>w args.
       (w, \<lambda>_. Ok (VInt (sint (add_results (replicate 5 SomeActivity)))))),
     wd_signal = on_shutdown, wd_query = no_query, wd_result = when_done (\<lambda>w. VNil)\<rparr>"

text \<open>The handler of \<open>deduplication\<close> sleeps between its increment and its return.\<close>

definition Count :: workflow_def where
  "Count = \<lparr>
     wd_update = on_update ''incrementCount'' no_check (\<lambda>w args.
       (w\<lparr>ws_counter := ws_counter w + 1\<rparr>, \<lambda>w'. Ok (counter_value w'))),
     wd_signal = on_shutdown, wd_query = no_query, wd_result = when_done (\<lambda>w. VNil)\<rparr>"

definition nonNegative :: validator where
  "nonNegative w args =
     (if int_arg args <s 0 then Some (Errorf ''expected non-negative value (%v)'' [show_int (sint (int_arg args))]) else None)"

definition add_to_counter :: handler where
  "add_to_counter w args =
     (let c = ws_counter w + int_arg args in (w\<lparr>ws_counter := c\<rparr>, \<lambda>_. Ok (VInt (sint c))))"

definition NonDurableReject :: workflow_def where
  "NonDurableReject = \<lparr>
     wd_update = on_update ''updateActivity'' nonNegative add_to_counter,
     wd_signal = on_shutdown, wd_query = no_query, wd_result = when_done counter_value\<rparr>"

definition Workflow_interceptor :: workflow_def where
  "Workflow_interceptor = \<lparr>
     wd_update = on_update ''add'' no_check add_to_counter,
     wd_signal = on_shutdown, wd_query = no_query, wd_result = when_done counter_value\<rparr>"

text \<open>The handler of \<open>async_accepted\<close> sleeps before it succeeds; any other disposition succeeds at once.\<close>

definition Workflow_async :: workflow_def where
  "Workflow_async = \<lparr>
     wd_update = on_update ''theUpdate'' no_check (\<lambda>w args.
       (w, \<lambda>_. if int_arg (tl args) = 1 then Err (Errorf ''I was told I should fail'' []) else Ok (VInt 123))),
     wd_signal = on_shutdown, wd_query = no_query, wd_result = when_done (\<lambda>w. VNil)\<rparr>"

text \<open>
  The validator of \<open>validation_replay\<close> counts its calls in a variable of the process, and the update that makes
  the workflow of \<open>task_failure\<close> panic does so while a variable of the process is set.
\<close>

definition validate_once :: "nat \<Rightarrow> nat \<times> go_error option" where
  "validate_once validationCounter =
     (let n = validationCounter + 1 in (n, if n > 1 then Some (Errorf ''failing validation'' []) else None))"

definition panic_once :: "bool \<Rightarrow> bool \<times> unit res" where
  "panic_once panicUpdate = (if panicUpdate then (False, Panic (Errorf panicMsg [])) else (panicUpdate, Ok ()))"

text \<open>The workflow of \<open>self\<close>, given how its activity ends and whether its handler ran before.\<close>

definition SelfUpdateWorkflow :: "unit res \<Rightarrow> bool \<Rightarrow> string res" where
  "SelfUpdateWorkflow activity updated =
     (let expectedState = ''called''; state = (if updated then expectedState else ''not '' @ expectedState) in
      case activity of
        Err e \<Rightarrow> Err e
      | Panic e \<Rightarrow> Panic e
      | Ok _ \<Rightarrow>
          if state \<noteq> expectedState then Err (Errorf ''expected state == %q but found %q'' [expectedState, state])
          else Ok state)"

text \<open>
  The hook of \<open>self\<close> hands on how to reach the server; its activity dials a client of its own and updates the
  workflow that runs it, whose ids its context gives.
\<close>

record ConnMaterial =
  cm_HostPort :: string
  cm_Namespace :: string
  cm_ClientCertPath :: string
  cm_ClientKeyPath :: string
  cm_CACertPath :: string
  cm_TLSServerName :: string

definition self_material :: "'v Runner \<Rightarrow> ConnMaterial" where
  "self_material r = (let co = fd_ClientOptions (pf_Feature (rn_Feature r)); c = rn_Config r in
     \<lparr>cm_HostPort = co_HostPort co, cm_Namespace = co_Namespace co, cm_ClientCertPath = hc_ClientCertPath c,
      cm_ClientKeyPath = hc_ClientKeyPath c, cm_CACertPath = hc_CACertPath c, cm_TLSServerName = hc_TLSServerName c\<rparr>)"

definition Execute_self ::
  "'s hook_env \<Rightarrow> 'v Runner \<Rightarrow> (('s, 'z) feature_state_scheme, workflow_run \<times> ConnMaterial) io" where
  "Execute_self E r = if_updates E StageCompleted updateDisabledMsg
     (case fd_StartWorkflowOptionsMutator (pf_Feature (rn_Feature r)) of
        None \<Rightarrow> panic nil_func
      | Some mutate \<Rightarrow>
          bindE (execute_workflow (mutate (default_start_options (rn_Config r))) None ''SelfUpdateWorkflow'') (\<lambda>run.
            ret (run, self_material r)))"

definition SelfUpdateActivity ::
  "'s hook_env \<Rightarrow> ConnMaterial \<Rightarrow> workflow_run \<Rightarrow> (('s, 'z) feature_state_scheme, unit) io" where
  "SelfUpdateActivity E cm wfe =
     bindE (LoadTLSConfig (cm_ClientCertPath cm) (cm_ClientKeyPath cm) (cm_CACertPath cm) (cm_TLSServerName cm)) (\<lambda>tlsCfg.
     thenE (act_unit (ADial (cm_HostPort cm) (cm_Namespace cm) tlsCfg))
    (bindE (send_update E (update_of wfe [] ''update!'' [] StageCompleted)) (\<lambda>updateHandle.
     bindE (get_update E wfe updateHandle) (\<lambda>_. ret ()))))"

text \<open>
  \<open>worker_restart\<close>: the update is requested by a goroutine and runs while the worker is stopped and started again.
  The calls of the goroutine stand where the hook receives their outcome; that the activity of the update has
  started, which the hook waits for first, is not modelled. The version of the SDK library has its prefix \<open>v\<close>.
\<close>

definition Execute_worker_restart ::
  "'s hook_env \<Rightarrow> 'v Runner \<Rightarrow> (('s, 'z) feature_state_scheme, workflow_run option) io" where
  "Execute_worker_restart E r = if_updates E StageCompleted updateDisabledMsg
     (if sl_SDKVersion (he_lib E) \<in> {''v1.21.0'', ''v1.21.1''}
      then fail (Skip (''known to be broken in sdk-go '' @ sl_SDKVersion (he_lib E)))
      else with_run (execute_default r) (\<lambda>run.
        thenE stop_worker
       (thenE (fsleep 1000)
       (thenE (require_ok (he_lib E) (start_worker E r))
       (bindE (bindE (send_update E (update_of run [] ''fetchAndAdd'' [VInt 1] StageCompleted)) (get_update E run)) (\<lambda>result.
        thenE (require_that (he_lib E) ''Not equal'' (result = VInt 0))
       (thenE (fsleep 1000)
              (require_signal E run shutdownSignal))))))))"

text \<open>Its handler, given how its activity ended and the counter then: what it returns, and the counter after it.\<close>

definition fetchAndAdd :: "unit res \<Rightarrow> 64 word \<Rightarrow> 64 word \<Rightarrow> 64 word res \<times> 64 word" where
  "fetchAndAdd activity counter i =
     (case activity of Ok _ \<Rightarrow> (Ok counter, counter + i) | Err e \<Rightarrow> (Err e, counter) | Panic e \<Rightarrow> (Panic e, counter))"

section \<open>Lemmas\<close>

text \<open>The activity dials once and never closes: with a usable TLS configuration its only step is the dial.\<close>

lemma self_dials:
  fixes E :: "'s hook_env" and s :: "('s, 'z) feature_state_scheme"
  assumes "SelfUpdateActivity E cm wfe s = (x, s')"
  shows "case fst (LoadTLSConfig (cm_ClientCertPath cm) (cm_ClientKeyPath cm) (cm_CACertPath cm) (cm_TLSServerName cm) s) of
      Ok tls \<Rightarrow> n_trace s' = n_trace s @ [ADial (cm_HostPort cm) (cm_Namespace cm) tls]
    | _ \<Rightarrow> n_trace s' = n_trace s \<and> (\<forall>u. x \<noteq> Ok u)"
proof -
  obtain y where y: "LoadTLSConfig (cm_ClientCertPath cm) (cm_ClientKeyPath cm) (cm_CACertPath cm) (cm_TLSServerName cm) s = (y, s)"
    using LoadTLSConfig_state by (metis prod.collapse)
  have f: "keeps n_trace (fcall E c :: (('s, 'z) feature_state_scheme, gval) io)" for c
    by (simp add: keeps_def fcall_def split: prod.splits)
  then have u: "keeps n_trace (bindE (send_update E o') (\<lambda>h. bindE (get_update E wfe h) (\<lambda>_. ret ())) :: (('s, 'z) feature_state_scheme, unit) io)" for o'
    unfolding send_update_def get_update_def by (intro keeps_intros) simp_all
  show ?thesis
  proof (cases y)
    case (Ok tls)
    define rest :: "(('s, 'z) feature_state_scheme, unit) io" where
      "rest = bindE (send_update E (update_of wfe [] ''update!'' [] StageCompleted)) (\<lambda>h. bindE (get_update E wfe h) (\<lambda>_. ret ()))"
    obtain z t where z: "act_unit (ADial (cm_HostPort cm) (cm_Namespace cm) tls) s = (z, t)" by force
    then have "n_trace t = n_trace s @ [ADial (cm_HostPort cm) (cm_Namespace cm) tls]"
      by (auto simp: act_unit_def act_def bindE_def ret_def Let_def split: option.splits)
    moreover have "thenE (act_unit (ADial (cm_HostPort cm) (cm_Namespace cm) tls)) rest s = (x, s')"
      using assms y Ok by (simp add: SelfUpdateActivity_def bindE_def [of "LoadTLSConfig _ _ _ _"] rest_def)
    moreover have "n_trace (snd (rest t)) = n_trace t" using u unfolding rest_def keeps_def by blast
    ultimately show ?thesis using y Ok z by (cases z) (auto simp: thenE_def bindE_def)
  qed (use assms y in \<open>auto simp: SelfUpdateActivity_def bindE_def\<close>)
qed

end
