(* ===== verification/Update_Service.thy ===== *)
theory Update_Service
  imports Feature_Updates
begin

text \<open>
  The update features over a service. What the service and the SDK promise for a run of a workflow is the
  predicate \<open>serves\<close>: an update runs its handler, or is rejected by its validator without a trace; an id that
  was seen before does not run it again; signals and queries see the state the workflow is in. Total
  triples over hooks (\<open>yields\<close>) show that the hooks of \<open>Feature_Updates\<close> pass on such a service and their workflow ends
  with the result they expect, and that \<open>deduplication\<close> fails on a service that repeats updates.
\<close>

section \<open>The service\<close>

text \<open>
  A run the service serves: the states its workflow went through, the last one first, and the outcome of each
  update by its id. A handler that runs may end in any state since it was started.
\<close>

datatype outcome = Rejected go_error | Running nat "wf_state \<Rightarrow> gval res"

record served =
  sv_trace :: "wf_state list"
  sv_outcomes :: "(string \<times> outcome) list"

abbreviation now :: "served \<Rightarrow> wf_state" where "now v \<equiv> hd (sv_trace v)"

definition begun :: served where "begun = \<lparr>sv_trace = [start_state], sv_outcomes = []\<rparr>"

definition run_update :: "workflow_def \<Rightarrow> update_options \<Rightarrow> string \<Rightarrow> served \<Rightarrow> served" where
  "run_update W o' uid v =
     (case wd_update W (uo_UpdateName o') of
        None \<Rightarrow> v
      | Some (check, handle) \<Rightarrow>
          (case check (now v) (uo_Args o') of
             Some e \<Rightarrow> v\<lparr>sv_outcomes := (uid, Rejected e) # sv_outcomes v\<rparr>
           | None \<Rightarrow> (case handle (now v) (uo_Args o') of (w, f) \<Rightarrow>
               \<lparr>sv_trace = w # sv_trace v, sv_outcomes = (uid, Running (Suc (length (sv_trace v))) f) # sv_outcomes v\<rparr>)))"

definition take_update :: "bool \<Rightarrow> workflow_def \<Rightarrow> update_options \<Rightarrow> string \<Rightarrow> served \<Rightarrow> served" where
  "take_update dedup W o' uid v =
     (if dedup \<and> map_of (sv_outcomes v) uid \<noteq> None then v else run_update W o' uid v)"

definition id_for :: "update_options \<Rightarrow> string \<Rightarrow> served \<Rightarrow> bool" where
  "id_for o' uid v = (if uo_UpdateID o' = [] then map_of (sv_outcomes v) uid = None else uid = uo_UpdateID o')"

definition ends_with :: "served \<Rightarrow> string \<Rightarrow> gval res \<Rightarrow> bool" where
  "ends_with v uid r =
     (case map_of (sv_outcomes v) uid of
        None \<Rightarrow> False
      | Some (Rejected e) \<Rightarrow> r = Err e
      | Some (Running n f) \<Rightarrow> \<exists>w \<in> set (take (Suc (length (sv_trace v) - n)) (sv_trace v)). r = f w)"

text \<open>What the service promises for a run, as \<open>\<alpha>\<close> reads its state.\<close>

definition serves_updates :: "bool \<Rightarrow> workflow_def \<Rightarrow> ('s \<Rightarrow> served) \<Rightarrow> 's hook_env \<Rightarrow> workflow_run \<Rightarrow> bool" where
  "serves_updates dedup W \<alpha> E run \<longleftrightarrow>
     (\<forall>t o'. uo_WorkflowID o' = wr_ID run \<and> uo_RunID o' = wr_RunID run \<longrightarrow>
        (\<exists>uid u. he_answer E t (CUpdate o') = (Ok (VStr uid), u) \<and> id_for o' uid (\<alpha> t) \<and> \<alpha> u = take_update dedup W o' uid (\<alpha> t)))"

definition serves_outcomes :: "('s \<Rightarrow> served) \<Rightarrow> 's hook_env \<Rightarrow> workflow_run \<Rightarrow> bool" where
  "serves_outcomes \<alpha> E run \<longleftrightarrow>
     (\<forall>t uid. map_of (sv_outcomes (\<alpha> t)) uid \<noteq> None \<longrightarrow>
        (\<exists>r u. he_answer E t (CUpdateGet (wr_ID run) (wr_RunID run) uid) = (r, u) \<and> ends_with (\<alpha> t) uid r \<and> \<alpha> u = \<alpha> t))"

definition signalled :: "workflow_def \<Rightarrow> string \<Rightarrow> served \<Rightarrow> served" where
  "signalled W name v = v\<lparr>sv_trace := wd_signal W (now v) name # sv_trace v\<rparr>"

definition serves_signals :: "workflow_def \<Rightarrow> ('s \<Rightarrow> served) \<Rightarrow> 's hook_env \<Rightarrow> workflow_run \<Rightarrow> bool" where
  "serves_signals W \<alpha> E run \<longleftrightarrow>
     (\<forall>t name a. \<exists>x u. he_answer E t (CSignal (wr_ID run) (wr_RunID run) name a) = (Ok x, u) \<and> \<alpha> u = signalled W name (\<alpha> t))"

definition serves_queries :: "workflow_def \<Rightarrow> ('s \<Rightarrow> served) \<Rightarrow> 's hook_env \<Rightarrow> workflow_run \<Rightarrow> bool" where
  "serves_queries W \<alpha> E run \<longleftrightarrow>
     (\<forall>t name args x. wd_query W (now (\<alpha> t)) name args = Some x \<longrightarrow>
        (\<exists>u. he_answer E t (CQueryArgs (wr_ID run) (wr_RunID run) name args) = (x, u) \<and> \<alpha> u = \<alpha> t))"

definition serves :: "bool \<Rightarrow> workflow_def \<Rightarrow> ('s \<Rightarrow> served) \<Rightarrow> 's hook_env \<Rightarrow> workflow_run \<Rightarrow> bool" where
  "serves dedup W \<alpha> E run \<longleftrightarrow>
     serves_updates dedup W \<alpha> E run \<and> serves_outcomes \<alpha> E run \<and> serves_signals W \<alpha> E run \<and> serves_queries W \<alpha> E run"

text \<open>No history holds a rejected update, and the history of the run tells the updates that were accepted.\<close>

definition no_rejections :: "enum_lib \<Rightarrow> ('s \<Rightarrow> Histories res) \<Rightarrow> bool" where
  "no_rejections N fetched \<longleftrightarrow>
     (\<forall>t. \<exists>hs. fetched t = Ok hs \<and> (\<forall>h \<in> set hs. \<forall>ev \<in> set (elements (getter ''Events'' h)). event_type ev \<noteq> el_UpdateRejected N))"

definition accepted :: "served \<Rightarrow> nat" where
  "accepted v = length (filter (\<lambda>(uid, x). case x of Running n f \<Rightarrow> True | Rejected e \<Rightarrow> False) (sv_outcomes v))"

definition tells_updates :: "('s \<Rightarrow> served) \<Rightarrow> 's hook_env \<Rightarrow> workflow_run \<Rightarrow> bool" where
  "tells_updates \<alpha> E run \<longleftrightarrow>
     (\<forall>t. GetCountCompletedUpdates (he_items E t (CHistory (wr_ID run) [])) = Ok (accepted (\<alpha> t)) \<and>
       \<alpha> (snd (he_answer E t (CHistory (wr_ID run) []))) = \<alpha> t)"

section \<open>Lemmas\<close>

subsection \<open>Total triples over the service\<close>

text \<open>From a service for which \<open>P\<close> holds the hook succeeds, with a result and a service for which \<open>Q\<close> does.\<close>

definition yields :: "('s \<Rightarrow> bool) \<Rightarrow> (('s, 'z) feature_state_scheme, 'a) io \<Rightarrow> ('a \<Rightarrow> 's \<Rightarrow> bool) \<Rightarrow> bool" where
  "yields P m Q = (\<forall>s. P (fs_server s) \<longrightarrow> (\<exists>a t. m s = (Ok a, t) \<and> Q a (fs_server t)))"

lemma yieldsD: "yields P m Q \<Longrightarrow> P (fs_server s) \<Longrightarrow> \<exists>a t. m s = (Ok a, t) \<and> Q a (fs_server t)"
  by (simp add: yields_def)

lemma yields_bindE: "yields P m R \<Longrightarrow> (\<And>a. yields (R a) (k a) Q) \<Longrightarrow> yields P (bindE m k) Q"
  unfolding yields_def by (fastforce simp: bindE_def)

lemma yields_thenE: "yields P m (\<lambda>_. R) \<Longrightarrow> yields R k Q \<Longrightarrow> yields P (thenE m k) Q"
  unfolding thenE_def by (rule yields_bindE)

lemma yields_conseq: "yields P m Q \<Longrightarrow> (\<And>t. P' t \<Longrightarrow> P t) \<Longrightarrow> (\<And>a t. Q a t \<Longrightarrow> Q' a t) \<Longrightarrow> yields P' m Q'"
  unfolding yields_def by blast

lemma yields_ret: "(\<And>t. P t \<Longrightarrow> Q a t) \<Longrightarrow> yields P (ret a) Q"
  by (simp add: yields_def ret_def)

lemma yields_given: "(b \<Longrightarrow> yields P m Q) \<Longrightarrow> yields (\<lambda>t. b \<and> P t) m Q"
  by (auto simp: yields_def)

lemma yields_count:
  assumes "\<And>k x. yields (P k) (g x) (\<lambda>_. P (Suc k))"
  shows "yields (P k) (for_each g xs) (\<lambda>_. P (k + length xs))"
proof (induction xs arbitrary: k)
  case (Cons x xs)
  then show ?case using yields_thenE [OF assms Cons.IH, of k x] by simp
qed (simp add: yields_ret)

lemma yields_require_ok: "yields P m Q \<Longrightarrow> yields P (require_ok L m) Q"
  unfolding yields_def require_ok_def
  by (fastforce simp: bindE_def attempt_def require_NoError_def ret_def)

lemma yields_require_that: "(\<And>t. P t \<Longrightarrow> b) \<Longrightarrow> yields P (require_that L text b) (\<lambda>_. P)"
  by (auto simp: yields_def require_that_def ret_def)

lemma yields_bind_ok: "yields P m Q \<Longrightarrow> yields P (bindE m (\<lambda>_. ret ())) (\<lambda>_ t. \<exists>a. Q a t)"
  by (erule yields_bindE) (auto intro: yields_ret)

subsection \<open>The service, asked\<close>

definition in_state :: "wf_state \<Rightarrow> served \<Rightarrow> bool" where
  "in_state w v = (\<exists>past. sv_trace v = w # past)"

definition running :: "wf_state \<Rightarrow> (wf_state \<Rightarrow> gval res) \<Rightarrow> string \<Rightarrow> served \<Rightarrow> bool" where
  "running w f h v = (in_state w v \<and> map_of (sv_outcomes v) h = Some (Running (length (sv_trace v)) f))"

lemma update_of_fields [simp]:
  "uo_UpdateID (update_of run uid name args stage) = uid" "uo_WorkflowID (update_of run uid name args stage) = wr_ID run"
  "uo_RunID (update_of run uid name args stage) = wr_RunID run" "uo_UpdateName (update_of run uid name args stage) = name"
  "uo_Args (update_of run uid name args stage) = args"
  by (simp_all add: update_of_def)

lemma yields_send:
  fixes \<alpha> :: "'s \<Rightarrow> served"
  assumes serves: "serves dedup W \<alpha> E run"
    and "uo_WorkflowID o' = wr_ID run" "uo_RunID o' = wr_RunID run"
    and "\<And>v uid. Q v \<Longrightarrow> id_for o' uid v \<Longrightarrow> R uid (take_update dedup W o' uid v)"
  shows "yields (\<lambda>t. Q (\<alpha> t)) (send_update E o' :: (('s, 'z) feature_state_scheme, string) io) (\<lambda>h t. R h (\<alpha> t))"
  unfolding yields_def
proof (intro allI impI)
  fix s :: "('s, 'z) feature_state_scheme"
  assume Q: "Q (\<alpha> (fs_server s))"
  have "serves_updates dedup W \<alpha> E run" using serves by (simp add: serves_def)
  with assms(2,3) obtain uid u where
    u: "he_answer E (fs_server s) (CUpdate o') = (Ok (VStr uid), u)" "id_for o' uid (\<alpha> (fs_server s))"
      "\<alpha> u = take_update dedup W o' uid (\<alpha> (fs_server s))"
    unfolding serves_updates_def by blast
  then show "\<exists>a t. send_update E o' s = (Ok a, t) \<and> R a (\<alpha> (fs_server t))"
    using assms(4) [OF Q u(2)] by (simp add: send_update_def bindE_def fcall_def ret_def text_of_def)
qed

lemma yields_get:
  fixes \<alpha> :: "'s \<Rightarrow> served"
  assumes serves: "serves dedup W \<alpha> E run"
    and "\<And>v. Q v \<Longrightarrow> map_of (sv_outcomes v) h \<noteq> None" "\<And>v r. Q v \<Longrightarrow> ends_with v h r \<Longrightarrow> r = Ok x"
  shows "yields (\<lambda>t. Q (\<alpha> t)) (get_update E run h :: (('s, 'z) feature_state_scheme, gval) io) (\<lambda>a t. a = x \<and> Q (\<alpha> t))"
  unfolding yields_def
proof (intro allI impI)
  fix s :: "('s, 'z) feature_state_scheme"
  assume Q: "Q (\<alpha> (fs_server s))"
  have "serves_outcomes \<alpha> E run" using serves by (simp add: serves_def)
  with Q assms(2) [OF Q] obtain r u where
    "he_answer E (fs_server s) (CUpdateGet (wr_ID run) (wr_RunID run) h) = (r, u)" "ends_with (\<alpha> (fs_server s)) h r"
      "\<alpha> u = \<alpha> (fs_server s)"
    unfolding serves_outcomes_def by blast
  then show "\<exists>a t. get_update E run h s = (Ok a, t) \<and> a = x \<and> Q (\<alpha> (fs_server t))"
    using Q assms(3) [OF Q] by (auto simp: get_update_def fcall_def)
qed

lemma yields_outcome:
  assumes serves: "serves dedup W \<alpha> E run"
    and "\<And>v. Q v \<Longrightarrow> map_of (sv_outcomes v) h \<noteq> None" "\<And>v r. Q v \<Longrightarrow> ends_with v h r \<Longrightarrow> r = Ok x"
  shows "yields (\<lambda>t. Q (\<alpha> t)) (expect_outcome E run h x) (\<lambda>_ t. Q (\<alpha> t))"
  unfolding expect_outcome_def
  by (rule yields_bindE [OF yields_require_ok [OF yields_get [OF assms]]])
    (auto intro: yields_given yields_require_that)

lemma yields_signal:
  fixes \<alpha> :: "'s \<Rightarrow> served"
  assumes serves: "serves dedup W \<alpha> E run"
    and "\<And>v. Q v \<Longrightarrow> R (signalled W name v)"
  shows "yields (\<lambda>t. Q (\<alpha> t)) (require_signal E run name :: (('s, 'z) feature_state_scheme, unit) io) (\<lambda>_ t. R (\<alpha> t))"
  unfolding require_signal_def
proof (rule yields_require_ok, unfold yields_def, intro allI impI)
  fix s :: "('s, 'z) feature_state_scheme"
  assume Q: "Q (\<alpha> (fs_server s))"
  have "serves_signals W \<alpha> E run" using serves by (simp add: serves_def)
  then obtain x u where "he_answer E (fs_server s) (CSignal (wr_ID run) (wr_RunID run) name VNil) = (Ok x, u)"
    "\<alpha> u = signalled W name (\<alpha> (fs_server s))"
    unfolding serves_signals_def by blast
  then show "\<exists>a t. signal E run name VNil s = (Ok a, t) \<and> R (\<alpha> (fs_server t))"
    using assms(2) [OF Q] by (simp add: signal_def fdo_def bindE_def fcall_def ret_def)
qed

text \<open>An update with an id of its own: accepted or rejected.\<close>

lemma yields_accept:
  assumes serves: "serves dedup W \<alpha> E run"
    and "wd_update W name = Some (check, handle)" "check w args = None" "handle w args = (w', f)"
  shows "yields (\<lambda>t. in_state w (\<alpha> t)) (send_update E (update_of run [] name args stage)) (\<lambda>h t. running w' f h (\<alpha> t))"
  by (rule yields_send [OF serves])
    (auto simp: update_of_def running_def in_state_def id_for_def take_update_def run_update_def assms)

lemma running_ends: "running w f h v \<Longrightarrow> ends_with v h r \<Longrightarrow> r = f w"
  by (auto simp: running_def in_state_def ends_with_def)

lemma yields_update:
  assumes serves: "serves dedup W \<alpha> E run"
    and "case wd_update W name of None \<Rightarrow> False | Some (check, handle) \<Rightarrow>
        check w args = None \<and> fst (handle w args) = w' \<and> snd (handle w args) w' = Ok x"
  shows "yields (\<lambda>t. in_state w (\<alpha> t)) (expect_update E run (update_of run [] name args stage) x) (\<lambda>_ t. in_state w' (\<alpha> t))"
  unfolding expect_update_def
proof -
  from assms(2) obtain check handle f where
    u: "wd_update W name = Some (check, handle)" "check w args = None" "handle w args = (w', f)" "f w' = Ok x"
    by (auto split: option.splits simp: prod_eq_iff)
  show "yields (\<lambda>t. in_state w (\<alpha> t)) (bindE (require_ok (he_lib E) (send_update E (update_of run [] name args stage)))
      (\<lambda>h. expect_outcome E run h x)) (\<lambda>_ t. in_state w' (\<alpha> t))"
  proof (rule yields_bindE [OF yields_require_ok [OF yields_accept [OF serves u(1-3)]]])
    fix h
    have "yields (\<lambda>t. running w' f h (\<alpha> t)) (expect_outcome E run h x) (\<lambda>_ t. running w' f h (\<alpha> t))"
      by (rule yields_outcome [OF serves]) (use running_ends [of w' f h] u(4) in \<open>auto simp: running_def\<close>)
    then show "yields (\<lambda>t. running w' f h (\<alpha> t)) (expect_outcome E run h x) (\<lambda>_ t. in_state w' (\<alpha> t))"
      by (rule yields_conseq) (simp_all add: running_def)
  qed
qed

lemma yields_reject:
  fixes \<alpha> :: "'s \<Rightarrow> served"
  assumes serves: "serves dedup W \<alpha> E run"
    and "wd_update W name = Some (check, handle)" "check w args = Some e"
  shows "yields (\<lambda>t. in_state w (\<alpha> t))
    (expect_rejected E run (update_of run [] name args stage) :: (('s, 'z) feature_state_scheme, unit) io) (\<lambda>_ t. in_state w (\<alpha> t))"
  unfolding expect_rejected_def
proof (rule yields_bindE, rule yields_require_ok)
  let ?R = "\<lambda>h v. in_state w v \<and> map_of (sv_outcomes v) h = Some (Rejected e)"
  show "yields (\<lambda>t. in_state w (\<alpha> t)) (send_update E (update_of run [] name args stage) :: (('s, 'z) feature_state_scheme, string) io) (\<lambda>h t. ?R h (\<alpha> t))"
    by (rule yields_send [OF serves])
      (auto simp: update_of_def in_state_def id_for_def take_update_def run_update_def assms)
  fix h
  show "yields (\<lambda>t. ?R h (\<alpha> t))
      (require_err (he_lib E) ''expected negative value to be rejected'' (get_update E run h) :: (('s, 'z) feature_state_scheme, unit) io)
      (\<lambda>_ t. in_state w (\<alpha> t))"
    unfolding yields_def
  proof (intro allI impI)
    fix s :: "('s, 'z) feature_state_scheme"
    assume R: "?R h (\<alpha> (fs_server s))"
    moreover have "serves_outcomes \<alpha> E run" using serves by (simp add: serves_def)
    ultimately obtain r u where
      "he_answer E (fs_server s) (CUpdateGet (wr_ID run) (wr_RunID run) h) = (r, u)" "ends_with (\<alpha> (fs_server s)) h r"
        "\<alpha> u = \<alpha> (fs_server s)"
      unfolding serves_outcomes_def by blast
    with R show "\<exists>a t. require_err (he_lib E) ''expected negative value to be rejected'' (get_update E run h) s = (Ok a, t) \<and>
        in_state w (\<alpha> (fs_server t))"
      by (auto simp: ends_with_def require_err_def bindE_def attempt_def get_update_def fcall_def require_that_def ret_def)
  qed
qed

lemma yields_no_rejected:
  fixes fetched :: "'s \<Rightarrow> Histories res"
  shows "no_rejections N fetched \<Longrightarrow> yields P (no_rejected N fetched E :: (('s, 'z) feature_state_scheme, unit) io) (\<lambda>_. P)"
  unfolding yields_def
proof (intro allI impI)
  fix s :: "('s, 'z) feature_state_scheme"
  assume no: "no_rejections N fetched" and P: "P (fs_server s)"
  then obtain hs where hs: "fetched (fs_server s) = Ok hs"
    "\<forall>h \<in> set hs. \<forall>ev \<in> set (elements (getter ''Events'' h)). event_type ev \<noteq> el_UpdateRejected N"
    unfolding no_rejections_def by blast
  have each: "for_each (\<lambda>x. g x) xs s = (Ok (), s)" if "\<And>x. x \<in> set xs \<Longrightarrow> g x s = (Ok (), s)" for xs :: "gval list" and g
    using that by (induction xs) (simp_all add: ret_def thenE_def bindE_def)
  have "for_each (\<lambda>hist. for_each (\<lambda>ev. require_that (he_lib E) ''found a workflow update rejected event'' (event_type ev \<noteq> el_UpdateRejected N))
           (elements (getter ''Events'' hist))) hs s = (Ok (), s)"
    by (intro each) (use hs(2) in \<open>auto simp: require_that_def ret_def\<close>)
  then show "\<exists>a t. no_rejected N fetched E s = (Ok a, t) \<and> P (fs_server t)"
    using P hs(1) by (auto simp: no_rejected_def RequireNoUpdateRejectedEvents_def bindE_def asks_def ret_def require_NoError_def)
qed

subsection \<open>The hooks, over a service that serves their workflow\<close>

lemma hook_passes:
  assumes "hook = if_updates E stage msg (with_run (execute_default r) body)"
    and "supports_update E stage msg s = (Ok [], s1)" "execute_default r s1 = (Ok run, s2)"
    and "yields P (body run) (\<lambda>_. R)" "P (fs_server s2)"
  shows "\<exists>s'. hook s = (Ok (Some run), s') \<and> R (fs_server s')"
proof -
  from yieldsD [OF assms(4,5)] obtain t where "body run s2 = (Ok (), t)" "R (fs_server t)" by auto
  then show ?thesis using assms(1-3) by (simp add: if_updates_def with_run_def bindE_def thenE_def ret_def)
qed

lemma ends_in_state: "yields P m (\<lambda>_ t. in_state w (\<alpha> t)) \<Longrightarrow> yields P m (\<lambda>_ t. now (\<alpha> t) = w)"
  by (erule yields_conseq) (auto simp: in_state_def)

lemma begun_in_state: "in_state start_state begun"
  by (simp add: in_state_def begun_def)

text \<open>The end of a hook: the signal ends the workflow, and the histories are looked at.\<close>

lemma yields_shutdown:
  assumes serves: "serves dedup W \<alpha> E run" and "wd_signal W = on_shutdown"
  shows "yields (\<lambda>t. in_state w (\<alpha> t)) (require_signal E run shutdownSignal) (\<lambda>_ t. in_state (w\<lparr>ws_done := True\<rparr>) (\<alpha> t))"
  by (rule yields_signal [OF serves]) (auto simp: signalled_def in_state_def assms(2) on_shutdown_def)

lemma yields_basic:
  assumes serves: "serves dedup Workflow_basic \<alpha> E run" and no: "no_rejections N fetched"
  shows "yields (\<lambda>t. in_state start_state (\<alpha> t))
    (thenE (expect_update E run (update_of run [] ''my-update-name'' [VStr ''my-update-arg''] StageCompleted)
              (VStr (Sprintf ''update-result:%s'' [''my-update-arg'']))) (no_rejected N fetched E))
    (\<lambda>_ t. in_state (start_state\<lparr>ws_text := ''my-update-arg''\<rparr>) (\<alpha> t))"
  by (rule yields_thenE [OF yields_update [OF serves] yields_no_rejected [OF no]])
    (simp_all add: Workflow_basic_def on_update_def no_check_def text_arg_def text_of_def)

lemma yields_activities:
  assumes serves: "serves dedup Workflow_activities \<alpha> E run" and no: "no_rejections N fetched"
  shows "yields (\<lambda>t. in_state start_state (\<alpha> t))
    (thenE (expect_update E run (update_of run [] ''updateActivity'' [] StageCompleted) (VInt (6 * 5)))
       (thenE (require_signal E run shutdownSignal) (no_rejected N fetched E)))
    (\<lambda>_ t. in_state (start_state\<lparr>ws_done := True\<rparr>) (\<alpha> t))"
  by (rule yields_thenE [OF yields_update [OF serves] yields_thenE [OF yields_shutdown [OF serves] yields_no_rejected [OF no]]])
    (simp_all add: Workflow_activities_def on_update_def no_check_def add_results_def SomeActivity_def numeral_eq_Suc)

lemma intercepted:
  "bindE (of_res (AddOneInterceptor (update_of run [] ''add'' [VInt 5] StageCompleted))) k =
     k (update_of run [] ''add'' [VInt 10] StageCompleted)"
  by (simp add: AddOneInterceptor_def update_of_def go_int_def of_res_def bindE_def ret_def fun_eq_iff)

lemma yields_interceptor:
  assumes serves: "serves dedup Workflow_interceptor \<alpha> E run"
  shows "yields (\<lambda>t. in_state start_state (\<alpha> t))
    (thenE (bindE (of_res (AddOneInterceptor (update_of run [] ''add'' [VInt 5] StageCompleted))) (\<lambda>o'.
              expect_update E run o' (VInt (5 + 5)))) (require_signal E run shutdownSignal))
    (\<lambda>_ t. in_state (start_state\<lparr>ws_counter := 10, ws_done := True\<rparr>) (\<alpha> t))"
  unfolding intercepted
proof (rule yields_thenE)
  show "yields (\<lambda>t. in_state start_state (\<alpha> t))
      (expect_update E run (update_of run [] ''add'' [VInt 10] StageCompleted) (VInt (5 + 5)))
      (\<lambda>_ t. in_state (start_state\<lparr>ws_counter := 10\<rparr>) (\<alpha> t))"
    by (rule yields_update [OF serves])
      (simp add: Workflow_interceptor_def on_update_def no_check_def add_to_counter_def int_arg_def start_state_def Let_def)
  show "yields (\<lambda>t. in_state (start_state\<lparr>ws_counter := 10\<rparr>) (\<alpha> t)) (require_signal E run shutdownSignal)
      (\<lambda>_ t. in_state (start_state\<lparr>ws_counter := 10, ws_done := True\<rparr>) (\<alpha> t))"
    by (rule yields_shutdown [OF serves]) (simp add: Workflow_interceptor_def)
qed

text \<open>One round of \<open>non_durable_reject\<close>: two are added, and the negative value is rejected.\<close>

definition counted :: "nat \<Rightarrow> wf_state" where
  "counted k = start_state\<lparr>ws_counter := of_nat (2 * k)\<rparr>"

lemma negative_rejected: "\<exists>e. nonNegative w [VInt (- 1)] = Some e" "nonNegative w [VInt 2] = None"
  by (simp_all add: nonNegative_def int_arg_def word_sless_alt)

lemma yields_round:
  assumes serves: "serves dedup NonDurableReject \<alpha> E run"
  shows "yields (\<lambda>t. in_state (counted k) (\<alpha> t))
    (bindE (require_ok (he_lib E) (send_update E (update_of run [] ''updateActivity'' [VInt 2] StageCompleted))) (\<lambda>h.
       thenE (bindE (require_ok (he_lib E) (get_update E run h)) (\<lambda>_. ret ()))
         (expect_rejected E run (update_of run [] ''updateActivity'' [VInt (- 1)] StageCompleted))))
    (\<lambda>_ t. in_state (counted (Suc k)) (\<alpha> t))"
proof (rule yields_bindE)
  let ?f = "\<lambda>_::wf_state. Ok (VInt (sint (ws_counter (counted k) + 2)))"
  show "yields (\<lambda>t. in_state (counted k) (\<alpha> t))
      (require_ok (he_lib E) (send_update E (update_of run [] ''updateActivity'' [VInt 2] StageCompleted)))
      (\<lambda>h t. running (counted (Suc k)) ?f h (\<alpha> t))"
    by (rule yields_require_ok, rule yields_accept [OF serves, of _ nonNegative add_to_counter])
      (simp_all add: NonDurableReject_def on_update_def negative_rejected add_to_counter_def Let_def int_arg_def counted_def)
  fix h
  have "yields (\<lambda>t. running (counted (Suc k)) ?f h (\<alpha> t)) (get_update E run h)
      (\<lambda>a t. a = VInt (sint (ws_counter (counted k) + 2)) \<and> running (counted (Suc k)) ?f h (\<alpha> t))"
    by (rule yields_get [OF serves]) (use running_ends [of "counted (Suc k)" ?f h] in \<open>auto simp: running_def\<close>)
  then have "yields (\<lambda>t. running (counted (Suc k)) ?f h (\<alpha> t)) (bindE (require_ok (he_lib E) (get_update E run h)) (\<lambda>_. ret ()))
      (\<lambda>_ t. in_state (counted (Suc k)) (\<alpha> t))"
    by (rule yields_conseq [OF yields_bind_ok [OF yields_require_ok]]) (auto simp: running_def)
  moreover obtain e where "nonNegative (counted (Suc k)) [VInt (- 1)] = Some e" using negative_rejected by blast
  then have "yields (\<lambda>t. in_state (counted (Suc k)) (\<alpha> t))
      (expect_rejected E run (update_of run [] ''updateActivity'' [VInt (- 1)] StageCompleted))
      (\<lambda>_ t. in_state (counted (Suc k)) (\<alpha> t))"
    by (intro yields_reject [OF serves, of _ nonNegative add_to_counter]) (simp_all add: NonDurableReject_def on_update_def)
  ultimately show "yields (\<lambda>t. running (counted (Suc k)) ?f h (\<alpha> t))
      (thenE (bindE (require_ok (he_lib E) (get_update E run h)) (\<lambda>_. ret ()))
        (expect_rejected E run (update_of run [] ''updateActivity'' [VInt (- 1)] StageCompleted)))
      (\<lambda>_ t. in_state (counted (Suc k)) (\<alpha> t))"
    by (rule yields_thenE)
qed

lemma yields_non_durable:
  assumes serves: "serves dedup NonDurableReject \<alpha> E run" and no: "no_rejections N fetched"
  shows "yields (\<lambda>t. in_state start_state (\<alpha> t))
    (let add = (\<lambda>i. update_of run [] ''updateActivity'' [VInt i] StageCompleted) in
        thenE (expect_rejected E run (add (- 1)))
       (thenE (for_each (\<lambda>i.
            bindE (require_ok (he_lib E) (send_update E (add 2))) (\<lambda>h.
            thenE (bindE (require_ok (he_lib E) (get_update E run h)) (\<lambda>_. ret ()))
                  (expect_rejected E run (add (- 1))))) [0..<5])
       (thenE (require_signal E run shutdownSignal)
              (no_rejected N fetched E))))
    (\<lambda>_ t. in_state (start_state\<lparr>ws_counter := 10, ws_done := True\<rparr>) (\<alpha> t))"
proof -
  obtain e where e: "nonNegative start_state [VInt (- 1)] = Some e" using negative_rejected by blast
  have c: "counted 0 = start_state" "counted (0 + length [0..<5]) = start_state\<lparr>ws_counter := 10\<rparr>"
    by (simp_all add: counted_def start_state_def)
  have "yields (\<lambda>t. in_state start_state (\<alpha> t))
      (expect_rejected E run (update_of run [] ''updateActivity'' [VInt (- 1)] StageCompleted)) (\<lambda>_ t. in_state start_state (\<alpha> t))"
    by (intro yields_reject [OF serves, of _ nonNegative add_to_counter]) (simp_all add: NonDurableReject_def on_update_def e)
  moreover note yields_count [where P = "\<lambda>k t. in_state (counted k) (\<alpha> t)" and k = 0 and xs = "[0..<5]", OF yields_round [OF serves], unfolded c]
  moreover have "yields (\<lambda>t. in_state (start_state\<lparr>ws_counter := 10\<rparr>) (\<alpha> t)) (require_signal E run shutdownSignal)
      (\<lambda>_ t. in_state (start_state\<lparr>ws_counter := 10, ws_done := True\<rparr>) (\<alpha> t))"
    by (rule yields_shutdown [OF serves]) (simp add: NonDurableReject_def)
  ultimately show ?thesis
    unfolding Let_def by (rule yields_thenE [OF _ yields_thenE [OF _ yields_thenE [OF _ yields_no_rejected [OF no]]]])
qed

text \<open>The service of \<open>deduplication\<close> after the two requests, and after the signal.\<close>

definition counted_once :: served where
  "counted_once = take_update True Count (update_of \<lparr>wr_ID = [], wr_RunID = []\<rparr> ''reused_update_id'' ''incrementCount'' [] StageAccepted)
     ''reused_update_id'' begun"

definition counted_ended :: served where
  "counted_ended = counted_once\<lparr>sv_trace := (now counted_once)\<lparr>ws_done := True\<rparr> # sv_trace counted_once\<rparr>"

lemma counted_once:
  "take_update True Count (update_of run ''reused_update_id'' ''incrementCount'' [] StageAccepted) ''reused_update_id'' begun = counted_once"
  "take_update True Count (update_of run ''reused_update_id'' ''incrementCount'' [] StageAccepted) ''reused_update_id'' counted_once = counted_once"
  "map_of (sv_outcomes counted_once) ''reused_update_id'' \<noteq> None"
  "ends_with counted_once ''reused_update_id'' r \<Longrightarrow> r = Ok (VInt 1)"
  "accepted counted_ended = 1" "now counted_ended = start_state\<lparr>ws_counter := 1, ws_done := True\<rparr>"
  by (auto simp: counted_once_def counted_ended_def take_update_def run_update_def begun_def update_of_def Count_def on_update_def
      no_check_def ends_with_def counter_value_def start_state_def accepted_def)

lemma yields_history:
  fixes \<alpha> :: "'s \<Rightarrow> served"
  assumes "tells_updates \<alpha> E run" "\<And>v. Q v \<Longrightarrow> accepted v = n"
    and "yields (\<lambda>t. Q (\<alpha> t)) (k n :: (('s, 'z) feature_state_scheme, 'a) io) R"
  shows "yields (\<lambda>t. Q (\<alpha> t)) (bindE (fitems E (CHistory (wr_ID run) [])) (\<lambda>history.
     bindE (of_res (GetCountCompletedUpdates history)) k)) R"
  unfolding yields_def
proof (intro allI impI)
  fix s :: "('s, 'z) feature_state_scheme"
  assume Q: "Q (\<alpha> (fs_server s))"
  let ?c = "CHistory (wr_ID run) []"
  let ?t = "(log_call ?c s)\<lparr>fs_server := snd (he_answer E (fs_server s) ?c)\<rparr>"
  from assms(1) have c: "GetCountCompletedUpdates (he_items E (fs_server s) ?c) = Ok (accepted (\<alpha> (fs_server s)))"
    "\<alpha> (fs_server ?t) = \<alpha> (fs_server s)"
    by (simp_all add: tells_updates_def)
  from yieldsD [OF assms(3), of ?t] Q c(2) obtain a t where "k n ?t = (Ok a, t)" "R a (fs_server t)" by auto
  then show "\<exists>a t. bindE (fitems E ?c) (\<lambda>history. bindE (of_res (GetCountCompletedUpdates history)) k) s = (Ok a, t) \<and>
      R a (fs_server t)"
    using assms(2) [OF Q] c(1) by (simp add: bindE_def fitems_def of_res_def)
qed

lemma yields_deduplication:
  assumes serves: "serves True Count \<alpha> E run" and no: "no_rejections N fetched" and tells: "tells_updates \<alpha> E run"
  shows "yields (\<lambda>t. \<alpha> t = begun)
    (let o' = update_of run ''reused_update_id'' ''incrementCount'' [] StageAccepted in
        bindE (require_ok (he_lib E) (send_update E o')) (\<lambda>handle1.
        bindE (require_ok (he_lib E) (send_update E o')) (\<lambda>handle2.
        thenE (expect_outcome E run handle1 (VInt 1))
       (thenE (expect_outcome E run handle2 (VInt 1))
       (thenE (require_signal E run shutdownSignal)
       (thenE (no_rejected N fetched E)
       (bindE (fitems E (CHistory (wr_ID run) [])) (\<lambda>history.
        bindE (of_res (GetCountCompletedUpdates history)) (\<lambda>nUpdates.
          require_that (he_lib E) ''Not equal'' (nUpdates = 1)))))))))) (\<lambda>_ t. \<alpha> t = counted_ended)"
proof -
  let ?id = "''reused_update_id''"
  let ?o = "update_of run ?id ''incrementCount'' [] StageAccepted"
  have send: "yields (\<lambda>t. \<alpha> t = v) (require_ok (he_lib E) (send_update E ?o)) (\<lambda>h t. h = ?id \<and> \<alpha> t = counted_once)"
    if "v = begun \<or> v = counted_once" for v
    using that
    by (intro yields_require_ok yields_send [OF serves, where Q = "\<lambda>x. x = v" and R = "\<lambda>h x. h = ?id \<and> x = counted_once"])
      (auto simp: counted_once id_for_def)
  have get: "yields (\<lambda>t. \<alpha> t = counted_once) (expect_outcome E run ?id (VInt 1)) (\<lambda>_ t. \<alpha> t = counted_once)"
    by (rule yields_outcome [OF serves, where Q = "\<lambda>x. x = counted_once"]) (use counted_once(3,4) in auto)
  have stop: "yields (\<lambda>t. \<alpha> t = counted_once) (require_signal E run shutdownSignal) (\<lambda>_ t. \<alpha> t = counted_ended)"
    by (rule yields_signal [OF serves, where Q = "\<lambda>x. x = counted_once" and R = "\<lambda>x. x = counted_ended"])
      (simp add: signalled_def counted_ended_def Count_def on_shutdown_def)
  show ?thesis
    unfolding Let_def
    by (intro yields_bindE [OF send] yields_given yields_bindE [OF send])
      (auto intro!: yields_thenE [OF get] yields_thenE [OF stop] yields_thenE [OF yields_no_rejected [OF no]]
        yields_history [OF tells, where Q = "\<lambda>x. x = counted_ended" and n = 1] yields_require_that simp: counted_once(5))
qed

subsection \<open>The runs of deduplication\<close>

text \<open>What a service can come to with updates, under ids of their own or seen before, and signals.\<close>

inductive reached :: "workflow_def \<Rightarrow> served \<Rightarrow> bool" for W where
  reached_begun: "reached W begun"
| reached_update: "reached W v \<Longrightarrow> wd_result W (now v) = None \<Longrightarrow> id_for o' uid v \<Longrightarrow> reached W (take_update True W o' uid v)"
| reached_signal: "reached W v \<Longrightarrow> wd_result W (now v) = None \<Longrightarrow> reached W (signalled W name v)"

text \<open>The states since a handler was started.\<close>

definition since :: "nat \<Rightarrow> served \<Rightarrow> wf_state list" where
  "since n v = take (Suc (length (sv_trace v) - n)) (sv_trace v)"

definition counts :: "served \<Rightarrow> string \<times> outcome \<Rightarrow> bool" where
  "counts v x = (\<exists>n. snd x = Running n (\<lambda>w. Ok (counter_value w)) \<and> n \<le> length (sv_trace v) \<and>
     (\<forall>w \<in> set (since n v). \<exists>k \<in> {1..length (sv_outcomes v)}. ws_counter w = of_nat k))"

definition counting :: "served \<Rightarrow> bool" where
  "counting v = (distinct (map fst (sv_outcomes v)) \<and> ws_counter (now v) = of_nat (length (sv_outcomes v)) \<and>
     list_all (counts v) (sv_outcomes v))"

lemma counts_later:
  assumes "counts v x" "sv_trace v' = w # sv_trace v" "length (sv_outcomes v) \<le> length (sv_outcomes v')"
    and "ws_counter w = of_nat (length (sv_outcomes v'))" "0 < length (sv_outcomes v')"
  shows "counts v' x"
proof -
  from assms(1) obtain n where n: "snd x = Running n (\<lambda>w. Ok (counter_value w))" "n \<le> length (sv_trace v)"
    "\<forall>u \<in> set (since n v). \<exists>k \<in> {1..length (sv_outcomes v)}. ws_counter u = of_nat k"
    by (auto simp: counts_def)
  have "since n v' = w # since n v" using n(2) assms(2) by (simp add: since_def Suc_diff_le)
  moreover have "\<exists>k \<in> {1..length (sv_outcomes v')}. ws_counter u = of_nat k" if "u \<in> set (since n v)" for u
    using n(3) that assms(3) by fastforce
  moreover have "\<exists>k \<in> {1..length (sv_outcomes v')}. ws_counter w = of_nat k"
    using assms(4,5) by (intro bexI [of _ "length (sv_outcomes v')"]) (simp_all add: Suc_le_eq)
  ultimately show ?thesis using n(1,2) assms(2) by (auto simp: counts_def)
qed

lemma reached_counting: "reached Count v \<Longrightarrow> counting v"
proof (induction rule: reached.induct)
  case reached_begun
  show ?case by (simp add: counting_def begun_def start_state_def)
next
  case (reached_update v o' uid)
  show ?case
  proof (cases "map_of (sv_outcomes v) uid = None \<and> uo_UpdateName o' = ''incrementCount''")
    case False
    then have "take_update True Count o' uid v = v"
      by (auto simp: take_update_def run_update_def Count_def on_update_def)
    then show ?thesis using reached_update.IH by simp
  next
    case True
    let ?w = "(now v)\<lparr>ws_counter := ws_counter (now v) + 1\<rparr>"
    let ?v = "\<lparr>sv_trace = ?w # sv_trace v, sv_outcomes = (uid, Running (Suc (length (sv_trace v))) (\<lambda>w. Ok (counter_value w))) # sv_outcomes v\<rparr>"
    have v: "take_update True Count o' uid v = ?v"
      using True by (simp add: take_update_def run_update_def Count_def on_update_def no_check_def)
    have w: "ws_counter ?w = of_nat (length (sv_outcomes ?v))"
      using reached_update.IH by (simp add: counting_def)
    have "counts ?v (uid, Running (Suc (length (sv_trace v))) (\<lambda>w. Ok (counter_value w)))"
      using w by (auto simp: counts_def since_def intro: bexI [of _ "Suc (length (sv_outcomes v))"])
    moreover have "list_all (counts ?v) (sv_outcomes v)"
      using reached_update.IH w by (auto simp: counting_def list_all_iff intro: counts_later)
    moreover have "uid \<notin> fst ` set (sv_outcomes v)" using True by (simp add: map_of_eq_None_iff)
    ultimately show ?thesis using reached_update.IH w by (simp add: v counting_def)
  qed
next
  case (reached_signal v name)
  let ?w = "wd_signal Count (now v) name"
  let ?v = "v\<lparr>sv_trace := ?w # sv_trace v\<rparr>"
  have s: "signalled Count name v = ?v" by (simp add: signalled_def)
  have w: "ws_counter ?w = of_nat (length (sv_outcomes ?v))"
    using reached_signal.IH by (simp add: counting_def Count_def on_shutdown_def)
  have "counts ?v x" if "x \<in> set (sv_outcomes v)" for x
    using reached_signal.IH w that
    by (intro counts_later [of v x ?v ?w]) (auto simp: counting_def list_all_iff intro: length_pos_if_in_set)
  then show ?case using reached_signal.IH w by (simp add: s counting_def list_all_iff)
qed

section \<open>Properties\<close>


text \<open>A service that runs the workflow, with fresh ids and a history of the updates it accepted.\<close>

definition fresh_id :: "served \<Rightarrow> string" where
  "fresh_id v = CHR ''u'' # concat (map fst (sv_outcomes v))"

definition not_found :: "gval res" where
  "not_found = Err (External NotFound ''workflow not found'')"

definition machine_answer :: "workflow_def \<Rightarrow> served \<Rightarrow> feature_call \<Rightarrow> gval res \<times> served" where
  "machine_answer W v c = (case c of
     CUpdate o' \<Rightarrow>
       if uo_WorkflowID o' = ''__does_not_exist'' then (not_found, v)
       else let uid = (if uo_UpdateID o' = [] then fresh_id v else uo_UpdateID o') in (Ok (VStr uid), take_update True W o' uid v)
   | CUpdateGet i r uid \<Rightarrow>
       ((case map_of (sv_outcomes v) uid of
          None \<Rightarrow> not_found | Some (Rejected e) \<Rightarrow> Err e | Some (Running n f) \<Rightarrow> f (now v)), v)
   | CQueryArgs i r name args \<Rightarrow> (case wd_query W (now v) name args of Some x \<Rightarrow> x | None \<Rightarrow> not_found, v)
   | CSignal i r name a \<Rightarrow> (Ok VNil, signalled W name v)
   | _ \<Rightarrow> (Ok VNil, v))"

definition served_from :: "served \<Rightarrow> served" where
  "served_from v = (if sv_trace v = [] then begun else v)"

definition completed_event :: gval where
  "completed_event = VPtr (VStruct [] [(''Attributes'', VIface (VPtr (VStruct
     ''history.HistoryEvent_WorkflowExecutionUpdateCompletedEventAttributes''
       [(''WorkflowExecutionUpdateCompletedEventAttributes'', VPtr (VStruct [] []))])))])"

definition machine_env :: "workflow_def \<Rightarrow> served hook_env" where
  "machine_env W = \<lparr>he_lib = sample_sdk, he_answer = (\<lambda>v. machine_answer W (served_from v)),
     he_items = (\<lambda>v c. replicate (accepted (served_from v)) (Ok completed_event)),
     he_query = (\<lambda>_ _ _. Ok (Ok VNil)), he_histories = (\<lambda>_ _. []), he_ticks = (\<lambda>_. (2, None)), he_stop_time = (\<lambda>_. 0),
     he_now = (\<lambda>_ _. 0), he_show = (\<lambda>_. [])\<rparr>"

lemma fresh_id_fresh: "map_of (sv_outcomes v) (fresh_id v) = None"
proof -
  have "length (fst x) \<le> length (concat (map fst xs))" if "x \<in> set xs" for x :: "string \<times> outcome" and xs
    using that by (induction xs) auto
  then have "fst x \<noteq> fresh_id v" if "x \<in> set (sv_outcomes v)" for x
    using that by (fastforce simp: fresh_id_def)
  then show ?thesis by (force simp: map_of_eq_None_iff)
qed

lemma served_from_nonempty: "sv_trace (served_from v) \<noteq> []"
  by (simp add: served_from_def begun_def)

lemma served_from_same [simp]: "sv_trace v \<noteq> [] \<Longrightarrow> served_from v = v"
  by (simp add: served_from_def)

lemma take_update_nonempty: "sv_trace v \<noteq> [] \<Longrightarrow> sv_trace (take_update d W o' uid v) \<noteq> []"
  by (auto simp: take_update_def run_update_def split: option.splits prod.splits)

lemma machine_serves:
  assumes "wr_ID run \<noteq> ''__does_not_exist''"
  shows "serves True W served_from (machine_env W) run"
proof -
  have "serves_updates True W served_from (machine_env W) run"
    unfolding serves_updates_def
  proof (intro allI impI)
    fix t and o' :: update_options
    assume "uo_WorkflowID o' = wr_ID run \<and> uo_RunID o' = wr_RunID run"
    then show "\<exists>uid u. he_answer (machine_env W) t (CUpdate o') = (Ok (VStr uid), u) \<and> id_for o' uid (served_from t) \<and>
        served_from u = take_update True W o' uid (served_from t)"
      using assms fresh_id_fresh [of "served_from t"] take_update_nonempty [OF served_from_nonempty [of t], of True W o']
      by (auto simp: machine_env_def machine_answer_def Let_def id_for_def)
  qed
  moreover have "serves_outcomes served_from (machine_env W) run"
    unfolding serves_outcomes_def
  proof (intro allI impI)
    fix t uid
    assume m: "map_of (sv_outcomes (served_from t)) uid \<noteq> None"
    obtain w ws where "sv_trace (served_from t) = w # ws"
      using served_from_nonempty [of t] by (cases "sv_trace (served_from t)") auto
    with m show "\<exists>r u. he_answer (machine_env W) t (CUpdateGet (wr_ID run) (wr_RunID run) uid) = (r, u) \<and>
        ends_with (served_from t) uid r \<and> served_from u = served_from t"
      by (auto simp: machine_env_def machine_answer_def ends_with_def split: option.splits outcome.splits)
  qed
  ultimately show ?thesis
    using served_from_nonempty
    by (simp add: serves_def serves_signals_def serves_queries_def machine_env_def machine_answer_def signalled_def)
qed

lemma machine_tells: "tells_updates served_from (machine_env W) run"
proof -
  have "attributes_of ''WorkflowExecutionUpdateCompletedEventAttributes'' completed_event \<noteq> VNil" by code_simp
  then have "count_events k (replicate n (Ok completed_event))
      (\<lambda>ev. attributes_of ''WorkflowExecutionUpdateCompletedEventAttributes'' ev \<noteq> VNil) = Ok (k + n)" for k n
    by (induction n arbitrary: k) simp_all
  then have "GetCountCompletedUpdates (replicate n (Ok completed_event)) = Ok n" for n
    by (simp add: GetCountCompletedUpdates_def CountEvents_def)
  then show ?thesis
    using served_from_nonempty by (simp add: tells_updates_def machine_env_def machine_answer_def)
qed

lemma machine_starts:
  obtains s1 run s2 where "supports_update (machine_env W) StageCompleted updateDisabledMsg (sample_state begun) = (Ok [], s1)"
    "execute_default reset_runner s1 = (Ok run, s2)" "wr_ID run \<noteq> ''__does_not_exist''" "fs_server s2 = begun"
proof -
  let ?s = "sample_state begun"
  obtain s1 where s1: "supports_update (machine_env W) StageCompleted updateDisabledMsg ?s = (Ok [], s1)"
      "fs_server s1 = begun" "calm s1"
    using sample_state_fields(2) [of begun]
    by (auto simp: supports_update_def new_uuid_def Let_def bindE_def attempt_def send_update_def fcall_def machine_env_def
        machine_answer_def not_found_def of_res_def checkSupport_def has_kind_def begun_def sample_state_def calm_def harness_state.defs)
  have p: "GetPrimaryWorkflow sample_feature = Ok (RFunc ''W'' ''/r/features/a/b/feature.go'', [])" by code_simp
  from s1(3) obtain run s2 where "execute_default reset_runner s1 = (Ok run, s2)" "wr_ID run = []" "fs_server s2 = fs_server s1"
    using p
    by (auto simp: execute_default_def ExecuteDefault_def reset_runner_def sample_runner_def GetPrimaryWorkflow_def thenE_def bindE_def
        upd_def start_workflow_def act_def calm_def ret_def Let_def default_start_options_def log_call_def)
  with s1 that show thesis by auto
qed



text \<open>The same service without the promise.\<close>

definition repeating_env :: "served hook_env" where
  "repeating_env = (machine_env Count)\<lparr>he_answer := (\<lambda>t c. case c of
     CUpdate o' \<Rightarrow> if uo_WorkflowID o' = ''__does_not_exist'' then (not_found, served_from t)
       else let v = served_from t; uid = (if uo_UpdateID o' = [] then fresh_id v else uo_UpdateID o') in
         (Ok (VStr uid), take_update False Count o' uid v)
   | _ \<Rightarrow> he_answer (machine_env Count) t c)\<rparr>"

lemma repeating_serves:
  assumes "wr_ID run \<noteq> ''__does_not_exist''"
  shows "serves False Count served_from repeating_env run"
proof -
  have "serves_updates False Count served_from repeating_env run"
    unfolding serves_updates_def
    using assms fresh_id_fresh take_update_nonempty [OF served_from_nonempty]
    by (auto simp: repeating_env_def Let_def id_for_def)
  moreover have "serves True Count served_from (machine_env Count) run" by (rule machine_serves [OF assms])
  ultimately show ?thesis
    by (simp add: serves_def serves_outcomes_def serves_signals_def serves_queries_def repeating_env_def)
qed

lemma repeating_supports:
  "supports_update repeating_env StageCompleted updateDisabledMsg s = supports_update (machine_env Count) StageCompleted updateDisabledMsg s"
  if "served_from (fs_server s) = fs_server s"
  using that by (simp add: supports_update_def repeating_env_def machine_env_def machine_answer_def bindE_def new_uuid_def Let_def attempt_def
      send_update_def fcall_def not_found_def)



text \<open>The same id twice, and another one: the counter is 2.\<close>

definition counted_twice :: served where
  "counted_twice = (let run = \<lparr>wr_ID = [], wr_RunID = []\<rparr>; take = (\<lambda>uid. take_update True Count (update_of run uid ''incrementCount'' [] StageAccepted) uid) in
     take ''b'' (take ''a'' (take ''a'' begun)))"


end
