(* ===== verification/Feature_Queries.thy ===== *)
theory Feature_Queries
  imports Update_Service
begin

text \<open>
  The Go features about queries (\<open>features/query\<close>): the checks of the result, which query the workflow while it
  waits and then let it end, and their workflows as machines. Queries are served as \<open>Update_Service\<close> says.
\<close>

section \<open>Queries\<close>

definition query :: "'s hook_env \<Rightarrow> workflow_run \<Rightarrow> string \<Rightarrow> gval list \<Rightarrow> (('s, 'z) feature_state_scheme, gval) io" where
  "query E run name args = fcall E (CQueryArgs (wr_ID run) (wr_RunID run) name args)"

text \<open>A result read into an integer or a text: a value of another type is an error.\<close>

definition decode_error :: go_error where
  "decode_error = External OtherError ''unable to decode''"

definition as_int :: "gval \<Rightarrow> gval res" where
  "as_int v = (case v of VInt i \<Rightarrow> Ok v | _ \<Rightarrow> Err decode_error)"

definition as_text :: "gval \<Rightarrow> gval res" where
  "as_text v = (case v of VStr s \<Rightarrow> Ok v | _ \<Rightarrow> Err decode_error)"

definition expect_query ::
  "'s hook_env \<Rightarrow> workflow_run \<Rightarrow> string \<Rightarrow> gval list \<Rightarrow> (gval \<Rightarrow> gval res) \<Rightarrow> gval \<Rightarrow> (('s, 'z) feature_state_scheme, unit) io" where
  "expect_query E run name args read expected =
     bindE (require_ok (he_lib E) (query E run name args)) (\<lambda>q.
     bindE (require_NoError (he_lib E) (read q)) (\<lambda>qRes.
       require_that (he_lib E) ''Not equal'' (qRes = expected)))"

text \<open>An error of exactly this kind, not one that wraps it.\<close>

definition exactly_kind :: "ekind \<Rightarrow> go_error \<Rightarrow> bool" where
  "exactly_kind k e = (case e of External k' m \<Rightarrow> k' = k | _ \<Rightarrow> False)"

section \<open>The checks\<close>

definition CheckResult_successful_query ::
  "'s hook_env \<Rightarrow> 'v Runner \<Rightarrow> workflow_run \<Rightarrow> (('s, 'z) feature_state_scheme, unit) io" where
  "CheckResult_successful_query E r run =
     (let counter = (\<lambda>n. expect_query E run ''counterQ'' [] as_int (VInt n)); inc = require_signal E run ''counterInc'' in
      thenE (counter 0)
     (thenE inc
     (thenE (counter 1)
     (thenE inc
     (thenE inc
     (thenE inc
     (thenE (counter 4)
     (thenE inc
            (CheckResultDefault (he_lib E) r run)))))))))"

definition CheckResult_unexpected_arguments ::
  "'s hook_env \<Rightarrow> 'v Runner \<Rightarrow> workflow_run \<Rightarrow> (('s, 'z) feature_state_scheme, unit) io" where
  "CheckResult_unexpected_arguments E r run =
     thenE (expect_query E run ''theQuery'' [VInt 123] as_text (VStr ''got 123''))
    (thenE (expect_query E run ''theQuery'' [VInt 123, VBool True] as_text (VStr ''got 123''))
    (thenE (expect_query E run ''theQuery'' [] as_text (VStr ''got 0''))
    (thenE (require_signal E run ''finish'')
           (CheckResultDefault (he_lib E) r run))))"

definition CheckResult_unexpected_return_type ::
  "'s hook_env \<Rightarrow> 'v Runner \<Rightarrow> workflow_run \<Rightarrow> (('s, 'z) feature_state_scheme, unit) io" where
  "CheckResult_unexpected_return_type E r run =
     bindE (require_ok (he_lib E) (query E run ''theQuery'' [])) (\<lambda>q.
     thenE (require_err (he_lib E) ''An error is expected but got nil.'' (of_res (as_int q)))
    (thenE (require_signal E run ''finish'')
           (CheckResultDefault (he_lib E) r run)))"

definition CheckResult_unexpected_query_type_name ::
  "'s hook_env \<Rightarrow> 'v Runner \<Rightarrow> workflow_run \<Rightarrow> (('s, 'z) feature_state_scheme, unit) io" where
  "CheckResult_unexpected_query_type_name E r run =
     bindE (attempt (query E run ''nonexistent'' [])) (\<lambda>x.
     thenE (require_that (he_lib E) ''An error is expected but got nil.'' (failed_with (\<lambda>_. True) x))
    (thenE (require_that (he_lib E) ''Object expected to be of type'' (failed_with (exactly_kind QueryFailed) x))
    (thenE (require_signal E run ''finish'')
           (CheckResultDefault (he_lib E) r run))))"

definition CheckResult_timeout_no_workers ::
  "'s hook_env \<Rightarrow> 'v Runner \<Rightarrow> workflow_run \<Rightarrow> (('s, 'z) feature_state_scheme, unit) io" where
  "CheckResult_timeout_no_workers E r run =
     thenE stop_worker
    (bindE (attempt (fcall E (CQueryWithin (wr_ID run) (wr_RunID run) ''somequery'' 1000))) (\<lambda>x.
     thenE (require_that (he_lib E) ''An error is expected but got nil.'' (failed_with (\<lambda>_. True) x))
    (thenE (require_that (he_lib E) ''Should be true'' (failed_with (exactly_kind DeadlineExceeded) x))
    (thenE (start_worker E r)
    (thenE (require_signal E run ''finish'')
           (CheckResultDefault (he_lib E) r run))))))"

section \<open>The workflows\<close>

text \<open>Five signals end the workflow of \<open>successful_query\<close>, which counts them.\<close>

definition Workflow_counter :: workflow_def where
  "Workflow_counter = \<lparr>
     wd_update = (\<lambda>name. None),
     wd_signal = (\<lambda>w name. if name = ''counterInc'' \<and> ws_counter w < 5 then w\<lparr>ws_counter := ws_counter w + 1\<rparr> else w),
     wd_query = (\<lambda>w name args. if name = ''counterQ'' then Some (Ok (counter_value w)) else None),
     wd_result = (\<lambda>w. if ws_counter w = 5 then Some (Ok VNil) else None)\<rparr>"

text \<open>The SDK reads a missing argument as zero and drops what the handler does not take.\<close>

definition Workflow_theQuery :: workflow_def where
  "Workflow_theQuery = \<lparr>
     wd_update = (\<lambda>name. None),
     wd_signal = (\<lambda>w name. if name = ''finish'' then w\<lparr>ws_done := True\<rparr> else w),
     wd_query = (\<lambda>w name args.
       if name = ''theQuery'' then Some (Ok (VStr (Sprintf ''got %d'' [show_int (sint (int_arg args))]))) else None),
     wd_result = when_done (\<lambda>w. VNil)\<rparr>"

text \<open>The other workflows answer at most one query, with a constant, until they are told to finish.\<close>

definition waits_for_finish :: "string \<Rightarrow> gval option \<Rightarrow> workflow_def" where
  "waits_for_finish queryType answer = \<lparr>
     wd_update = (\<lambda>name. None),
     wd_signal = (\<lambda>w name. if name = ''finish'' then w\<lparr>ws_done := True\<rparr> else w),
     wd_query = (\<lambda>w name args. if name = queryType then map_option Ok answer else None),
     wd_result = when_done (\<lambda>w. VNil)\<rparr>"

definition Workflow_hi_bob :: workflow_def where
  "Workflow_hi_bob = waits_for_finish ''theQuery'' (Some (VStr ''hi bob''))"

definition Workflow_no_query :: workflow_def where
  "Workflow_no_query = waits_for_finish [] None"

definition Workflow_somequery :: workflow_def where
  "Workflow_somequery = waits_for_finish ''somequery'' (Some (VBool True))"

section \<open>Lemmas\<close>

lemma live_require_ok [live_intros]: "live L c p m \<Longrightarrow> live L c p (require_ok K m)"
  unfolding require_ok_def require_NoError_def
  by (intro live_intros) (auto intro: live_intros split: sum.splits res.splits)

lemma live_require_that [live_intros]: "live L c p (require_that K text b)"
  unfolding require_that_def FailNow_def by (simp add: live_pure)

text \<open>The check that stops and starts the worker stays within the life cycle, up to the default check.\<close>

lemma timeout_check_live:
  assumes "he_lib E = L" "rn_Config r = c" "registrations (rn_Feature r) = registrations p"
    and "live L c p (CheckResultDefault L r run :: (('s, 'z) feature_state_scheme, unit) io)"
  shows "live L c p (CheckResult_timeout_no_workers E r run :: (('s, 'z) feature_state_scheme, unit) io)"
  unfolding CheckResult_timeout_no_workers_def require_signal_def signal_def assms(1)
  by (intro live_intros assms)

text \<open>So does the hook that stops and starts the worker under an update.\<close>

lemma live_new_uuid [live_intros]: "live L c p new_uuid"
  by (rule live_quiet; simp add: new_uuid_def)

lemma live_fsleep [live_intros]: "live L c p (fsleep ms)"
  unfolding fsleep_def by (rule live_log)

lemma live_updates [live_intros]:
  "live L c p (send_update E o')" "live L c p (get_update E run h)" "live L c p (supports_update E stage msg)"
proof -
  show s: "live L c p (send_update E o')" for o' and L c p
    unfolding send_update_def by (intro live_intros)
  show "live L c p (get_update E run h)" unfolding get_update_def by (intro live_intros)
  show "live L c p (supports_update E stage msg)"
    unfolding supports_update_def Let_def by (intro live_intros s) (auto intro!: live_intros split: sum.splits)
qed

lemma worker_restart_live:
  assumes "he_lib E = L" "rn_Config r = c" "registrations (rn_Feature r) = registrations p"
  shows "live L c p (Execute_worker_restart E r)"
  unfolding Execute_worker_restart_def if_updates_def with_run_def require_signal_def signal_def
  by (intro live_intros assms)

text \<open>A query leaves the workflow as it is.\<close>

lemma yields_query:
  fixes \<alpha> :: "'s \<Rightarrow> served"
  assumes serves: "serves dedup W \<alpha> E run" and "wd_query W w name args = Some (Ok x)" "read x = Ok y"
  shows "yields (\<lambda>t. in_state w (\<alpha> t)) (expect_query E run name args read y :: (('s, 'z) feature_state_scheme, unit) io)
    (\<lambda>_ t. in_state w (\<alpha> t))"
  unfolding yields_def
proof (intro allI impI)
  fix s :: "('s, 'z) feature_state_scheme"
  assume i: "in_state w (\<alpha> (fs_server s))"
  then have "now (\<alpha> (fs_server s)) = w" by (auto simp: in_state_def)
  moreover have "serves_queries W \<alpha> E run" using serves by (simp add: serves_def)
  ultimately obtain u where "he_answer E (fs_server s) (CQueryArgs (wr_ID run) (wr_RunID run) name args) = (Ok x, u)"
    "\<alpha> u = \<alpha> (fs_server s)"
    using assms(2) unfolding serves_queries_def by blast
  with i assms(3) show "\<exists>a t. expect_query E run name args read y s = (Ok a, t) \<and> in_state w (\<alpha> (fs_server t))"
    by (simp add: expect_query_def query_def require_ok_def require_NoError_def require_that_def bindE_def attempt_def fcall_def ret_def)
qed

lemma yields_signal_to:
  assumes serves: "serves dedup W \<alpha> E run" and "wd_signal W w name = w'"
  shows "yields (\<lambda>t. in_state w (\<alpha> t)) (require_signal E run name) (\<lambda>_ t. in_state w' (\<alpha> t))"
  by (rule yields_signal [OF serves]) (use assms(2) in \<open>auto simp: in_state_def signalled_def\<close>)

text \<open>A hook that comes to its last step in a service for which \<open>P\<close> holds.\<close>

definition comes_to :: "('s \<Rightarrow> bool) \<Rightarrow> (('s, 'z) feature_state_scheme, 'a) io \<Rightarrow> ('s \<Rightarrow> bool) \<Rightarrow> (('s, 'z) feature_state_scheme, 'a) io \<Rightarrow> bool" where
  "comes_to P m Q k = (\<forall>s. P (fs_server s) \<longrightarrow> (\<exists>t. m s = k t \<and> Q (fs_server t)))"

lemma comes_to_thenE: "yields P m (\<lambda>_. R) \<Longrightarrow> comes_to R n Q k \<Longrightarrow> comes_to P (thenE m n) Q k"
  unfolding comes_to_def yields_def by (fastforce simp: thenE_def bindE_def)

lemma comes_to_here: "comes_to P k P k"
  unfolding comes_to_def by blast

definition at_count :: "nat \<Rightarrow> wf_state" where
  "at_count k = start_state\<lparr>ws_counter := of_nat k\<rparr>"

lemma counter_signal:
  assumes "k < 5"
  shows "wd_signal Workflow_counter (at_count k) ''counterInc'' = at_count (Suc k)"
proof -
  from assms have "k = 0 \<or> k = 1 \<or> k = 2 \<or> k = 3 \<or> k = 4" by arith
  then show ?thesis by (elim disjE) (simp_all add: Workflow_counter_def at_count_def)
qed

lemma counter_query:
  assumes "k < 5"
  shows "wd_query Workflow_counter (at_count k) ''counterQ'' [] = Some (Ok (VInt (int k)))"
proof -
  from assms have "k = 0 \<or> k = 1 \<or> k = 2 \<or> k = 3 \<or> k = 4" by arith
  then show ?thesis by (elim disjE) (simp_all add: Workflow_counter_def at_count_def counter_value_def)
qed

lemma successful_comes:
  assumes serves: "serves dedup Workflow_counter \<alpha> E run"
  shows "comes_to (\<lambda>t. in_state (at_count 0) (\<alpha> t)) (CheckResult_successful_query E r run)
    (\<lambda>t. in_state (at_count 5) (\<alpha> t)) (CheckResultDefault (he_lib E) r run)"
proof -
  have inc: "yields (\<lambda>t. in_state (at_count k) (\<alpha> t)) (require_signal E run ''counterInc'') (\<lambda>_ t. in_state (at_count (Suc k)) (\<alpha> t))"
    if "k < 5" for k
    by (rule yields_signal_to [OF serves counter_signal [OF that]])
  have read: "yields (\<lambda>t. in_state (at_count k) (\<alpha> t)) (expect_query E run ''counterQ'' [] as_int (VInt n)) (\<lambda>_ t. in_state (at_count k) (\<alpha> t))"
    if "k < 5" "n = int k" for k n
    using yields_query [OF serves counter_query [OF that(1)], of as_int "VInt n"] that(2) by (simp add: as_int_def)
  have five: "at_count 5 = at_count (Suc (Suc (Suc (Suc (Suc 0)))))" by (simp add: numeral_eq_Suc)
  show ?thesis
    unfolding CheckResult_successful_query_def Let_def five
    by (rule comes_to_thenE [OF read comes_to_thenE [OF inc comes_to_thenE [OF read comes_to_thenE [OF inc comes_to_thenE [OF inc
      comes_to_thenE [OF inc comes_to_thenE [OF read comes_to_thenE [OF inc comes_to_here]]]]]]]]) simp_all
qed

lemma theQuery_answers:
  "wd_query Workflow_theQuery w ''theQuery'' (VInt 123 # args) = Some (Ok (VStr ''got 123''))"
  "wd_query Workflow_theQuery w ''theQuery'' [] = Some (Ok (VStr ''got 0''))"
  by (simp_all add: Workflow_theQuery_def int_arg_def show_int_def show_nat.simps, code_simp+)

lemma arguments_comes:
  assumes serves: "serves dedup Workflow_theQuery \<alpha> E run"
  shows "comes_to (\<lambda>t. in_state start_state (\<alpha> t)) (CheckResult_unexpected_arguments E r run)
    (\<lambda>t. in_state (start_state\<lparr>ws_done := True\<rparr>) (\<alpha> t)) (CheckResultDefault (he_lib E) r run)"
  unfolding CheckResult_unexpected_arguments_def
  by (rule comes_to_thenE [OF yields_query [OF serves theQuery_answers(1)] comes_to_thenE [OF yields_query [OF serves theQuery_answers(1)]
      comes_to_thenE [OF yields_query [OF serves theQuery_answers(2)] comes_to_thenE [OF yields_signal_to [OF serves] comes_to_here]]]])
    (simp_all add: as_text_def Workflow_theQuery_def)

lemma yields_answer:
  fixes \<alpha> :: "'s \<Rightarrow> served"
  assumes serves: "serves dedup W \<alpha> E run" and "wd_query W w name args = Some (Ok x)"
  shows "yields (\<lambda>t. in_state w (\<alpha> t)) (require_ok L (query E run name args) :: (('s, 'z) feature_state_scheme, gval) io)
    (\<lambda>q t. q = x \<and> in_state w (\<alpha> t))"
  unfolding yields_def
proof (intro allI impI)
  fix s :: "('s, 'z) feature_state_scheme"
  assume i: "in_state w (\<alpha> (fs_server s))"
  then have "now (\<alpha> (fs_server s)) = w" by (auto simp: in_state_def)
  moreover have "serves_queries W \<alpha> E run" using serves by (simp add: serves_def)
  ultimately obtain u where "he_answer E (fs_server s) (CQueryArgs (wr_ID run) (wr_RunID run) name args) = (Ok x, u)"
    "\<alpha> u = \<alpha> (fs_server s)"
    using assms(2) unfolding serves_queries_def by blast
  with i show "\<exists>a t. require_ok L (query E run name args) s = (Ok a, t) \<and> a = x \<and> in_state w (\<alpha> (fs_server t))"
    by (simp add: query_def require_ok_def require_NoError_def bindE_def attempt_def fcall_def ret_def)
qed

lemma comes_to_bindE: "yields P m (\<lambda>a t. a = v \<and> R t) \<Longrightarrow> comes_to R (k v) Q n \<Longrightarrow> comes_to P (bindE m k) Q n"
  unfolding comes_to_def yields_def by (fastforce simp: bindE_def)

lemma text_is_no_int: "thenE (require_err L msg (of_res (as_int (VStr t)))) m = m"
  by (rule ext) (simp add: require_err_def as_int_def thenE_def bindE_def attempt_def of_res_def require_that_def ret_def)

lemma return_type_comes:
  assumes serves: "serves dedup Workflow_hi_bob \<alpha> E run"
  shows "comes_to (\<lambda>t. in_state start_state (\<alpha> t)) (CheckResult_unexpected_return_type E r run)
    (\<lambda>t. in_state (start_state\<lparr>ws_done := True\<rparr>) (\<alpha> t)) (CheckResultDefault (he_lib E) r run)"
  unfolding CheckResult_unexpected_return_type_def
  by (rule comes_to_bindE [OF yields_answer [OF serves, where x = "VStr ''hi bob''" and w = start_state]])
    (simp_all add: text_is_no_int Workflow_hi_bob_def waits_for_finish_def comes_to_thenE [OF yields_signal_to [OF serves] comes_to_here])

section \<open>What the checks see\<close>

text \<open>
  The query features see what their workflow holds. On a service that serves the workflow, signals before later
  queries, no assertion of the check fails, and it comes to the default check of the result with a workflow
  that has ended: \<open>successful_query\<close> has read 0, 1 and 4 and sent the five signals that end the
  workflow; \<open>unexpected_arguments\<close> has had a missing argument read as zero and one too many dropped;
  \<open>unexpected_return_type\<close> has failed to read a text into an integer.
\<close>

lemma query_features_pass:
  assumes "(check, W) \<in> {(CheckResult_successful_query E r, Workflow_counter), (CheckResult_unexpected_arguments E r, Workflow_theQuery),
      (CheckResult_unexpected_return_type E r, Workflow_hi_bob)}"
    and "serves dedup W \<alpha> E run" "\<alpha> (fs_server s) = begun"
  shows "\<exists>t. check run s = CheckResultDefault (he_lib E) r run t \<and> wd_result W (now (\<alpha> (fs_server t))) = Some (Ok VNil)"
proof -
  have "in_state start_state (\<alpha> (fs_server s))" using assms(3) begun_in_state by simp
  moreover have "at_count 0 = start_state" by (simp add: at_count_def start_state_def)
  ultimately show ?thesis
    using assms(1,2) successful_comes [of dedup \<alpha> E run r] arguments_comes [of dedup \<alpha> E run r]
      return_type_comes [of dedup \<alpha> E run r]
    by (fastforce simp: Workflow_hi_bob_def waits_for_finish_def comes_to_def in_state_def at_count_def Workflow_counter_def Workflow_theQuery_def when_done_def)
qed

end
