(* ===== verification/Feature_Schedules.thy ===== *)
theory Feature_Schedules
  imports Feature_Queries
begin

text \<open>
  The Go features about schedules (\<open>features/schedule\<close>): the hooks of \<open>pause\<close>, \<open>backfill\<close>, \<open>trigger\<close> and
  \<open>duplicate_error\<close>, and the check of the result of \<open>cron\<close>, as scripts over the service (\<open>Feature_Calls\<close>).
  The hook of \<open>basic\<close> is not modelled, but for its wait (\<open>Feature_Checks\<close>). Times are in milliseconds.
\<close>

section \<open>Schedules that are deleted\<close>

text \<open>
  \<open>require.Eventually\<close> runs its condition in a goroutine of its own, once per tick; \<open>k\<close> ticks come before
  the time is over. An assertion that fails there panics in that goroutine, which ends the process without
  running what the hook deferred: the result \<open>Some e\<close>. A condition that still runs when the time is over
  is not modelled.
\<close>

fun eventually_loop ::
  "sdk_lib \<Rightarrow> nat \<Rightarrow> (('s, 'z) feature_state_scheme, bool) io \<Rightarrow> (('s, 'z) feature_state_scheme, go_error option) io" where
  "eventually_loop L 0 condition = panic (Errorf ''%s'' [sl_assert L ''Condition never satisfied''])"
| "eventually_loop L (Suc k) condition = (\<lambda>s.
     case condition s of
       (Ok True, s') \<Rightarrow> (Ok None, s')
     | (Ok False, s') \<Rightarrow> eventually_loop L k condition s'
     | (Err e, s') \<Rightarrow> (Ok (Some e), s')
     | (Panic e, s') \<Rightarrow> (Ok (Some e), s'))"

definition eventually_goroutine ::
  "'s hook_env \<Rightarrow> (('s, 'z) feature_state_scheme, bool) io \<Rightarrow> (('s, 'z) feature_state_scheme, go_error option) io" where
  "eventually_goroutine E condition =
     bindE (asks (\<lambda>s. fst (he_ticks E (fs_server s)))) (\<lambda>k. eventually_loop (he_lib E) k condition)"

text \<open>The deferred deletion; its error is logged only.\<close>

definition delete_schedule :: "'s hook_env \<Rightarrow> string \<Rightarrow> ('s, 'z) feature_state_scheme \<Rightarrow> ('s, 'z) feature_state_scheme" where
  "delete_schedule E i s = snd (fcall E (CScheduleDelete i) s)"

definition with_schedule ::
  "'s hook_env \<Rightarrow> schedule_options \<Rightarrow> (('s, 'z) feature_state_scheme, go_error option) io
     \<Rightarrow> (('s, 'z) feature_state_scheme, workflow_run option) io" where
  "with_schedule E opts body =
     bindE (require_ok (he_lib E) (fcall E (CScheduleCreate opts))) (\<lambda>_ s.
       case body s of
         (Ok (Some e), s') \<Rightarrow> (Panic e, s')
       | (Ok None, s') \<Rightarrow> (Ok None, delete_schedule E (sh_ID opts) s')
       | (Err e, s') \<Rightarrow> (Err e, delete_schedule E (sh_ID opts) s')
       | (Panic e, s') \<Rightarrow> (Panic e, delete_schedule E (sh_ID opts) s'))"

text \<open>The hooks create paused schedules; the id of the workflow is made before that of the schedule.\<close>

definition paused_every_minute :: "'v Runner \<Rightarrow> string \<Rightarrow> string \<Rightarrow> string \<Rightarrow> schedule_options" where
  "paused_every_minute r workflowID i note =
     \<lparr>sh_ID = i, sh_Every = 60000, sh_BufferOne = False, sh_WorkflowID = workflowID, sh_Args = [VStr ''arg1''],
      sh_TaskQueue = hc_TaskQueue (rn_Config r), sh_Paused = True, sh_Note = note\<rparr>"

definition describe :: "'s hook_env \<Rightarrow> string \<Rightarrow> (('s, 'z) feature_state_scheme, gval) io" where
  "describe E i = require_ok (he_lib E) (fcall E (CScheduleDescribe i))"

section \<open>The hooks\<close>

text \<open>\<open>pause\<close>: the state of a description is a pointer, read without a getter.\<close>

definition assertState :: "'s hook_env \<Rightarrow> string \<Rightarrow> bool \<Rightarrow> string \<Rightarrow> (('s, 'z) feature_state_scheme, unit) io" where
  "assertState E i paused note =
     bindE (describe E i) (\<lambda>desc. let state = field_of ''State'' (field_of ''Schedule'' desc) in
       if state = VNil then panic nil_dereference
       else thenE (require_that (he_lib E) ''Not equal'' (getter ''Paused'' state = VBool paused))
                  (require_that (he_lib E) ''Not equal'' (getter ''Note'' state = VStr note)))"

definition require_call :: "'s hook_env \<Rightarrow> feature_call \<Rightarrow> (('s, 'z) feature_state_scheme, unit) io" where
  "require_call E c = bindE (require_ok (he_lib E) (fcall E c)) (\<lambda>_. ret ())"

definition pause_steps :: "'s hook_env \<Rightarrow> string \<Rightarrow> (('s, 'z) feature_state_scheme, go_error option) io" where
  "pause_steps E i =
     thenE (assertState E i True ''initial note'')
    (thenE (require_call E (CSchedulePause i ''custom note1''))
    (thenE (assertState E i True ''custom note1'')
    (thenE (require_call E (CScheduleUnpause i []))
    (thenE (assertState E i False ''Unpaused via Go SDK'')
    (thenE (require_call E (CScheduleUnpause i ''custom note2''))
    (thenE (assertState E i False ''custom note2'')
    (thenE (require_call E (CSchedulePause i []))
    (thenE (assertState E i True ''Paused via Go SDK'')
           (ret None)))))))))"

definition Execute_pause :: "'s hook_env \<Rightarrow> 'v Runner \<Rightarrow> (('s, 'z) feature_state_scheme, workflow_run option) io" where
  "Execute_pause E r = bindE new_uuid (\<lambda>workflowID. bindE new_uuid (\<lambda>i.
     with_schedule E (paused_every_minute r workflowID i ''initial note'') (pause_steps E i)))"

text \<open>\<open>backfill\<close>\<close>

definition truncate_minute :: "int \<Rightarrow> int" where
  "truncate_minute t = t - t mod 60000"

definition backfills :: "int \<Rightarrow> (int \<times> int) list" where
  "backfills t =
     (let threeYearsAgo = truncate_minute (t - 3 * 365 * 24 * 60 * 60000);
          thirtyMinutesAgo = truncate_minute (t - 30 * 60000)
      in [(threeYearsAgo - 2 * 60000, threeYearsAgo), (thirtyMinutesAgo - 2 * 60000, thirtyMinutesAgo)])"

definition backfilled :: "gval \<Rightarrow> bool" where
  "backfilled desc =
     (let info = field_of ''Info'' desc
      in (field_of ''NumActions'' info = VInt 6 \<or> field_of ''NumActions'' info = VInt 4) \<and>
         length (elements (field_of ''RunningWorkflows'' info)) = 0)"

definition Execute_backfill :: "'s hook_env \<Rightarrow> 'v Runner \<Rightarrow> (('s, 'z) feature_state_scheme, workflow_run option) io" where
  "Execute_backfill E r = bindE new_uuid (\<lambda>workflowID. bindE new_uuid (\<lambda>i.
     with_schedule E (paused_every_minute r workflowID i [])
       (bindE (asks (\<lambda>s. he_now E (fs_server s) 0)) (\<lambda>t.
        thenE (require_call E (CScheduleBackfill i (backfills t)))
              (eventually_goroutine E (bindE (describe E i) (\<lambda>desc. ret (backfilled desc))))))))"

text \<open>\<open>trigger\<close>\<close>

definition Execute_trigger :: "'s hook_env \<Rightarrow> 'v Runner \<Rightarrow> (('s, 'z) feature_state_scheme, workflow_run option) io" where
  "Execute_trigger E r = bindE new_uuid (\<lambda>workflowID. bindE new_uuid (\<lambda>i.
     with_schedule E (paused_every_minute r workflowID i [])
       (thenE (require_call E (CScheduleTrigger i))
       (thenE (fsleep 2000)
       (thenE (require_call E (CScheduleTrigger i))
              (eventually_goroutine E (bindE (describe E i) (\<lambda>desc.
                 ret (field_of ''NumActions'' (field_of ''Info'' desc) = VInt 2)))))))))"

text \<open>\<open>duplicate_error\<close>: which errors are \<open>ErrScheduleAlreadyRunning\<close> is a parameter.\<close>

definition Execute_duplicate_error ::
  "(go_error \<Rightarrow> bool) \<Rightarrow> 's hook_env \<Rightarrow> 'v Runner \<Rightarrow> (('s, 'z) feature_state_scheme, workflow_run option) io" where
  "Execute_duplicate_error already_running E r = bindE new_uuid (\<lambda>scheduleID. bindE new_uuid (\<lambda>workflowID.
     let opts = (paused_every_minute r workflowID scheduleID [])\<lparr>sh_Every := 3600000, sh_Args := []\<rparr> in
     with_schedule E opts
       (bindE (attempt (fcall E (CScheduleCreate opts))) (\<lambda>x.
        thenE (require_that (he_lib E) ''An error is expected but got nil.'' (failed_with (\<lambda>_. True) x))
       (thenE (require_that (he_lib E) ''Should be true'' (failed_with already_running x))
              (ret None))))))"

section \<open>The cron schedule\<close>

record cron_status = status_lib +
  st_Completed :: int

text \<open>The completed executions of a listing; the others have to be running.\<close>

fun count_completed :: "cron_status \<Rightarrow> sdk_lib \<Rightarrow> gval list \<Rightarrow> nat \<Rightarrow> nat res" where
  "count_completed S L [] completed = Ok completed"
| "count_completed S L (x # xs) completed =
     (if getter ''Status'' x = VInt (st_Completed S) then count_completed S L xs (completed + 1)
      else if getter ''Status'' x = VInt (st_Running S) then count_completed S L xs completed
      else Panic (Errorf ''%s'' [sl_assert L ''Not equal'']))"

definition cron_query :: "workflow_run \<Rightarrow> string" where
  "cron_query run = ''WorkflowId = '' @ [squote] @ wr_ID run @ [squote]"

text \<open>The rounds: whether one of them saw two completed executions.\<close>

fun cron_rounds :: "cron_status \<Rightarrow> 's hook_env \<Rightarrow> workflow_run \<Rightarrow> nat \<Rightarrow> (('s, 'z) feature_state_scheme, bool) io" where
  "cron_rounds S E run 0 = ret False"
| "cron_rounds S E run (Suc i) =
     thenE (fsleep 1000)
    (bindE (require_ok (he_lib E) (fcall E (CListWorkflows (cron_query run)))) (\<lambda>lastResp.
     bindE (of_res (count_completed S (he_lib E) (elements (getter ''Executions'' lastResp)) 0)) (\<lambda>completed.
       if completed \<ge> 2 then ret True else cron_rounds S E run i)))"

definition CheckResult_cron ::
  "cron_status \<Rightarrow> 's hook_env \<Rightarrow> workflow_run \<Rightarrow> (('s, 'z) feature_state_scheme, unit) io" where
  "CheckResult_cron S E run =
     deferE (\<lambda>s. snd (fcall E (CTerminate (wr_ID run) []) s))
       (bindE (cron_rounds S E run 10) (require_that (he_lib E) ''expected >= 2 completed executions''))"

definition Workflow_cron :: "string \<Rightarrow> string res" where
  "Workflow_cron cronSchedule =
     (if cronSchedule \<noteq> ''@every 2s'' then Err (Errorf ''invalid cron schedule'' []) else Ok [])"

section \<open>Lemmas\<close>

definition no_delete :: "feature_call \<Rightarrow> bool" where
  "no_delete c = (case c of CScheduleDelete i \<Rightarrow> False | _ \<Rightarrow> True)"

lemma logs_require [logs_intros]: "logs Q m \<Longrightarrow> logs Q (require_ok L m)"
  unfolding require_ok_def require_NoError_def
  by (intro logs_intros) (auto intro: logs_intros split: sum.splits res.splits)

lemma logs_require_that [logs_intros]: "logs Q (require_that L text b)"
  unfolding require_that_def FailNow_def by (simp add: logs_pure)

lemma logs_schedule_calls [logs_intros]:
  "Q (CScheduleDescribe i) \<Longrightarrow> logs Q (describe E i)"
  "Q c \<Longrightarrow> logs Q (require_call E c)"
  "Q (CScheduleDescribe i) \<Longrightarrow> logs Q (assertState E i paused note)"
  unfolding assertState_def describe_def require_call_def Let_def by (intro logs_intros; assumption)+

lemma logs_fsleep [logs_intros]: "Q (CSleep ms) \<Longrightarrow> logs Q (fsleep ms)"
  unfolding fsleep_def by (rule logs_intros)

lemma logs_eventually_loop: "logs Q condition \<Longrightarrow> logs Q (eventually_loop L k condition)"
proof (induction k)
  case (Suc k)
  show ?case
    unfolding logs_def
  proof
    fix s
    obtain y t where y: "condition s = (y, t)" by force
    from logsD [OF Suc.prems y] obtain cs where cs: "fs_log t = fs_log s @ cs" "list_all Q cs" by blast
    from Suc.IH [OF Suc.prems] obtain ds where "fs_log (snd (eventually_loop L k condition t)) = fs_log t @ ds" "list_all Q ds"
      unfolding logs_def by blast
    then show "\<exists>cs. fs_log (snd (eventually_loop L (Suc k) condition s)) = fs_log s @ cs \<and> list_all Q cs"
      using cs y by (cases y) (auto split: bool.splits)
  qed
qed (simp add: logs_pure)

lemma logs_eventually [logs_intros]: "logs Q condition \<Longrightarrow> logs Q (eventually_goroutine E condition)"
  unfolding eventually_goroutine_def by (intro logs_intros logs_eventually_loop)

text \<open>Only the condition of a wait ends the process, with its last call.\<close>

definition crashes_after :: "feature_call \<Rightarrow> (('s, 'z) feature_state_scheme, go_error option) io \<Rightarrow> bool" where
  "crashes_after c m = (\<forall>s e t. m s = (Ok (Some e), t) \<longrightarrow> (\<exists>l. fs_log t = l @ [c]))"

lemma crashes_after_ret: "crashes_after c (ret None)"
  by (simp add: crashes_after_def ret_def)

lemma crashes_after_bindE: "(\<And>x. crashes_after c (k x)) \<Longrightarrow> crashes_after c (bindE m k)"
  unfolding crashes_after_def by (auto simp: bindE_Ok_iff)

lemma crashes_after_thenE: "crashes_after c k \<Longrightarrow> crashes_after c (thenE m k)"
  unfolding thenE_def by (rule crashes_after_bindE)

lemma describe_then_ret:
  assumes "bindE (describe E i) (\<lambda>desc. ret (f desc)) s = (x, t)" "\<And>b. x \<noteq> Ok b"
  shows "fs_log t = fs_log s @ [CScheduleDescribe i]"
  using assms
  by (auto simp: describe_def require_ok_def require_NoError_def bindE_def attempt_def fcall_def ret_def panic_def
      split: prod.splits res.splits)

lemma crashes_after_loop:
  assumes "condition = bindE (describe E i) (\<lambda>desc. ret (f desc))"
  shows "crashes_after (CScheduleDescribe i) (eventually_loop L k condition)"
proof (induction k)
  case 0
  show ?case by (simp add: crashes_after_def panic_def)
next
  case (Suc k)
  show ?case
    unfolding crashes_after_def
  proof (intro allI impI)
    fix s e t
    assume run: "eventually_loop L (Suc k) condition s = (Ok (Some e), t)"
    obtain y u where y: "condition s = (y, u)" by force
    show "\<exists>l. fs_log t = l @ [CScheduleDescribe i]"
    proof (cases y)
      case (Ok b)
      then show ?thesis using run y Suc.IH by (cases b) (auto simp: crashes_after_def)
    qed (use run y describe_then_ret [of E i f s y u] assms in auto)
  qed
qed

lemma crashes_after_eventually:
  "crashes_after (CScheduleDescribe i) (eventually_goroutine E (bindE (describe E i) (\<lambda>desc. ret (f desc))))"
  unfolding eventually_goroutine_def by (rule crashes_after_bindE, rule crashes_after_loop) (rule refl)

lemma never_crashes: "(\<And>c. crashes_after c m) \<Longrightarrow> m s \<noteq> (Ok (Some e), t)"
proof
  assume c: "\<And>c. crashes_after c m" and m: "m s = (Ok (Some e), t)"
  obtain l where l: "fs_log t = l @ [CStopWorker]" using c [of CStopWorker] m unfolding crashes_after_def by blast
  obtain l' where "fs_log t = l' @ [CStopSecond]" using c [of CStopSecond] m unfolding crashes_after_def by blast
  with l show False by simp
qed

text \<open>What the log of a hook with a schedule looks like.\<close>

definition schedule_log ::
  "bool \<Rightarrow> 's hook_env \<Rightarrow> schedule_options \<Rightarrow> ('s, 'z) feature_state_scheme \<Rightarrow> 'a res \<Rightarrow> ('s, 'z) feature_state_scheme \<Rightarrow> bool" where
  "schedule_log waits E opts s x s' =
     (if \<exists>v. fst (he_answer E (fs_server s) (CScheduleCreate opts)) = Ok v
      then \<exists>cs. list_all no_delete cs \<and>
        (fs_log s' = fs_log s @ CScheduleCreate opts # cs @ [CScheduleDelete (sh_ID opts)] \<or>
         waits \<and> (\<exists>e. x = Panic e) \<and> fs_log s' = fs_log s @ CScheduleCreate opts # cs \<and> last cs = CScheduleDescribe (sh_ID opts))
      else (\<exists>e. x = Panic e) \<and> fs_log s' = fs_log s @ [CScheduleCreate opts])"

lemma with_schedule_log:
  assumes body: "logs no_delete body"
    and crash: "if waits then crashes_after (CScheduleDescribe (sh_ID opts)) body else \<forall>c. crashes_after c body"
    and run: "with_schedule E opts body s = (x, s')"
  shows "schedule_log waits E opts s x s'"
proof -
  obtain y u where a: "he_answer E (fs_server s) (CScheduleCreate opts) = (y, u)" by force
  show ?thesis
  proof (cases y)
    case (Ok v)
    define t where "t = (log_call (CScheduleCreate opts) s)\<lparr>fs_server := u\<rparr>"
    obtain z t' where z: "body t = (z, t')" by force
    from logsD [OF body z] obtain cs where cs: "fs_log t' = fs_log s @ CScheduleCreate opts # cs" "list_all no_delete cs"
      by (auto simp: t_def)
    have d: "fs_log (delete_schedule E (sh_ID opts) t') = fs_log t' @ [CScheduleDelete (sh_ID opts)]"
      by (simp add: delete_schedule_def fcall_def split: prod.splits)
    have r: "(x, s') = (case z of Ok (Some e) \<Rightarrow> (Panic e, t') | Ok None \<Rightarrow> (Ok None, delete_schedule E (sh_ID opts) t')
        | Err e \<Rightarrow> (Err e, delete_schedule E (sh_ID opts) t') | Panic e \<Rightarrow> (Panic e, delete_schedule E (sh_ID opts) t'))"
      using run a Ok z
      by (auto simp: with_schedule_def require_ok_def require_NoError_def bindE_def attempt_def fcall_def ret_def t_def
          split: res.splits option.splits)
    have last: "waits \<and> last cs = CScheduleDescribe (sh_ID opts)" if e: "z = Ok (Some e)" for e
    proof -
      have waits: waits using never_crashes [of body t e t'] crash z e by (auto split: if_splits)
      then obtain l where "fs_log t' = l @ [CScheduleDescribe (sh_ID opts)]"
        using crash z e by (simp add: crashes_after_def) blast
      with cs(1) have "last (CScheduleCreate opts # cs) = CScheduleDescribe (sh_ID opts)"
        by (metis append_is_Nil_conv last_appendR last_snoc list.distinct(1))
      then show ?thesis using waits by (auto split: if_splits)
    qed
    have "fs_log s' = fs_log s @ CScheduleCreate opts # cs @ [CScheduleDelete (sh_ID opts)] \<or>
        waits \<and> (\<exists>e. x = Panic e) \<and> fs_log s' = fs_log s @ CScheduleCreate opts # cs \<and> last cs = CScheduleDescribe (sh_ID opts)"
      using r cs(1) d last by (auto split: res.splits option.splits)
    then show ?thesis using cs(2) a Ok by (auto simp: schedule_log_def)
  qed (use run a in \<open>auto simp: schedule_log_def with_schedule_def require_ok_def require_NoError_def bindE_def attempt_def fcall_def panic_def\<close>)
qed

lemma pause_body: "logs no_delete (pause_steps E i)" "crashes_after c (pause_steps E i)"
  unfolding pause_steps_def
  by (intro logs_intros; simp add: no_delete_def) (intro crashes_after_thenE crashes_after_ret)

lemma with_uuids:
  "bindE new_uuid (\<lambda>a. bindE new_uuid (\<lambda>b. k a b)) s =
     k (x_uuid s (w_uuids s)) (x_uuid s (Suc (w_uuids s))) (s\<lparr>w_uuids := Suc (Suc (w_uuids s))\<rparr>)"
  by (simp add: bindE_new_uuid)

text \<open>A hook that makes two names, creates a paused schedule and goes on with its body.\<close>

definition scheduled ::
  "bool \<Rightarrow> 's hook_env \<Rightarrow> (('s, 'z) feature_state_scheme, workflow_run option) io \<Rightarrow> bool" where
  "scheduled waits E hook = (\<forall>s. \<exists>opts body. hook s = with_schedule E opts body (s\<lparr>w_uuids := Suc (Suc (w_uuids s))\<rparr>) \<and>
     sh_Paused opts \<and> logs no_delete body \<and>
     (if waits then crashes_after (CScheduleDescribe (sh_ID opts)) body else \<forall>c. crashes_after c body))"

lemma scheduledI:
  assumes "\<And>a b. sh_Paused (opts a b) \<and> logs no_delete (body a b) \<and>
     (if waits then crashes_after (CScheduleDescribe (sh_ID (opts a b))) (body a b) else \<forall>c. crashes_after c (body a b))"
  shows "scheduled waits E (bindE new_uuid (\<lambda>a. bindE new_uuid (\<lambda>b. with_schedule E (opts a b) (body a b))))"
  using assms unfolding scheduled_def with_uuids by blast

lemma hooks_scheduled:
  "scheduled False E (Execute_pause E r)" "scheduled False E (Execute_duplicate_error A E r)"
  "scheduled True E (Execute_backfill E r)" "scheduled True E (Execute_trigger E r)"
proof -
  show "scheduled False E (Execute_pause E r)"
    unfolding Execute_pause_def by (rule scheduledI) (simp add: paused_every_minute_def pause_body)
  show "scheduled False E (Execute_duplicate_error A E r)"
    unfolding Execute_duplicate_error_def Let_def
    by (rule scheduledI, intro conjI)
      (simp add: paused_every_minute_def, (intro logs_intros; simp add: no_delete_def),
       simp, intro allI crashes_after_bindE crashes_after_thenE crashes_after_ret)
  show "scheduled True E (Execute_backfill E r)"
    unfolding Execute_backfill_def
    by (rule scheduledI, intro conjI)
      (simp add: paused_every_minute_def, (intro logs_intros; simp add: no_delete_def),
       simp add: paused_every_minute_def, intro crashes_after_bindE crashes_after_thenE crashes_after_eventually)
  show "scheduled True E (Execute_trigger E r)"
    unfolding Execute_trigger_def
    by (rule scheduledI, intro conjI)
      (simp add: paused_every_minute_def, (intro logs_intros; simp add: no_delete_def),
       simp add: paused_every_minute_def, intro crashes_after_thenE crashes_after_eventually)
qed

subsection \<open>The rounds of the cron schedule\<close>

text \<open>The listing number \<open>i\<close>, when nothing else is asked of the service.\<close>

fun listing :: "'s hook_env \<Rightarrow> string \<Rightarrow> 's \<Rightarrow> nat \<Rightarrow> gval res" where
  "listing E q u 0 = fst (he_answer E u (CListWorkflows q))"
| "listing E q u (Suc i) = listing E q (snd (he_answer E u (CListWorkflows q))) i"

definition all_fine :: "cron_status \<Rightarrow> gval \<Rightarrow> bool" where
  "all_fine S resp = list_all (\<lambda>x. getter ''Status'' x \<in> {VInt (st_Completed S), VInt (st_Running S)}) (elements (getter ''Executions'' resp))"

definition completed_in :: "cron_status \<Rightarrow> gval \<Rightarrow> nat" where
  "completed_in S resp = length (filter (\<lambda>x. getter ''Status'' x = VInt (st_Completed S)) (elements (getter ''Executions'' resp)))"

lemma count_completed:
  "count_completed S L xs n =
     (if list_all (\<lambda>x. getter ''Status'' x \<in> {VInt (st_Completed S), VInt (st_Running S)}) xs
      then Ok (n + length (filter (\<lambda>x. getter ''Status'' x = VInt (st_Completed S)) xs))
      else Panic (Errorf ''%s'' [sl_assert L ''Not equal'']))"
  by (induction xs arbitrary: n) auto

definition seen_by :: "cron_status \<Rightarrow> 's hook_env \<Rightarrow> string \<Rightarrow> 's \<Rightarrow> nat \<Rightarrow> bool" where
  "seen_by S E q u n = (\<exists>i<n. (\<exists>resp. listing E q u i = Ok resp \<and> completed_in S resp \<ge> 2) \<and>
     (\<forall>j\<le>i. \<exists>resp. listing E q u j = Ok resp \<and> all_fine S resp))"

lemma seen_by_Suc:
  "seen_by S E q u (Suc n) \<longleftrightarrow> (\<exists>resp. fst (he_answer E u (CListWorkflows q)) = Ok resp \<and> all_fine S resp \<and>
     (completed_in S resp \<ge> 2 \<or> seen_by S E q (snd (he_answer E u (CListWorkflows q))) n))"
  (is "?l = ?r")
proof
  assume ?l
  then obtain i where i: "i < Suc n" "\<exists>resp. listing E q u i = Ok resp \<and> completed_in S resp \<ge> 2"
    "\<forall>j\<le>i. \<exists>resp. listing E q u j = Ok resp \<and> all_fine S resp" unfolding seen_by_def by blast
  from i(3) obtain resp where r: "fst (he_answer E u (CListWorkflows q)) = Ok resp" "all_fine S resp"
    by (metis le0 listing.simps(1))
  show ?r
  proof (cases i)
    case 0
    then show ?thesis using i(2) r by auto
  next
    case (Suc k)
    have "\<forall>j\<le>k. \<exists>resp. listing E q (snd (he_answer E u (CListWorkflows q))) j = Ok resp \<and> all_fine S resp"
      using i(3) Suc by (metis Suc_le_mono listing.simps(2))
    then show ?thesis using i(1,2) Suc r unfolding seen_by_def by auto
  qed
next
  assume ?r
  then obtain resp where r: "fst (he_answer E u (CListWorkflows q)) = Ok resp" "all_fine S resp"
    and d: "completed_in S resp \<ge> 2 \<or> seen_by S E q (snd (he_answer E u (CListWorkflows q))) n" by blast
  from d show ?l
  proof
    assume "completed_in S resp \<ge> 2"
    then show ?l unfolding seen_by_def using r by (intro exI [of _ 0]) simp
  next
    assume "seen_by S E q (snd (he_answer E u (CListWorkflows q))) n"
    then obtain i where "i < n" "\<exists>resp. listing E q u (Suc i) = Ok resp \<and> completed_in S resp \<ge> 2"
      and f: "\<forall>j\<le>i. \<exists>resp. listing E q u (Suc j) = Ok resp \<and> all_fine S resp" unfolding seen_by_def by auto
    moreover have "\<exists>resp. listing E q u j = Ok resp \<and> all_fine S resp" if "j \<le> Suc i" for j
      using that f r by (cases j) auto
    ultimately show ?l unfolding seen_by_def by blast
  qed
qed

lemma cron_round:
  "cron_rounds S E run (Suc n) s =
     (case he_answer E (fs_server s) (CListWorkflows (cron_query run)) of (a, u) \<Rightarrow>
        let t = s\<lparr>fs_log := fs_log s @ [CSleep 1000, CListWorkflows (cron_query run)], fs_server := u\<rparr> in
        case a of
          Ok resp \<Rightarrow>
            if \<not> all_fine S resp then (Panic (Errorf ''%s'' [sl_assert (he_lib E) ''Not equal'']), t)
            else if completed_in S resp \<ge> 2 then (Ok True, t) else cron_rounds S E run n t
        | Err e \<Rightarrow> (Panic (Errorf ''%s'' [sl_assert (he_lib E) (error_text e)]), t)
        | Panic e \<Rightarrow> (Panic e, t))"
  by (simp add: fsleep_def log_call_def require_ok_def require_NoError_def io_defs fcall_def Let_def
      count_completed all_fine_def completed_in_def split: prod.splits res.splits)

lemma cron_rounds_result:
  assumes "cron_rounds S E run n s = (y, t)"
  shows "(\<exists>k\<le>n. fs_log t = fs_log s @ concat (replicate k [CSleep 1000, CListWorkflows (cron_query run)]) \<and> (n > 0 \<longrightarrow> k > 0)) \<and>
    (y = Ok True \<longleftrightarrow> seen_by S E (cron_query run) (fs_server s) n) \<and> (\<forall>e. y \<noteq> Err e)"
  using assms
proof (induction n arbitrary: s)
  case 0
  then show ?case by (auto simp: ret_def seen_by_def)
next
  case (Suc n)
  obtain a u where a: "he_answer E (fs_server s) (CListWorkflows (cron_query run)) = (a, u)" by force
  define v where "v = s\<lparr>fs_log := fs_log s @ [CSleep 1000, CListWorkflows (cron_query run)], fs_server := u\<rparr>"
  have v: "fs_server v = u" "fs_log v = fs_log s @ [CSleep 1000, CListWorkflows (cron_query run)]" by (simp_all add: v_def)
  show ?case
  proof (cases "\<exists>resp. a = Ok resp \<and> all_fine S resp \<and> \<not> completed_in S resp \<ge> 2")
    case True
    then have r: "cron_rounds S E run n v = (y, t)" using Suc.prems a by (auto simp: cron_round v_def Let_def simp del: cron_rounds.simps)
    from Suc.IH [OF r] obtain k where "k \<le> n"
      "fs_log t = fs_log s @ concat (replicate (Suc k) [CSleep 1000, CListWorkflows (cron_query run)])"
      by (auto simp: v)
    then show ?thesis using Suc.IH [OF r] True a by (auto simp: seen_by_Suc v intro!: exI [of _ "Suc k"])
  next
    case False
    then have "t = v" "y = Ok True \<longleftrightarrow> (\<exists>resp. a = Ok resp \<and> all_fine S resp \<and> completed_in S resp \<ge> 2)" "\<forall>e. y \<noteq> Err e"
      using Suc.prems a by (auto simp: cron_round v_def Let_def simp del: cron_rounds.simps split: res.splits if_splits)
    moreover have "seen_by S E (cron_query run) (fs_server s) (Suc n) \<longleftrightarrow> (\<exists>resp. a = Ok resp \<and> all_fine S resp \<and> completed_in S resp \<ge> 2)"
      using False a by (auto simp: seen_by_Suc)
    ultimately show ?thesis using v by (auto intro!: exI [of _ 1])
  qed
qed

section \<open>Properties\<close>



text \<open>
  C34: the check of \<open>cron\<close> says what it saw. It lists the executions at most ten times, a second after the
  other, and terminates the workflow last, whichever way it ends; it succeeds exactly when one of the listings
  has two completed executions and up to it every listing was answered with completed and running
  executions only.
\<close>

theorem cron_check:
  assumes "CheckResult_cron S E run s = (x, s')"
  shows "(\<exists>n. 0 < n \<and> n \<le> 10 \<and> fs_log s' = fs_log s @
       concat (replicate n [CSleep 1000, CListWorkflows (cron_query run)]) @ [CTerminate (wr_ID run) []]) \<and>
     (x = Ok () \<longleftrightarrow> (\<exists>i<10. (\<exists>resp. listing E (cron_query run) (fs_server s) i = Ok resp \<and> completed_in S resp \<ge> 2) \<and>
       (\<forall>j\<le>i. \<exists>resp. listing E (cron_query run) (fs_server s) j = Ok resp \<and> all_fine S resp)))"
proof -
  obtain y t where y: "cron_rounds S E run 10 s = (y, t)" by force
  note r = cron_rounds_result [OF y]
  have "s' = snd (fcall E (CTerminate (wr_ID run) []) t)"
    using assms y by (auto simp: CheckResult_cron_def deferE_def bindE_def require_that_def ret_def FailNow_def panic_def split: res.splits if_splits)
  then have "fs_log s' = fs_log t @ [CTerminate (wr_ID run) []]" by (simp add: fcall_def split: prod.splits)
  moreover have "x = Ok () \<longleftrightarrow> y = Ok True"
    using assms y by (auto simp: CheckResult_cron_def deferE_def bindE_def require_that_def ret_def FailNow_def panic_def split: res.splits if_splits)
  ultimately show ?thesis using r unfolding seen_by_def by auto
qed

text \<open>A service that knows of two completed executions.\<close>

definition cron_sample :: cron_status where
  "cron_sample = \<lparr>st_Running = 1, st_Terminated = 4, st_PropagationCompleted = 2, st_PropagationUnspecified = 0, st_Completed = 2\<rparr>"

definition two_completed :: gval where
  "two_completed = VPtr (VStruct [] [(''Executions'', VSlice (map (\<lambda>i. VPtr (VStruct [] [(''Status'', VInt i)])) [2, 1, 2]))])"

definition listing_env :: "unit hook_env" where
  "listing_env = sample_env\<lparr>he_answer := (\<lambda>t c. (Ok two_completed, t))\<rparr>"

theorem cron_check_witness:
  "fst (CheckResult_cron cron_sample listing_env \<lparr>wr_ID = ''w'', wr_RunID = ''r''\<rparr> (sample_state ())) = Ok ()"
proof -
  let ?run = "\<lparr>wr_ID = ''w'', wr_RunID = ''r''\<rparr>"
  obtain x s' where run: "CheckResult_cron cron_sample listing_env ?run (sample_state ()) = (x, s')" by force
  have "listing listing_env (cron_query ?run) (fs_server (sample_state ())) 0 = Ok two_completed"
    by (simp add: listing_env_def)
  moreover have "all_fine cron_sample two_completed" "completed_in cron_sample two_completed \<ge> 2"
    by (simp_all add: all_fine_def completed_in_def two_completed_def cron_sample_def getter_def elements_def get_field_def)
  ultimately have "\<exists>i<10. (\<exists>resp. listing listing_env (cron_query ?run) (fs_server (sample_state ())) i = Ok resp \<and> completed_in cron_sample resp \<ge> 2) \<and>
      (\<forall>j\<le>i. \<exists>resp. listing listing_env (cron_query ?run) (fs_server (sample_state ())) j = Ok resp \<and> all_fine cron_sample resp)"
    by (intro exI [of _ 0]) simp
  with cron_check [OF run] have "x = Ok ()" by blast
  then show ?thesis by (simp add: run)
qed

end
