(* ===== verification/Feature_Races.thy ===== *)
theory Feature_Races
  imports Feature_Queries
begin

text \<open>
  Go features with a script and checks of their own: \<open>bugs/go/activity_start_race\<close>, which holds back the polls of
  its worker, \<open>bugs/go/child_workflow_cancel_panic\<close>, \<open>nexus/sync_success\<close>, \<open>continue_as_new/continue_as_same\<close> and
  \<open>activity/cancel_try_cancel\<close>.
\<close>

section \<open>activity_start_race\<close>

text \<open>
  The wait groups of the package: polls of the workflow or of the activity task queue are held back while the
  group is above zero.
\<close>

record 's race_state = "'s feature_state" +
  rs_pollWorkflowWait :: int
  rs_pollActivityWait :: int

definition add_activity :: "int \<Rightarrow> (('s, 'z) race_state_scheme, unit) io" where
  "add_activity n = upd (\<lambda>s. s\<lparr>rs_pollActivityWait := rs_pollActivityWait s + n\<rparr>)"

definition add_workflow :: "int \<Rightarrow> (('s, 'z) race_state_scheme, unit) io" where
  "add_workflow n = upd (\<lambda>s. s\<lparr>rs_pollWorkflowWait := rs_pollWorkflowWait s + n\<rparr>)"

text \<open>Whether the interceptor holds a call back before it is made.\<close>

definition delayWorkflow :: "string \<Rightarrow> ('s, 'z) race_state_scheme \<Rightarrow> bool" where
  "delayWorkflow method s =
     (if HasSuffix method ''PollWorkflowTaskQueue'' then rs_pollWorkflowWait s > 0
      else if HasSuffix method ''PollActivityTaskQueue'' then rs_pollActivityWait s > 0
      else False)"

text \<open>Milliseconds.\<close>

definition activitySleep :: nat where "activitySleep = 200"

definition Execute_race :: "'s hook_env \<Rightarrow> 'v Runner \<Rightarrow> (('s, 'z) race_state_scheme, workflow_run option) io" where
  "Execute_race E r =
     thenE (add_activity 1)
      (with_run (execute_default r) (\<lambda>run.
         thenE (add_workflow 1)
        (thenE (require_signal E run ''resume'')
        (thenE (fsleep (activitySleep * 2))
        (thenE (add_activity (- 1))
        (thenE (fsleep (activitySleep * 4))
        (thenE (add_workflow (- 1))
        (thenE (fsleep (activitySleep * 2))
               (require_ok (he_lib E) (fdo E (CCancel (wr_ID run) (wr_RunID run))))))))))))"

text \<open>The history that is replayed is in a file beside the feature's, whose name the caller gives.\<close>

definition CheckHistory_race :: "proto_api \<Rightarrow> sdk_lib \<Rightarrow> string \<Rightarrow> 'v Runner \<Rightarrow> ('z world_scheme, unit) io" where
  "CheckHistory_race P L currFile r =
     bindE (wrapE ''failed reading history JSON: %w'' [] (os_ReadFile (PathJoin [currFile, ''../history/history.manual.json'']))) (\<lambda>b.
     bindE (wrapE ''failed unmarshaling history JSON: %w'' [] (of_res (unmarshal_histories P b))) (\<lambda>hist.
       wrapE ''replay failed: %w'' [] (of_res (ReplayHistories L r hist))))"

text \<open>
  The workflow: what its selector receives, in order; it starts an activity before each. The result is how many it
  started and whether it ended.
\<close>

datatype received = Resume | DoneClosed

fun Workflow_race :: "received list \<Rightarrow> nat \<times> bool" where
  "Workflow_race [] = (1, False)"
| "Workflow_race (DoneClosed # rest) = (1, True)"
| "Workflow_race (Resume # rest) = (case Workflow_race rest of (n, ended) \<Rightarrow> (Suc n, ended))"

section \<open>child_workflow_cancel_panic\<close>

definition Execute_child_cancel :: "'s hook_env \<Rightarrow> 'v Runner \<Rightarrow> (('s, 'z) feature_state_scheme, workflow_run option) io" where
  "Execute_child_cancel E r = with_run (execute_default r) (\<lambda>run.
     thenE (query_until E (wr_ID run) (wr_RunID run) ''waiting-for-cancel'' (VBool True))
           (fdo E (CCancel (wr_ID run) (wr_RunID run))))"

text \<open>A nil error wrapped with \<open>%w\<close> prints as \<open>%!w(<nil>)\<close>.\<close>

definition CheckResult_child_cancel ::
  "(go_error \<Rightarrow> bool) \<Rightarrow> sdk_lib \<Rightarrow> 'v Runner \<Rightarrow> workflow_run \<Rightarrow> ('z harness_state_scheme, unit) io" where
  "CheckResult_child_cancel is_panic L r run =
     (if sl_semver_Compare L (sl_SDKVersion L) ''v1.11.1'' \<le> 0
      then bindE (attempt (get_result L False run)) (\<lambda>got.
        case got of
          Inl err \<Rightarrow> if is_panic err then ret () else fail (Wrapf ''expected panic error, got %w'' [] err)
        | Inr _ \<Rightarrow> fail (Errorf ''expected panic error, got %!w(<nil>)'' []))
      else CheckResultDefault L r run)"

definition CheckHistory_child_cancel ::
  "proto_api \<Rightarrow> sdk_lib \<Rightarrow> (Fetcher \<Rightarrow> Histories res) \<Rightarrow> 'v Runner \<Rightarrow> workflow_run \<Rightarrow> ('z harness_state_scheme, unit) io" where
  "CheckHistory_child_cancel P L fetch r run =
     (if sl_semver_Compare L (sl_SDKVersion L) ''v1.11.1'' \<le> 0 then ret () else CheckHistoryDefault P L fetch r run)"

section \<open>sync_success\<close>

record nexus_events =
  ne_Scheduled :: int
  ne_Started :: int
  ne_Completed :: int

definition say_hello :: "string \<Rightarrow> string" where
  "say_hello name = ''Hello, '' @ name @ ''!''"

definition Execute_nexus :: "'v Runner \<Rightarrow> (('s, 'z) feature_state_scheme, workflow_run) io" where
  "Execute_nexus r = execute_workflow (default_start_options (rn_Config r)) None ''Workflow''"

text \<open>Every question fetches the history again.\<close>

definition hasEvent :: "'s hook_env \<Rightarrow> workflow_run \<Rightarrow> int \<Rightarrow> (('s, 'z) feature_state_scheme, bool) io" where
  "hasEvent E run t =
     bindE (fitems E (CHistory (wr_ID run) (wr_RunID run))) (\<lambda>hist.
     bindE (of_res (FindEvent hist (\<lambda>ev. event_type ev = t))) (\<lambda>ev. ret (ev \<noteq> None)))"

definition CheckHistory_nexus :: "nexus_events \<Rightarrow> 's hook_env \<Rightarrow> workflow_run \<Rightarrow> (('s, 'z) feature_state_scheme, unit) io" where
  "CheckHistory_nexus X E run =
     bindE (hasEvent E run (ne_Scheduled X)) (\<lambda>ok.
       if \<not> ok then fail (Errorf ''did not find NexusOperationScheduled event in history'' []) else
     bindE (hasEvent E run (ne_Completed X)) (\<lambda>ok.
       if \<not> ok then fail (Errorf ''did not find NexusOperationCompleted event in history'' []) else
     bindE (hasEvent E run (ne_Started X)) (\<lambda>ok.
       if ok then fail (Errorf ''unexpected NexusOperationStarted event for sync operation'' []) else ret ())))"

section \<open>continue_as_same\<close>

text \<open>What the converter reads from the payload of a memo is a parameter.\<close>

definition CheckResult_continue_as_same ::
  "(gval \<Rightarrow> string res) \<Rightarrow> 's hook_env \<Rightarrow> string res \<Rightarrow> workflow_run \<Rightarrow> (('s, 'z) feature_state_scheme, unit) io" where
  "CheckResult_continue_as_same FromPayload E result run =
     bindE (of_res result) (\<lambda>res.
     thenE (require_that (he_lib E) ''Not equal'' (res = ''InputData''))
    (bindE (fcall E (CDescribeWorkflow (wr_ID run) (wr_RunID run))) (\<lambda>execution.
     thenE (require_that (he_lib E) ''Not equal'' (wr_ID run = ''TestID''))
    (let memo = getter ''Fields'' (getter ''Memo'' (getter ''WorkflowExecutionInfo'' execution)) in
     thenE (require_that (he_lib E) ''Expected value not to be nil.'' (memo \<noteq> VNil))
    (let memoPayload = (case memo of VMap m \<Rightarrow> map_of m ''MemoKey'' | _ \<Rightarrow> None) in
     thenE (require_that (he_lib E) ''Should be true'' (memoPayload \<noteq> None))
    (bindE (of_res (FromPayload (the memoPayload))) (\<lambda>testMemo.
       require_that (he_lib E) ''Not equal'' (testMemo = ''MemoValue''))))))))"

text \<open>The workflow: it ends with its input, or goes on as a new run with it.\<close>

datatype 'a continued = Returns 'a | ContinueAsNew 'a

definition Workflow_continue_as_same :: "string \<Rightarrow> string \<Rightarrow> string continued" where
  "Workflow_continue_as_same continuedExecutionRunID input =
     (if continuedExecutionRunID \<noteq> [] then Returns input else ContinueAsNew input)"

section \<open>cancel_try_cancel\<close>

text \<open>What each of the at most sixty rounds of the activity receives: its tick or the end of its context.\<close>

fun cancellable_rounds :: "nat \<Rightarrow> bool list \<Rightarrow> string" where
  "cancellable_rounds (Suc i) (True # rest) = ''cancelled''"
| "cancellable_rounds (Suc i) (False # rest) = cancellable_rounds i rest"
| "cancellable_rounds _ _ = ''timeout''"

definition CancellableActivity :: "bool list \<Rightarrow> string" where
  "CancellableActivity done_rounds = cancellable_rounds 60 done_rounds"

definition Workflow_try_cancel :: "unit res \<Rightarrow> (go_error + unit \<Rightarrow> bool) \<Rightarrow> go_error + unit \<Rightarrow> string \<Rightarrow> unit res" where
  "Workflow_try_cancel slept is_canceled activity result =
     (case slept of
        Ok _ \<Rightarrow>
          if \<not> is_canceled activity then Err (Errorf ''expected activity cancel error, got: %v'' [case activity of Inl e \<Rightarrow> error_text e | Inr _ \<Rightarrow> ''<nil>''])
          else if result \<noteq> ''cancelled'' then Err (Errorf ''expected activity to get cancelled, got: %v'' [result])
          else Ok ()
      | r \<Rightarrow> r)"

section \<open>Lemmas\<close>

definition gates :: "('s, 'z) race_state_scheme \<Rightarrow> int \<times> int" where
  "gates s = (rs_pollWorkflowWait s, rs_pollActivityWait s)"

lemma keeps_gates [keeps_intros]:
  "keeps gates (execute_default r)" "keeps gates (fsleep ms)" "keeps gates (fdo E c)" "keeps gates (require_ok L (fdo E c))"
proof -
  have "keeps gates (ExecuteDefault r)"
    by (rule keeps_ExecuteDefault; (rule keeps_act)?) (simp_all add: gates_def)
  then show "keeps gates (execute_default r)"
    unfolding execute_default_def by (intro keeps_intros) (simp add: gates_def log_call_def)
  show "keeps gates (fsleep ms)" by (simp add: fsleep_def keeps_def upd_def gates_def log_call_def)
  show f: "keeps gates (fdo E c)"
    by (auto simp: keeps_def fdo_def fcall_def bindE_def ret_def gates_def log_call_def split: prod.splits res.splits)
  have "keeps gates (require_NoError L x)" for L and x :: "unit res"
    by (cases x) (simp_all add: require_NoError_def keeps_pure)
  then show "keeps gates (require_ok L (fdo E c))" unfolding require_ok_def by (intro keeps_intros f)
qed

lemma gates_add [simp]:
  "gates (snd (add_activity n s)) = (fst (gates s), snd (gates s) + n)"
  "gates (snd (add_workflow n s)) = (fst (gates s) + n, snd (gates s))"
  by (simp_all add: gates_def add_activity_def add_workflow_def upd_def)

text \<open>
  The hook lets the polls go on only on its way through: when the workflow cannot be started the polls of the
  activity queue stay held back, when the signal fails those of both queues; nothing is deferred.
\<close>

lemma race_gates:
  assumes "Execute_race E r s = (x, s')" "execute_default r (s\<lparr>rs_pollActivityWait := rs_pollActivityWait s + 1\<rparr>) = (y, s1)"
  shows "gates s' = (case gates s of (w, a) \<Rightarrow>
    (case y of
       Ok run \<Rightarrow> if \<exists>v. fst (he_answer E (fs_server s1) (CSignal (wr_ID run) (wr_RunID run) ''resume'' VNil)) = Ok v
         then (w, a) else (w + 1, a + 1)
     | _ \<Rightarrow> (w, a + 1)))"
proof -
  obtain w a where g: "gates s = (w, a)" by force
  have "gates (s\<lparr>rs_pollActivityWait := rs_pollActivityWait s + 1\<rparr>) = (w, a + 1)" using g by (simp add: gates_def)
  then have g1: "gates s1 = (w, a + 1)" using keepsD [OF keeps_gates(1) assms(2)] by simp
  show ?thesis
  proof (cases y)
    case (Ok run)
    let ?cancel = "require_ok (he_lib E) (fdo E (CCancel (wr_ID run) (wr_RunID run)))"
    let ?tail = "thenE (fsleep (activitySleep * 2)) (thenE (add_activity (- 1)) (thenE (fsleep (activitySleep * 4))
      (thenE (add_workflow (- 1)) (thenE (fsleep (activitySleep * 2)) ?cancel))))"
    define t where "t = s1\<lparr>rs_pollWorkflowWait := rs_pollWorkflowWait s1 + 1\<rparr>"
    obtain z u where z: "require_signal E run ''resume'' t = (z, u)" by force
    have "gates t = (w + 1, a + 1)" using g1 by (simp add: t_def gates_def)
    then have u: "gates u = (w + 1, a + 1)"
      using keepsD [OF keeps_gates(4)] z unfolding require_signal_def signal_def by metis
    have answered: "(\<exists>v. fst (he_answer E (fs_server s1) (CSignal (wr_ID run) (wr_RunID run) ''resume'' VNil)) = Ok v) \<longleftrightarrow> (\<exists>v. z = Ok v)"
      using z by (auto simp: require_signal_def signal_def require_ok_def require_NoError_def fdo_def fcall_def bindE_def attempt_def
          ret_def panic_def t_def split: prod.splits res.splits)
    have x: "(x, s') = bindE (thenE (require_signal E run ''resume'') ?tail) (\<lambda>_. ret (Some run)) t"
      using assms Ok by (simp add: Execute_race_def with_run_def add_activity_def add_workflow_def t_def)
        (simp add: thenE_def bindE_def upd_def)
    show ?thesis
    proof (cases "\<exists>v. z = Ok v")
      case True
      obtain f :: "('a, 'b) race_state_scheme" where "snd (?tail u) = snd (?cancel f)" "gates f = (w, a)"
        using u by (simp add: fsleep_def add_activity_def add_workflow_def gates_def log_call_def)
      then have "gates (snd (?tail u)) = (w, a)" using keeps_gates(4) unfolding keeps_def by metis
      then show ?thesis using x z True g Ok answered
        by (auto simp: thenE_def bindE_def ret_def split: prod.splits res.splits)
    next
      case False
      then show ?thesis using x z u g Ok answered by (cases z) (auto simp: thenE_def bindE_def)
    qed
  qed (use assms g g1 in \<open>simp_all add: Execute_race_def with_run_def add_activity_def bindE_def\<close>)
qed

text \<open>The check of \<open>sync_success\<close> accepts exactly the histories with the two events and without the third.\<close>

lemma FindEvent_Ok: "FindEvent (map Ok evs) f = Ok (find f evs)"
  by (induction evs) simp_all

lemma CheckHistory_nexus_accepts:
  fixes E :: "'s hook_env" and s :: "('s, 'z) feature_state_scheme"
  assumes "\<And>t c. snd (he_answer E t c) = t" "\<And>t. he_items E t (CHistory (wr_ID run) (wr_RunID run)) = map Ok evs"
  shows "fst (CheckHistory_nexus X E run s) = Ok () \<longleftrightarrow>
    ne_Scheduled X \<in> event_type ` set evs \<and> ne_Completed X \<in> event_type ` set evs \<and> ne_Started X \<notin> event_type ` set evs"
proof -
  have "hasEvent E run n s = (Ok (n \<in> event_type ` set evs), log_call (CHistory (wr_ID run) (wr_RunID run)) s)" for n and s :: "('s, 'z) feature_state_scheme"
  proof -
    have "(find (\<lambda>ev. event_type ev = n) evs \<noteq> None) = (n \<in> event_type ` set evs)" by (simp only: find_None_iff) auto
    then show ?thesis using assms by (simp add: hasEvent_def fitems_def bindE_def of_res_def ret_def FindEvent_Ok log_call_def)
  qed
  then show ?thesis by (simp add: CheckHistory_nexus_def bindE_def fail_def ret_def)
qed

text \<open>The activity is cancelled exactly when its context ends within sixty rounds.\<close>

lemma CancellableActivity_cancelled: "CancellableActivity rounds = ''cancelled'' \<longleftrightarrow> True \<in> set (take 60 rounds)"
proof -
  have "cancellable_rounds n rounds = ''cancelled'' \<longleftrightarrow> True \<in> set (take n rounds)" for n
    by (induction n rounds rule: cancellable_rounds.induct) auto
  then show ?thesis by (simp add: CancellableActivity_def)
qed

lemma Workflow_race_started: "Workflow_race es = (n, ended) \<Longrightarrow> n = Suc (length (takeWhile (\<lambda>e. e = Resume) es)) \<and> ended = (DoneClosed \<in> set es)"
  by (induction es arbitrary: n rule: Workflow_race.induct) (auto split: prod.splits)

end
