(* ===== verification/Scrub_Types.thy ===== *)
theory Scrub_Types
  imports Scrub
begin

text \<open>
  The types of the values that are scrubbed. In the code the compiler sees to it that a field is reset to
  a value of its type; the walk by reflection and the table of \<open>Scrub\<close> have to earn that. A Go type here
  is what the walk can tell apart; the declarations of the structs (the generated code of the API, not
  in the repository) are a parameter.
\<close>

section \<open>Types\<close>

datatype gtype =
    TString
  | TInt
  | TBool
  | TOther
  | TPtr gtype
  | TIface
  | TSlice gtype
  | TMap gtype
  | TStruct string

type_synonym declarations = "string \<Rightarrow> (string \<times> gtype) list"

fun nillable :: "gtype \<Rightarrow> bool" where
  "nillable (TPtr a) = True"
| "nillable TIface = True"
| "nillable (TSlice a) = True"
| "nillable (TMap a) = True"
| "nillable _ = False"

text \<open>An interface may hold a value of any type; a struct has the declared fields, in order.\<close>

inductive has_type :: "declarations \<Rightarrow> gval \<Rightarrow> gtype \<Rightarrow> bool" for D where
  t_nil: "nillable a \<Longrightarrow> has_type D VNil a"
| t_str: "has_type D (VStr s) TString"
| t_int: "has_type D (VInt i) TInt"
| t_bool: "has_type D (VBool b) TBool"
| t_other: "has_type D (VOther s) TOther"
| t_ptr: "has_type D v a \<Longrightarrow> has_type D (VPtr v) (TPtr a)"
| t_iface: "has_type D v a \<Longrightarrow> has_type D (VIface v) TIface"
| t_slice: "list_all (\<lambda>v. has_type D v a) vs \<Longrightarrow> has_type D (VSlice vs) (TSlice a)"
| t_map: "list_all (\<lambda>m. has_type D (snd m) a) ms \<Longrightarrow> has_type D (VMap ms) (TMap a)"
| t_struct: "list_all2 (\<lambda>f d. fst f = fst d \<and> has_type D (snd f) (snd d)) fs (D t) \<Longrightarrow> has_type D (VStruct t fs) (TStruct t)"

inductive_simps has_type_simps [simp]:
  "has_type D VNil a" "has_type D (VStr s) a" "has_type D (VInt i) a" "has_type D (VBool b) a" "has_type D (VOther s) a"
  "has_type D (VPtr v) a" "has_type D (VIface v) a" "has_type D (VSlice vs) a" "has_type D (VMap ms) a"
  "has_type D (VStruct t fs) a"

text \<open>The fields of a value fit the declarations of its struct.\<close>

abbreviation fields_typed :: "declarations \<Rightarrow> (string \<times> gval) list \<Rightarrow> (string \<times> gtype) list \<Rightarrow> bool" where
  "fields_typed D \<equiv> list_all2 (\<lambda>f d. fst f = fst d \<and> has_type D (snd f) (snd d))"

text \<open>
  What the compiler checks of each assignment: the value a field is reset to has the type the field
  is declared with. Zero values that are not structs have no declarations to look up.
\<close>

fun zero_of :: "gval \<Rightarrow> gtype \<Rightarrow> bool" where
  "zero_of (VStr s) a = (a = TString)"
| "zero_of (VInt i) a = (a = TInt)"
| "zero_of (VBool b) a = (a = TBool)"
| "zero_of VNil a = nillable a"
| "zero_of _ a = False"

definition resets_fit :: "declarations \<Rightarrow> string \<times> (string \<times> gval) list \<times> bool \<Rightarrow> bool" where
  "resets_fit D e = (case e of (t, zs, wv) \<Rightarrow>
     list_all (\<lambda>(n, a). (case map_of zs n of Some z \<Rightarrow> zero_of z a | None \<Rightarrow> True) \<and>
        (wv \<and> n = ''WorkerVersion'' \<longrightarrow> nillable a)) (D t))"

definition compiles :: "declarations \<Rightarrow> bool" where
  "compiles D = list_all (resets_fit D) scrub_table"

section \<open>Lemmas\<close>

lemma zero_typed: "zero_of z a \<Longrightarrow> has_type D z a"
  by (cases z) simp_all

lemma fields_typed_map:
  assumes "fields_typed D fs ds"
    and "\<And>n v a. (n, v) \<in> set fs \<Longrightarrow> (n, a) \<in> set ds \<Longrightarrow> has_type D v a \<Longrightarrow> has_type D (snd (h (n, v))) a"
    and "\<And>f. fst (h f) = fst f"
  shows "fields_typed D (map h fs) ds"
  using assms(1,2)
proof (induction fs ds rule: list_all2_induct)
  case (Cons f fs d ds)
  from Cons.hyps(1) Cons.prems [of "fst f" "snd f" "snd d"] have "has_type D (snd (h f)) (snd d)"
    by (cases f; cases d) auto
  with Cons show ?case by (auto simp: assms(3))
qed simp

lemma resets_typed:
  assumes "compiles D" "map_of scrub_table t = Some (zs, wv)" "(n, a) \<in> set (D t)"
  shows "map_of zs n = Some z \<Longrightarrow> has_type D z a" "wv \<Longrightarrow> n = ''WorkerVersion'' \<Longrightarrow> nillable a"
proof -
  have "resets_fit D (t, zs, wv)"
    using assms(1) map_of_SomeD [OF assms(2)] by (auto simp: compiles_def list_all_iff)
  with assms(3) show "map_of zs n = Some z \<Longrightarrow> has_type D z a" "wv \<Longrightarrow> n = ''WorkerVersion'' \<Longrightarrow> nillable a"
    by (fastforce simp: resets_fit_def list_all_iff intro: zero_typed)+
qed

lemma scrub_struct_typed:
  assumes "compiles D" "fields_typed D fs (D t)"
  shows "fields_typed D (scrub_struct t fs) (D t)"
proof (cases "map_of scrub_table t")
  case (Some p)
  obtain zs wv where p: "p = (zs, wv)" by force
  note reset = resets_typed [OF assms(1) Some [unfolded p]]
  have 1: "fields_typed D (set_fields zs fs) (D t)"
    unfolding set_fields_def
    by (rule fields_typed_map [OF assms(2)]) (auto split: option.splits intro: reset(1))
  have "fields_typed D (drop_unversioned (set_fields zs fs)) (D t)" if wv
    unfolding drop_unversioned_def
    by (rule fields_typed_map [OF 1]) (auto intro: reset(2) that)
  with 1 Some p show ?thesis by (simp add: scrub_struct_def)
qed (simp add: scrub_struct_def assms(2))

lemma children_typed:
  assumes "fields_typed D fs ds" "\<And>f a. f \<in> set fs \<Longrightarrow> has_type D (snd f) a \<Longrightarrow> has_type D (scrub (snd f)) a"
  shows "fields_typed D (map scrub_child fs) ds"
  by (rule fields_typed_map [OF assms(1)]) (auto simp: scrub_child_def dest: assms(2))

lemma scrub_typed:
  assumes "compiles D" "has_type D v a"
  shows "has_type D (scrub v) a"
  using assms(2)
proof (induction v arbitrary: a rule: measure_induct_rule [where f = nodes])
  case (less v)
  have kids: "fields_typed D (map scrub_child fs) ds"
    if "fields_typed D fs ds" "sum_list (map (\<lambda>f. nodes (snd f)) fs) < nodes v" for fs ds
  proof (rule children_typed [OF that(1)])
    fix f b assume "f \<in> set fs" "has_type D (snd f) b"
    with nodes_child [of f fs "\<lambda>f. nodes (snd f)"] that(2) show "has_type D (scrub (snd f)) b"
      by (intro less.IH) simp_all
  qed
  show ?case
  proof (cases v)
    case (VPtr x)
    then obtain b where a: "a = TPtr b" "has_type D x b" using less.prems by auto
    show ?thesis
    proof (cases "\<exists>t fs. x = VStruct t fs")
      case True
      then obtain t fs where x: "x = VStruct t fs" by blast
      have "sum_list (map (\<lambda>f. nodes (snd f)) (scrub_struct t fs)) < nodes v"
        using nodes_scrub_struct [of t fs] x VPtr by simp
      then show ?thesis
        using a x VPtr scrub_struct_typed [OF assms(1)] by (auto intro: kids)
    next
      case False
      then show ?thesis using a less.IH [of x] VPtr by (simp add: scrub_pointer)
    qed
  next
    case (VIface x)
    then show ?thesis using less by auto
  next
    case (VSlice vs)
    then show ?thesis using less nodes_child [of _ vs nodes] by (auto simp: list_all_iff)
  next
    case (VMap ms)
    then show ?thesis using less nodes_child [of _ ms "\<lambda>m. nodes (snd m)"] by (fastforce simp: list_all_iff)
  next
    case (VStruct t fs)
    then show ?thesis using less.prems by (auto intro: kids)
  qed (use less.prems in simp_all)
qed

section \<open>Properties\<close>


text \<open>An excerpt of the API.\<close>

definition sample_declarations :: declarations where
  "sample_declarations t =
     (if t = ''history.HistoryEvent'' then [(''EventId'', TInt), (''EventTime'', TPtr (TStruct ''timestamppb.Timestamp'')),
        (''Version'', TInt), (''TaskId'', TInt), (''Attributes'', TIface)]
      else if t = ''history.WorkflowTaskStartedEventAttributes'' then [(''ScheduledEventId'', TInt), (''Identity'', TString),
        (''HistorySizeBytes'', TInt), (''WorkerVersion'', TPtr (TStruct ''common.WorkerVersionStamp''))]
      else if t = ''timestamppb.Timestamp'' then [(''Seconds'', TInt)]
      else if t = ''common.WorkerVersionStamp'' then [(''BuildId'', TString), (''UseVersioning'', TBool)]
      else [])"

definition sample_event :: gval where
  "sample_event = VPtr (VStruct ''history.HistoryEvent'' [(''EventId'', VInt 3),
     (''EventTime'', VPtr (VStruct ''timestamppb.Timestamp'' [(''Seconds'', VInt 1700000000)])), (''Version'', VInt 0),
     (''TaskId'', VInt 1048587), (''Attributes'', VIface (VPtr (VStruct ''history.WorkflowTaskStartedEventAttributes''
       [(''ScheduledEventId'', VInt 2), (''Identity'', VStr ''42@host''), (''HistorySizeBytes'', VInt 300),
        (''WorkerVersion'', VPtr (VStruct ''common.WorkerVersionStamp'' [(''BuildId'', VStr ''b1''), (''UseVersioning'', VBool False)]))])))])"


end
