(* ===== verification/Spec2Isabelle.thy ===== *)
theory Spec2Isabelle
  imports Image Batching Orchestrator Tunnel Feature_Converters Feature_Schedules Feature_Races Scrub_Types
begin

text \<open>
  A verification development for the runner of the Temporal SDK features.

  \<^bold>\<open>The program.\<close> The repository holds \<^emph>\<open>features\<close>: directories below \<open>features\<close> with a test of one
  behaviour in each SDK language. The command \<open>cmd\<close> selects features, puts them in batches, starts a dev
  server, builds a program of the wanted language and SDK version around the language's harness, runs it,
  reads its summary, and compares the workflow histories with the stored ones; it also builds and publishes
  docker images. The Go harness (\<open>harness/go\<close>) registers the Go features, runs each with a client and a
  worker of its own, checks results and replays histories, and writes the summary. \<open>sdkbuild\<close> builds the
  programs of the seven languages. The two halves meet in the arguments \<open>dir:taskqueue[:endpoint]\<close> of the
  harness, in the lines of the summary, in the environment of the process and in the files of the history
  store.

  \<^bold>\<open>How it is modelled.\<close> A function of the code that has effects is a function from a state to a result and a
  state (type \<open>io\<close> of \<open>Go_Base\<close>); a result is \<open>Ok\<close>, an error, or a panic, so that every early return and every
  \<open>panic\<close> is a branch, and \<open>defer\<close> is \<open>deferE\<close>, which runs on all three. The state is \<open>world\<close> (\<open>Go_Os\<close>:
  files, environment, commands run, names drawn), extended by \<open>net_world\<close> (\<open>Net\<close>: the trace of calls to
  services), \<open>harness_state\<close> (\<open>Harness_Runner\<close>: client, worker, registrations) and \<open>runner_state\<close>
  (\<open>Run_External\<close>: configuration and program of the outer runner). What the environment chooses (which
  operation fails, what a command does to the files, what a service answers) are fields of the state that no
  operation changes. Packages that are not in the repository (semver, YAML, protobuf, the Temporal SDK,
  \<open>urfave/cli\<close>) are parameters, and what a property needs of them is a hypothesis of it.

  \<^bold>\<open>The theories\<close>, each with the code it models:

  \<^item> \<open>Go_Base\<close>: errors, results, effects, strings of the standard library; the collections of rules
    (\<open>keeps_intros\<close>, \<open>preserves_intros\<close>, \<open>ends_intros\<close>) that the proofs about effects rest on. \<open>Go_Os\<close>: paths,
    files, processes. \<open>Go_Json\<close>: encoding and decoding of JSON, with its round trip in the locale
    \<open>json_layout\<close> for compact and indented text. \<open>Go_Glob\<close>: patterns of file names.
  \<^item> \<open>Run_Args\<close>, \<open>Feature_Config\<close> (\<open>harness/go/cmd/run.go\<close>, \<open>cmd/env.go\<close>): the arguments of the harness and
    their round trip; \<open>config.json\<close> and the server's dynamic configuration. \<open>Languages\<close>: names, repositories,
    registries (\<open>cmd/run.go\<close>, \<open>cmd/latest_sdk_version.go\<close>). \<open>Batching\<close> (\<open>cmd/run_feature.go\<close>, \<open>cmd/run.go\<close>):
    which features are selected, and that the batches cover exactly these.
  \<^item> \<open>Scrub\<close>, \<open>Scrub_Types\<close>, \<open>History\<close>, \<open>Fetcher\<close>, \<open>Run_History\<close> (\<open>harness/go/history\<close>, \<open>cmd/run.go\<close>):
    scrubbing removes exactly the run-specific fields and keeps the type of a value, a stored set of histories is loaded back, fetching waits for the
    executions and returns, and what a generating run stores the next run accepts.
  \<^item> \<open>Net\<close>, \<open>Harness_Util\<close>, \<open>Registry\<close>, \<open>Harness_Runner\<close>, \<open>Harness_Run\<close>, \<open>Summary\<close>
    (\<open>harness/go/harness\<close>, \<open>harness/go/cmd/run.go\<close>): resources taken and given back (\<open>held\<close>), polling and
    retrying, the registry of features, the life cycle of a runner with the step relation \<open>lifecycle\<close> of what a
    feature may do with it, the run of all features and its summary, which the server reads back
    (locale \<open>line_channel\<close>).
  \<^item> \<open>Http_Proxy\<close>, \<open>Tunnel\<close> (\<open>harness/go/harness/httpproxy.go\<close>): the handler and its counters of 32 bits, and an
    established tunnel as a state machine, with the order of the first packets and delivery.
  \<^item> \<open>Sdk_Build\<close>, \<open>Sdk_Scripts\<close>, \<open>Sdk_Programs\<close> (\<open>sdkbuild\<close>): the builders of the seven languages, what a failed
    build leaves, and the contract \<open>sdk_program\<close> that a built program is found again. \<open>Run_External\<close>
    (\<open>cmd/prepare.go\<close>, \<open>cmd/run_*.go\<close>): preparing a program and running it with the right arguments.
  \<^item> \<open>Namespace_Setup\<close>, \<open>Orchestrator\<close> (\<open>cmd/run.go\<close>): capabilities of the namespace, Nexus endpoints, a
    batch with everything it sets up around it, and a whole run. \<open>Image\<close> (\<open>cmd/build_image.go\<close>,
    \<open>cmd/push_images.go\<close>, \<open>cmd/github.go\<close>): docker images.
  \<^item> \<open>Feature_Http_Proxy\<close>, \<open>Feature_Payloads\<close>, \<open>Feature_Checks\<close>: Go features with logic of their own (below
    \<open>features\<close>): the proxy features and their subprocess, a payload codec, a storage driver with the
    contract \<open>payload_store\<close>, checks of histories and the wait for a schedule.
  \<^item> \<open>Feature_Calls\<close>, \<open>Feature_Versions\<close>, \<open>Feature_Shutdown\<close> (\<open>features/build_id_versioning\<close>,
    \<open>deployment_versioning\<close>, \<open>worker_shutdown\<close>, \<open>activity/shutdown\<close>, \<open>reset\<close>): the hooks of Go features as scripts
    over \<open>feature_state\<close>, which extends \<open>harness_state\<close> by the service, a log of the calls and the feature's own
    variables. The record \<open>hook_env\<close> holds what a hook is given: the answers of the service to each call,
    the items of iterators, the queries and histories a wait sees, how long it has, and the clock. \<open>live\<close>
    says that a hook stays within \<open>lifecycle\<close>, \<open>logs\<close> which calls it can add to the log, \<open>succeeds\<close> that it
    succeeds with services that answer.
  \<^item> \<open>Feature_Updates\<close>, \<open>Update_Service\<close>, \<open>Feature_Queries\<close> (\<open>features/update\<close>, \<open>features/query\<close>): the hooks, and the
    workflows as machines: a \<open>workflow_def\<close> gives the handlers of updates, signals and queries and the result over
    the variables of the workflow, integers at their 64 bits. \<open>serves\<close> is the abstract specification of a service that
    runs such a machine: it runs the handler of an accepted update once, gives every request with a known id the outcome
    of the first, and tells queries the variables; \<open>yields\<close> are triples over it, and what the hooks see on
    such a service, or on one that runs a repeated update again, follows from them.
  \<^item> \<open>Feature_Schedules\<close>, \<open>Feature_Converters\<close> (\<open>features/schedule\<close>, \<open>features/data_converter\<close>): schedules and their
    deletion, the check of the cron schedule; the checks of payloads in histories, with the codec. \<open>Feature_Races\<close>
    (\<open>bugs/go\<close>, \<open>nexus\<close>, \<open>continue_as_new\<close>, \<open>activity/cancel_try_cancel\<close>): polls that are held back and let go, checks of
    histories and results, what workflows and activities decide.

  \<^bold>\<open>What is shown.\<close> Round trips: feature arguments, JSON, the history store, the summary, payloads, base64.
  Coverage: the batches hold each selected feature once per variant, and task queues are distinct. Resources:
  on every way out, panics included, a runner gives back client and worker, and a batch its server, endpoints,
  proxy, listener, configuration and environment; a failed build and a finished run leave no temporary
  directory, an image build no clone. Reports: a harness run writes one line for each feature and fails exactly
  when one of them failed. Checks: which results and histories are accepted. Scripts: the order of the calls of the
  versioning and reset features, who stops a second worker and who terminates workflows, and that a
  capability the run found reaches the feature that asks for it; that schedules are deleted. Updates: on a service that
  keeps its promises the hooks pass and every update runs once, and \<open>deduplication\<close> fails on one that does not. Where the code does not do what
  it means to, a property states what it does.

  \<^bold>\<open>Fuel and bounds.\<close> A loop that may run forever has fuel, and a property that it returns says how much is
  enough: \<open>Fetch\<close> ends once the pages end and the clock passes five seconds (\<open>fetch_returns\<close>),
  \<open>waitCompletedWith\<close> with the first listing that fails. Waits on a \<open>select\<close> consume a list of occurrences and
  are \<open>None\<close> while it is too short. \<open>glob_limit\<close> is the limit of 10000 that the standard library has for
  separators of a pattern; \<open>RetryFor\<close> makes the 600 attempts the code passes. Counters are words of 32 and
  64 bits, where they wrap.

  \<^bold>\<open>Not modelled.\<close> The tables of command line flags and \<open>main.go\<close> (values for \<open>urfave/cli\<close>); logging
  (\<open>harness/go/harness/log.go\<close>), which nothing depends on; the branches for Windows; the cancellation of
  contexts from outside, other than as an occurrence of a wait; data races: the goroutines of the summary server
  and of the proxy are sequences of steps here, and locks make their operations atomic; the text of the
  difference of two histories in the log; what two workers on one task queue do with its tasks, which the server
  decides; workflows and activities that only wait. Of the schedule features the hook of \<open>basic\<close>; the
  time that passes while a handler of an update waits, which may end in any state of the workflow since it was started. The other Go features below \<open>features\<close> are tests of the
  Temporal SDK and server: what they compute is done there.
\<close>

end
